(* ===== verification/Krit_Prelude.thy ===== *)
theory Krit_Prelude
  imports Main "HOL-Library.Word" "HOL-Library.Sublist" "HOL-Library.Char_ord"
    "HOL-Library.List_Lexorder"
begin

text \<open>
  Shared vocabulary of the development.

  A Rust \<open>String\<close> or \<open>&str\<close> is its sequence of UTF-8 bytes; a byte is a \<^typ>\<open>char\<close> (HOL's
  \<^typ>\<open>char\<close> has exactly 256 elements), so literals such as \<open>''Some''\<close> are written as in the
  source and \<open>len\<close> is \<^const>\<open>length\<close>.  The numeric view of a byte is \<open>u8 c\<close>, an 8-bit word.
  The file also holds the models of the standard-library routines that several components
  use (\<open>split\<close>, \<open>windows(2)\<close>, ASCII classes, checked and saturating integers, UTF-8) with
  the lemmas about them, and the lemma collections of the development.
\<close>

unbundle bit_operations_syntax

named_theorems krit_defs \<open>definitions unfolded when an operation is executed symbolically\<close>
named_theorems krit_eval \<open>rules that evaluate closed byte and string computations by \<open>simp\<close>\<close>
named_theorems krit_inv \<open>preservation of component invariants\<close>

type_synonym str = string
type_synonym ('e, 'a) result = "'e + 'a"

section \<open>Bytes\<close>

definition u8 :: "char \<Rightarrow> 8 word" where
  "u8 c = of_char c"

definition of_u8 :: "8 word \<Rightarrow> char" where
  "of_u8 w = char_of (unat w)"

lemma u8_eq_of_nat: "u8 c = word_of_nat (of_char c)"
  by (simp add: u8_def of_nat_of_char)

lemma unat_u8 [simp]: "unat (u8 c) = of_char c"
  using nat_of_char_less_256 [of c] by (simp add: u8_eq_of_nat unat_of_nat)

lemma of_u8_u8 [simp]: "of_u8 (u8 c) = c"
  by (simp add: of_u8_def)

lemma u8_of_u8 [simp]: "u8 (of_u8 w) = w"
proof (rule word_unat_eq_iff [THEN iffD2])
  have "unat w < 256" using unsigned_less [of w] by simp
  then show "unat (u8 (of_u8 w)) = unat w" by (simp add: of_u8_def)
qed

lemma u8_eq_iff [simp]: "u8 c = u8 d \<longleftrightarrow> c = d"
  by (metis of_u8_u8)

lemma u8_le_iff: "u8 c \<le> u8 d \<longleftrightarrow> of_char c \<le> (of_char d :: nat)"
  by (simp add: word_le_nat_alt)

lemma u8_less_iff: "u8 c < u8 d \<longleftrightarrow> of_char c < (of_char d :: nat)"
  by (simp add: word_less_nat_alt)

definition is_ascii_control :: "char \<Rightarrow> bool" where
  "is_ascii_control c \<longleftrightarrow> u8 c < 0x20 \<or> u8 c = 0x7F"

definition is_ascii_digit :: "char \<Rightarrow> bool" where
  "is_ascii_digit c \<longleftrightarrow> u8 CHR ''0'' \<le> u8 c \<and> u8 c \<le> u8 CHR ''9''"

definition is_ascii_lowercase :: "char \<Rightarrow> bool" where
  "is_ascii_lowercase c \<longleftrightarrow> u8 CHR ''a'' \<le> u8 c \<and> u8 c \<le> u8 CHR ''z''"

definition is_ascii_uppercase :: "char \<Rightarrow> bool" where
  "is_ascii_uppercase c \<longleftrightarrow> u8 CHR ''A'' \<le> u8 c \<and> u8 c \<le> u8 CHR ''Z''"

definition is_ascii_alphanumeric :: "char \<Rightarrow> bool" where
  "is_ascii_alphanumeric c \<longleftrightarrow> is_ascii_digit c \<or> is_ascii_lowercase c \<or> is_ascii_uppercase c"

lemma char_all_iff: "(\<forall>c::char. P c) \<longleftrightarrow> (\<forall>n<256. P (char_of (n::nat)))"
proof -
  have "P c" if "\<forall>n<256. P (char_of (n::nat))" for c
    using that [rule_format, of "of_char c"] by simp
  then show ?thesis by blast
qed

lemma char_eq_nat: "c = d \<longleftrightarrow> of_char c = (of_char d :: nat)"
  by simp

lemma ascii_nat [krit_eval]:
  "is_ascii_control c \<longleftrightarrow> of_char c < (32::nat) \<or> of_char c = (127::nat)"
  "is_ascii_digit c \<longleftrightarrow> 48 \<le> (of_char c :: nat) \<and> of_char c \<le> (57::nat)"
  "is_ascii_lowercase c \<longleftrightarrow> 97 \<le> (of_char c :: nat) \<and> of_char c \<le> (122::nat)"
  "is_ascii_uppercase c \<longleftrightarrow> 65 \<le> (of_char c :: nat) \<and> of_char c \<le> (90::nat)"
  by (simp_all add: is_ascii_control_def is_ascii_digit_def is_ascii_lowercase_def
      is_ascii_uppercase_def word_le_nat_alt word_less_nat_alt word_unat_eq_iff)

section \<open>64-bit counters\<close>

text \<open>
  A \<open>u64\<close> or \<open>usize\<close> that the code only compares and adjusts with saturating or checked
  operations is a \<^typ>\<open>nat\<close>; the bound is written out in each operation.  \<open>saturating_sub\<close> is
  \<^typ>\<open>nat\<close> subtraction.
\<close>

definition u64_max :: nat where
  "u64_max = 2 ^ 64 - 1"

definition sat_add :: "nat \<Rightarrow> nat \<Rightarrow> nat" where
  "sat_add a b = min (a + b) u64_max"

definition checked_add_u64 :: "nat \<Rightarrow> nat \<Rightarrow> nat option" where
  "checked_add_u64 a b = (if a + b \<le> u64_max then Some (a + b) else None)"

definition checked_mul_u64 :: "nat \<Rightarrow> nat \<Rightarrow> nat option" where
  "checked_mul_u64 a b = (if a * b \<le> u64_max then Some (a * b) else None)"

lemma sat_add_le: "sat_add a b \<le> a + b" "sat_add a b \<le> u64_max"
  by (simp_all add: sat_add_def)

lemma sat_add_exact: "a + b \<le> u64_max \<Longrightarrow> sat_add a b = a + b"
  by (simp add: sat_add_def)

section \<open>Slices\<close>

text \<open>\<open>split(d)\<close> on a string: always at least one piece.\<close>

fun split_on :: "'a \<Rightarrow> 'a list \<Rightarrow> 'a list list" where
  "split_on d [] = [[]]"
| "split_on d (x # xs) =
     (if x = d then [] # split_on d xs
      else case split_on d xs of
             [] \<Rightarrow> [[x]]
           | p # ps \<Rightarrow> (x # p) # ps)"

text \<open>\<open>windows(2)\<close> as the list of adjacent pairs.\<close>

definition windows2 :: "'a list \<Rightarrow> ('a \<times> 'a) list" where
  "windows2 xs = zip xs (tl xs)"

lemma windows2_simps [simp]:
  "windows2 [] = []"
  "windows2 [x] = []"
  "windows2 (x # y # zs) = (x, y) # windows2 (y # zs)"
  by (simp_all add: windows2_def)

lemma append_eq_three:
  "[a, b, c] = us @ vs \<Longrightarrow>
     us = [] \<and> vs = [a, b, c] \<or> us = [a] \<and> vs = [b, c] \<or>
     us = [a, b] \<and> vs = [c] \<or> us = [a, b, c] \<and> vs = []"
proof (induction us)
  case (Cons u us)
  then show ?case
  proof (cases us)
    case (Cons w ws)
    with Cons.prems show ?thesis by (cases ws) auto
  qed auto
qed simp

lemma split_on_not_Nil [simp]: "split_on d xs \<noteq> []"
  by (induction xs) (auto split: list.splits)

lemma split_on_no_delimiter: "d \<notin> set xs \<Longrightarrow> split_on d xs = [xs]"
  by (induction xs) auto

lemma split_on_append: "split_on d (xs @ d # ys) = split_on d xs @ split_on d ys"
  by (induction xs) (auto split: list.splits)

lemma split_on_pieces: "p \<in> set (split_on d xs) \<Longrightarrow> d \<notin> set p"
  by (induction xs arbitrary: p) (fastforce split: list.splits if_splits)+

lemma split_on_set: "p \<in> set (split_on d xs) \<Longrightarrow> set p \<subseteq> set xs"
proof (induction xs arbitrary: p)
  case (Cons x xs)
  obtain q qs where q: "split_on d xs = q # qs"
    by (cases "split_on d xs") auto
  with Cons show ?case by (fastforce split: if_splits)
qed simp

lemma sublist_pairI: "(x, y) \<in> set (windows2 zs) \<Longrightarrow> \<exists>as bs. zs = as @ x # y # bs"
proof (induction zs)
  case (Cons z zs)
  then show ?case
  proof (cases zs)
    case (Cons w ws)
    with Cons.prems consider "x = z" "y = w" | "(x, y) \<in> set (windows2 zs)" by auto
    then show ?thesis
    proof cases
      case 1
      with Cons show ?thesis by (metis append_Nil)
    next
      case 2
      with Cons.IH show ?thesis by (metis append_Cons)
    qed
  qed simp
qed simp

lemma windows2_append_pair: "(x, y) \<in> set (windows2 (as @ x # y # bs))"
proof (induction as)
  case (Cons a as)
  then show ?case by (cases as) auto
qed simp

lemma windows2_iff: "(x, y) \<in> set (windows2 zs) \<longleftrightarrow> (\<exists>as bs. zs = as @ x # y # bs)"
  using sublist_pairI windows2_append_pair by metis

section \<open>UTF-8\<close>

text \<open>
  The encoding every Rust string has: \<open>utf8 cs\<close> is the byte sequence of the Unicode scalar
  values \<open>cs\<close>.  A theorem about text that is only true of well-formed UTF-8 is stated of
  \<open>utf8 cs\<close>.
\<close>

definition is_scalar :: "nat \<Rightarrow> bool" where
  "is_scalar n \<longleftrightarrow> n < 0xD800 \<or> (0xE000 \<le> n \<and> n < 0x110000)"

definition utf8_char :: "nat \<Rightarrow> str" where
  "utf8_char n =
     (if n < 0x80 then [char_of n]
      else if n < 0x800 then [char_of (0xC0 + n div 64), char_of (0x80 + n mod 64)]
      else if n < 0x10000 then
        [char_of (0xE0 + n div 4096), char_of (0x80 + n div 64 mod 64), char_of (0x80 + n mod 64)]
      else
        [char_of (0xF0 + n div 262144), char_of (0x80 + n div 4096 mod 64),
         char_of (0x80 + n div 64 mod 64), char_of (0x80 + n mod 64)])"

definition utf8 :: "nat list \<Rightarrow> str" where
  "utf8 cs = concat (map utf8_char cs)"

lemmas utf8_eval [krit_eval] = utf8_def utf8_char_def char_of_def bit_0 is_scalar_def

section \<open>Encoders\<close>

text \<open>
  The contract of an encoder that loses nothing on its domain: the decoder of the other side
  gets back what was encoded.  The percent-encoding builders and the JSON conversion are
  instances.
\<close>

locale codec =
  fixes dom :: "'a \<Rightarrow> bool" and encode :: "'a \<Rightarrow> 'b" and decode :: "'b \<Rightarrow> 'a option"
  assumes decode_encode: "dom x \<Longrightarrow> decode (encode x) = Some x"
begin

lemma encode_inj: "dom x \<Longrightarrow> dom y \<Longrightarrow> encode x = encode y \<Longrightarrow> x = y"
  using decode_encode by (metis option.inject)

lemma encode_list_inj:
  "list_all dom xs \<Longrightarrow> list_all dom ys \<Longrightarrow> map encode xs = map encode ys \<Longrightarrow> xs = ys"
proof (induction xs arbitrary: ys)
  case (Cons x xs)
  then show ?case by (cases ys) (auto dest: encode_inj)
qed simp

end

end
