(* ===== verification/Capability.thy ===== *)
theory Capability
  imports Krit_Prelude
begin

text \<open>
  Resource names and exact HTTP origins (\<open>krit-capability/src/lib.rs\<close>).  The URL parser is
  the \<open>url\<close> crate: it is the parameter \<open>url_parse\<close> of \<open>parse_exact\<close>, with its result as the
  record \<open>parsed_url\<close> of the accessors the source calls.
\<close>

section \<open>Names\<close>

definition is_canonical_name :: "str \<Rightarrow> bool \<Rightarrow> bool" where
  "is_canonical_name name allow_underscore \<longleftrightarrow>
     name \<noteq> [] \<and> length name \<le> 64 \<and>
     hd name \<notin> {CHR ''.'', CHR ''-'', CHR ''_''} \<and>
     last name \<notin> {CHR ''.'', CHR ''-'', CHR ''_''} \<and>
     \<not> sublist ''..'' name \<and> \<not> sublist ''--'' name \<and> \<not> sublist ''__'' name \<and>
     list_all (\<lambda>b. is_ascii_lowercase b \<or> is_ascii_digit b \<or> b \<in> {CHR ''.'', CHR ''-''} \<or>
        allow_underscore \<and> b = CHR ''_'') name"

definition is_valid_resource_name :: "str \<Rightarrow> bool" where
  "is_valid_resource_name name = is_canonical_name name False"

definition is_valid_config_key :: "str \<Rightarrow> bool" where
  "is_valid_config_key name = is_canonical_name name True"

section \<open>Origins\<close>

datatype http_scheme = Http | Https

definition scheme_as_str :: "http_scheme \<Rightarrow> str" where
  "scheme_as_str s = (case s of Http \<Rightarrow> ''http'' | Https \<Rightarrow> ''https'')"

definition scheme_default_port :: "http_scheme \<Rightarrow> 16 word" where
  "scheme_default_port s = (case s of Http \<Rightarrow> 80 | Https \<Rightarrow> 443)"

record http_origin =
  origin_scheme :: http_scheme
  origin_host :: str
  origin_port :: "16 word"
  origin_normalized :: str

datatype http_origin_error = OriginInvalid | OriginNotNormalized

text \<open>
  A parsed host: an address carries its displayed form (\<open>address.to_string()\<close>).
\<close>

datatype url_host = Domain str | Ipv4 str | Ipv6 str

record parsed_url =
  url_scheme :: str
  url_username :: str
  url_password :: "str option"
  url_query_part :: "str option"
  url_fragment :: "str option"
  url_path :: str
  url_host_part :: "url_host option"
  url_port_or_known_default :: "16 word option"

definition bad_label :: "str \<Rightarrow> bool" where
  "bad_label label \<longleftrightarrow>
     label = [] \<or> length label > 63 \<or> prefix ''-'' label \<or> suffix ''-'' label \<or>
     \<not> list_all (\<lambda>b. is_ascii_lowercase b \<or> is_ascii_digit b \<or> b = CHR ''-'') label"

definition bad_domain :: "str \<Rightarrow> bool" where
  "bad_domain host \<longleftrightarrow>
     host = [] \<or> length host > 253 \<or> list_ex bad_label (split_on CHR ''.'' host)"

fun digits_of :: "nat \<Rightarrow> str" where
  "digits_of n =
     (if n < 10 then [char_of (48 + n)] else digits_of (n div 10) @ [char_of (48 + n mod 10)])"

declare digits_of.simps [simp del]

definition origin_text :: "http_scheme \<Rightarrow> str \<Rightarrow> 16 word \<Rightarrow> str" where
  "origin_text scheme host port =
     (if port = scheme_default_port scheme then scheme_as_str scheme @ ''://'' @ host
      else scheme_as_str scheme @ ''://'' @ host @ '':'' @ digits_of (unat port))"

definition parse_exact ::
  "(str \<Rightarrow> parsed_url option) \<Rightarrow> str \<Rightarrow> (http_origin_error, http_origin) result" where
  "parse_exact url_parse val =
     (if val = [] \<or> length val > 2048 \<or> list_ex (\<lambda>b. u8 b \<ge> 0x80) val \<or>
         list_ex is_ascii_control val
      then Inl OriginInvalid
      else case url_parse val of
        None \<Rightarrow> Inl OriginInvalid
      | Some parsed \<Rightarrow>
          (case (if url_scheme parsed = ''http'' then Some Http
                 else if url_scheme parsed = ''https'' then Some Https else None) of
             None \<Rightarrow> Inl OriginInvalid
           | Some scheme \<Rightarrow>
               if url_username parsed \<noteq> [] \<or> url_password parsed \<noteq> None \<or>
                  url_query_part parsed \<noteq> None \<or> url_fragment parsed \<noteq> None \<or>
                  url_path parsed \<noteq> ''/''
               then Inl OriginInvalid
               else case url_host_part parsed of
                 None \<Rightarrow> Inl OriginInvalid
               | Some parsed_host \<Rightarrow>
                   (case (case parsed_host of
                            Domain host \<Rightarrow> if bad_domain host then None else Some host
                          | Ipv4 address \<Rightarrow> Some address
                          | Ipv6 address \<Rightarrow> Some (''['' @ address @ '']'')) of
                      None \<Rightarrow> Inl OriginInvalid
                    | Some host \<Rightarrow>
                        (case url_port_or_known_default parsed of
                           None \<Rightarrow> Inl OriginInvalid
                         | Some port \<Rightarrow>
                             if port = 0 then Inl OriginInvalid
                             else let normalized = origin_text scheme host port in
                               if val \<noteq> normalized then Inl OriginNotNormalized
                               else Inr \<lparr>origin_scheme = scheme, origin_host = host,
                                 origin_port = port, origin_normalized = normalized\<rparr>))))"

section \<open>Properties\<close>

text \<open>
  The configuration-key grammar extends the resource-name grammar by the underscore and by
  nothing else.
\<close>

lemma config_key_extends_resource_name:
  "is_valid_resource_name name \<longleftrightarrow> is_valid_config_key name \<and> CHR ''_'' \<notin> set name"
  by (auto simp: is_valid_resource_name_def is_valid_config_key_def is_canonical_name_def
      list_all_iff ascii_nat)

lemma parse_exact_Inr:
  assumes "parse_exact url_parse val = Inr origin"
  obtains host where
    "origin = \<lparr>origin_scheme = origin_scheme origin, origin_host = host,
       origin_port = origin_port origin, origin_normalized = val\<rparr>"
    "val = origin_text (origin_scheme origin) host (origin_port origin)"
    "origin_port origin \<noteq> 0"
  using assms that
  by (auto simp: parse_exact_def Let_def split: if_splits option.splits)

text \<open>
  An accepted origin is exactly its own spelling.  Its text is the input, it is the
  canonical text of its scheme, host and port, the port is not 0, and two accepted inputs
  with the same scheme, host and port are the same string: no origin has two accepted
  spellings, whatever the URL parser does.
\<close>

lemma parse_exact_is_canonical:
  assumes "parse_exact url_parse v = Inr a" "parse_exact url_parse w = Inr b"
  shows "origin_normalized a = v \<and> v = origin_text (origin_scheme a) (origin_host a) (origin_port a) \<and>
     origin_port a \<noteq> 0 \<and>
     (origin_scheme a = origin_scheme b \<and> origin_host a = origin_host b \<and>
        origin_port a = origin_port b \<longleftrightarrow> v = w)"
proof -
  obtain h where a: "a = \<lparr>origin_scheme = origin_scheme a, origin_host = h,
       origin_port = origin_port a, origin_normalized = v\<rparr>"
      "v = origin_text (origin_scheme a) h (origin_port a)" "origin_port a \<noteq> 0"
    using assms(1) by (rule parse_exact_Inr)
  obtain k where b: "b = \<lparr>origin_scheme = origin_scheme b, origin_host = k,
       origin_port = origin_port b, origin_normalized = w\<rparr>"
      "w = origin_text (origin_scheme b) k (origin_port b)"
    using assms(2) by (rule parse_exact_Inr)
  have h: "origin_host a = h" "origin_normalized a = v" by (subst a(1), simp)+
  have k: "origin_host b = k" by (subst b(1)) simp
  have "a = b" if "v = w" using assms that by simp
  then show ?thesis using a(2,3) b(2) h k by auto
qed

definition demo_url :: "str \<Rightarrow> parsed_url option" where
  "demo_url s =
     (if s = ''https://a.b'' then
        Some \<lparr>url_scheme = ''https'', url_username = [], url_password = None,
          url_query_part = None, url_fragment = None, url_path = ''/'',
          url_host_part = Some (Domain ''a.b''), url_port_or_known_default = Some 443\<rparr>
      else None)"

end
