(* ===== verification/Ordered_Map.thy ===== *)
theory Ordered_Map
  imports Krit_Prelude
begin

text \<open>
  \<open>BTreeMap\<close> and \<open>HashMap\<close> of the standard library, as far as the sources use them: an
  association list with strictly increasing keys.  Iteration order of a \<open>HashMap\<close> is never
  observed by the code, so both are modelled by the same type.  The locale \<open>ordered_map\<close> states
  what clients rely on; the components below are proved over its laws.
\<close>

type_synonym ('k, 'v) omap = "('k \<times> 'v) list"

definition om_ok :: "('k::linorder, 'v) omap \<Rightarrow> bool" where
  "om_ok m \<longleftrightarrow> sorted_wrt (<) (map fst m)"

definition om_get :: "('k, 'v) omap \<Rightarrow> 'k \<Rightarrow> 'v option" where
  "om_get m k = map_of m k"

fun om_insert :: "'k::linorder \<Rightarrow> 'v \<Rightarrow> ('k, 'v) omap \<Rightarrow> ('k, 'v) omap" where
  "om_insert k v [] = [(k, v)]"
| "om_insert k v ((k', v') # m) =
     (if k < k' then (k, v) # (k', v') # m
      else if k = k' then (k, v) # m
      else (k', v') # om_insert k v m)"

text \<open>Mutation through \<open>get_mut\<close>: the value of an existing key is replaced in place.\<close>

fun om_update :: "'k \<Rightarrow> 'v \<Rightarrow> ('k, 'v) omap \<Rightarrow> ('k, 'v) omap" where
  "om_update k v [] = []"
| "om_update k v ((k', v') # m) =
     (if k = k' then (k, v) # m else (k', v') # om_update k v m)"

definition om_remove :: "'k \<Rightarrow> ('k, 'v) omap \<Rightarrow> ('k, 'v) omap" where
  "om_remove k m = filter (\<lambda>(k', v). k' \<noteq> k) m"

definition om_first :: "('k, 'v) omap \<Rightarrow> ('k \<times> 'v) option" where
  "om_first m = (case m of [] \<Rightarrow> None | kv # _ \<Rightarrow> Some kv)"

text \<open>\<open>entry(k).or_insert(v)\<close>: the value of an existing key is kept.\<close>

definition om_or_insert :: "'k::linorder \<Rightarrow> 'v \<Rightarrow> ('k, 'v) omap \<Rightarrow> ('k, 'v) omap" where
  "om_or_insert k v m = (if om_get m k = None then om_insert k v m else m)"

section \<open>The interface\<close>

locale ordered_map =
  fixes ok :: "'m \<Rightarrow> bool"
    and get :: "'m \<Rightarrow> 'k::linorder \<Rightarrow> 'v option"
    and ins :: "'k \<Rightarrow> 'v \<Rightarrow> 'm \<Rightarrow> 'm"
    and upd :: "'k \<Rightarrow> 'v \<Rightarrow> 'm \<Rightarrow> 'm"
    and rem :: "'k \<Rightarrow> 'm \<Rightarrow> 'm"
    and first :: "'m \<Rightarrow> ('k \<times> 'v) option"
    and card_of :: "'m \<Rightarrow> nat"
  assumes ok_ins: "ok m \<Longrightarrow> ok (ins k v m)"
    and ok_rem: "ok m \<Longrightarrow> ok (rem k m)"
    and get_ins: "ok m \<Longrightarrow> get (ins k v m) = (get m)(k \<mapsto> v)"
    and get_rem: "ok m \<Longrightarrow> get (rem k m) = (get m)(k := None)"
    and first_None: "ok m \<Longrightarrow> first m = None \<longleftrightarrow> get m = Map.empty"
    and first_Some: "ok m \<Longrightarrow> first m = Some (k, v) \<Longrightarrow> get m k = Some v"
    and first_le: "ok m \<Longrightarrow> first m = Some (k, v) \<Longrightarrow> get m k' = Some v' \<Longrightarrow> k \<le> k'"
    and card_dom: "ok m \<Longrightarrow> card_of m = card (dom (get m))"
    and finite_dom: "ok m \<Longrightarrow> finite (dom (get m))"
    and ok_upd: "ok m \<Longrightarrow> ok (upd k v m)"
    and get_upd: "ok m \<Longrightarrow> get (upd k v m) = (if get m k = None then get m else (get m)(k \<mapsto> v))"
begin

lemma card_ins_new: "ok m \<Longrightarrow> get m k = None \<Longrightarrow> card_of (ins k v m) = Suc (card_of m)"
  by (simp add: card_dom ok_ins get_ins finite_dom domIff)

lemma card_ins_old: "ok m \<Longrightarrow> get m k = Some w \<Longrightarrow> card_of (ins k v m) = card_of m"
  by (simp add: card_dom ok_ins get_ins domI insert_absorb)

lemma card_rem_old: "ok m \<Longrightarrow> get m k = Some w \<Longrightarrow> Suc (card_of (rem k m)) = card_of m"
  using card_Suc_Diff1 [of "dom (get m)" k] by (simp add: card_dom ok_rem get_rem finite_dom domI)

lemma card_rem_absent: "ok m \<Longrightarrow> get m k = None \<Longrightarrow> card_of (rem k m) = card_of m"
proof -
  assume "ok m" "get m k = None"
  then have "get (rem k m) = get m" by (simp add: get_rem fun_upd_idem)
  then show ?thesis using \<open>ok m\<close> by (simp add: card_dom ok_rem)
qed

lemma card_upd: "ok m \<Longrightarrow> card_of (upd k v m) = card_of m"
proof -
  assume ok: "ok m"
  then have "dom (get (upd k v m)) = dom (get m)" by (auto simp: get_upd split: if_splits)
  with ok show ?thesis by (simp add: card_dom ok_upd)
qed

lemma first_exists: "ok m \<Longrightarrow> get m k = Some v \<Longrightarrow> \<exists>k' v'. first m = Some (k', v')"
  by (metis first_None not_Some_eq surj_pair)

end

section \<open>Association lists provide it\<close>

lemma om_empty [simp]: "om_ok []" "om_get [] k = None"
  by (simp_all add: om_ok_def om_get_def)

lemma om_get_ins: "om_get (om_insert k v m) = (om_get m)(k \<mapsto> v)"
  by (induction m) (auto simp: om_get_def fun_eq_iff)

lemma om_get_rem: "om_get (om_remove k m) = (om_get m)(k := None)"
  by (induction m) (auto simp: om_get_def om_remove_def fun_eq_iff)

lemma om_insert_keys: "fst ` set (om_insert k v m) = insert k (fst ` set m)"
proof (induction m)
  case (Cons kv m)
  obtain k' v' where kv: "kv = (k', v')" by (cases kv)
  show ?case
    by (simp only: kv om_insert.simps) (simp add: Cons.IH insert_commute)
qed simp

lemma om_ok_insert: "om_ok m \<Longrightarrow> om_ok (om_insert k v m)"
proof (induction m)
  case (Cons kv m)
  obtain k' v' where kv: "kv = (k', v')" by (cases kv)
  show ?case
    using Cons om_insert_keys [of k v m]
    by (simp only: kv om_insert.simps) (auto simp: om_ok_def)
qed (simp add: om_ok_def)

lemma om_ok_remove: "om_ok m \<Longrightarrow> om_ok (om_remove k m)"
  by (induction m) (auto simp: om_ok_def om_remove_def)

lemma om_ok_distinct: "om_ok m \<Longrightarrow> distinct (map fst m)"
  by (induction m) (auto simp: om_ok_def)

lemma om_get_set: "om_ok m \<Longrightarrow> om_get m k = Some v \<longleftrightarrow> (k, v) \<in> set m"
  by (simp add: om_get_def om_ok_distinct)

lemma om_get_upd:
  "om_get (om_update k v m) = (if om_get m k = None then om_get m else (om_get m)(k \<mapsto> v))"
  by (induction m) (auto simp: om_get_def fun_eq_iff)

lemma om_update_keys: "map fst (om_update k v m) = map fst m"
  by (induction m) auto

interpretation om: ordered_map om_ok om_get om_insert om_update om_remove om_first length
proof
  fix m :: "('a::linorder, 'b) omap" and k k' :: 'a and v v' :: 'b
  assume ok: "om_ok m"
  show "om_ok (om_insert k v m)" using ok by (rule om_ok_insert)
  show "om_ok (om_remove k m)" using ok by (rule om_ok_remove)
  show "om_get (om_insert k v m) = (om_get m)(k \<mapsto> v)" by (rule om_get_ins)
  show "om_get (om_remove k m) = (om_get m)(k := None)" by (rule om_get_rem)
  show "om_first m = None \<longleftrightarrow> om_get m = Map.empty"
    by (cases m) (auto simp: om_first_def om_get_def fun_eq_iff split: if_splits)
  show "om_get m k = Some v" if "om_first m = Some (k, v)"
    using that by (cases m) (auto simp: om_first_def om_get_def)
  show "k \<le> k'" if "om_first m = Some (k, v)" "om_get m k' = Some v'"
    using that ok by (cases m) (fastforce simp: om_first_def om_get_def om_ok_def
        split: if_splits dest: map_of_SomeD)+
  show "length m = card (dom (om_get m))"
    using distinct_card [OF om_ok_distinct [OF ok]]
    by (simp add: om_get_def [abs_def] dom_map_of_conv_image_fst)
  show "finite (dom (om_get m))" by (simp add: om_get_def [abs_def] finite_dom_map_of)
  show "om_ok (om_update k v m)" using ok by (simp add: om_ok_def om_update_keys)
  show "om_get (om_update k v m) = (if om_get m k = None then om_get m else (om_get m)(k \<mapsto> v))"
    by (rule om_get_upd)
qed

lemma om_or_insert_laws:
  "om_ok m \<Longrightarrow> om_ok (om_or_insert k v m)"
  "om_get (om_or_insert k v m) k' = (if k' = k \<and> om_get m k = None then Some v else om_get m k')"
  by (auto simp: om_or_insert_def om_ok_insert om_get_ins)

section \<open>Sums over a map\<close>

definition om_sum :: "('k \<Rightarrow> 'v \<Rightarrow> nat) \<Rightarrow> ('k, 'v) omap \<Rightarrow> nat" where
  "om_sum f m = sum_list (map (\<lambda>(k, v). f k v) m)"

lemma om_sum_Nil [simp]: "om_sum f [] = 0"
  by (simp add: om_sum_def)

lemma om_sum_insert_new:
  "om_get m k = None \<Longrightarrow> om_sum f (om_insert k v m) = f k v + om_sum f m"
  by (induction m) (auto simp: om_get_def om_sum_def split: if_splits)

lemma om_remove_absent: "om_get m k = None \<Longrightarrow> om_remove k m = m"
  by (induction m) (auto simp: om_get_def om_remove_def split: if_splits)

lemma om_sum_remove:
  "om_ok m \<Longrightarrow> om_get m k = Some v \<Longrightarrow> om_sum f m = f k v + om_sum f (om_remove k m)"
proof (induction m)
  case (Cons kv m)
  obtain k' v' where kv: "kv = (k', v')" by (cases kv)
  have m: "om_ok m" "k' \<notin> fst ` set m" using Cons.prems(1) by (auto simp: kv om_ok_def)
  show ?case
  proof (cases "k = k'")
    case True
    then have "om_get m k = None" using m by (simp add: om_get_def map_of_eq_None_iff)
    then have "om_remove k m = m" by (rule om_remove_absent)
    with True Cons.prems(2) show ?thesis
      by (simp add: kv om_sum_def om_get_def om_remove_def)
  next
    case False
    with Cons.IH [OF m(1)] Cons.prems(2) show ?thesis
      by (auto simp: kv om_sum_def om_get_def om_remove_def)
  qed
qed (simp add: om_get_def)

lemma om_sum_update:
  "om_get m k = Some v \<Longrightarrow> om_sum f (om_update k v' m) + f k v = om_sum f m + f k v'"
  by (induction m) (auto simp: om_get_def om_sum_def split: if_splits)

lemma om_sum_ge: "om_get m k = Some v \<Longrightarrow> f k v \<le> om_sum f m"
  by (induction m) (auto simp: om_get_def om_sum_def split: if_splits)

lemma om_sum_zero: "(\<And>k v. (k, v) \<in> set m \<Longrightarrow> f k v = 0) \<Longrightarrow> om_sum f m = 0"
  by (induction m) (auto simp: om_sum_def)

end
