(* ===== verification/Cache.thy ===== *)
theory Cache
  imports Ordered_Map "HOL-Library.Product_Lexorder"
begin

text \<open>
  The bounded TTL cache (\<open>krit-cache/src/config.rs\<close>, \<open>krit-cache/src/store.rs\<close>).  A namespace is
  the source's three structures (entries, access index, expiry index) with its byte count; the
  state adds the whole-cache totals and the statistics; \<open>cache\<close> adds the stamp counter and
  whether the mutex is poisoned.  Every operation returns the new cache and its result, so a
  mutation made before an early return is kept, as in the source.
\<close>

section \<open>Configuration\<close>

definition MAX_NAMESPACES :: nat where "MAX_NAMESPACES = 16"
definition MAX_ENTRIES_PER_NAMESPACE :: nat where "MAX_ENTRIES_PER_NAMESPACE = 4096"
definition MAX_TOTAL_ENTRIES :: nat where "MAX_TOTAL_ENTRIES = 16384"
definition MAX_KEY_BYTES :: nat where "MAX_KEY_BYTES = 512"
definition MAX_VALUE_BYTES :: nat where "MAX_VALUE_BYTES = 64 * 1024"
definition MAX_NAMESPACE_BYTES :: nat where "MAX_NAMESPACE_BYTES = 8 * 1024 * 1024"
definition MAX_TOTAL_BYTES :: nat where "MAX_TOTAL_BYTES = 64 * 1024 * 1024"
definition MIN_TTL_SECONDS :: int where "MIN_TTL_SECONDS = 1"
definition MAX_TTL_SECONDS :: int where "MAX_TTL_SECONDS = 7 * 24 * 60 * 60"
definition ENTRY_OVERHEAD_BYTES :: nat where "ENTRY_OVERHEAD_BYTES = 64"

lemmas cache_limits =
  MAX_NAMESPACES_def MAX_ENTRIES_PER_NAMESPACE_def MAX_TOTAL_ENTRIES_def MAX_KEY_BYTES_def
  MAX_VALUE_BYTES_def MAX_NAMESPACE_BYTES_def MAX_TOTAL_BYTES_def MIN_TTL_SECONDS_def
  MAX_TTL_SECONDS_def ENTRY_OVERHEAD_BYTES_def

datatype namespace_mode = ReadOnly | ReadWrite

record namespace_policy =
  ns_mode :: namespace_mode
  max_entries :: nat
  max_bytes :: nat
  max_key_bytes :: nat
  max_value_bytes :: nat
  max_ttl_seconds :: int

datatype cache_error = NamespaceError str | LimitError str | UnavailableError str

definition cache_error_code :: "cache_error \<Rightarrow> str" where
  "cache_error_code e =
     (case e of NamespaceError _ \<Rightarrow> ''K5401'' | LimitError _ \<Rightarrow> ''K5402''
      | UnavailableError _ \<Rightarrow> ''K5403'')"

definition policy_validate :: "namespace_policy \<Rightarrow> (cache_error, unit) result" where
  "policy_validate p =
     (if max_entries p = 0 \<or> max_entries p > MAX_ENTRIES_PER_NAMESPACE \<or>
         max_bytes p = 0 \<or> max_bytes p > MAX_NAMESPACE_BYTES \<or>
         max_key_bytes p = 0 \<or> max_key_bytes p > MAX_KEY_BYTES \<or>
         max_value_bytes p = 0 \<or> max_value_bytes p > MAX_VALUE_BYTES \<or>
         max_ttl_seconds p < MIN_TTL_SECONDS \<or> max_ttl_seconds p > MAX_TTL_SECONDS
      then Inl (LimitError ''cache namespace limits are outside the Phase 7 bounds'')
      else case Option.bind (checked_add_u64 (max_key_bytes p) (max_value_bytes p))
                  (\<lambda>bytes. checked_add_u64 bytes ENTRY_OVERHEAD_BYTES) of
        None \<Rightarrow> Inl (LimitError ''cache namespace limits overflowed'')
      | Some largest \<Rightarrow>
          if largest > max_bytes p then
            Inl (LimitError
              ''cache namespace byte budget cannot hold one entry of its declared maximum size'')
          else Inr ())"

record cache_config =
  cfg_namespaces :: "(str, namespace_policy) omap"
  cfg_max_total_entries :: nat
  cfg_max_total_bytes :: nat

fun validate_policies :: "nat \<Rightarrow> nat \<Rightarrow> namespace_policy list \<Rightarrow> (cache_error, unit) result" where
  "validate_policies total_entries total_bytes [] = Inr ()"
| "validate_policies total_entries total_bytes (p # ps) =
     (case policy_validate p of
        Inl e \<Rightarrow> Inl e
      | Inr _ \<Rightarrow>
          if max_entries p > total_entries \<or> max_bytes p > total_bytes then
            Inl (LimitError ''a cache namespace budget exceeds the whole-cache budget'')
          else validate_policies total_entries total_bytes ps)"

definition config_validate :: "cache_config \<Rightarrow> (cache_error, unit) result" where
  "config_validate c =
     (if length (cfg_namespaces c) > MAX_NAMESPACES then
        Inl (LimitError ''configured cache namespaces exceed the Phase 7 bound'')
      else if cfg_namespaces c = [] then Inr ()
      else if cfg_max_total_entries c = 0 \<or> cfg_max_total_entries c > MAX_TOTAL_ENTRIES \<or>
              cfg_max_total_bytes c = 0 \<or> cfg_max_total_bytes c > MAX_TOTAL_BYTES then
        Inl (LimitError ''cache totals are outside the Phase 7 bounds'')
      else validate_policies (cfg_max_total_entries c) (cfg_max_total_bytes c)
             (map snd (cfg_namespaces c)))"

section \<open>State\<close>

record cache_entry =
  entry_value :: str
  expires_at_millis :: nat
  stamp :: nat

record namespace =
  policy :: namespace_policy
  entries :: "(str, cache_entry) omap"
  by_access :: "(nat, str) omap"
  by_expiry :: "(nat \<times> str, unit) omap"
  bytes :: nat

record cache_state =
  namespaces :: "(str, namespace) omap"
  total_entries :: nat
  total_bytes :: nat
  max_total_entries :: nat
  max_total_bytes :: nat
  hits :: nat
  misses :: nat
  expirations :: nat
  evictions :: nat
  puts :: nat
  deletes :: nat

record cache =
  state :: cache_state
  stamp_counter :: nat
  poisoned :: bool

datatype writer = Guest | Host

definition MAX_SWEEP_PER_OPERATION :: nat where "MAX_SWEEP_PER_OPERATION = 8"

definition namespace_new :: "namespace_policy \<Rightarrow> namespace" where
  "namespace_new p = \<lparr>policy = p, entries = [], by_access = [], by_expiry = [], bytes = 0\<rparr>"

definition charge :: "str \<Rightarrow> str \<Rightarrow> nat" where
  "charge key val = sat_add (sat_add (length key) (length val)) ENTRY_OVERHEAD_BYTES"

section \<open>Namespace operations\<close>

definition ns_remove :: "str \<Rightarrow> namespace \<Rightarrow> nat option \<times> namespace" where
  "ns_remove key ns =
     (case om_get (entries ns) key of
        None \<Rightarrow> (None, ns)
      | Some entry \<Rightarrow>
          let released = charge key (entry_value entry) in
          (Some released,
           ns\<lparr>entries := om_remove key (entries ns),
              by_access := om_remove (stamp entry) (by_access ns),
              by_expiry := om_remove (expires_at_millis entry, key) (by_expiry ns),
              bytes := bytes ns - released\<rparr>))"

definition ns_evict_one :: "namespace \<Rightarrow> nat option \<times> namespace" where
  "ns_evict_one ns =
     (case om_first (by_access ns) of
        None \<Rightarrow> (None, ns)
      | Some (_, key) \<Rightarrow> ns_remove key ns)"

function sweep_from :: "nat \<Rightarrow> nat \<Rightarrow> nat \<Rightarrow> namespace \<Rightarrow> (nat \<times> nat) \<times> namespace" where
  "sweep_from now_millis removed released ns =
     (if removed < MAX_SWEEP_PER_OPERATION then
        (case om_first (by_expiry ns) of
           None \<Rightarrow> ((removed, released), ns)
         | Some ((expires_at, key), _) \<Rightarrow>
             if expires_at > now_millis then ((removed, released), ns)
             else case ns_remove key ns of
                    (Some b, ns') \<Rightarrow> sweep_from now_millis (removed + 1) (released + b) ns'
                  | (None, ns') \<Rightarrow> sweep_from now_millis (removed + 1) released ns')
      else ((removed, released), ns))"
  by pat_completeness auto
termination
  by (relation "measure (\<lambda>(_, removed, _, _). MAX_SWEEP_PER_OPERATION - removed)") auto

declare sweep_from.simps [simp del]

definition sweep_expired :: "nat \<Rightarrow> namespace \<Rightarrow> (nat \<times> nat) \<times> namespace" where
  "sweep_expired now_millis ns = sweep_from now_millis 0 0 ns"

section \<open>State operations\<close>

definition state_namespace :: "cache_state \<Rightarrow> str \<Rightarrow> (cache_error, namespace) result" where
  "state_namespace st name =
     (case om_get (namespaces st) name of
        Some ns \<Rightarrow> Inr ns
      | None \<Rightarrow> Inl (NamespaceError ''cache namespace is not configured''))"

definition set_namespace :: "str \<Rightarrow> namespace \<Rightarrow> cache_state \<Rightarrow> cache_state" where
  "set_namespace name ns st = st\<lparr>namespaces := om_update name ns (namespaces st)\<rparr>"

definition release :: "nat \<Rightarrow> nat \<Rightarrow> cache_state \<Rightarrow> cache_state" where
  "release n b st =
     st\<lparr>total_entries := total_entries st - n, total_bytes := total_bytes st - b\<rparr>"

fun min_by_key :: "(nat \<times> str) list \<Rightarrow> (nat \<times> str) option" where
  "min_by_key [] = None"
| "min_by_key (x # xs) =
     (case min_by_key xs of
        None \<Rightarrow> Some x
      | Some y \<Rightarrow> Some (if fst x \<le> fst y then x else y))"

definition oldest_stamps :: "(str, namespace) omap \<Rightarrow> (nat \<times> str) list" where
  "oldest_stamps nss =
     List.map_filter
       (\<lambda>(name, ns). map_option (\<lambda>(s, _). (s, name)) (om_first (by_access ns))) nss"

definition evict_globally :: "cache_state \<Rightarrow> nat option \<times> cache_state" where
  "evict_globally st =
     (case min_by_key (oldest_stamps (namespaces st)) of
        None \<Rightarrow> (None, st)
      | Some (_, target) \<Rightarrow>
          (case om_get (namespaces st) target of
             None \<Rightarrow> (None, st)
           | Some ns \<Rightarrow>
               let (r, ns') = ns_evict_one ns in (r, set_namespace target ns' st)))"

definition evicted :: "nat \<Rightarrow> cache_state \<Rightarrow> cache_state" where
  "evicted released st =
     (let st' = release 1 released st in st'\<lparr>evictions := sat_add (evictions st') 1\<rparr>)"

definition namespace_fits :: "nat \<Rightarrow> namespace \<Rightarrow> bool" where
  "namespace_fits c ns \<longleftrightarrow>
     length (entries ns) < max_entries (policy ns) \<and>
     sat_add (bytes ns) c \<le> max_bytes (policy ns)"

definition global_fits :: "nat \<Rightarrow> cache_state \<Rightarrow> bool" where
  "global_fits c st \<longleftrightarrow>
     total_entries st < max_total_entries st \<and> sat_add (total_bytes st) c \<le> max_total_bytes st"

definition live_entries :: "cache_state \<Rightarrow> nat" where
  "live_entries st = om_sum (\<lambda>_ ns. length (entries ns)) (namespaces st)"

lemma om_remove_length_less: "om_get m k = Some v \<Longrightarrow> length (om_remove k m) < length m"
  unfolding om_get_def om_remove_def
  by (rule length_filter_less [where x = "(k, v)"]) (auto dest: map_of_SomeD)

lemma ns_remove_shrinks:
  "ns_remove key ns = (Some r, ns') \<Longrightarrow> length (entries ns') < length (entries ns)"
  by (auto simp: ns_remove_def Let_def om_remove_length_less split: option.splits)

lemma ns_evict_one_shrinks:
  "ns_evict_one ns = (Some r, ns') \<Longrightarrow> length (entries ns') < length (entries ns)"
  by (auto simp: ns_evict_one_def ns_remove_shrinks split: option.splits)

lemma live_entries_evicted [simp]: "live_entries (evicted r st) = live_entries st"
  by (simp add: evicted_def release_def live_entries_def Let_def)

lemma live_entries_set_namespace:
  "om_get (namespaces st) name = Some ns \<Longrightarrow> length (entries ns') < length (entries ns) \<Longrightarrow>
     live_entries (set_namespace name ns' st) < live_entries st"
  using om_sum_update [of "namespaces st" name ns "\<lambda>_ ns. length (entries ns)" ns']
  by (simp add: live_entries_def set_namespace_def)

lemma evict_globally_shrinks:
  "evict_globally st = (Some r, st') \<Longrightarrow> live_entries st' < live_entries st"
  by (auto simp: evict_globally_def Let_def live_entries_set_namespace ns_evict_one_shrinks
      split: option.splits prod.splits)

text \<open>The eviction loop of \<open>write\<close>: it ends because every iteration drops a live entry.\<close>

function evict_until_fits ::
  "str \<Rightarrow> nat \<Rightarrow> cache_state \<Rightarrow> cache_state \<times> (cache_error, unit) result" where
  "evict_until_fits name c st =
     (case state_namespace st name of
        Inl e \<Rightarrow> (st, Inl e)
      | Inr ns \<Rightarrow>
          if \<not> namespace_fits c ns then
            (case ns_evict_one ns of
               (None, ns') \<Rightarrow>
                 (set_namespace name ns' st,
                  Inl (LimitError ''cache entry cannot fit its namespace budget''))
             | (Some released, ns') \<Rightarrow>
                 evict_until_fits name c (evicted released (set_namespace name ns' st)))
          else if global_fits c st then (st, Inr ())
          else
            (case evict_globally st of
               (None, st') \<Rightarrow>
                 (st', Inl (LimitError ''cache entry cannot fit the whole-cache budget''))
             | (Some released, st') \<Rightarrow> evict_until_fits name c (evicted released st')))"
  by pat_completeness auto
termination
  by (relation "measure (\<lambda>(_, _, st). live_entries st)")
     (auto simp: state_namespace_def
       intro!: live_entries_set_namespace ns_evict_one_shrinks [OF sym]
       dest: evict_globally_shrinks [OF sym] split: option.splits)

declare evict_until_fits.simps [simp del]

section \<open>Cache operations\<close>

definition has_control_char :: "str \<Rightarrow> bool" where
  "has_control_char s \<longleftrightarrow>
     list_ex is_ascii_control s \<or>
     list_ex (\<lambda>(x, y). u8 x = 0xC2 \<and> 0x80 \<le> u8 y \<and> u8 y \<le> 0x9F) (windows2 s)"

definition validate_key :: "str \<Rightarrow> nat \<Rightarrow> (cache_error, unit) result" where
  "validate_key key limit =
     (if key = [] then Inl (LimitError ''cache key must not be empty'')
      else if length key > limit then
        Inl (LimitError ''cache key exceeds its configured byte bound'')
      else if CHR 0x00 \<in> set key \<or> has_control_char key then
        Inl (LimitError ''cache key must not contain control characters'')
      else Inr ())"

definition next_stamp :: "cache \<Rightarrow> nat \<times> cache" where
  "next_stamp c =
     (let s = (stamp_counter c + 1) mod 2 ^ 64 in (s, c\<lparr>stamp_counter := s\<rparr>))"

definition empty_state :: "(str, namespace) omap \<Rightarrow> nat \<Rightarrow> nat \<Rightarrow> cache_state" where
  "empty_state nss n b =
     \<lparr>namespaces = nss, total_entries = 0, total_bytes = 0, max_total_entries = n,
      max_total_bytes = b, hits = 0, misses = 0, expirations = 0, evictions = 0, puts = 0,
      deletes = 0\<rparr>"

definition cache_new :: "cache_config \<Rightarrow> (cache_error, cache) result" where
  "cache_new config =
     (case config_validate config of
        Inl e \<Rightarrow> Inl e
      | Inr _ \<Rightarrow>
          Inr \<lparr>state = empty_state
                 (map (\<lambda>(name, p). (name, namespace_new p)) (cfg_namespaces config))
                 (cfg_max_total_entries config) (cfg_max_total_bytes config),
               stamp_counter = 0, poisoned = False\<rparr>)"

definition cache_empty :: cache where
  "cache_empty = \<lparr>state = empty_state [] 0 0, stamp_counter = 0, poisoned = False\<rparr>"

definition bump_misses :: "cache_state \<Rightarrow> cache_state" where
  "bump_misses st = st\<lparr>misses := sat_add (misses st) 1\<rparr>"

definition bump_expirations :: "nat \<Rightarrow> cache_state \<Rightarrow> cache_state" where
  "bump_expirations n st = st\<lparr>expirations := sat_add (expirations st) n\<rparr>"

definition lock_error :: cache_error where
  "lock_error = UnavailableError ''cache backend is unavailable''"

definition touch :: "str \<Rightarrow> cache_entry \<Rightarrow> nat \<Rightarrow> namespace \<Rightarrow> namespace" where
  "touch key existing s ns =
     ns\<lparr>by_access := om_insert s key (om_remove (stamp existing) (by_access ns)),
        entries := om_update key (existing\<lparr>stamp := s\<rparr>) (entries ns)\<rparr>"

definition cache_get ::
  "str \<Rightarrow> str \<Rightarrow> nat \<Rightarrow> cache \<Rightarrow> cache \<times> (cache_error, str option) result" where
  "cache_get name key now_millis c0 =
     (if poisoned c0 then (c0, Inl lock_error)
      else
        let (s, c) = next_stamp c0; st = state c in
        case state_namespace st name of
          Inl e \<Rightarrow> (c, Inl e)
        | Inr ns \<Rightarrow>
            (case validate_key key (max_key_bytes (policy ns)) of
               Inl e \<Rightarrow> (c, Inl e)
             | Inr _ \<Rightarrow>
                 (case om_get (entries ns) key of
                    None \<Rightarrow> (c\<lparr>state := bump_misses st\<rparr>, Inr None)
                  | Some existing \<Rightarrow>
                      if expires_at_millis existing \<le> now_millis then
                        (let (r, ns') = ns_remove key ns;
                             released = (case r of None \<Rightarrow> 0 | Some b \<Rightarrow> b) in
                         (c\<lparr>state := bump_misses (bump_expirations 1
                              (release 1 released (set_namespace name ns' st)))\<rparr>, Inr None))
                      else
                        (let st' = set_namespace name (touch key existing s ns) st in
                         (c\<lparr>state := st'\<lparr>hits := sat_add (hits st') 1\<rparr>\<rparr>,
                          Inr (Some (entry_value existing)))))))"

definition deadline :: "int \<Rightarrow> nat \<Rightarrow> nat option" where
  "deadline ttl_seconds now_millis =
     Option.bind (if ttl_seconds < 0 then None else Some (nat ttl_seconds)) (\<lambda>seconds.
       Option.bind (checked_mul_u64 seconds 1000) (\<lambda>millis.
         checked_add_u64 now_millis millis))"

definition insert_entry :: "str \<Rightarrow> str \<Rightarrow> nat \<Rightarrow> nat \<Rightarrow> nat \<Rightarrow> namespace \<Rightarrow> namespace" where
  "insert_entry key val expires s c ns =
     ns\<lparr>entries := om_insert key \<lparr>entry_value = val, expires_at_millis = expires, stamp = s\<rparr>
          (entries ns),
        by_access := om_insert s key (by_access ns),
        by_expiry := om_insert (expires, key) () (by_expiry ns),
        bytes := sat_add (bytes ns) c\<rparr>"

text \<open>The part of \<open>write\<close> after its checks: sweep, replace, evict, insert.\<close>

definition store_entry ::
  "str \<Rightarrow> str \<Rightarrow> str \<Rightarrow> nat \<Rightarrow> nat \<Rightarrow> nat \<Rightarrow> namespace \<Rightarrow> cache_state \<Rightarrow>
     cache_state \<times> (cache_error, unit) result" where
  "store_entry name key val expires now_millis s ns0 st0 =
     (let c = charge key val;
          ((swept, swept_bytes), ns1) = sweep_expired now_millis ns0;
          st1 = bump_expirations swept (release swept swept_bytes (set_namespace name ns1 st0)) in
      case state_namespace st1 name of
        Inl e \<Rightarrow> (st1, Inl e)
      | Inr ns \<Rightarrow>
          let (r, ns2) = ns_remove key ns;
              st2 = set_namespace name ns2 st1;
              st3 = (case r of None \<Rightarrow> st2 | Some released \<Rightarrow> release 1 released st2) in
          (case evict_until_fits name c st3 of
             (st4, Inl e) \<Rightarrow> (st4, Inl e)
           | (st4, Inr _) \<Rightarrow>
               (case state_namespace st4 name of
                  Inl e \<Rightarrow> (st4, Inl e)
                | Inr ns4 \<Rightarrow>
                    let st5 = set_namespace name (insert_entry key val expires s c ns4) st4 in
                    (st5\<lparr>total_entries := sat_add (total_entries st5) 1,
                         total_bytes := sat_add (total_bytes st5) c,
                         puts := sat_add (puts st5) 1\<rparr>, Inr ()))))"

definition cache_write ::
  "str \<Rightarrow> str \<Rightarrow> str \<Rightarrow> int \<Rightarrow> nat \<Rightarrow> writer \<Rightarrow> cache \<Rightarrow> cache \<times> (cache_error, unit) result" where
  "cache_write name key val ttl_seconds now_millis w c0 =
     (if poisoned c0 then (c0, Inl lock_error)
      else
        let (s, c) = next_stamp c0 in
        case state_namespace (state c) name of
          Inl e \<Rightarrow> (c, Inl e)
        | Inr ns \<Rightarrow>
            if ns_mode (policy ns) = ReadOnly \<and> w = Guest then
              (c, Inl (NamespaceError ''cache namespace is configured read only''))
            else
              (case validate_key key (max_key_bytes (policy ns)) of
                 Inl e \<Rightarrow> (c, Inl e)
               | Inr _ \<Rightarrow>
                   if length val > max_value_bytes (policy ns) then
                     (c, Inl (LimitError ''cache value exceeds its configured byte bound''))
                   else if ttl_seconds < MIN_TTL_SECONDS \<or>
                           ttl_seconds > max_ttl_seconds (policy ns) then
                     (c, Inl (LimitError ''cache time to live is outside its configured bounds''))
                   else
                     (case deadline ttl_seconds now_millis of
                        None \<Rightarrow> (c, Inl (LimitError ''cache deadline overflowed''))
                      | Some expires \<Rightarrow>
                          (case store_entry name key val expires now_millis s ns (state c) of
                             (st, res) \<Rightarrow> (c\<lparr>state := st\<rparr>, res)))))"

definition cache_put ::
  "str \<Rightarrow> str \<Rightarrow> str \<Rightarrow> int \<Rightarrow> nat \<Rightarrow> cache \<Rightarrow> cache \<times> (cache_error, unit) result" where
  "cache_put name key val ttl now_millis = cache_write name key val ttl now_millis Guest"

definition cache_seed ::
  "str \<Rightarrow> str \<Rightarrow> str \<Rightarrow> int \<Rightarrow> nat \<Rightarrow> cache \<Rightarrow> cache \<times> (cache_error, unit) result" where
  "cache_seed name key val ttl now_millis = cache_write name key val ttl now_millis Host"

definition cache_delete :: "str \<Rightarrow> str \<Rightarrow> cache \<Rightarrow> cache \<times> (cache_error, unit) result" where
  "cache_delete name key c =
     (if poisoned c then (c, Inl lock_error)
      else
        let st = state c in
        case state_namespace st name of
          Inl e \<Rightarrow> (c, Inl e)
        | Inr ns \<Rightarrow>
            if ns_mode (policy ns) = ReadOnly then
              (c, Inl (NamespaceError ''cache namespace is configured read only''))
            else
              (case validate_key key (max_key_bytes (policy ns)) of
                 Inl e \<Rightarrow> (c, Inl e)
               | Inr _ \<Rightarrow>
                   let (r, ns') = ns_remove key ns;
                       st1 = set_namespace name ns' st;
                       st2 = (case r of None \<Rightarrow> st1 | Some released \<Rightarrow> release 1 released st1) in
                   (c\<lparr>state := st2\<lparr>deletes := sat_add (deletes st2) 1\<rparr>\<rparr>, Inr ())))"

section \<open>Accessors\<close>

text \<open>A poisoned lock reads as an empty cache.\<close>

definition cache_is_empty :: "cache \<Rightarrow> bool" where
  "cache_is_empty c \<longleftrightarrow> (if poisoned c then True else namespaces (state c) = [])"

definition namespace_names :: "cache \<Rightarrow> str list" where
  "namespace_names c = (if poisoned c then [] else map fst (namespaces (state c)))"

definition cache_mode :: "str \<Rightarrow> cache \<Rightarrow> namespace_mode option" where
  "cache_mode name c =
     (if poisoned c then None
      else map_option (\<lambda>ns. ns_mode (policy ns)) (om_get (namespaces (state c)) name))"

record cache_stats =
  stat_hits :: nat
  stat_misses :: nat
  stat_expirations :: nat
  stat_evictions :: nat
  stat_puts :: nat
  stat_deletes :: nat
  stat_entries :: nat
  stat_bytes :: nat

definition stats :: "cache \<Rightarrow> cache_stats" where
  "stats c =
     (if poisoned c then
        \<lparr>stat_hits = 0, stat_misses = 0, stat_expirations = 0, stat_evictions = 0, stat_puts = 0,
         stat_deletes = 0, stat_entries = 0, stat_bytes = 0\<rparr>
      else
        let st = state c in
        \<lparr>stat_hits = hits st, stat_misses = misses st, stat_expirations = expirations st,
         stat_evictions = evictions st, stat_puts = puts st, stat_deletes = deletes st,
         stat_entries = total_entries st, stat_bytes = total_bytes st\<rparr>)"

end
