(* ===== verification/Cache_Invariant.thy ===== *)
theory Cache_Invariant
  imports Cache
begin

text \<open>
  Correctness of the cache: the three structures of a namespace agree with each other, the
  byte and entry counts are exact, no budget is ever exceeded, and every operation keeps this.
\<close>

section \<open>Namespaces\<close>

definition charged :: "namespace \<Rightarrow> nat" where
  "charged ns = om_sum (\<lambda>k e. charge k (entry_value e)) (entries ns)"

definition ns_ok :: "namespace \<Rightarrow> bool" where
  "ns_ok ns \<longleftrightarrow>
     om_ok (entries ns) \<and> om_ok (by_access ns) \<and> om_ok (by_expiry ns) \<and>
     (\<forall>s k. om_get (by_access ns) s = Some k \<longleftrightarrow>
        (\<exists>e. om_get (entries ns) k = Some e \<and> stamp e = s)) \<and>
     (\<forall>t k. om_get (by_expiry ns) (t, k) = Some () \<longleftrightarrow>
        (\<exists>e. om_get (entries ns) k = Some e \<and> expires_at_millis e = t)) \<and>
     bytes ns = charged ns"

lemma ns_okD:
  assumes "ns_ok ns"
  shows "om_ok (entries ns)" "om_ok (by_access ns)" "om_ok (by_expiry ns)" "bytes ns = charged ns"
    "om_get (by_access ns) s = Some k \<longleftrightarrow> (\<exists>e. om_get (entries ns) k = Some e \<and> stamp e = s)"
    "om_get (by_expiry ns) (t, k) = Some () \<longleftrightarrow>
       (\<exists>e. om_get (entries ns) k = Some e \<and> expires_at_millis e = t)"
  using assms by (auto simp: ns_ok_def)

lemma ns_okI:
  assumes "om_ok (entries ns)" "om_ok (by_access ns)" "om_ok (by_expiry ns)" "bytes ns = charged ns"
    "\<And>s k. om_get (by_access ns) s = Some k \<longleftrightarrow> (\<exists>e. om_get (entries ns) k = Some e \<and> stamp e = s)"
    "\<And>t k. om_get (by_expiry ns) (t, k) = Some () \<longleftrightarrow>
       (\<exists>e. om_get (entries ns) k = Some e \<and> expires_at_millis e = t)"
  shows "ns_ok ns"
  unfolding ns_ok_def using assms by blast

lemma ns_ok_new [simp]: "ns_ok (namespace_new p)"
  by (simp add: ns_ok_def namespace_new_def om_ok_def om_get_def charged_def)

lemma ns_remove_None: "om_get (entries ns) key = None \<Longrightarrow> ns_remove key ns = (None, ns)"
  by (simp add: ns_remove_def)

lemma ns_remove_Some:
  assumes ok: "ns_ok ns" and e: "om_get (entries ns) key = Some e"
  obtains ns' where "ns_remove key ns = (Some (charge key (entry_value e)), ns')" "ns_ok ns'"
    "policy ns' = policy ns" "om_get (entries ns') = (om_get (entries ns))(key := None)"
    "bytes ns = bytes ns' + charge key (entry_value e)"
    "length (entries ns) = Suc (length (entries ns'))"
proof -
  note d = ns_okD [OF ok]
  let ?r = "charge key (entry_value e)"
  let ?ns = "ns\<lparr>entries := om_remove key (entries ns),
              by_access := om_remove (stamp e) (by_access ns),
              by_expiry := om_remove (expires_at_millis e, key) (by_expiry ns),
              bytes := bytes ns - ?r\<rparr>"
  have r: "ns_remove key ns = (Some ?r, ?ns)" using e by (simp add: ns_remove_def Let_def)
  have b: "charged ns = ?r + charged ?ns"
    using om_sum_remove [OF d(1) e, of "\<lambda>k e. charge k (entry_value e)"] by (simp add: charged_def)
  have a: "om_get (by_access ?ns) s = Some k \<longleftrightarrow>
        (\<exists>e. om_get (entries ?ns) k = Some e \<and> stamp e = s)" for s k
    using e d(5) [of s k] d(5) [of "stamp e" key] by (auto simp: om_get_rem)
  have x: "om_get (by_expiry ?ns) (t, k) = Some () \<longleftrightarrow>
        (\<exists>e. om_get (entries ?ns) k = Some e \<and> expires_at_millis e = t)" for t k
    using e d(6) [of t k] by (auto simp: om_get_rem)
  have "ns_ok ?ns"
    by (rule ns_okI [OF _ _ _ _ a x]) (use d(1-4) b in \<open>simp_all add: om.ok_rem\<close>)
  moreover have "om_get (entries ?ns) = (om_get (entries ns))(key := None)"
    by (simp add: om_get_rem)
  moreover have "bytes ns = bytes ?ns + ?r" using d(4) b by simp
  moreover have "length (entries ns) = Suc (length (entries ?ns))"
    using om.card_rem_old [OF d(1) e] by simp
  ultimately show ?thesis using that r by force
qed

lemma insert_entry_ok:
  assumes ok: "ns_ok ns" and new: "om_get (entries ns) key = None"
    and fresh: "\<forall>k e. om_get (entries ns) k = Some e \<longrightarrow> stamp e \<noteq> s"
    and fits: "bytes ns + charge key val \<le> u64_max"
  shows "ns_ok (insert_entry key val expires s (charge key val) ns)"
    "length (entries (insert_entry key val expires s (charge key val) ns)) = Suc (length (entries ns))"
    "bytes (insert_entry key val expires s (charge key val) ns) = bytes ns + charge key val"
proof -
  note d = ns_okD [OF ok]
  let ?ns = "insert_entry key val expires s (charge key val) ns"
  show b: "bytes ?ns = bytes ns + charge key val"
    using fits by (simp add: insert_entry_def sat_add_exact)
  show "length (entries ?ns) = Suc (length (entries ns))"
    using om.card_ins_new [OF d(1) new] by (simp add: insert_entry_def)
  have c: "charged ?ns = charge key val + charged ns"
    using om_sum_insert_new [OF new, of "\<lambda>k e. charge k (entry_value e)"]
    by (simp add: charged_def insert_entry_def)
  have a: "om_get (by_access ?ns) s' = Some k \<longleftrightarrow>
        (\<exists>e. om_get (entries ?ns) k = Some e \<and> stamp e = s')" for s' k
    using new fresh d(5) [of s' k] by (auto simp: insert_entry_def om_get_ins)
  have x: "om_get (by_expiry ?ns) (t, k) = Some () \<longleftrightarrow>
        (\<exists>e. om_get (entries ?ns) k = Some e \<and> expires_at_millis e = t)" for t k
    using new d(6) [of t k] by (auto simp: insert_entry_def om_get_ins)
  show "ns_ok ?ns"
    by (rule ns_okI [OF _ _ _ _ a x])
       (use d(1-4) b c in \<open>simp_all add: insert_entry_def om.ok_ins\<close>)
qed

lemma touch_ok:
  assumes ok: "ns_ok ns" and e: "om_get (entries ns) key = Some e"
    and fresh: "\<forall>k e. om_get (entries ns) k = Some e \<longrightarrow> stamp e \<noteq> s"
  shows "ns_ok (touch key e s ns)" "length (entries (touch key e s ns)) = length (entries ns)"
    "bytes (touch key e s ns) = bytes ns"
    "om_get (entries (touch key e s ns)) = (om_get (entries ns))(key \<mapsto> e\<lparr>stamp := s\<rparr>)"
    "policy (touch key e s ns) = policy ns"
proof -
  note d = ns_okD [OF ok]
  let ?ns = "touch key e s ns"
  show b: "bytes ?ns = bytes ns" "policy ?ns = policy ns" by (simp_all add: touch_def)
  show g: "om_get (entries ?ns) = (om_get (entries ns))(key \<mapsto> e\<lparr>stamp := s\<rparr>)"
    using e by (simp add: touch_def om_get_upd)
  show "length (entries ?ns) = length (entries ns)"
    using om.card_upd [OF d(1)] by (simp add: touch_def)
  have c: "charged ?ns = charged ns"
    using om_sum_update [OF e, of "\<lambda>k e. charge k (entry_value e)" "e\<lparr>stamp := s\<rparr>"]
    by (simp add: charged_def touch_def)
  have a: "om_get (by_access ?ns) s' = Some k \<longleftrightarrow>
        (\<exists>e. om_get (entries ?ns) k = Some e \<and> stamp e = s')" for s' k
    unfolding g using e fresh d(5) [of s' k] d(5) [of "stamp e" key]
    by (auto simp: touch_def om_get_ins om_get_rem)
  have x: "om_get (by_expiry ?ns) (t, k) = Some () \<longleftrightarrow>
        (\<exists>e. om_get (entries ?ns) k = Some e \<and> expires_at_millis e = t)" for t k
    unfolding g using e d(6) [of t k] by (auto simp: touch_def)
  show "ns_ok ?ns"
    by (rule ns_okI [OF _ _ _ _ a x])
       (use d(1-4) c in \<open>simp_all add: touch_def om.ok_ins om.ok_rem om.ok_upd\<close>)
qed

text \<open>\<open>ns_drops n b ns ns'\<close>: \<open>ns'\<close> is \<open>ns\<close> less \<open>n\<close> entries that were charged \<open>b\<close> bytes.\<close>

definition ns_drops :: "nat \<Rightarrow> nat \<Rightarrow> namespace \<Rightarrow> namespace \<Rightarrow> bool" where
  "ns_drops n b ns ns' \<longleftrightarrow>
     ns_ok ns' \<and> policy ns' = policy ns \<and> om_get (entries ns') \<subseteq>\<^sub>m om_get (entries ns) \<and>
     length (entries ns) = n + length (entries ns') \<and> bytes ns = b + bytes ns'"

lemma ns_drops_refl: "ns_ok ns \<Longrightarrow> ns_drops 0 0 ns ns"
  by (simp add: ns_drops_def)

lemma ns_drops_trans:
  "ns_drops n b ns ns' \<Longrightarrow> ns_drops m c ns' ns'' \<Longrightarrow> ns_drops (n + m) (b + c) ns ns''"
  by (auto simp: ns_drops_def intro: map_le_trans)

definition ns_shrunk :: "namespace \<Rightarrow> namespace \<Rightarrow> bool" where
  "ns_shrunk ns ns' \<longleftrightarrow> (\<exists>n b. ns_drops n b ns ns')"

lemma ns_shrunk_intros:
  "ns_ok ns \<Longrightarrow> ns_shrunk ns ns"
  "ns_shrunk ns ns' \<Longrightarrow> ns_shrunk ns' ns'' \<Longrightarrow> ns_shrunk ns ns''"
  "ns_drops n b ns ns' \<Longrightarrow> ns_shrunk ns ns'"
  unfolding ns_shrunk_def using ns_drops_refl ns_drops_trans by blast+

lemma ns_shrunkD:
  assumes "ns_shrunk ns ns'"
  shows "ns_ok ns'" "policy ns' = policy ns" "om_get (entries ns') \<subseteq>\<^sub>m om_get (entries ns)"
    "length (entries ns') \<le> length (entries ns)" "bytes ns' \<le> bytes ns"
  using assms by (auto simp: ns_shrunk_def ns_drops_def)

lemma ns_remove_drops:
  assumes "ns_ok ns" "om_get (entries ns) key = Some e"
  obtains r ns' where "ns_remove key ns = (Some r, ns')" "ns_drops 1 r ns ns'"
    "om_get (entries ns') = (om_get (entries ns))(key := None)" "r = charge key (entry_value e)"
proof (rule ns_remove_Some [OF assms])
  fix ns'
  assume "ns_remove key ns = (Some (charge key (entry_value e)), ns')" "ns_ok ns'"
    "policy ns' = policy ns" "om_get (entries ns') = (om_get (entries ns))(key := None)"
    "bytes ns = bytes ns' + charge key (entry_value e)"
    "length (entries ns) = Suc (length (entries ns'))"
  then show ?thesis using that by (auto simp: ns_drops_def map_le_def)
qed

lemma ns_evict_one_drops:
  assumes ok: "ns_ok ns" and ne: "entries ns \<noteq> []"
  obtains s key e r ns' where "ns_evict_one ns = (Some r, ns')" "ns_drops 1 r ns ns'"
    "om_get (entries ns) key = Some e"
    "om_get (entries ns') = (om_get (entries ns))(key := None)"
    "\<And>k e'. om_get (entries ns) k = Some e' \<Longrightarrow> stamp e \<le> stamp e'"
proof -
  note d = ns_okD [OF ok]
  obtain k0 e0 es where "entries ns = (k0, e0) # es"
    using ne by (metis list.exhaust surj_pair)
  then have "om_get (entries ns) k0 = Some e0" by (simp add: om_get_def)
  then have "om_get (by_access ns) (stamp e0) = Some k0" using d(5) by blast
  then obtain s key where f: "om_first (by_access ns) = Some (s, key)"
    using om.first_exists [OF d(2)] by blast
  then have "om_get (by_access ns) s = Some key" by (rule om.first_Some [OF d(2)])
  then obtain e where e: "om_get (entries ns) key = Some e" "stamp e = s" using d(5) by blast
  have least: "stamp e \<le> stamp e'" if "om_get (entries ns) k = Some e'" for k e'
    using om.first_le [OF d(2) f, of "stamp e'" k] d(5) that e(2) by blast
  obtain r ns' where "ns_remove key ns = (Some r, ns')" "ns_drops 1 r ns ns'"
    "om_get (entries ns') = (om_get (entries ns))(key := None)"
    using ns_remove_drops [OF ok e(1)] by metis
  with f e(1) least that show ?thesis by (simp add: ns_evict_one_def)
qed

lemma sweep_from_drops:
  assumes "ns_ok ns" "sweep_from now removed released ns = ((m, b), ns')"
  shows "\<exists>n c. m = removed + n \<and> b = released + c \<and> ns_drops n c ns ns' \<and>
     (\<forall>k e. om_get (entries ns) k = Some e \<and> now < expires_at_millis e \<longrightarrow>
        om_get (entries ns') k = Some e)"
  using assms
proof (induction now removed released ns rule: sweep_from.induct)
  case (1 now removed released ns)
  note d = ns_okD [OF "1.prems"(1)]
  show ?case
  proof (cases "removed < MAX_SWEEP_PER_OPERATION \<and>
      (\<exists>t k. om_first (by_expiry ns) = Some ((t, k), ()) \<and> t \<le> now)")
    case False
    then have "((m, b), ns') = ((removed, released), ns)"
      using "1.prems"(2) by (auto simp: sweep_from.simps [of now removed released ns]
          split: if_splits option.splits prod.splits)
    then show ?thesis using ns_drops_refl [OF "1.prems"(1)] by auto
  next
    case True
    then obtain t k where f: "om_first (by_expiry ns) = Some ((t, k), ())" and t: "t \<le> now"
      and m: "removed < MAX_SWEEP_PER_OPERATION" by blast
    have "om_get (by_expiry ns) (t, k) = Some ()" by (rule om.first_Some [OF d(3) f])
    then obtain e where e: "om_get (entries ns) k = Some e" "expires_at_millis e = t"
      using d(6) by blast
    obtain r ns1 where r: "ns_remove k ns = (Some r, ns1)" "ns_drops 1 r ns ns1"
      "om_get (entries ns1) = (om_get (entries ns))(k := None)"
      using ns_remove_drops [OF "1.prems"(1) e(1)] by metis
    have s: "sweep_from now (removed + 1) (released + r) ns1 = ((m, b), ns')"
      using "1.prems"(2) m f t r(1) by (simp add: sweep_from.simps [of now removed released ns])
    have "ns_ok ns1" using r(2) by (simp add: ns_drops_def)
    from "1.IH"(2) [OF m f refl refl _ r(1) [symmetric] refl this s] t
    obtain n c where "m = removed + 1 + n" "b = released + r + c" "ns_drops n c ns1 ns'"
      and keep: "\<forall>k e. om_get (entries ns1) k = Some e \<and> now < expires_at_millis e \<longrightarrow>
        om_get (entries ns') k = Some e"
      by auto
    moreover have "om_get (entries ns') k' = Some e'"
      if "om_get (entries ns) k' = Some e'" "now < expires_at_millis e'" for k' e'
      using keep that e t r(3) by (cases "k' = k") auto
    ultimately show ?thesis using ns_drops_trans [OF r(2)] by fastforce
  qed
qed

section \<open>The whole cache\<close>

definition state_ok :: "cache_state \<Rightarrow> bool" where
  "state_ok st \<longleftrightarrow>
     om_ok (namespaces st) \<and> (\<forall>name ns. om_get (namespaces st) name = Some ns \<longrightarrow> ns_ok ns) \<and>
     total_entries st = live_entries st \<and>
     total_bytes st = om_sum (\<lambda>_ ns. bytes ns) (namespaces st)"

definition within_budget :: "cache_state \<Rightarrow> bool" where
  "within_budget st \<longleftrightarrow>
     (\<forall>name ns. om_get (namespaces st) name = Some ns \<longrightarrow>
        length (entries ns) \<le> max_entries (policy ns) \<and> bytes ns \<le> max_bytes (policy ns)) \<and>
     total_entries st \<le> max_total_entries st \<and> total_bytes st \<le> max_total_bytes st"

definition policies_ok :: "cache_state \<Rightarrow> bool" where
  "policies_ok st \<longleftrightarrow>
     (\<forall>name ns. om_get (namespaces st) name = Some ns \<longrightarrow>
        policy_validate (policy ns) = Inr () \<and>
        max_entries (policy ns) \<le> max_total_entries st \<and>
        max_bytes (policy ns) \<le> max_total_bytes st \<and> max_total_bytes st \<le> MAX_TOTAL_BYTES \<and>
        max_total_entries st \<le> MAX_TOTAL_ENTRIES)"

definition cached :: "cache_state \<Rightarrow> str \<Rightarrow> str \<Rightarrow> cache_entry option" where
  "cached st name key = Option.bind (om_get (namespaces st) name) (\<lambda>ns. om_get (entries ns) key)"

definition stamps_upto :: "nat \<Rightarrow> cache_state \<Rightarrow> bool" where
  "stamps_upto s st \<longleftrightarrow> (\<forall>name key e. cached st name key = Some e \<longrightarrow> stamp e \<le> s)"

definition cache_inv :: "cache \<Rightarrow> bool" where
  "cache_inv c \<longleftrightarrow>
     state_ok (state c) \<and> within_budget (state c) \<and> policies_ok (state c) \<and>
     stamps_upto (stamp_counter c) (state c) \<and> stamp_counter c \<le> u64_max"

text \<open>
  \<open>drops st st'\<close>: \<open>st'\<close> is a well-formed state with the same configuration as \<open>st\<close> and no entry
  that \<open>st\<close> does not have.
\<close>

definition drops :: "cache_state \<Rightarrow> cache_state \<Rightarrow> bool" where
  "drops st st' \<longleftrightarrow>
     state_ok st' \<and> max_total_entries st' = max_total_entries st \<and>
     max_total_bytes st' = max_total_bytes st \<and>
     total_entries st' \<le> total_entries st \<and> total_bytes st' \<le> total_bytes st \<and>
     (\<forall>name. case om_get (namespaces st) name of
         None \<Rightarrow> om_get (namespaces st') name = None
       | Some ns \<Rightarrow> \<exists>ns'. om_get (namespaces st') name = Some ns' \<and> ns_shrunk ns ns')"

lemma drops_refl: "state_ok st \<Longrightarrow> drops st st"
  by (auto simp: drops_def state_ok_def intro: ns_shrunk_intros split: option.splits)

lemma drops_None: "drops st st' \<Longrightarrow> om_get (namespaces st) name = None \<Longrightarrow>
    om_get (namespaces st') name = None"
  unfolding drops_def by (elim conjE, drule spec [of _ name], simp)

lemma drops_Some:
  assumes "drops st st'" "om_get (namespaces st) name = Some ns"
  obtains ns' where "om_get (namespaces st') name = Some ns'" "ns_shrunk ns ns'"
proof -
  have "\<exists>ns'. om_get (namespaces st') name = Some ns' \<and> ns_shrunk ns ns'"
    using assms unfolding drops_def by (elim conjE, drule_tac spec [of _ name], simp)
  then show ?thesis using that by blast
qed

lemma drops_trans: "drops st st' \<Longrightarrow> drops st' st'' \<Longrightarrow> drops st st''"
proof -
  assume a: "drops st st'" "drops st' st''"
  have "case om_get (namespaces st) name of
         None \<Rightarrow> om_get (namespaces st'') name = None
       | Some ns \<Rightarrow> \<exists>ns'. om_get (namespaces st'') name = Some ns' \<and> ns_shrunk ns ns'" for name
  proof (cases "om_get (namespaces st) name")
    case None
    then show ?thesis using drops_None [OF a(1)] drops_None [OF a(2)] by simp
  next
    case (Some ns)
    obtain ns1 where 1: "om_get (namespaces st') name = Some ns1" "ns_shrunk ns ns1"
      using a(1) Some by (rule drops_Some)
    obtain ns2 where "om_get (namespaces st'') name = Some ns2" "ns_shrunk ns1 ns2"
      using a(2) 1(1) by (rule drops_Some)
    with 1 Some show ?thesis using ns_shrunk_intros(2) by auto
  qed
  with a show ?thesis by (auto simp: drops_def)
qed

lemma state_okD:
  assumes "state_ok st"
  shows "om_ok (namespaces st)" "total_entries st = live_entries st"
    "total_bytes st = om_sum (\<lambda>_ ns. bytes ns) (namespaces st)"
    "om_get (namespaces st) name = Some ns \<Longrightarrow> ns_ok ns"
  using assms by (auto simp: state_ok_def)

lemma replace_drops:
  assumes ok: "state_ok st" and ns: "om_get (namespaces st) name = Some ns"
    and d: "ns_drops n b ns ns'"
  shows "drops st (release n b (set_namespace name ns' st))"
proof -
  note s = state_okD [OF ok]
  let ?st = "release n b (set_namespace name ns' st)"
  have g: "om_get (namespaces ?st) = (om_get (namespaces st))(name \<mapsto> ns')"
    using ns by (simp add: release_def set_namespace_def om_get_upd)
  have l: "live_entries st = n + live_entries ?st"
    using om_sum_update [OF ns, of "\<lambda>_ ns. length (entries ns)" ns'] d
    by (simp add: live_entries_def release_def set_namespace_def ns_drops_def)
  have t: "om_sum (\<lambda>_ ns. bytes ns) (namespaces st) =
      b + om_sum (\<lambda>_ ns. bytes ns) (namespaces ?st)"
    using om_sum_update [OF ns, of "\<lambda>_ ns. bytes ns" ns'] d
    by (simp add: release_def set_namespace_def ns_drops_def)
  have "om_ok (namespaces ?st)" using s(1) by (simp add: release_def set_namespace_def om.ok_upd)
  moreover have "total_entries ?st = total_entries st - n" "total_bytes ?st = total_bytes st - b"
    "max_total_entries ?st = max_total_entries st" "max_total_bytes ?st = max_total_bytes st"
    by (simp_all add: release_def set_namespace_def)
  moreover have "ns_ok ns'" using d by (simp add: ns_drops_def)
  ultimately have "state_ok ?st" using s g l t by (auto simp: state_ok_def)
  moreover have "total_entries ?st \<le> total_entries st" "total_bytes ?st \<le> total_bytes st"
    "max_total_entries ?st = max_total_entries st" "max_total_bytes ?st = max_total_bytes st"
    by (simp_all add: release_def set_namespace_def)
  ultimately show ?thesis
    using s(4) g ns ns_shrunk_intros(1) ns_shrunk_intros(3) [OF d]
    by (auto simp: drops_def split: option.splits)
qed

lemma drops_counters [simp]:
  "drops st (st'\<lparr>evictions := n\<rparr>) = drops st st'" "drops st (st'\<lparr>hits := n\<rparr>) = drops st st'"
  "drops st (st'\<lparr>misses := n\<rparr>) = drops st st'" "drops st (st'\<lparr>puts := n\<rparr>) = drops st st'"
  "drops st (st'\<lparr>expirations := n\<rparr>) = drops st st'" "drops st (st'\<lparr>deletes := n\<rparr>) = drops st st'"
  by (simp_all add: drops_def state_ok_def live_entries_def cong: option.case_cong)

lemma drops_bumps [simp]:
  "drops st (bump_misses st') = drops st st'"
  "drops st (bump_expirations n st') = drops st st'"
  "drops st (evicted r st') = drops st (release 1 r st')"
  by (simp_all add: bump_misses_def bump_expirations_def evicted_def Let_def)

lemma drops_cached: "drops st st' \<Longrightarrow> cached st' name key = Some e \<Longrightarrow> cached st name key = Some e"
proof -
  assume d: "drops st st'" and c: "cached st' name key = Some e"
  obtain ns where ns: "om_get (namespaces st) name = Some ns"
    using c drops_None [OF d, of name]
    by (cases "om_get (namespaces st) name") (auto simp: cached_def)
  then obtain ns' where "om_get (namespaces st') name = Some ns'" "ns_shrunk ns ns'"
    using drops_Some [OF d] by blast
  moreover from this have "om_get (entries ns') \<subseteq>\<^sub>m om_get (entries ns)" by (auto dest: ns_shrunkD)
  ultimately show ?thesis using c ns by (force simp: cached_def map_le_def)
qed

lemma min_by_key_Some:
  "xs \<noteq> [] \<Longrightarrow> \<exists>x. min_by_key xs = Some x \<and> x \<in> set xs \<and> (\<forall>y \<in> set xs. fst x \<le> fst y)"
proof (induction xs)
  case (Cons x xs)
  show ?case
  proof (cases "xs = []")
    case False
    with Cons.IH obtain y where "min_by_key xs = Some y" "y \<in> set xs" "\<forall>z \<in> set xs. fst y \<le> fst z"
      by blast
    then show ?thesis by (auto intro: order_trans)
  qed simp
qed simp

lemma oldest_stamps_set:
  "(s, name) \<in> set (oldest_stamps nss) \<longleftrightarrow>
     (\<exists>ns key. (name, ns) \<in> set nss \<and> om_first (by_access ns) = Some (s, key))"
  unfolding oldest_stamps_def List.map_filter_def by (force split: option.splits prod.splits)

lemma evict_globally_drops:
  assumes ok: "state_ok st" and ne: "live_entries st \<noteq> 0"
  obtains r st' name key e where "evict_globally st = (Some r, st')" "drops st (evicted r st')"
    "cached st name key = Some e"
    "cached st' name key = None"
    "\<And>n k e'. cached st n k = Some e' \<Longrightarrow> stamp e \<le> stamp e'"
    "\<And>n k. (n, k) \<noteq> (name, key) \<Longrightarrow> cached st' n k = cached st n k"
proof -
  note s = state_okD [OF ok]
  have first: "\<exists>t k'. (t, n) \<in> set (oldest_stamps (namespaces st)) \<and>
      om_first (by_access ns) = Some (t, k') \<and> t \<le> stamp e'"
    if "om_get (namespaces st) n = Some ns" "om_get (entries ns) k = Some e'" for n ns k e'
  proof -
    note d = ns_okD [OF s(4) [OF that(1)]]
    have a: "om_get (by_access ns) (stamp e') = Some k" using d(5) that(2) by blast
    then obtain t k' where f: "om_first (by_access ns) = Some (t, k')"
      using om.first_exists [OF d(2)] by blast
    moreover have "(n, ns) \<in> set (namespaces st)" using that(1) om_get_set [OF s(1)] by blast
    moreover have "t \<le> stamp e'" using om.first_le [OF d(2) f a] .
    ultimately show ?thesis by (auto simp: oldest_stamps_set)
  qed
  obtain n0 ns0 where n0: "(n0, ns0) \<in> set (namespaces st)" "entries ns0 \<noteq> []"
    using ne om_sum_zero [of "namespaces st" "\<lambda>_ ns. length (entries ns)"]
    by (auto simp: live_entries_def)
  obtain k0 e0 es where "entries ns0 = (k0, e0) # es" using n0(2) by (metis list.exhaust surj_pair)
  then have "om_get (entries ns0) k0 = Some e0" by (simp add: om_get_def)
  moreover have "om_get (namespaces st) n0 = Some ns0" using n0(1) om_get_set [OF s(1)] by blast
  ultimately have "oldest_stamps (namespaces st) \<noteq> []" using first by fastforce
  then obtain t name where m: "min_by_key (oldest_stamps (namespaces st)) = Some (t, name)"
    "(t, name) \<in> set (oldest_stamps (namespaces st))"
    "\<And>y. y \<in> set (oldest_stamps (namespaces st)) \<Longrightarrow> t \<le> fst y"
    using min_by_key_Some by (metis fst_conv surj_pair)
  then obtain ns fkey where ns: "om_get (namespaces st) name = Some ns"
    and f: "om_first (by_access ns) = Some (t, fkey)"
    using om_get_set [OF s(1)] by (auto simp: oldest_stamps_set)
  note d = ns_okD [OF s(4) [OF ns]]
  have "om_get (by_access ns) t = Some fkey" using om.first_Some [OF d(2) f] .
  then have "entries ns \<noteq> []" using d(5) by (auto simp: om_get_def)
  then obtain key e r ns' where e: "ns_evict_one ns = (Some r, ns')" "ns_drops 1 r ns ns'"
    "om_get (entries ns) key = Some e" "om_get (entries ns') = (om_get (entries ns))(key := None)"
    "\<And>k e'. om_get (entries ns) k = Some e' \<Longrightarrow> stamp e \<le> stamp e'"
    using ns_evict_one_drops [OF s(4) [OF ns]] by metis
  obtain fe where "om_get (entries ns) fkey = Some fe" "stamp fe = t"
    using d(5) [of t fkey] \<open>om_get (by_access ns) t = Some fkey\<close> by auto
  then have "stamp e \<le> t" using e(5) by blast
  then have least: "stamp e \<le> stamp e'" if "cached st n k = Some e'" for n k e'
    using first [of n _ k e'] m(3) that by (fastforce simp: cached_def bind_eq_Some_conv)
  let ?st = "set_namespace name ns' st"
  have g: "evict_globally st = (Some r, ?st)"
    using m(1) ns e(1) by (simp add: evict_globally_def)
  have "drops st (evicted r ?st)" using replace_drops [OF ok ns e(2)] by simp
  moreover have "cached st name key = Some e" using ns e(3) by (simp add: cached_def)
  moreover have "cached ?st n k = (if (n, k) = (name, key) then None else cached st n k)" for n k
    using ns e(4) by (auto simp: cached_def set_namespace_def om_get_upd)
  ultimately show ?thesis using that g least by simp
qed

lemma evict_globally_None:
  assumes ok: "state_ok st" and z: "live_entries st = 0"
  shows "evict_globally st = (None, st)"
proof -
  note s = state_okD [OF ok]
  have "om_first (by_access ns) = None" if "(name, ns) \<in> set (namespaces st)" for name ns
  proof -
    have g: "om_get (namespaces st) name = Some ns" using that om_get_set [OF s(1)] by blast
    note d = ns_okD [OF s(4) [OF g]]
    have "length (entries ns) \<le> live_entries st"
      unfolding live_entries_def using om_sum_ge [OF g, of "\<lambda>_ ns. length (entries ns)"] by simp
    then have "entries ns = []" using z by simp
    then have "om_get (by_access ns) t = None" for t
      using d(5) [of t] by (cases "om_get (by_access ns) t") (auto simp: om_get_def)
    then show ?thesis using om.first_None [OF d(2)] by auto
  qed
  then have "oldest_stamps (namespaces st) = []"
    by (auto simp: oldest_stamps_def List.map_filter_def filter_empty_conv)
  then show ?thesis by (simp add: evict_globally_def)
qed

lemma drops_keeps:
  assumes "drops st st'"
  shows "state_ok st'" "within_budget st \<Longrightarrow> within_budget st'" "policies_ok st \<Longrightarrow> policies_ok st'"
    "stamps_upto s st \<Longrightarrow> stamps_upto s st'"
proof -
  have shrunk: "\<exists>ns. om_get (namespaces st) name = Some ns \<and> ns_shrunk ns ns'"
    if "om_get (namespaces st') name = Some ns'" for name ns'
  proof (cases "om_get (namespaces st) name")
    case None
    then show ?thesis using drops_None [OF assms] that by simp
  next
    case (Some ns)
    then show ?thesis using drops_Some [OF assms] that by (metis option.inject)
  qed
  have t: "max_total_entries st' = max_total_entries st" "max_total_bytes st' = max_total_bytes st"
    "total_entries st' \<le> total_entries st" "total_bytes st' \<le> total_bytes st"
    using assms by (simp_all add: drops_def)
  show "state_ok st'" using assms by (simp add: drops_def)
  show "within_budget st'" if "within_budget st"
    unfolding within_budget_def
  proof (intro conjI allI impI)
    fix name ns' assume "om_get (namespaces st') name = Some ns'"
    then obtain ns where ns: "om_get (namespaces st) name = Some ns" "ns_shrunk ns ns'"
      using shrunk by blast
    then have "length (entries ns) \<le> max_entries (policy ns)" "bytes ns \<le> max_bytes (policy ns)"
      using that by (auto simp: within_budget_def)
    with ns_shrunkD [OF ns(2)] show "length (entries ns') \<le> max_entries (policy ns')"
      "bytes ns' \<le> max_bytes (policy ns')" by auto
  qed (use that t in \<open>auto simp: within_budget_def\<close>)
  show "policies_ok st'" if "policies_ok st"
    unfolding policies_ok_def t
  proof (intro allI impI)
    fix name ns' assume "om_get (namespaces st') name = Some ns'"
    then obtain ns where ns: "om_get (namespaces st) name = Some ns" "ns_shrunk ns ns'"
      using shrunk by blast
    then show "policy_validate (policy ns') = Inr () \<and>
        max_entries (policy ns') \<le> max_total_entries st \<and>
        max_bytes (policy ns') \<le> max_total_bytes st \<and> max_total_bytes st \<le> MAX_TOTAL_BYTES \<and>
        max_total_entries st \<le> MAX_TOTAL_ENTRIES"
      using that ns_shrunkD(2) [OF ns(2)] by (auto simp: policies_ok_def)
  qed
  show "stamps_upto s st'" if "stamps_upto s st"
    using that drops_cached [OF assms] unfolding stamps_upto_def by blast
qed

lemma set_namespace_same: "state_ok st \<Longrightarrow> om_get (namespaces st) name = Some ns \<Longrightarrow>
    drops st (set_namespace name ns st)"
proof -
  assume a: "state_ok st" "om_get (namespaces st) name = Some ns"
  have "release 0 0 (set_namespace name ns st) = set_namespace name ns st"
    by (simp add: release_def)
  then show ?thesis
    using replace_drops [OF a ns_drops_refl [OF state_okD(4) [OF a]]] by simp
qed

lemma ns_evict_one_None:
  assumes "ns_ok ns" "entries ns = []"
  shows "ns_evict_one ns = (None, ns)"
proof -
  have "om_get (by_access ns) t = None" for t
    using ns_okD(5) [OF assms(1), of t] assms(2)
    by (cases "om_get (by_access ns) t") (auto simp: om_get_def)
  then show ?thesis
    using om.first_None [OF ns_okD(2) [OF assms(1)]] by (auto simp: ns_evict_one_def)
qed

text \<open>One turn of the eviction loop: it is done, it fails on an empty cache, or it drops an entry.\<close>

lemma evict_until_fits_cases [consumes 2, case_names Done Fail Evict]:
  assumes ok: "state_ok st" and ns: "om_get (namespaces st) name = Some ns"
  obtains "namespace_fits c ns" "global_fits c st" "evict_until_fits name c st = (st, Inr ())"
  | e st' where "evict_until_fits name c st = (st', Inl e)" "drops st st'"
      "\<not> namespace_fits c ns \<and> entries ns = [] \<or> \<not> global_fits c st \<and> live_entries st = 0"
  | st1 where "drops st st1" "live_entries st1 < live_entries st"
      "evict_until_fits name c st = evict_until_fits name c st1"
proof -
  have n: "state_namespace st name = Inr ns" using ns by (simp add: state_namespace_def)
  note eq = evict_until_fits.simps [of name c st]
  note nsok = state_okD(4) [OF ok ns]
  consider "\<not> namespace_fits c ns" "entries ns = []" | "\<not> namespace_fits c ns" "entries ns \<noteq> []"
    | "namespace_fits c ns" "global_fits c st"
    | "namespace_fits c ns" "\<not> global_fits c st" "live_entries st = 0"
    | "namespace_fits c ns" "\<not> global_fits c st" "live_entries st \<noteq> 0" by blast
  then show ?thesis
  proof cases
    case 1
    then show ?thesis
      using that(2) eq n ns_evict_one_None [OF nsok] set_namespace_same [OF ok ns] by auto
  next
    case 2
    obtain r ns' where e: "ns_evict_one ns = (Some r, ns')" "ns_drops 1 r ns ns'"
      using ns_evict_one_drops [OF nsok 2(2)] by metis
    have "drops st (evicted r (set_namespace name ns' st))"
      using replace_drops [OF ok ns e(2)] by simp
    moreover have "live_entries (evicted r (set_namespace name ns' st)) < live_entries st"
      using live_entries_set_namespace [OF ns] e(2) by (simp add: ns_drops_def)
    moreover have "evict_until_fits name c st =
        evict_until_fits name c (evicted r (set_namespace name ns' st))"
      using eq n 2 e(1) by simp
    ultimately show ?thesis by (rule that(3))
  next
    case 3
    then show ?thesis using that(1) eq n by simp
  next
    case 4
    then show ?thesis using that(2) eq n evict_globally_None [OF ok] drops_refl [OF ok] by auto
  next
    case 5
    obtain r st1 where e: "evict_globally st = (Some r, st1)" "drops st (evicted r st1)"
      using evict_globally_drops [OF ok 5(3)] by metis
    have "live_entries (evicted r st1) < live_entries st"
      using evict_globally_shrinks [OF e(1)] by simp
    moreover have "evict_until_fits name c st = evict_until_fits name c (evicted r st1)"
      using eq n 5 e(1) by simp
    ultimately show ?thesis using that(3) [OF e(2)] by blast
  qed
qed

lemma evict_until_fits_drops:
  assumes "state_ok st" "om_get (namespaces st) name = Some ns"
    and "evict_until_fits name c st = (st', res)"
  shows "drops st st' \<and> (res = Inr () \<longrightarrow>
     (\<exists>ns'. om_get (namespaces st') name = Some ns' \<and> namespace_fits c ns' \<and> global_fits c st'))"
  using assms
proof (induction "live_entries st" arbitrary: st ns rule: less_induct)
  case less
  from less.prems(1,2) show ?case
  proof (cases rule: evict_until_fits_cases [where c = c])
    case Done
    then show ?thesis using less.prems drops_refl by auto
  next
    case (Fail e st1)
    then show ?thesis using less.prems(3) by auto
  next
    case (Evict st1)
    obtain ns1 where "om_get (namespaces st1) name = Some ns1"
      using drops_Some [OF Evict(1) less.prems(2)] .
    then show ?thesis
      using less.hyps [OF Evict(2) drops_keeps(1) [OF Evict(1)]] Evict(3) less.prems(3)
        drops_trans [OF Evict(1)] by metis
  qed
qed

lemma empty_ns_fits:
  assumes "ns_ok ns" "entries ns = []" "0 < max_entries (policy ns)" "c \<le> max_bytes (policy ns)"
  shows "namespace_fits c ns"
  using assms ns_okD(4) [OF assms(1)] sat_add_le(1) [of 0 c]
  by (auto simp: namespace_fits_def charged_def)

lemma empty_state_fits:
  assumes ok: "state_ok st" and z: "live_entries st = 0"
    and "0 < max_total_entries st" "c \<le> max_total_bytes st"
  shows "global_fits c st"
proof -
  note s = state_okD [OF ok]
  have "bytes n = 0" if "(k, n) \<in> set (namespaces st)" for k n
  proof -
    have g: "om_get (namespaces st) k = Some n" using that om_get_set [OF s(1)] by blast
    have "length (entries n) \<le> live_entries st"
      using om_sum_ge [OF g, of "\<lambda>_ n. length (entries n)"] by (simp add: live_entries_def)
    with z ns_okD(4) [OF s(4) [OF g]] show ?thesis by (simp add: charged_def)
  qed
  then have "total_bytes st = 0"
    using s(3) om_sum_zero [of "namespaces st" "\<lambda>_ n. bytes n"] by simp
  then show ?thesis
    using assms s(2) sat_add_le(1) [of 0 c] by (auto simp: global_fits_def)
qed

lemma evict_until_fits_succeeds:
  assumes "state_ok st" "om_get (namespaces st) name = Some ns" "policies_ok st"
    and "c \<le> max_bytes (policy ns)"
  shows "\<exists>st'. evict_until_fits name c st = (st', Inr ())"
  using assms
proof (induction "live_entries st" arbitrary: st ns rule: less_induct)
  case less
  have p: "0 < max_entries (policy ns)" "max_entries (policy ns) \<le> max_total_entries st"
    "max_bytes (policy ns) \<le> max_total_bytes st"
    using less.prems(2,3) by (auto simp: policies_ok_def policy_validate_def split: if_splits)
  from less.prems(1,2) show ?case
  proof (cases rule: evict_until_fits_cases [where c = c])
    case Done
    then show ?thesis by blast
  next
    case (Fail e st1)
    then show ?thesis
      using empty_ns_fits [OF state_okD(4) [OF less.prems(1,2)] _ p(1) less.prems(4)]
        empty_state_fits [OF less.prems(1), of c] p less.prems(4) by auto
  next
    case (Evict st1)
    obtain ns1 where n1: "om_get (namespaces st1) name = Some ns1" "ns_shrunk ns ns1"
      using drops_Some [OF Evict(1) less.prems(2)] .
    show ?thesis
      using less.hyps [OF Evict(2) drops_keeps(1) [OF Evict(1)] n1(1)
          drops_keeps(3) [OF Evict(1) less.prems(3)]] Evict(3) less.prems(4) ns_shrunkD(2) [OF n1(2)]
      by simp
  qed
qed

end
