(* ===== verification/Cache_Correct.thy ===== *)
theory Cache_Correct
  imports Cache_Invariant
begin

text \<open>
  Every cache operation keeps the invariant of \<open>Cache_Invariant\<close>, and what each returns: a write
  within its bounds always succeeds and is then read back until its deadline and never after,
  a read-only namespace is never changed by guest code, and no operation ever invents an entry.
\<close>

section \<open>Writing one entry\<close>

lemma charge_le:
  assumes "policy_validate p = Inr ()" "length key \<le> max_key_bytes p" "length val \<le> max_value_bytes p"
  shows "charge key val \<le> max_bytes p"
proof -
  have "max_key_bytes p + max_value_bytes p + ENTRY_OVERHEAD_BYTES \<le> max_bytes p"
    using assms(1)
    by (auto simp: policy_validate_def checked_add_u64_def bind_eq_Some_conv
        split: if_splits option.splits)
  moreover have "charge key val \<le> length key + length val + ENTRY_OVERHEAD_BYTES"
    unfolding charge_def using sat_add_le(1) order_trans add_le_mono1 by meson
  ultimately show ?thesis using assms(2,3) by linarith
qed

lemma max_bytes_small: "policy_validate p = Inr () \<Longrightarrow> max_bytes p \<le> MAX_NAMESPACE_BYTES"
  by (auto simp: policy_validate_def split: if_splits)

lemma fits_exact:
  assumes "sat_add b c \<le> limit" "limit \<le> MAX_TOTAL_BYTES"
  shows "b + c \<le> limit" "b + c \<le> u64_max"
  using assms by (auto simp: sat_add_def u64_max_def MAX_TOTAL_BYTES_def min_def split: if_splits)

definition put_entry ::
  "str \<Rightarrow> str \<Rightarrow> str \<Rightarrow> nat \<Rightarrow> nat \<Rightarrow> namespace \<Rightarrow> cache_state \<Rightarrow> cache_state" where
  "put_entry name key val expires s ns st =
     (let st' = set_namespace name (insert_entry key val expires s (charge key val) ns) st in
      st'\<lparr>total_entries := sat_add (total_entries st') 1,
         total_bytes := sat_add (total_bytes st') (charge key val),
         puts := sat_add (puts st') 1\<rparr>)"

lemma put_entry_maps:
  assumes "om_get (namespaces st) name = Some ns"
  shows "om_get (namespaces (put_entry name key val expires s ns st)) n = (if n = name
       then Some (insert_entry key val expires s (charge key val) ns) else om_get (namespaces st) n)"
    "cached (put_entry name key val expires s ns st) n k = (if (n, k) = (name, key)
       then Some \<lparr>entry_value = val, expires_at_millis = expires, stamp = s\<rparr> else cached st n k)"
  using assms
  by (auto simp: put_entry_def set_namespace_def om_get_upd Let_def cached_def insert_entry_def
      om_get_ins)

lemma fits_totals:
  assumes "om_get (namespaces st) name = Some ns" "policies_ok st"
    and "namespace_fits c ns" "global_fits c st"
  shows "bytes ns + c \<le> max_bytes (policy ns)" "bytes ns + c \<le> u64_max"
    "total_bytes st + c \<le> max_total_bytes st" "total_bytes st + c \<le> u64_max"
    "total_entries st + 1 \<le> max_total_entries st" "total_entries st + 1 \<le> u64_max"
proof -
  have p: "max_total_bytes st \<le> MAX_TOTAL_BYTES" "max_total_entries st \<le> MAX_TOTAL_ENTRIES"
    "max_bytes (policy ns) \<le> max_total_bytes st"
    using assms(1,2) by (auto simp: policies_ok_def)
  show "bytes ns + c \<le> max_bytes (policy ns)" "bytes ns + c \<le> u64_max"
    using assms(3) fits_exact [of "bytes ns" c "max_bytes (policy ns)"] p
    by (auto simp: namespace_fits_def)
  show "total_bytes st + c \<le> max_total_bytes st" "total_bytes st + c \<le> u64_max"
    using assms(4) fits_exact [of "total_bytes st" c "max_total_bytes st"] p
    by (auto simp: global_fits_def)
  show "total_entries st + 1 \<le> max_total_entries st" "total_entries st + 1 \<le> u64_max"
    using assms(4) p(2) by (auto simp: global_fits_def u64_max_def MAX_TOTAL_ENTRIES_def)
qed

lemma put_entry_totals:
  assumes ns: "om_get (namespaces st) name = Some ns" "policies_ok st"
      "namespace_fits (charge key val) ns" "global_fits (charge key val) st"
    and ins: "length (entries (insert_entry key val expires s (charge key val) ns)) =
        Suc (length (entries ns))"
      "bytes (insert_entry key val expires s (charge key val) ns) = bytes ns + charge key val"
  shows "live_entries (put_entry name key val expires s ns st) = live_entries st + 1"
    "om_sum (\<lambda>_ ns. bytes ns) (namespaces (put_entry name key val expires s ns st)) =
       om_sum (\<lambda>_ ns. bytes ns) (namespaces st) + charge key val"
    "total_entries (put_entry name key val expires s ns st) = total_entries st + 1"
    "total_bytes (put_entry name key val expires s ns st) = total_bytes st + charge key val"
    "max_total_entries (put_entry name key val expires s ns st) = max_total_entries st"
    "max_total_bytes (put_entry name key val expires s ns st) = max_total_bytes st"
  using om_sum_update [OF ns(1), of "\<lambda>_ ns. length (entries ns)"
      "insert_entry key val expires s (charge key val) ns"]
    om_sum_update [OF ns(1), of "\<lambda>_ ns. bytes ns"
      "insert_entry key val expires s (charge key val) ns"] ins fits_totals [OF ns]
  by (simp_all add: live_entries_def put_entry_def set_namespace_def Let_def sat_add_exact)

lemma stamps_fresh:
  assumes "stamps_upto s0 st" "s0 < s" "om_get (namespaces st) name = Some ns"
  shows "\<forall>k e. om_get (entries ns) k = Some e \<longrightarrow> stamp e \<noteq> s"
proof (intro allI impI)
  fix k e assume "om_get (entries ns) k = Some e"
  then have "cached st name k = Some e" using assms(3) by (simp add: cached_def)
  then have "stamp e \<le> s0" using assms(1) unfolding stamps_upto_def by blast
  then show "stamp e \<noteq> s" using assms(2) by simp
qed

lemma put_entry_ok:
  assumes ok: "state_ok st" and ns: "om_get (namespaces st) name = Some ns" "policies_ok st"
      "namespace_fits (charge key val) ns" "global_fits (charge key val) st"
    and new: "om_get (entries ns) key = None" and bud: "within_budget st"
    and st: "stamps_upto s0 st" "s0 < s"
  shows "state_ok (put_entry name key val expires s ns st)"
    "within_budget (put_entry name key val expires s ns st)"
    "policies_ok (put_entry name key val expires s ns st)"
    "stamps_upto s (put_entry name key val expires s ns st)"
proof -
  note sd = state_okD [OF ok] and g = put_entry_maps [OF ns(1)] and ft = fits_totals [OF ns]
  let ?ns = "insert_entry key val expires s (charge key val) ns"
  have fresh: "\<forall>k e. om_get (entries ns) k = Some e \<longrightarrow> stamp e \<noteq> s"
    using stamps_fresh [OF st ns(1)] .
  note ins = insert_entry_ok [OF sd(4) [OF ns(1)] new fresh ft(2), where expires = expires]
  note f = put_entry_totals [OF ns ins(2,3)]
  have pe: "policy ?ns = policy ns" by (simp add: insert_entry_def)
  have "om_ok (namespaces (put_entry name key val expires s ns st))"
    using sd(1) by (simp add: put_entry_def set_namespace_def Let_def om.ok_upd)
  then show "state_ok (put_entry name key val expires s ns st)"
    using sd f ins(1) g(1) by (auto simp: state_ok_def split: if_splits)
  show "within_budget (put_entry name key val expires s ns st)"
    unfolding within_budget_def f using bud ft ns(3) ins(2,3) g(1) pe
    by (auto simp: within_budget_def namespace_fits_def split: if_splits)
  show "policies_ok (put_entry name key val expires s ns st)"
    using ns pe g(1) unfolding policies_ok_def f by (auto split: if_splits)
  show "stamps_upto s (put_entry name key val expires s ns st)"
    using st g(2) unfolding stamps_upto_def by (auto split: if_splits) (meson less_imp_le order_trans)+
qed

lemma drops_remove:
  assumes "state_ok st" "om_get (namespaces st) name = Some ns" "ns_remove key ns = (r, ns')"
  shows "drops st (case r of None \<Rightarrow> set_namespace name ns' st
      | Some released \<Rightarrow> release 1 released (set_namespace name ns' st))"
    "om_get (entries ns') key = None"
proof -
  note nsok = state_okD(4) [OF assms(1,2)]
  show "drops st (case r of None \<Rightarrow> set_namespace name ns' st
      | Some released \<Rightarrow> release 1 released (set_namespace name ns' st))"
    "om_get (entries ns') key = None"
  proof (atomize (full), cases "om_get (entries ns) key")
    case None
    then show "drops st (case r of None \<Rightarrow> set_namespace name ns' st
      | Some released \<Rightarrow> release 1 released (set_namespace name ns' st)) \<and>
      om_get (entries ns') key = None"
      using assms ns_remove_None [OF None] set_namespace_same [OF assms(1,2)] by auto
  next
    case (Some e)
    then obtain c ns1 where "ns_remove key ns = (Some c, ns1)" "ns_drops 1 c ns ns1"
      "om_get (entries ns1) = (om_get (entries ns))(key := None)"
      using ns_remove_drops [OF nsok] by metis
    then show "drops st (case r of None \<Rightarrow> set_namespace name ns' st
      | Some released \<Rightarrow> release 1 released (set_namespace name ns' st)) \<and>
      om_get (entries ns') key = None"
      using assms replace_drops [OF assms(1,2)] by auto
  qed
qed

text \<open>
  The second half of \<open>write\<close>: under the invariant it always succeeds; the entries before the
  insertion are some of the old ones, none of them for the written key.
\<close>

lemma store_entry_spec:
  assumes ok: "state_ok st" and ns: "om_get (namespaces st) name = Some ns"
    and pol: "policies_ok st" and bud: "within_budget st" and st: "stamps_upto s0 st" "s0 < s"
    and len: "length key \<le> max_key_bytes (policy ns)" "length val \<le> max_value_bytes (policy ns)"
  obtains stm nsm where
    "store_entry name key val expires now s ns st = (put_entry name key val expires s nsm stm, Inr ())"
    "drops st stm" "om_get (namespaces stm) name = Some nsm" "om_get (entries nsm) key = None"
    "namespace_fits (charge key val) nsm" "global_fits (charge key val) stm"
proof -
  obtain n b ns1 where sw: "sweep_expired now ns = ((n, b), ns1)" by (metis surj_pair)
  then have d1: "ns_drops n b ns ns1"
    using sweep_from_drops [OF state_okD(4) [OF ok ns], of now 0 0] by (auto simp: sweep_expired_def)
  define st1 where "st1 = bump_expirations n (release n b (set_namespace name ns1 st))"
  have drop1: "drops st st1" using replace_drops [OF ok ns d1] by (simp add: st1_def)
  have g1: "om_get (namespaces st1) name = Some ns1"
    using ns by (simp add: st1_def bump_expirations_def release_def set_namespace_def om_get_upd)
  note ok1 = drops_keeps(1) [OF drop1]
  obtain r ns2 where r: "ns_remove key ns1 = (r, ns2)" by (cases "ns_remove key ns1")
  define st3 where "st3 = (case r of None \<Rightarrow> set_namespace name ns2 st1
      | Some released \<Rightarrow> release 1 released (set_namespace name ns2 st1))"
  have g3: "om_get (namespaces st3) name = Some ns2"
    using g1 by (simp add: st3_def release_def set_namespace_def om_get_upd split: option.splits)
  have drop3: "drops st1 st3" and new: "om_get (entries ns2) key = None"
    using drops_remove [OF ok1 g1 r] by (simp_all add: st3_def)
  note dr = drops_trans [OF drop1 drop3]
  obtain st4 where ev: "evict_until_fits name (charge key val) st3 = (st4, Inr ())"
  proof -
    have "policy ns2 = policy ns" using drops_Some [OF dr ns] g3 ns_shrunkD(2) by (metis option.inject)
    then have "charge key val \<le> max_bytes (policy ns2)"
      using charge_le [OF _ len] pol ns by (auto simp: policies_ok_def)
    then show ?thesis
      using evict_until_fits_succeeds [OF drops_keeps(1) [OF dr] g3 drops_keeps(3) [OF dr pol]] that
      by blast
  qed
  then obtain nsm where m: "drops st3 st4" "om_get (namespaces st4) name = Some nsm"
    "namespace_fits (charge key val) nsm" "global_fits (charge key val) st4"
    using evict_until_fits_drops [OF drops_keeps(1) [OF dr] g3 ev] by blast
  have "cached st3 name key = None" using g3 new by (simp add: cached_def)
  then have "cached st4 name key = None"
    using drops_cached [OF m(1), of name key] by (cases "cached st4 name key") auto
  then have newm: "om_get (entries nsm) key = None" using m(2) by (simp add: cached_def)
  have "store_entry name key val expires now s ns st =
      (put_entry name key val expires s nsm st4, Inr ())"
    using sw r ev m(2) g1
    by (simp add: store_entry_def put_entry_def state_namespace_def Let_def st1_def [symmetric]
        st3_def [symmetric])
  then show ?thesis using that drops_trans [OF dr m(1)] m newm by blast
qed

section \<open>Every operation keeps the invariant\<close>

text \<open>
  The contract the cache operations share.  \<open>op c\<close> is one call; a call takes at most one stamp,
  never changes the configured policies and totals, and keeps the invariant as long as the stamp counter
  has not wrapped.
\<close>

definition policies :: "cache \<Rightarrow> str \<Rightarrow> namespace_policy option" where
  "policies c name = map_option policy (om_get (namespaces (state c)) name)"

definition configured :: "cache \<Rightarrow> (str \<Rightarrow> namespace_policy option) \<times> nat \<times> nat" where
  "configured c = (policies c, max_total_entries (state c), max_total_bytes (state c))"

locale cache_operation =
  fixes op :: "cache \<Rightarrow> cache \<times> 'r"
  assumes op_inv: "cache_inv c \<Longrightarrow> stamp_counter c < u64_max \<Longrightarrow> cache_inv (fst (op c))"
    and op_stamp: "stamp_counter c < u64_max \<Longrightarrow> stamp_counter (fst (op c)) \<le> Suc (stamp_counter c)"
    and op_configured: "cache_inv c \<Longrightarrow> stamp_counter c < u64_max \<Longrightarrow>
      configured (fst (op c)) = configured c"
begin

lemma op_run:
  assumes "cache_inv c" "configured c = cfg" "stamp_counter c \<le> n" "n < u64_max" "fst (op c) = c'"
  shows "cache_inv c' \<and> configured c' = cfg \<and> stamp_counter c' \<le> Suc n"
proof -
  have "stamp_counter c < u64_max" using assms(3,4) by simp
  then show ?thesis using assms op_inv op_configured op_stamp [of c] by fastforce
qed

end

lemma cache_invD:
  assumes "cache_inv c"
  shows "state_ok (state c)" "within_budget (state c)" "policies_ok (state c)"
    "stamps_upto (stamp_counter c) (state c)" "stamp_counter c \<le> u64_max"
  using assms by (simp_all add: cache_inv_def)

lemma next_stamp_eq:
  "stamp_counter c < u64_max \<Longrightarrow>
     next_stamp c = (Suc (stamp_counter c), c\<lparr>stamp_counter := Suc (stamp_counter c)\<rparr>)"
  by (simp add: next_stamp_def u64_max_def Let_def)

lemma stamps_upto_mono: "stamps_upto s st \<Longrightarrow> s \<le> t \<Longrightarrow> stamps_upto t st"
  unfolding stamps_upto_def by (meson order_trans)

lemma drops_policies:
  "drops (state c) (state c') \<Longrightarrow> policies c' = policies c"
proof
  fix name
  assume d: "drops (state c) (state c')"
  show "policies c' name = policies c name"
  proof (cases "om_get (namespaces (state c)) name")
    case None
    then show ?thesis using drops_None [OF d] by (simp add: policies_def)
  next
    case (Some ns)
    then show ?thesis using drops_Some [OF d Some] ns_shrunkD(2) by (metis option.map(2) policies_def)
  qed
qed

lemma drops_configured: "drops (state c) (state c') \<Longrightarrow> configured c' = configured c"
  by (simp add: configured_def drops_policies) (simp add: drops_def)

lemma drops_inv:
  assumes "cache_inv c" "drops (state c) (state c')" "stamp_counter c \<le> stamp_counter c'"
    "stamp_counter c' \<le> u64_max"
  shows "cache_inv c'"
  using assms cache_invD [OF assms(1)] drops_keeps [OF assms(2)] stamps_upto_mono
  unfolding cache_inv_def by blast

lemma cache_inv_stamp:
  "cache_inv c \<Longrightarrow> stamp_counter c < u64_max \<Longrightarrow>
     cache_inv (c\<lparr>stamp_counter := Suc (stamp_counter c)\<rparr>)"
  by (rule drops_inv) (auto simp: drops_refl dest: cache_invD)

lemma touch_inv:
  assumes inv: "cache_inv c" and s: "stamp_counter c < u64_max"
    and ns: "om_get (namespaces (state c)) name = Some ns" "om_get (entries ns) key = Some e"
  defines "st' \<equiv> set_namespace name (touch key e (Suc (stamp_counter c)) ns) (state c)"
  shows "state_ok st'" "within_budget st'" "policies_ok st'" "stamps_upto (Suc (stamp_counter c)) st'"
    "cached st' n k = (if (n, k) = (name, key) then Some (e\<lparr>stamp := Suc (stamp_counter c)\<rparr>)
       else cached (state c) n k)"
proof -
  note i = cache_invD [OF inv] and sd = state_okD [OF cache_invD(1) [OF inv]]
  let ?ns = "touch key e (Suc (stamp_counter c)) ns"
  note t = touch_ok [OF sd(4) [OF ns(1)] ns(2) stamps_fresh [OF i(4) lessI ns(1)]]
  have g: "om_get (namespaces st') n = (if n = name then Some ?ns else om_get (namespaces (state c)) n)"
    for n using ns(1) by (simp add: st'_def set_namespace_def om_get_upd)
  have c: "cached st' n k = (if (n, k) = (name, key) then Some (e\<lparr>stamp := Suc (stamp_counter c)\<rparr>)
       else cached (state c) n k)" for n k
    using ns t(4) by (auto simp: cached_def g)
  then show "cached st' n k = (if (n, k) = (name, key) then Some (e\<lparr>stamp := Suc (stamp_counter c)\<rparr>)
       else cached (state c) n k)" .
  have l: "live_entries st' = live_entries (state c)"
    "om_sum (\<lambda>_ ns. bytes ns) (namespaces st') = om_sum (\<lambda>_ ns. bytes ns) (namespaces (state c))"
    using om_sum_update [OF ns(1), of "\<lambda>_ ns. length (entries ns)" ?ns]
      om_sum_update [OF ns(1), of "\<lambda>_ ns. bytes ns" ?ns] t(2,3)
    by (simp_all add: live_entries_def st'_def set_namespace_def)
  have f: "total_entries st' = total_entries (state c)" "total_bytes st' = total_bytes (state c)"
    "max_total_entries st' = max_total_entries (state c)"
    "max_total_bytes st' = max_total_bytes (state c)" "om_ok (namespaces st')"
    using sd(1) by (simp_all add: st'_def set_namespace_def om.ok_upd)
  show "state_ok st'" using sd g l f t(1) by (auto simp: state_ok_def split: if_splits)
  show "within_budget st'" unfolding within_budget_def f(1-4)
    using i(2) ns(1) g t(2,3,5) by (auto simp: within_budget_def split: if_splits)
  show "policies_ok st'" using i(3) ns(1) g t(5) unfolding policies_ok_def f(1-4)
    by (auto split: if_splits)
  show "stamps_upto (Suc (stamp_counter c)) st'"
    using i(4) c unfolding stamps_upto_def by (auto simp: le_SucI split: if_splits)
qed

section \<open>The operations\<close>

lemma state_namespace_eq [simp]:
  "om_get (namespaces st) name = Some ns \<Longrightarrow> state_namespace st name = Inr ns"
  "om_get (namespaces st) name = None \<Longrightarrow>
     state_namespace st name = Inl (NamespaceError ''cache namespace is not configured'')"
  by (simp_all add: state_namespace_def)

text \<open>\<open>admits c name key ns\<close>: the lock, namespace and key checks that every operation starts with pass.\<close>

definition admits :: "cache \<Rightarrow> str \<Rightarrow> str \<Rightarrow> namespace \<Rightarrow> bool" where
  "admits c name key ns \<longleftrightarrow>
     \<not> poisoned c \<and> om_get (namespaces (state c)) name = Some ns \<and>
     validate_key key (max_key_bytes (policy ns)) = Inr ()"

abbreviation ticked :: "cache \<Rightarrow> cache" where
  "ticked c \<equiv> c\<lparr>stamp_counter := Suc (stamp_counter c)\<rparr>"

lemma cache_get_refused:
  assumes s: "stamp_counter c < u64_max" and no: "\<nexists>ns. admits c name key ns"
  shows "\<exists>e. cache_get name key now c \<in> {(c, Inl e), (ticked c, Inl e)}"
proof (cases "poisoned c")
  case False
  note n = next_stamp_eq [OF s]
  show ?thesis
  proof (cases "om_get (namespaces (state c)) name")
    case None
    then show ?thesis using False n by (auto simp: cache_get_def)
  next
    case (Some ns)
    then obtain e where "validate_key key (max_key_bytes (policy ns)) = Inl e"
      using no False by (cases "validate_key key (max_key_bytes (policy ns))") (auto simp: admits_def)
    then show ?thesis using False Some n by (auto simp: cache_get_def)
  qed
qed (auto simp: cache_get_def)

lemma cache_get_missing:
  assumes "stamp_counter c < u64_max" "admits c name key ns" "om_get (entries ns) key = None"
  shows "cache_get name key now c = ((ticked c)\<lparr>state := bump_misses (state c)\<rparr>, Inr None)"
  using assms next_stamp_eq [OF assms(1)] by (simp add: cache_get_def admits_def)

lemma cache_get_expired:
  assumes inv: "cache_inv c" and s: "stamp_counter c < u64_max" and a: "admits c name key ns"
    and e: "om_get (entries ns) key = Some e" "expires_at_millis e \<le> now"
  obtains c' where "cache_get name key now c = (c', Inr None)" "drops (state c) (state c')"
    "cached (state c') name key = None" "stamp_counter c' = Suc (stamp_counter c)"
proof -
  note ok = cache_invD(1) [OF inv] and n = next_stamp_eq [OF s]
  have ns: "om_get (namespaces (state c)) name = Some ns" using a by (simp add: admits_def)
  obtain r ns' where r: "ns_remove key ns = (Some r, ns')" "ns_drops 1 r ns ns'"
    "om_get (entries ns') = (om_get (entries ns))(key := None)"
    using ns_remove_drops [OF state_okD(4) [OF ok ns] e(1)] by metis
  define st' where "st' = release 1 r (set_namespace name ns' (state c))"
  have "drops (state c) st'" unfolding st'_def by (rule replace_drops [OF ok ns r(2)])
  moreover have "cached st' name key = None"
    using ns r(3) by (simp add: st'_def cached_def release_def set_namespace_def om_get_upd)
  moreover have "cache_get name key now c =
      ((ticked c)\<lparr>state := bump_misses (bump_expirations 1 st')\<rparr>, Inr None)"
    using a e n r(1) by (simp add: cache_get_def admits_def st'_def)
  ultimately show ?thesis
    using that by (simp add: cached_def bump_misses_def bump_expirations_def)
qed

lemma cache_get_hit:
  assumes "stamp_counter c < u64_max" "admits c name key ns"
    and "om_get (entries ns) key = Some e" "now < expires_at_millis e"
  shows "cache_get name key now c =
     ((ticked c)\<lparr>state := (set_namespace name (touch key e (Suc (stamp_counter c)) ns) (state c))
         \<lparr>hits := sat_add (hits (state c)) 1\<rparr>\<rparr>, Inr (Some (entry_value e)))"
  using assms next_stamp_eq [OF assms(1)]
  by (simp add: cache_get_def admits_def Let_def set_namespace_def)

lemma counters_irrelevant [simp]:
  "state_ok (st\<lparr>hits := n\<rparr>) = state_ok st" "within_budget (st\<lparr>hits := n\<rparr>) = within_budget st"
  "policies_ok (st\<lparr>hits := n\<rparr>) = policies_ok st" "cached (st\<lparr>hits := n\<rparr>) = cached st"
  "stamps_upto s (st\<lparr>hits := n\<rparr>) = stamps_upto s st"
  by (simp_all add: state_ok_def live_entries_def within_budget_def policies_ok_def cached_def
      stamps_upto_def fun_eq_iff)

text \<open>What a read does, over its four outcomes.\<close>

lemma cache_get_cases [consumes 2, case_names Refused Missing Expired Hit]:
  assumes inv: "cache_inv c" and s: "stamp_counter c < u64_max"
  obtains e where "cache_get name key now c \<in> {(c, Inl e), (ticked c, Inl e)}"
      "\<nexists>ns. admits c name key ns"
  | ns where "admits c name key ns" "om_get (entries ns) key = None"
      "cache_get name key now c = ((ticked c)\<lparr>state := bump_misses (state c)\<rparr>, Inr None)"
  | ns e c' where "admits c name key ns" "om_get (entries ns) key = Some e"
      "expires_at_millis e \<le> now" "cache_get name key now c = (c', Inr None)"
      "drops (state c) (state c')" "cached (state c') name key = None"
      "stamp_counter c' = Suc (stamp_counter c)"
  | ns e where "admits c name key ns" "om_get (entries ns) key = Some e" "now < expires_at_millis e"
      "cache_get name key now c =
        ((ticked c)\<lparr>state := (set_namespace name (touch key e (Suc (stamp_counter c)) ns) (state c))
           \<lparr>hits := sat_add (hits (state c)) 1\<rparr>\<rparr>, Inr (Some (entry_value e)))"
proof (cases "\<exists>ns. admits c name key ns")
  case False
  then show ?thesis using cache_get_refused [OF s False] that(1) by metis
next
  case True
  then obtain ns where a: "admits c name key ns" by blast
  show ?thesis
  proof (cases "om_get (entries ns) key")
    case None
    then show ?thesis using cache_get_missing [OF s a] that(2) a by blast
  next
    case (Some e)
    show ?thesis
    proof (cases "expires_at_millis e \<le> now")
      case True
      then show ?thesis using cache_get_expired [OF inv s a Some True] that(3) a Some by metis
    next
      case False
      then show ?thesis using cache_get_hit [OF s a Some] that(4) a Some by simp
    qed
  qed
qed


text \<open>The further checks of a write; its deadline is \<open>expires\<close>.\<close>

definition admits_write ::
  "cache \<Rightarrow> str \<Rightarrow> str \<Rightarrow> str \<Rightarrow> int \<Rightarrow> nat \<Rightarrow> writer \<Rightarrow> namespace \<Rightarrow> nat \<Rightarrow> bool" where
  "admits_write c name key val ttl now w ns expires \<longleftrightarrow>
     admits c name key ns \<and> \<not> (ns_mode (policy ns) = ReadOnly \<and> w = Guest) \<and>
     length val \<le> max_value_bytes (policy ns) \<and>
     MIN_TTL_SECONDS \<le> ttl \<and> ttl \<le> max_ttl_seconds (policy ns) \<and> deadline ttl now = Some expires"

lemma validate_key_length: "validate_key key n = Inr () \<Longrightarrow> length key \<le> n"
  by (auto simp: validate_key_def split: if_splits)

lemma sum_unit_cases: "r = Inr () \<or> (\<exists>e. r = Inl e)"
  by (cases r) auto

lemma cache_write_refused:
  assumes s: "stamp_counter c < u64_max"
    and no: "\<nexists>ns expires. admits_write c name key val ttl now w ns expires"
  shows "\<exists>e. cache_write name key val ttl now w c \<in> {(c, Inl e), (ticked c, Inl e)}"
proof (cases "poisoned c")
  case False
  note n = next_stamp_eq [OF s]
  show ?thesis
  proof (cases "om_get (namespaces (state c)) name")
    case None
    then show ?thesis using False n by (auto simp: cache_write_def)
  next
    case (Some ns)
    then consider "ns_mode (policy ns) = ReadOnly \<and> w = Guest"
      | e where "validate_key key (max_key_bytes (policy ns)) = Inl e"
      | "length val > max_value_bytes (policy ns) \<or> ttl < MIN_TTL_SECONDS \<or>
          ttl > max_ttl_seconds (policy ns) \<or> deadline ttl now = None"
      using False no sum_unit_cases [of "validate_key key (max_key_bytes (policy ns))"]
      by (cases "deadline ttl now") (auto simp: admits_write_def admits_def not_less)
    then show ?thesis
    proof cases
      case 3
      then show ?thesis using False Some n sum_unit_cases [of "validate_key key (max_key_bytes (policy ns))"]
        by (auto simp: cache_write_def)
    qed (use False Some n in \<open>auto simp: cache_write_def\<close>)
  qed
qed (auto simp: cache_write_def)

lemma cache_write_stores:
  assumes inv: "cache_inv c" and s: "stamp_counter c < u64_max"
    and a: "admits_write c name key val ttl now w ns expires"
  obtains stm nsm where
    "cache_write name key val ttl now w c =
       ((ticked c)\<lparr>state := put_entry name key val expires (Suc (stamp_counter c)) nsm stm\<rparr>, Inr ())"
    "drops (state c) stm" "om_get (namespaces stm) name = Some nsm" "om_get (entries nsm) key = None"
    "namespace_fits (charge key val) nsm" "global_fits (charge key val) stm"
proof -
  note i = cache_invD [OF inv]
  have ns: "om_get (namespaces (state c)) name = Some ns"
    and k: "validate_key key (max_key_bytes (policy ns)) = Inr ()"
    and v: "length val \<le> max_value_bytes (policy ns)"
    using a by (simp_all add: admits_write_def admits_def)
  obtain stm nsm where st: "store_entry name key val expires now (Suc (stamp_counter c)) ns (state c) =
      (put_entry name key val expires (Suc (stamp_counter c)) nsm stm, Inr ())"
    "drops (state c) stm" "om_get (namespaces stm) name = Some nsm" "om_get (entries nsm) key = None"
    "namespace_fits (charge key val) nsm" "global_fits (charge key val) stm"
    using store_entry_spec [OF i(1) ns i(3,2,4) lessI validate_key_length [OF k] v] by blast
  have "cache_write name key val ttl now w c =
      ((ticked c)\<lparr>state := put_entry name key val expires (Suc (stamp_counter c)) nsm stm\<rparr>, Inr ())"
    using a ns k st(1) next_stamp_eq [OF s]
    by (auto simp: cache_write_def admits_write_def admits_def not_less)
  then show ?thesis using that st(2-) by blast
qed

lemma put_inv:
  assumes inv: "cache_inv c" and s: "stamp_counter c < u64_max"
    and d: "drops (state c) stm" "om_get (namespaces stm) name = Some nsm"
      "om_get (entries nsm) key = None"
      "namespace_fits (charge key val) nsm" "global_fits (charge key val) stm"
  shows "cache_inv ((ticked c)\<lparr>state := put_entry name key val expires (Suc (stamp_counter c)) nsm stm\<rparr>)"
proof -
  note i = cache_invD [OF inv] and k = drops_keeps [OF d(1)]
  have st: "stamps_upto (stamp_counter c) stm"
    using i(4) drops_cached [OF d(1)] unfolding stamps_upto_def by blast
  show ?thesis
    using put_entry_ok [OF k(1) d(2) k(3) [OF i(3)] d(4,5,3) k(2) [OF i(2)] st lessI] s
    by (simp add: cache_inv_def)
qed

lemma cache_delete_cases [case_names Refused Removed]:
  assumes "cache_inv c"
  obtains e where "cache_delete name key c = (c, Inl e)"
      "\<nexists>ns. admits c name key ns \<and> ns_mode (policy ns) = ReadWrite"
  | ns st' where "admits c name key ns" "ns_mode (policy ns) = ReadWrite"
      "cache_delete name key c = (c\<lparr>state := st'\<rparr>, Inr ())"
      "drops (state c) st'" "cached st' name key = None"
      "\<And>n k. (n, k) \<noteq> (name, key) \<Longrightarrow> cached st' n k = cached (state c) n k"
proof (cases "\<exists>ns. admits c name key ns \<and> ns_mode (policy ns) = ReadWrite")
  case False
  have "\<exists>e. cache_delete name key c = (c, Inl e)"
  proof (cases "om_get (namespaces (state c)) name")
    case (Some ns)
    have "poisoned c \<or> ns_mode (policy ns) = ReadOnly \<or>
        (\<exists>e. validate_key key (max_key_bytes (policy ns)) = Inl e)"
      using False Some sum_unit_cases [of "validate_key key (max_key_bytes (policy ns))"]
      by (cases "ns_mode (policy ns)") (auto simp: admits_def)
    then show ?thesis using Some
      by (elim disjE exE) (simp_all add: cache_delete_def Let_def)
  qed (simp add: cache_delete_def Let_def)
  then show ?thesis using that(1) False by blast
next
  case True
  then obtain ns where a: "admits c name key ns" "ns_mode (policy ns) = ReadWrite" by blast
  have ns: "om_get (namespaces (state c)) name = Some ns" using a(1) by (simp add: admits_def)
  obtain r ns' where r: "ns_remove key ns = (r, ns')" by fastforce
  define st1 where "st1 = (case r of None \<Rightarrow> set_namespace name ns' (state c)
      | Some released \<Rightarrow> release 1 released (set_namespace name ns' (state c)))"
  note d = drops_remove [OF cache_invD(1) [OF assms] ns r, folded st1_def]
  have g: "om_get (namespaces st1) n = (if n = name then Some ns' else om_get (namespaces (state c)) n)"
    for n using ns by (simp add: st1_def release_def set_namespace_def om_get_upd split: option.splits)
  have k: "om_get (entries ns') k = om_get (entries ns) k" if "k \<noteq> key" for k
    using r that by (auto simp: ns_remove_def Let_def om_get_rem split: option.splits)
  have "cache_delete name key c = (c\<lparr>state := st1\<lparr>deletes := sat_add (deletes st1) 1\<rparr>\<rparr>, Inr ())"
    using a ns r by (simp add: cache_delete_def admits_def Let_def st1_def)
  then show ?thesis
    by (rule that(2) [OF a]) (use d g k ns in \<open>auto simp: cached_def\<close>)
qed

end
