(* ===== verification/Cache_Laws.thy ===== *)
theory Cache_Laws
  imports Cache_Correct
begin

text \<open>
  What clients of the cache may rely on.  The contract \<open>cache_operation\<close> is discharged for every
  operation of \<open>krit-cache/src/store.rs\<close>; then runs of the cache from its construction are shown
  to stay within every budget and to refine a lossy map of the successful writes.
\<close>

section \<open>The operations meet their contract\<close>

lemma configured_ticked [simp]: "configured (ticked c) = configured c"
  by (simp add: configured_def policies_def fun_eq_iff)

lemma configured_touch:
  "om_get (namespaces (state c)) name = Some ns \<Longrightarrow>
     configured (c'\<lparr>state := (set_namespace name (touch key e s ns) (state c))\<lparr>hits := n\<rparr>\<rparr>) = configured c"
  by (auto simp: configured_def policies_def fun_eq_iff set_namespace_def om_get_upd touch_def)

lemma configured_put:
  assumes "drops (state c) stm" "om_get (namespaces stm) name = Some nsm"
  shows "configured (c'\<lparr>state := put_entry name key val expires s nsm stm\<rparr>) = configured c"
proof -
  have "configured (c'\<lparr>state := put_entry name key val expires s nsm stm\<rparr>) =
      configured (c'\<lparr>state := stm\<rparr>)"
    using assms(2) put_entry_maps(1) [OF assms(2)]
    by (auto simp: configured_def policies_def fun_eq_iff insert_entry_def put_entry_def
        set_namespace_def Let_def)
  then show ?thesis using drops_configured [of c "c'\<lparr>state := stm\<rparr>"] assms(1) by simp
qed

interpretation get_op: cache_operation "cache_get name key now" for name key now
proof
  fix c :: cache
  assume s: "stamp_counter c < u64_max"
  show "stamp_counter (fst (cache_get name key now c)) \<le> Suc (stamp_counter c)"
    using next_stamp_eq [OF s]
    by (auto simp: cache_get_def Let_def split: sum.splits option.splits prod.splits)
  assume inv: "cache_inv c"
  from inv s have "cache_inv (fst (cache_get name key now c)) \<and>
      configured (fst (cache_get name key now c)) = configured c"
  proof (cases rule: cache_get_cases [of c name key now])
    case (Refused e)
    then show ?thesis using inv cache_inv_stamp [OF inv s] by auto
  next
    case (Missing ns)
    let ?c = "(ticked c)\<lparr>state := bump_misses (state c)\<rparr>"
    have d: "drops (state c) (state ?c)" using drops_refl cache_invD(1) [OF inv] by simp
    show ?thesis using Missing(3) drops_inv [OF inv d] drops_configured [OF d] s by simp
  next
    case (Expired ns e c')
    then show ?thesis using drops_inv [OF inv, of c'] drops_configured s by simp
  next
    case (Hit ns e)
    then have ns: "om_get (namespaces (state c)) name = Some ns" by (simp add: admits_def)
    show ?thesis using Hit(4) touch_inv [OF inv s ns Hit(2)] s configured_touch [OF ns]
      by (simp add: cache_inv_def)
  qed
  then show "cache_inv (fst (cache_get name key now c))"
    "configured (fst (cache_get name key now c)) = configured c" by simp_all
qed

interpretation write_op: cache_operation "cache_write name key val ttl now w" for name key val ttl now w
proof
  fix c :: cache
  assume s: "stamp_counter c < u64_max"
  show "stamp_counter (fst (cache_write name key val ttl now w c)) \<le> Suc (stamp_counter c)"
    using next_stamp_eq [OF s]
    by (auto simp: cache_write_def Let_def split: sum.splits option.splits prod.splits)
  assume inv: "cache_inv c"
  have "cache_inv (fst (cache_write name key val ttl now w c)) \<and>
      configured (fst (cache_write name key val ttl now w c)) = configured c"
  proof (cases "\<exists>ns expires. admits_write c name key val ttl now w ns expires")
    case False
    then show ?thesis using cache_write_refused [OF s False] inv cache_inv_stamp [OF inv s] by auto
  next
    case True
    then obtain ns expires where "admits_write c name key val ttl now w ns expires" by blast
    from cache_write_stores [OF inv s this] obtain stm nsm where st:
      "cache_write name key val ttl now w c =
         ((ticked c)\<lparr>state := put_entry name key val expires (Suc (stamp_counter c)) nsm stm\<rparr>, Inr ())"
      "drops (state c) stm" "om_get (namespaces stm) name = Some nsm" "om_get (entries nsm) key = None"
      "namespace_fits (charge key val) nsm" "global_fits (charge key val) stm"
      by metis
    show ?thesis using st(1) put_inv [OF inv s st(2-)] configured_put [OF st(2,3)] by simp
  qed
  then show "cache_inv (fst (cache_write name key val ttl now w c))"
    "configured (fst (cache_write name key val ttl now w c)) = configured c" by simp_all
qed

interpretation delete_op: cache_operation "cache_delete name key" for name key
proof
  fix c :: cache
  show "stamp_counter (fst (cache_delete name key c)) \<le> Suc (stamp_counter c)"
    by (auto simp: cache_delete_def Let_def split: sum.splits option.splits prod.splits)
  assume inv: "cache_inv c" and s: "stamp_counter c < u64_max"
  from inv have "cache_inv (fst (cache_delete name key c)) \<and>
      configured (fst (cache_delete name key c)) = configured c"
  proof (cases rule: cache_delete_cases [of c name key])
    case (Removed ns st')
    let ?c = "c\<lparr>state := st'\<rparr>"
    have d: "drops (state c) (state ?c)" using Removed(4) by simp
    show ?thesis using Removed(3) drops_inv [OF inv d] drops_configured [OF d] s by simp
  qed (use inv in simp)
  then show "cache_inv (fst (cache_delete name key c))"
    "configured (fst (cache_delete name key c)) = configured c" by simp_all
qed


section \<open>Construction\<close>

lemma validate_policies_ok:
  "validate_policies n b ps = Inr () \<longleftrightarrow>
     (\<forall>p \<in> set ps. policy_validate p = Inr () \<and> max_entries p \<le> n \<and> max_bytes p \<le> b)"
  by (induction ps) (auto split: sum.splits)

lemma om_get_namespace_new:
  "om_get (map (\<lambda>(name, p). (name, namespace_new p)) m) name = map_option namespace_new (om_get m name)"
  by (simp add: om_get_def map_of_map)

lemma om_sum_namespace_new:
  "om_sum f (map (\<lambda>(name, p). (name, namespace_new p)) m) = om_sum (\<lambda>name p. f name (namespace_new p)) m"
  by (induction m) (auto simp: om_sum_def)

lemma om_sum_const_zero [simp]: "om_sum (\<lambda>_ _. 0) m = (0::nat)"
  by (induction m) (auto simp: om_sum_def)

lemma om_ok_map_values: "om_ok m \<Longrightarrow> om_ok (map (\<lambda>(name, p). (name, f p)) m)"
  by (simp add: om_ok_def comp_def case_prod_beta)

lemma namespace_new_simps [simp]:
  "entries (namespace_new p) = []" "bytes (namespace_new p) = 0" "policy (namespace_new p) = p"
  by (simp_all add: namespace_new_def)

lemma config_validated:
  assumes "config_validate config = Inr ()" "om_get (cfg_namespaces config) name = Some p"
  shows "policy_validate p = Inr ()" "max_entries p \<le> cfg_max_total_entries config"
    "max_bytes p \<le> cfg_max_total_bytes config" "cfg_max_total_bytes config \<le> MAX_TOTAL_BYTES"
    "cfg_max_total_entries config \<le> MAX_TOTAL_ENTRIES"
proof -
  have "(name, p) \<in> set (cfg_namespaces config)" using assms(2) by (auto simp: om_get_def dest: map_of_SomeD)
  then have "cfg_namespaces config \<noteq> []" "p \<in> set (map snd (cfg_namespaces config))" by force+
  then show "policy_validate p = Inr ()" "max_entries p \<le> cfg_max_total_entries config"
    "max_bytes p \<le> cfg_max_total_bytes config" "cfg_max_total_bytes config \<le> MAX_TOTAL_BYTES"
    "cfg_max_total_entries config \<le> MAX_TOTAL_ENTRIES"
    using assms(1) validate_policies_ok
    by (auto simp: config_validate_def not_less split: if_splits)
qed

lemma cache_new_inv:
  assumes new: "cache_new config = Inr c" and ok: "om_ok (cfg_namespaces config)"
  shows "cache_inv c" "policies c = om_get (cfg_namespaces config)" "cached (state c) name key = None"
    "stamp_counter c = 0" "\<not> poisoned c"
    "max_total_entries (state c) = cfg_max_total_entries config"
    "max_total_bytes (state c) = cfg_max_total_bytes config"
proof -
  have v: "config_validate config = Inr ()"
    using new sum_unit_cases [of "config_validate config"] by (auto simp: cache_new_def)
  then have c: "c = \<lparr>state = empty_state
                 (map (\<lambda>(name, p). (name, namespace_new p)) (cfg_namespaces config))
                 (cfg_max_total_entries config) (cfg_max_total_bytes config),
               stamp_counter = 0, poisoned = False\<rparr>"
    using new by (simp add: cache_new_def)
  show s: "stamp_counter c = 0" "\<not> poisoned c"
    "max_total_entries (state c) = cfg_max_total_entries config"
    "max_total_bytes (state c) = cfg_max_total_bytes config"
    by (simp_all add: c empty_state_def)
  have g: "om_get (namespaces (state c)) n = map_option namespace_new (om_get (cfg_namespaces config) n)"
    for n by (simp add: c empty_state_def om_get_namespace_new)
  show "policies c = om_get (cfg_namespaces config)"
    by (simp add: policies_def fun_eq_iff g option.map_comp comp_def option.map_ident)
  show e: "cached (state c) name key = None" for name key
    by (cases "om_get (cfg_namespaces config) name") (simp_all add: cached_def g)
  have "state_ok (state c)"
    unfolding state_ok_def g using ok
    by (auto simp: live_entries_def c empty_state_def om_sum_namespace_new om_ok_map_values)
  moreover have "within_budget (state c)"
    unfolding within_budget_def g by (auto simp: c empty_state_def)
  moreover have "policies_ok (state c)"
    unfolding policies_ok_def g s using config_validated [OF v] by auto
  ultimately show "cache_inv c" by (simp add: cache_inv_def stamps_upto_def e s)
qed

section \<open>Runs\<close>

text \<open>
  A call, what it answers, and the specification: a map from namespace and key to the value and
  deadline of the last successful write, which a successful delete forgets.
\<close>

datatype cache_call =
    Get str str nat
  | Write str str str int nat writer
  | Delete str str

datatype cache_answer =
    Read "(cache_error, str option) result"
  | Finished "(cache_error, unit) result"

definition cache_step :: "cache_call \<Rightarrow> cache \<Rightarrow> cache \<times> cache_answer" where
  "cache_step call c =
     (case call of
        Get name key now \<Rightarrow> apsnd Read (cache_get name key now c)
      | Write name key val ttl now w \<Rightarrow> apsnd Finished (cache_write name key val ttl now w c)
      | Delete name key \<Rightarrow> apsnd Finished (cache_delete name key c))"

type_synonym cache_spec = "str \<times> str \<rightharpoonup> str \<times> nat"

definition spec_step :: "cache_call \<Rightarrow> cache_answer \<Rightarrow> cache_spec \<Rightarrow> cache_spec" where
  "spec_step call a m =
     (case (call, a) of
        (Write name key val ttl now w, Finished (Inr _)) \<Rightarrow>
          m((name, key) := map_option (Pair val) (deadline ttl now))
      | (Delete name key, Finished (Inr _)) \<Rightarrow> m((name, key) := None)
      | _ \<Rightarrow> m)"

inductive cache_run :: "cache_config \<Rightarrow> nat \<Rightarrow> cache \<Rightarrow> cache_spec \<Rightarrow> bool" for config where
  start: "cache_new config = Inr c \<Longrightarrow> cache_run config 0 c Map.empty"
| call: "cache_run config n c m \<Longrightarrow> cache_step call c = (c', a) \<Longrightarrow>
    cache_run config (Suc n) c' (spec_step call a m)"

definition refines :: "cache \<Rightarrow> cache_spec \<Rightarrow> bool" where
  "refines c m \<longleftrightarrow> (\<forall>name key e. cached (state c) name key = Some e \<longrightarrow>
     m (name, key) = Some (entry_value e, expires_at_millis e))"

interpretation step_op: cache_operation "cache_step call" for call
  by unfold_locales
     (auto simp: cache_step_def get_op.op_inv write_op.op_inv delete_op.op_inv get_op.op_configured
       write_op.op_configured delete_op.op_configured get_op.op_stamp write_op.op_stamp
       delete_op.op_stamp split: cache_call.splits)


lemma refines_drops: "refines c m \<Longrightarrow> drops (state c) (state c') \<Longrightarrow> refines c' m"
  unfolding refines_def using drops_cached by blast

lemma get_refines:
  assumes "cache_inv c" "stamp_counter c < u64_max" "refines c m"
  shows "refines (fst (cache_get name key now c)) m"
  using assms(1,2)
proof (cases rule: cache_get_cases [of c name key now])
  case (Refused e)
  then show ?thesis using assms(3) by (auto simp: refines_def)
next
  case (Missing ns)
  then show ?thesis using assms(3) by (simp add: refines_def cached_def bump_misses_def)
next
  case (Expired ns e c')
  then show ?thesis using refines_drops [OF assms(3)] by simp
next
  case (Hit ns e)
  then have ns: "om_get (namespaces (state c)) name = Some ns" by (simp add: admits_def)
  then have "cached (state c) name key = Some e" using Hit(2) by (simp add: cached_def)
  then show ?thesis using Hit(4) assms(3) touch_inv(5) [OF assms(1,2) ns Hit(2)]
    by (auto simp: refines_def split: if_splits)
qed

lemma write_refines:
  assumes "cache_inv c" "stamp_counter c < u64_max" "refines c m"
    and w: "cache_write name key val ttl now w c = (c', r)"
  shows "refines c' (spec_step (Write name key val ttl now w) (Finished r) m)"
proof (cases "\<exists>ns expires. admits_write c name key val ttl now w ns expires")
  case False
  then show ?thesis using cache_write_refused [OF assms(2) False] w assms(3)
    by (auto simp: spec_step_def refines_def)
next
  case True
  then obtain ns expires where a: "admits_write c name key val ttl now w ns expires" by blast
  from cache_write_stores [OF assms(1,2) a] obtain stm nsm where st:
    "cache_write name key val ttl now w c =
       ((ticked c)\<lparr>state := put_entry name key val expires (Suc (stamp_counter c)) nsm stm\<rparr>, Inr ())"
    "drops (state c) stm" "om_get (namespaces stm) name = Some nsm"
    by metis
  have d: "deadline ttl now = Some expires" using a by (simp add: admits_write_def)
  have "refines (c\<lparr>state := stm\<rparr>) m" using refines_drops [OF assms(3)] st(2) by simp
  then show ?thesis using st(1) w d put_entry_maps(2) [OF st(3)]
    by (auto simp: spec_step_def refines_def split: if_splits)
qed

lemma delete_refines:
  assumes "cache_inv c" "refines c m" and w: "cache_delete name key c = (c', r)"
  shows "refines c' (spec_step (Delete name key) (Finished r) m)"
  using assms(1)
proof (cases rule: cache_delete_cases [of c name key])
  case (Refused e)
  then show ?thesis using w assms(2) by (simp add: spec_step_def)
next
  case (Removed ns st')
  have "refines (c\<lparr>state := st'\<rparr>) m" using refines_drops [OF assms(2)] Removed(4) by simp
  then show ?thesis using Removed(3,5) w by (auto simp: spec_step_def refines_def)
qed

lemma step_refines:
  assumes "cache_inv c" "stamp_counter c < u64_max" "refines c m" "cache_step call c = (c', a)"
  shows "refines c' (spec_step call a m)"
proof (cases call)
  case (Get name key now)
  then show ?thesis using get_refines [OF assms(1-3), of name key now] assms(4)
    by (cases "cache_get name key now c") (auto simp: cache_step_def spec_step_def)
next
  case (Write name key val ttl now w)
  then show ?thesis using write_refines [OF assms(1-3)] assms(4)
    by (cases "cache_write name key val ttl now w c") (auto simp: cache_step_def)
next
  case (Delete name key)
  then show ?thesis using delete_refines [OF assms(1,3)] assms(4)
    by (cases "cache_delete name key c") (auto simp: cache_step_def)
qed

text \<open>The invariant of runs: everything the properties below need of a reachable cache.\<close>

lemma cache_run_inv:
  assumes "cache_run config n c m" "om_ok (cfg_namespaces config)" "n \<le> u64_max"
  shows "cache_inv c \<and> stamp_counter c \<le> n \<and> refines c m \<and> configured c =
     (om_get (cfg_namespaces config), cfg_max_total_entries config, cfg_max_total_bytes config)"
  using assms
proof (induction rule: cache_run.induct)
  case (start c)
  then show ?case using cache_new_inv [OF start(1,2)] by (simp add: refines_def configured_def)
next
  case (call n c m call c' a)
  then have s: "stamp_counter c < u64_max" and inv: "cache_inv c" and r: "refines c m" by auto
  have "fst (cache_step call c) = c'" using call(2) by simp
  from step_op.op_run [OF inv refl _ _ this, of n] show ?case
    using call step_refines [OF inv s r call(2)] by simp
qed

lemma cache_write_succeeds:
  assumes "cache_inv c" "stamp_counter c < u64_max" "admits_write c name key val ttl now w ns expires"
  shows "snd (cache_write name key val ttl now w c) = Inr ()"
  by (rule cache_write_stores [OF assms]) simp

lemma not_read_only: "m \<noteq> ReadOnly \<longleftrightarrow> m = ReadWrite"
  by (cases m) auto

lemma run_policy:
  assumes "configured c = (om_get (cfg_namespaces config), limits)"
  shows "om_get (cfg_namespaces config) name = map_option policy (om_get (namespaces (state c)) name)"
proof -
  have "om_get (cfg_namespaces config) name = policies c name"
    using assms by (simp add: configured_def)
  then show ?thesis by (simp add: policies_def)
qed

section \<open>Properties of every run\<close>

text \<open>C3: A cache built from an accepted configuration and driven by any sequence of fewer than
  2^64 reads, writes and deletes holds, in every namespace, at most the configured number of
  entries and bytes, and at most the configured totals over all namespaces; the recorded byte and
  entry counts are the exact ones.\<close>

theorem cache_stays_within_budget:
  assumes "om_ok (cfg_namespaces config)" "cache_run config n c m" "n \<le> u64_max"
  shows "(\<forall>name ns. om_get (namespaces (state c)) name = Some ns \<longrightarrow>
      om_get (cfg_namespaces config) name = Some (policy ns) \<and>
      length (entries ns) \<le> max_entries (policy ns) \<and>
      om_sum (\<lambda>key e. charge key (entry_value e)) (entries ns) = bytes ns \<and>
      bytes ns \<le> max_bytes (policy ns)) \<and>
    om_sum (\<lambda>_ ns. length (entries ns)) (namespaces (state c)) = total_entries (state c) \<and>
    total_entries (state c) \<le> cfg_max_total_entries config \<and>
    om_sum (\<lambda>_ ns. bytes ns) (namespaces (state c)) = total_bytes (state c) \<and>
    total_bytes (state c) \<le> cfg_max_total_bytes config"
proof -
  have inv: "cache_inv c" and cfg: "configured c =
     (om_get (cfg_namespaces config), cfg_max_total_entries config, cfg_max_total_bytes config)"
    using cache_run_inv [OF assms(2,1,3)] by simp_all
  note i = cache_invD [OF inv]
  have "om_get (cfg_namespaces config) name = Some (policy ns)"
    if "om_get (namespaces (state c)) name = Some ns" for name ns
    using run_policy [OF cfg] that by simp
  then show ?thesis
    using cfg i(2) state_okD [OF i(1)] ns_okD(4)
    by (auto simp: within_budget_def configured_def live_entries_def charged_def)
qed

text \<open>C25: A write to a reachable cache succeeds exactly when its arguments pass the checks: the
  namespace exists and admits the writer, the key and value are within their bounds, the time to
  live is allowed and the deadline does not overflow.  Eviction always makes room.\<close>

theorem cache_write_exact:
  assumes "om_ok (cfg_namespaces config)" "cache_run config n c m" "n < u64_max" "\<not> poisoned c"
  shows "snd (cache_write name key val ttl now w c) = Inr () \<longleftrightarrow>
    (\<exists>p. om_get (cfg_namespaces config) name = Some p \<and> (ns_mode p = ReadWrite \<or> w = Host) \<and>
       validate_key key (max_key_bytes p) = Inr () \<and> length val \<le> max_value_bytes p \<and>
       MIN_TTL_SECONDS \<le> ttl \<and> ttl \<le> max_ttl_seconds p \<and> deadline ttl now \<noteq> None)"
    (is "?ok \<longleftrightarrow> ?checks")
proof -
  have inv: "cache_inv c" and s: "stamp_counter c < u64_max"
    and cfg: "om_get (cfg_namespaces config) name = map_option policy (om_get (namespaces (state c)) name)"
    using cache_run_inv [OF assms(2,1)] assms(3) run_policy by auto
  then have "?checks \<longleftrightarrow> (\<exists>ns expires. admits_write c name key val ttl now w ns expires)"
    using assms(4)
    by (cases "om_get (namespaces (state c)) name"; cases w)
       (auto simp: admits_write_def admits_def not_read_only)
  also have "\<dots> \<longleftrightarrow> ?ok"
    using cache_write_refused [OF s, of name key val ttl now w] cache_write_succeeds [OF inv s]
    by fastforce
  finally show ?thesis by simp
qed

text \<open>C26: What a successful write stored is read back until its deadline and not from then on.\<close>

theorem read_after_write:
  assumes "om_ok (cfg_namespaces config)" "cache_run config n c m" "Suc n < u64_max" "\<not> poisoned c"
    and "cache_write name key val ttl now w c = (c', Inr ())" "deadline ttl now = Some t"
  shows "snd (cache_get name key later c') = Inr (if later < t then Some val else None)"
proof -
  have inv: "cache_inv c" and s: "stamp_counter c < u64_max" "stamp_counter c \<le> n"
    using cache_run_inv [OF assms(2,1)] assms(3) by auto
  have inv': "cache_inv c'" and s': "stamp_counter c' < u64_max"
    using write_op.op_inv [OF inv s(1)] write_op.op_stamp [OF s(1)] s(2) assms(3,5)
    by (metis fst_conv, metis fst_conv le_less_trans Suc_le_mono)
  obtain ns expires where a: "admits_write c name key val ttl now w ns expires"
    using cache_write_refused [OF s(1)] assms(5) by fastforce
  from cache_write_stores [OF inv s(1) a] obtain stm nsm where st:
    "c' = (ticked c)\<lparr>state := put_entry name key val expires (Suc (stamp_counter c)) nsm stm\<rparr>"
    "drops (state c) stm" "om_get (namespaces stm) name = Some nsm"
    using assms(5) by (metis prod.inject)
  have t: "expires = t" using a assms(6) by (simp add: admits_write_def)
  let ?ns = "insert_entry key val expires (Suc (stamp_counter c)) (charge key val) nsm"
  have g: "om_get (namespaces (state c')) name = Some ?ns"
    "om_get (entries ?ns) key = Some \<lparr>entry_value = val, expires_at_millis = t, stamp = Suc (stamp_counter c)\<rparr>"
    using put_entry_maps(1) [OF st(3)] by (auto simp: st(1) insert_entry_def om_get_ins t)
  have "policy nsm = policy ns"
    using drops_Some [OF st(2), of name ns] st(3) a ns_shrunkD(2)
    by (metis admits_def admits_write_def option.inject)
  then have adm: "admits c' name key ?ns"
    using a assms(4) g(1) by (auto simp: admits_write_def admits_def insert_entry_def st(1))
  show ?thesis
  proof (cases "later < t")
    case True
    then show ?thesis using cache_get_hit [OF s' adm g(2)] by simp
  next
    case False
    then have "expires_at_millis \<lparr>entry_value = val, expires_at_millis = t,
        stamp = Suc (stamp_counter c)\<rparr> \<le> later" by simp
    from cache_get_expired [OF inv' s' adm g(2) this] show ?thesis using False by (metis snd_conv)
  qed
qed

text \<open>C2: A reachable cache refines the lossy map of successful writes: a read answers nothing, or
  the value of the last successful write to that namespace and key that no delete followed, and
  only before that write's deadline.\<close>

theorem cache_read_is_last_write:
  assumes "om_ok (cfg_namespaces config)" "cache_run config n c m" "n < u64_max"
    and "snd (cache_get name key now c) = Inr (Some val)"
  shows "\<exists>t. m (name, key) = Some (val, t) \<and> now < t"
proof -
  have inv: "cache_inv c" and s: "stamp_counter c < u64_max" and r: "refines c m"
    using cache_run_inv [OF assms(2,1)] assms(3) by auto
  from inv s show ?thesis
  proof (cases rule: cache_get_cases [of c name key now])
    case (Hit ns e)
    then have "cached (state c) name key = Some e" by (simp add: cached_def admits_def)
    then show ?thesis using Hit(3,4) assms(4) r by (auto simp: refines_def)
  qed (use assms(4) in auto)
qed

text \<open>Guest code cannot change a namespace that is configured read only: its writes and deletes
  are refused and leave the whole state of the cache as it was, statistics included.\<close>

lemma read_only_unchanged:
  assumes "om_get (namespaces (state c)) name = Some ns" "ns_mode (policy ns) = ReadOnly"
  shows "state (fst (cache_put name key val ttl now c)) = state c \<and>
    state (fst (cache_delete name key c)) = state c \<and>
    (\<exists>e e'. snd (cache_put name key val ttl now c) = Inl e \<and> snd (cache_delete name key c) = Inl e' \<and>
       (\<not> poisoned c \<longrightarrow> cache_error_code e = ''K5401'' \<and> cache_error_code e' = ''K5401''))"
  using assms
  by (auto simp: cache_put_def cache_write_def cache_delete_def next_stamp_def Let_def
      cache_error_code_def)

text \<open>The eviction that makes room in the whole cache removes exactly one entry, one with the
  least access stamp of all namespaces, and removes nothing only when the cache is empty.\<close>

lemma evict_globally_lru:
  assumes "om_ok (cfg_namespaces config)" "cache_run config n c m" "n \<le> u64_max"
    and "evict_globally (state c) = (r, st)"
  shows "case r of
      None \<Rightarrow> total_entries (state c) = 0 \<and> st = state c
    | Some _ \<Rightarrow> \<exists>name key e. cached (state c) name key = Some e \<and>
        (\<forall>n k. cached st n k = (if (n, k) = (name, key) then None else cached (state c) n k)) \<and>
        (\<forall>n k e'. cached (state c) n k = Some e' \<longrightarrow> stamp e \<le> stamp e')"
proof -
  have ok: "state_ok (state c)" using cache_run_inv [OF assms(2,1,3)] cache_invD(1) by blast
  show ?thesis
  proof (cases "live_entries (state c) = 0")
    case True
    then show ?thesis using evict_globally_None [OF ok True] assms(4) state_okD(2) [OF ok] by auto
  next
    case False
    show ?thesis
    proof (rule evict_globally_drops [OF ok False])
      fix r' st' name key e
      assume "evict_globally (state c) = (Some r', st')" "cached (state c) name key = Some e"
        "cached st' name key = None" "\<And>n k e'. cached (state c) n k = Some e' \<Longrightarrow> stamp e \<le> stamp e'"
        "\<And>n k. (n, k) \<noteq> (name, key) \<Longrightarrow> cached st' n k = cached (state c) n k"
      then show ?thesis using assms(4) by (auto intro!: exI [of _ name, OF exI [of _ key, OF exI [of _ e]]])
    qed
  qed
qed

section \<open>Witnesses\<close>

text \<open>A run the witnesses share: a writable and a read-only namespace, and one entry written.\<close>

definition demo_policy :: "namespace_mode \<Rightarrow> namespace_policy" where
  "demo_policy mode = \<lparr>ns_mode = mode, max_entries = 2, max_bytes = 200, max_key_bytes = 4,
     max_value_bytes = 4, max_ttl_seconds = 60\<rparr>"

definition demo_config :: cache_config where
  "demo_config = \<lparr>cfg_namespaces = [(''a'', demo_policy ReadWrite), (''b'', demo_policy ReadOnly)],
     cfg_max_total_entries = 2, cfg_max_total_bytes = 400\<rparr>"

definition demo_start :: cache where
  "demo_start = \<lparr>state = empty_state [(''a'', namespace_new (demo_policy ReadWrite)),
     (''b'', namespace_new (demo_policy ReadOnly))] 2 400, stamp_counter = 0, poisoned = False\<rparr>"

definition demo_ns :: namespace where
  "demo_ns = \<lparr>policy = demo_policy ReadWrite,
     entries = [(''k'', \<lparr>entry_value = ''v'', expires_at_millis = 1000, stamp = 1\<rparr>)],
     by_access = [(1, ''k'')], by_expiry = [((1000, ''k''), ())], bytes = 66\<rparr>"

definition demo_cache :: cache where
  "demo_cache = \<lparr>state = (empty_state [(''a'', demo_ns), (''b'', namespace_new (demo_policy ReadOnly))] 2 400)
     \<lparr>total_entries := 1, total_bytes := 66, puts := 1\<rparr>, stamp_counter = 1, poisoned = False\<rparr>"

lemmas demo_eval = demo_policy_def demo_config_def demo_start_def demo_ns_def demo_cache_def
  empty_state_def namespace_new_def om_get_def cache_limits u64_max_def checked_add_u64_def
  checked_mul_u64_def sat_add_def

lemma demo_key: "validate_key ''k'' 4 = Inr ()"
  by (simp add: validate_key_def has_control_char_def krit_eval)

lemma demo_config_ok: "om_ok (cfg_namespaces demo_config)"
  by (simp add: om_ok_def demo_config_def less_char_def)

lemma demo_new: "cache_new demo_config = Inr demo_start"
  by (simp add: cache_new_def config_validate_def policy_validate_def demo_eval)

lemma demo_write: "cache_write ''a'' ''k'' ''v'' 1 0 Guest demo_start = (demo_cache, Inr ())"
  by (simp add: cache_write_def next_stamp_def state_namespace_def demo_key deadline_def
      store_entry_def charge_def sweep_expired_def sweep_from.simps om_first_def
      MAX_SWEEP_PER_OPERATION_def set_namespace_def bump_expirations_def release_def ns_remove_def
      evict_until_fits.simps namespace_fits_def global_fits_def insert_entry_def demo_eval)

lemma demo_run: "cache_run demo_config 1 demo_cache [(''a'', ''k'') \<mapsto> (''v'', 1000)]"
proof -
  have "cache_step (Write ''a'' ''k'' ''v'' 1 0 Guest) demo_start = (demo_cache, Finished (Inr ()))"
    by (simp add: cache_step_def demo_write)
  from cache_run.call [OF cache_run.start [OF demo_new] this] show ?thesis
    by (simp add: spec_step_def deadline_def demo_eval)
qed

theorem cache_stays_within_budget_witness:
  "total_bytes (state demo_cache) = 66 \<and> total_bytes (state demo_cache) \<le> 400"
  using cache_stays_within_budget [OF demo_config_ok demo_run] by (simp add: demo_eval)

theorem cache_write_exact_witness:
  "snd (cache_write ''b'' ''k'' ''w'' 1 5 Host demo_cache) = Inr () \<and>
   snd (cache_write ''b'' ''k'' ''w'' 1 5 Guest demo_cache) \<noteq> Inr ()"
  using cache_write_exact [OF demo_config_ok demo_run, of "''b''" "''k''" "''w''" 1 5 Host]
    cache_write_exact [OF demo_config_ok demo_run, of "''b''" "''k''" "''w''" 1 5 Guest]
  by (simp add: deadline_def demo_key demo_eval)

theorem read_after_write_witness:
  "snd (cache_get ''a'' ''k'' 999 demo_cache) = Inr (Some ''v'') \<and>
   snd (cache_get ''a'' ''k'' 1000 demo_cache) = Inr None"
  using read_after_write [OF demo_config_ok cache_run.start [OF demo_new] _ _ demo_write,
      of 1000 999]
    read_after_write [OF demo_config_ok cache_run.start [OF demo_new] _ _ demo_write,
      of 1000 1000]
  by (simp add: deadline_def demo_eval)

theorem cache_read_is_last_write_witness:
  "snd (cache_get ''a'' ''k'' 999 demo_cache) = Inr (Some ''v'') \<and>
   (\<exists>t. [(''a'', ''k'') \<mapsto> (''v'', 1000)] (''a'', ''k'') = Some (''v'', t) \<and> (999::nat) < t)"
proof -
  have g: "snd (cache_get ''a'' ''k'' 999 demo_cache) = Inr (Some ''v'')"
    by (simp add: cache_get_def next_stamp_def state_namespace_def demo_key demo_eval Let_def)
  show ?thesis using g cache_read_is_last_write [OF demo_config_ok demo_run _ g]
    by (simp add: u64_max_def)
qed

end
