(* ===== verification/Krit_Ast.thy ===== *)
theory Krit_Ast
  imports Krit_Prelude
begin

text \<open>
  Source spans, diagnostics and the syntax tree of Krit programs
  (\<open>krit/src/source.rs\<close>, \<open>krit/src/diagnostic.rs\<close>, \<open>krit/src/ast.rs\<close>).
\<close>

section \<open>Spans and diagnostics\<close>

record span =
  span_start :: nat
  span_end :: nat

definition span_new :: "nat \<Rightarrow> nat \<Rightarrow> span" where
  "span_new s e = \<lparr>span_start = s, span_end = e\<rparr>"

definition span_join :: "span \<Rightarrow> span \<Rightarrow> span" where
  "span_join a b = \<lparr>span_start = span_start a, span_end = span_end b\<rparr>"

datatype severity = Error | Warning

definition severity_as_str :: "severity \<Rightarrow> str" where
  "severity_as_str s = (case s of Error \<Rightarrow> ''error'' | Warning \<Rightarrow> ''warning'')"

record diagnostic =
  severity :: severity
  code :: str
  message :: str
  diag_span :: span
  diag_notes :: "str list"

definition diagnostic_new :: "str \<Rightarrow> str \<Rightarrow> span \<Rightarrow> diagnostic" where
  "diagnostic_new c m s = \<lparr>severity = Error, code = c, message = m, diag_span = s, diag_notes = []\<rparr>"

definition diagnostic_warning :: "str \<Rightarrow> str \<Rightarrow> span \<Rightarrow> diagnostic" where
  "diagnostic_warning c m s = \<lparr>severity = Warning, code = c, message = m, diag_span = s, diag_notes = []\<rparr>"

definition with_note :: "str \<Rightarrow> diagnostic \<Rightarrow> diagnostic" where
  "with_note n d = d\<lparr>diag_notes := diag_notes d @ [n]\<rparr>"

definition backquoted :: "str \<Rightarrow> str" where
  "backquoted s = CHR 0x60 # s @ [CHR 0x60]"

section \<open>Names and operators\<close>

datatype contract_record = HttpRequestRecord | HttpResponseRecord | HttpHeaderRecord | LogFieldRecord

datatype field_default = EmptyString | EmptyListDefault

record contract_field =
  field_name :: str
  field_default :: "field_default option"

datatype variant_family = OptionFamily | ResultFamily

datatype variant_name = VSome | VNone | VOk | VErr

datatype value_literal = IntegerLit int | BooleanLit bool | StringLit str

datatype unary_operator = Not | Negate

datatype binary_operator =
    Add | Subtract | Multiply | Divide | Remainder | Equal | NotEqual
  | Less | LessEqual | Greater | GreaterEqual | And | Or

section \<open>Types\<close>

datatype type_annotation = TypeAnnotation (ty_kind: type_kind) (ty_span: span)
and type_kind =
    IntType | BoolType | StringType | UnitType | HttpHeaderType | HttpRequestType | HttpResponseType
  | LogFieldType | QueueJobType | ScheduleEventType | DatabaseTransactionType | SecretType
  | ListType type_annotation | OptionType type_annotation
  | ResultType type_annotation type_annotation
  | RecordType "(str \<times> type_annotation \<times> span) list"

record parameter =
  param_name :: str
  param_annotation :: "type_annotation option"
  param_span :: span

section \<open>Patterns\<close>

datatype pattern = Pattern (pat_kind: pattern_kind) (pat_span: span)
and pattern_kind =
    Binder str
  | Wildcard
  | Variant variant_name "pattern option"
  | EmptyListPattern
  | ConsPattern pattern pattern

record variant_pattern =
  vp_variant :: variant_name
  vp_binding :: "str option"
  vp_span :: span

record doc_comment =
  doc_text :: str
  doc_span :: span

section \<open>Expressions and statements\<close>

text \<open>
  The structs below an expression are declared over the type of expressions (and of blocks), so
  that the recursive types proper are only \<open>expression\<close>, \<open>expression_kind\<close> and \<open>block\<close>.
\<close>

datatype 'e string_part = Text str span | Hole 'e span

datatype 'e list_entry = ListEntry (le_key: 'e) (le_value: 'e) (le_span: span)

datatype 'e record_field = RecordField (rf_name: str) (rf_value: 'e) (rf_span: span)

datatype 'e construct_field =
  ConstructField (cf_name: str) (cf_name_span: span) (cf_value: 'e) (cf_span: span)

datatype 'e match_arm = MatchArm (ma_pattern: pattern) (ma_value: 'e) (ma_span: span)

datatype 'e variant_arm =
  VariantArm (va_variant: variant_name) (va_binding: "str option") (va_value: 'e) (va_span: span)

datatype ('e, 'b) statement_kind =
    Let str "type_annotation option" 'e
  | LetElse variant_pattern "type_annotation option" 'e span "'e variant_arm"
  | Function str "parameter list" "type_annotation option" 'b "doc_comment option"
  | Webhook str "parameter list" "type_annotation option" 'b "doc_comment option"
  | QueueConsumer str span str "parameter list" "type_annotation option" 'b "doc_comment option"
  | ScheduleHandler str span str "parameter list" "type_annotation option" 'b "doc_comment option"
  | ExpressionStmt 'e

datatype ('e, 'b) statement_node = Statement (st_kind: "('e, 'b) statement_kind") (st_span: span)

datatype (plugins only: code size) expression = Expression (ex_kind: expression_kind) (ex_span: span)
and expression_kind =
    Literal value_literal
  | Interpolation "expression string_part list"
  | UnitExpr
  | Variable str
  | ListExpr "expression list"
  | EntryList "expression list_entry list"
  | RecordExpr "expression record_field list"
  | Construct contract_record span "expression construct_field list"
  | FieldAccess expression str
  | BlockExpr block
  | If expression block expression
  | FunctionExpr "parameter list" "type_annotation option" block
  | Call expression "expression list"
  | Propagate expression span
  | Match expression "expression match_arm list"
  | Unary unary_operator expression
  | Binary expression binary_operator expression
and block = Block (bl_statements: "(expression, block) statement_node list")
    (bl_tail: "expression option") (bl_span: span)

type_synonym statement = "(expression, block) statement_node"
type_synonym program = "statement list"

definition statement_doc :: "statement \<Rightarrow> doc_comment option" where
  "statement_doc s =
     (case st_kind s of
        Function _ _ _ _ doc \<Rightarrow> doc
      | Webhook _ _ _ _ doc \<Rightarrow> doc
      | QueueConsumer _ _ _ _ _ _ doc \<Rightarrow> doc
      | ScheduleHandler _ _ _ _ _ _ doc \<Rightarrow> doc
      | Let _ _ _ \<Rightarrow> None
      | LetElse _ _ _ _ _ \<Rightarrow> None
      | ExpressionStmt _ \<Rightarrow> None)"

definition is_punned :: "expression construct_field \<Rightarrow> bool" where
  "is_punned f \<longleftrightarrow> ex_span (cf_value f) = cf_name_span f"

section \<open>Contract records\<close>

definition default_as_source :: "field_default \<Rightarrow> str" where
  "default_as_source d = (case d of EmptyString \<Rightarrow> [CHR 0x22, CHR 0x22] | EmptyListDefault \<Rightarrow> ''[]'')"

definition required :: "str \<Rightarrow> contract_field" where
  "required name = \<lparr>field_name = name, field_default = None\<rparr>"

definition defaulted :: "str \<Rightarrow> field_default \<Rightarrow> contract_field" where
  "defaulted name d = \<lparr>field_name = name, field_default = Some d\<rparr>"

definition HTTP_REQUEST_FIELDS :: "contract_field list" where
  "HTTP_REQUEST_FIELDS =
     [required ''method'', required ''path'', defaulted ''query'' EmptyString,
      defaulted ''headers'' EmptyListDefault, defaulted ''body'' EmptyString]"

definition HTTP_RESPONSE_FIELDS :: "contract_field list" where
  "HTTP_RESPONSE_FIELDS =
     [required ''status'', defaulted ''headers'' EmptyListDefault, defaulted ''body'' EmptyString]"

definition NAME_VALUE_FIELDS :: "contract_field list" where
  "NAME_VALUE_FIELDS = [required ''name'', required ''value'']"

definition contract_from_name :: "str \<Rightarrow> contract_record option" where
  "contract_from_name name =
     (if name = ''HttpRequest'' then Some HttpRequestRecord
      else if name = ''HttpResponse'' then Some HttpResponseRecord
      else if name = ''HttpHeader'' then Some HttpHeaderRecord
      else if name = ''LogField'' then Some LogFieldRecord
      else None)"

definition contract_name :: "contract_record \<Rightarrow> str" where
  "contract_name c =
     (case c of
        HttpRequestRecord \<Rightarrow> ''HttpRequest''
      | HttpResponseRecord \<Rightarrow> ''HttpResponse''
      | HttpHeaderRecord \<Rightarrow> ''HttpHeader''
      | LogFieldRecord \<Rightarrow> ''LogField'')"

definition contract_fields :: "contract_record \<Rightarrow> contract_field list" where
  "contract_fields c =
     (case c of
        HttpRequestRecord \<Rightarrow> HTTP_REQUEST_FIELDS
      | HttpResponseRecord \<Rightarrow> HTTP_RESPONSE_FIELDS
      | HttpHeaderRecord \<Rightarrow> NAME_VALUE_FIELDS
      | LogFieldRecord \<Rightarrow> NAME_VALUE_FIELDS)"

definition contract_field_of :: "contract_record \<Rightarrow> str \<Rightarrow> contract_field option" where
  "contract_field_of c name = find (\<lambda>f. field_name f = name) (contract_fields c)"

section \<open>Variants and patterns\<close>

definition variant_as_str :: "variant_name \<Rightarrow> str" where
  "variant_as_str v = (case v of VSome \<Rightarrow> ''Some'' | VNone \<Rightarrow> ''None'' | VOk \<Rightarrow> ''Ok'' | VErr \<Rightarrow> ''Err'')"

definition variant_family :: "variant_name \<Rightarrow> variant_family" where
  "variant_family v =
     (case v of VSome \<Rightarrow> OptionFamily | VNone \<Rightarrow> OptionFamily | VOk \<Rightarrow> ResultFamily | VErr \<Rightarrow> ResultFamily)"

definition variant_complement :: "variant_name \<Rightarrow> variant_name" where
  "variant_complement v = (case v of VSome \<Rightarrow> VNone | VNone \<Rightarrow> VSome | VOk \<Rightarrow> VErr | VErr \<Rightarrow> VOk)"

definition example_pattern :: "variant_name \<Rightarrow> str" where
  "example_pattern v =
     (case v of VSome \<Rightarrow> ''Some(value)'' | VNone \<Rightarrow> ''None'' | VOk \<Rightarrow> ''Ok(value)'' | VErr \<Rightarrow> ''Err(error)'')"

text \<open>The loop of \<open>constructor_depth\<close>; \<open>d\<close> is its counter.\<close>

fun constructor_depth_from :: "nat \<Rightarrow> pattern \<Rightarrow> nat" where
  "constructor_depth_from d (Pattern (Binder _) _) = d"
| "constructor_depth_from d (Pattern Wildcard _) = d"
| "constructor_depth_from d (Pattern EmptyListPattern _) = d + 1"
| "constructor_depth_from d (Pattern (ConsPattern _ _) _) = d + 1"
| "constructor_depth_from d (Pattern (Variant _ (Some payload)) _) = constructor_depth_from (d + 1) payload"
| "constructor_depth_from d (Pattern (Variant _ None) _) = d + 1"

definition constructor_depth :: "pattern \<Rightarrow> nat" where
  "constructor_depth p = constructor_depth_from 0 p"

definition is_catch_all :: "pattern \<Rightarrow> bool" where
  "is_catch_all p = (case pat_kind p of Binder _ \<Rightarrow> True | Wildcard \<Rightarrow> True | _ \<Rightarrow> False)"

text \<open>
  \<open>Display\<close> for patterns: the loop writes the opening of each variant and counts the parentheses
  still to close.  The head and tail of a list pattern are displayed in full, recursively.
\<close>

fun pattern_display_from :: "nat \<Rightarrow> pattern \<Rightarrow> str" where
  "pattern_display_from closing (Pattern (Binder name) _) = name @ replicate closing CHR '')''"
| "pattern_display_from closing (Pattern Wildcard _) = ''_'' @ replicate closing CHR '')''"
| "pattern_display_from closing (Pattern EmptyListPattern _) = ''[]'' @ replicate closing CHR '')''"
| "pattern_display_from closing (Pattern (ConsPattern head tail) _) =
     ''['' @ pattern_display_from 0 head @ '', ..'' @ pattern_display_from 0 tail @ '']'' @
     replicate closing CHR '')''"
| "pattern_display_from closing (Pattern (Variant v (Some payload)) _) =
     variant_as_str v @ ''('' @ pattern_display_from (closing + 1) payload"
| "pattern_display_from closing (Pattern (Variant v None) _) =
     variant_as_str v @ replicate closing CHR '')''"

definition pattern_display :: "pattern \<Rightarrow> str" where
  "pattern_display p = pattern_display_from 0 p"

section \<open>Displayed types\<close>

text \<open>\<open>join sep xs\<close> is \<open>[str]::join\<close>.\<close>

fun join :: "str \<Rightarrow> str list \<Rightarrow> str" where
  "join sep [] = []"
| "join sep [x] = x"
| "join sep (x # y # ys) = x @ sep @ join sep (y # ys)"

fun type_display :: "type_annotation \<Rightarrow> str" and kind_display :: "type_kind \<Rightarrow> str" where
  "type_display (TypeAnnotation k _) = kind_display k"
| "kind_display IntType = ''Int''"
| "kind_display BoolType = ''Bool''"
| "kind_display StringType = ''String''"
| "kind_display UnitType = ''Unit''"
| "kind_display HttpHeaderType = ''HttpHeader''"
| "kind_display HttpRequestType = ''HttpRequest''"
| "kind_display HttpResponseType = ''HttpResponse''"
| "kind_display LogFieldType = ''LogField''"
| "kind_display QueueJobType = ''QueueJob''"
| "kind_display ScheduleEventType = ''ScheduleEvent''"
| "kind_display DatabaseTransactionType = ''DatabaseTransaction''"
| "kind_display SecretType = ''Secret''"
| "kind_display (ListType t) = ''List<'' @ type_display t @ ''>''"
| "kind_display (OptionType t) = ''Option<'' @ type_display t @ ''>''"
| "kind_display (ResultType t e) = ''Result<'' @ type_display t @ '', '' @ type_display e @ ''>''"
| "kind_display (RecordType fs) =
     ''Record { '' @
     join '', '' (map (\<lambda>(name, t, _). name @ '': '' @ type_display t) fs) @ '' }''"

end
