(* ===== verification/Suggestions.thy ===== *)
theory Suggestions
  imports Krit_Ast "HOL-Library.Product_Lexorder"
begin

text \<open>
  Did-you-mean suggestions (\<open>krit/src/habits.rs\<close>) and the field rules of named constructions
  (\<open>check_construction_fields\<close> of \<open>krit/src/analysis.rs\<close>).
\<close>

section \<open>Edit distance\<close>

fun common_prefix :: "'a list \<Rightarrow> 'a list \<Rightarrow> nat" where
  "common_prefix (x # xs) (y # ys) = (if x = y then Suc (common_prefix xs ys) else 0)"
| "common_prefix _ _ = 0"

definition abs_diff :: "nat \<Rightarrow> nat \<Rightarrow> nat" where
  "abs_diff a b = (if a < b then b - a else a - b)"

text \<open>The recursion is on the number of edits left; slices past the end are guarded as in the source.\<close>

fun within_edits :: "str \<Rightarrow> str \<Rightarrow> nat \<Rightarrow> bool" where
  "within_edits left right edits =
     (if abs_diff (length left) (length right) > edits then False
      else
        let common = common_prefix left right; l = drop common left; r = drop common right in
        if l = [] \<and> r = [] then True
        else
          case edits of
            0 \<Rightarrow> False
          | Suc remaining \<Rightarrow>
              (l \<noteq> [] \<and> r \<noteq> [] \<and> within_edits (tl l) (tl r) remaining) \<or>
              (l \<noteq> [] \<and> within_edits (tl l) r remaining) \<or>
              (r \<noteq> [] \<and> within_edits l (tl r) remaining) \<or>
              (length l \<ge> 2 \<and> length r \<ge> 2 \<and> l ! 0 = r ! 1 \<and> l ! 1 = r ! 0 \<and>
               within_edits (drop 2 l) (drop 2 r) remaining))"

declare within_edits.simps [simp del]

definition edit_distance :: "str \<Rightarrow> str \<Rightarrow> nat \<Rightarrow> nat option" where
  "edit_distance left right limit = find (within_edits left right) [0..<Suc limit]"

definition MAX_SUGGESTION_DISTANCE :: nat where "MAX_SUGGESTION_DISTANCE = 2"

definition closest_step :: "str \<Rightarrow> (nat \<times> str) option \<Rightarrow> str \<Rightarrow> (nat \<times> str) option" where
  "closest_step name best candidate =
     (if candidate = name \<or> candidate = ''_'' then best
      else case edit_distance name candidate MAX_SUGGESTION_DISTANCE of
        None \<Rightarrow> best
      | Some distance \<Rightarrow>
          if distance < length name \<and>
             (case best of None \<Rightarrow> True | Some current \<Rightarrow> (distance, candidate) < current)
          then Some (distance, candidate) else best)"

definition closest_name :: "str \<Rightarrow> str list \<Rightarrow> str option" where
  "closest_name name candidates = map_option snd (foldl (closest_step name) None candidates)"

section \<open>Fields of a named construction\<close>

definition prose_list :: "str list \<Rightarrow> str" where
  "prose_list items =
     (case items of
        [] \<Rightarrow> []
      | [only] \<Rightarrow> only
      | [first, second] \<Rightarrow> first @ '' and '' @ second
      | _ \<Rightarrow> join '', '' (butlast items) @ '', and '' @ last items)"

definition code_list :: "str list \<Rightarrow> str" where
  "code_list names = prose_list (map backquoted names)"

definition all_fields :: "contract_record \<Rightarrow> str" where
  "all_fields contract =
     backquoted (contract_name contract) @ '' has the fields '' @
     code_list (map field_name (contract_fields contract))"

fun check_written ::
  "contract_record \<Rightarrow> str list \<Rightarrow> expression construct_field list \<Rightarrow> (diagnostic, str list) result" where
  "check_written contract written [] = Inr written"
| "check_written contract written (f # fs) =
     (if contract_field_of contract (cf_name f) = None then
        Inl (with_note
          (case closest_name (cf_name f) (map field_name (contract_fields contract)) of
             Some candidate \<Rightarrow> ''did you mean '' @ backquoted candidate @ ''? '' @ all_fields contract
           | None \<Rightarrow> all_fields contract)
          (diagnostic_new ''K3016''
            (backquoted (contract_name contract) @ '' has no field '' @ backquoted (cf_name f))
            (cf_name_span f)))
      else if cf_name f \<in> set written then
        Inl (with_note (''write each field once; '' @ all_fields contract)
          (diagnostic_new ''K3016''
            (''field '' @ backquoted (cf_name f) @ '' is written more than once in '' @
             backquoted (contract_name contract @ '' { ... }''))
            (cf_name_span f)))
      else check_written contract (cf_name f # written) fs)"

definition check_construction_fields ::
  "contract_record \<Rightarrow> span \<Rightarrow> expression construct_field list \<Rightarrow> (diagnostic, unit) result" where
  "check_construction_fields contract contract_span fs =
     (case check_written contract [] fs of
        Inl d \<Rightarrow> Inl d
      | Inr written \<Rightarrow>
          let all = contract_fields contract;
              missing = map field_name
                (filter (\<lambda>f. field_default f = None \<and> field_name f \<notin> set written) all);
              required = map field_name (filter (\<lambda>f. field_default f = None) all);
              defaults = List.map_filter
                (\<lambda>f. map_option
                   (\<lambda>d. backquoted (field_name f) @ '' defaults to '' @ backquoted (default_as_source d))
                   (field_default f)) all;
              name = contract_name contract
          in if missing = [] then Inr ()
             else Inl (with_note
               (if defaults = [] then
                  backquoted name @ '' requires '' @ code_list required @ '' and has no defaults''
                else backquoted name @ '' requires '' @ code_list required @ ''; '' @ prose_list defaults)
               (diagnostic_new ''K3016''
                 (backquoted (name @ '' { ... }'') @ '' is missing required '' @
                  (if length missing = 1 then ''field'' else ''fields'') @ '' '' @ code_list missing)
                 contract_span)))"

section \<open>The distance is the optimal string alignment distance\<close>

text \<open>
  \<open>osa l r n\<close>: \<open>l\<close> is aligned with \<open>r\<close> by exactly \<open>n\<close> substitutions, deletions, insertions and
  swaps of adjacent characters, none of which touches a character twice.
\<close>

inductive osa :: "str \<Rightarrow> str \<Rightarrow> nat \<Rightarrow> bool" where
  empty: "osa [] [] 0"
| keep: "osa l r n \<Longrightarrow> osa (x # l) (x # r) n"
| subst: "osa l r n \<Longrightarrow> osa (x # l) (y # r) (Suc n)"
| delete: "osa l r n \<Longrightarrow> osa (x # l) r (Suc n)"
| insert: "osa l r n \<Longrightarrow> osa l (y # r) (Suc n)"
| swap: "osa l r n \<Longrightarrow> osa (x # y # l) (y # x # r) (Suc n)"

inductive_cases osa_NilE: "osa [] [] n"
inductive_cases osa_ConsE: "osa (x # l) (y # r) n"
inductive_cases osa_leftE: "osa (x # l) [] n"
inductive_cases osa_rightE: "osa [] (y # r) n"

definition osa_within :: "str \<Rightarrow> str \<Rightarrow> nat \<Rightarrow> bool" where
  "osa_within l r n \<longleftrightarrow> (\<exists>m \<le> n. osa l r m)"

lemma osa_length: "osa l r n \<Longrightarrow> abs_diff (length l) (length r) \<le> n"
  by (induction rule: osa.induct) (auto simp: abs_diff_def split: if_splits)

text \<open>Adding one character to one side costs at most one more edit than the alignment without it.\<close>

lemma osa_drop_left: "osa (x # l) r n \<Longrightarrow> osa_within l r (Suc n)"
proof (induction "x # l" r n arbitrary: x l rule: osa.induct)
  case (keep l' r n x')
  then show ?case by (auto simp: osa_within_def intro: osa.insert)
next
  case (subst l' r n x' y)
  then show ?case unfolding osa_within_def by (meson osa.insert le_refl order_trans le_Suc_eq)
next
  case (delete l' r n x')
  then show ?case unfolding osa_within_def by (meson le_Suc_eq le_refl)
next
  case (insert r n y)
  then show ?case unfolding osa_within_def by (meson osa.insert Suc_le_mono)
next
  case (swap l' r n x' y)
  then show ?case unfolding osa_within_def
    by (auto intro!: exI [of _ "Suc n"] intro: osa.insert osa.keep)
qed

lemma osa_sym: "osa l r n \<Longrightarrow> osa r l n"
  by (induction rule: osa.induct) (auto intro: osa.intros)

lemma osa_within_sym: "osa_within l r n \<longleftrightarrow> osa_within r l n"
  unfolding osa_within_def using osa_sym by blast

lemma osa_drop_right: "osa l (y # r) n \<Longrightarrow> osa_within l r (Suc n)"
  using osa_drop_left osa_sym osa_within_sym by blast

lemma osa_within_mono: "osa_within l r n \<Longrightarrow> n \<le> m \<Longrightarrow> osa_within l r m"
  unfolding osa_within_def by (meson order_trans)

lemma osa_within_intros:
  "osa_within [] [] n"
  "osa l r n \<Longrightarrow> osa_within l r n"
  "osa_within l r n \<Longrightarrow> osa_within (x # l) (y # r) (Suc n)"
  "osa_within l r n \<Longrightarrow> osa_within (x # l) r (Suc n)"
  "osa_within l r n \<Longrightarrow> osa_within l (y # r) (Suc n)"
  "osa_within l r n \<Longrightarrow> osa_within (x # y # l) (y # x # r) (Suc n)"
  unfolding osa_within_def by (meson osa.intros Suc_le_mono le0 le_refl)+

text \<open>Skipping an equal first character never costs an edit.\<close>

lemma osa_skip: "osa (x # l) (x # r) n \<Longrightarrow> osa_within l r n"
  by (erule osa_ConsE)
     (auto intro: osa_within_intros osa.keep osa_within_mono dest: osa_drop_left osa_drop_right)

lemma osa_within_keep: "osa_within (x # l) (x # r) n \<longleftrightarrow> osa_within l r n"
  using osa_skip osa.keep unfolding osa_within_def by (meson order_trans)

lemma osa_within_common:
  "osa_within (drop (common_prefix l r) l) (drop (common_prefix l r) r) n \<longleftrightarrow> osa_within l r n"
  by (induction l r rule: common_prefix.induct) (auto simp: osa_within_keep)

lemma common_prefix_rest:
  "drop (common_prefix l r) l = x # l' \<Longrightarrow> drop (common_prefix l r) r = y # r' \<Longrightarrow> x \<noteq> y"
  by (induction l r rule: common_prefix.induct) (auto split: if_splits)

text \<open>After the common prefix, one of the four edits comes first.\<close>

definition osa_first_edit :: "str \<Rightarrow> str \<Rightarrow> nat \<Rightarrow> bool" where
  "osa_first_edit l r n \<longleftrightarrow>
     (l \<noteq> [] \<and> r \<noteq> [] \<and> osa_within (tl l) (tl r) n) \<or>
     (l \<noteq> [] \<and> osa_within (tl l) r n) \<or>
     (r \<noteq> [] \<and> osa_within l (tl r) n) \<or>
     (length l \<ge> 2 \<and> length r \<ge> 2 \<and> l ! 0 = r ! 1 \<and> l ! 1 = r ! 0 \<and>
      osa_within (drop 2 l) (drop 2 r) n)"

lemma osa_first_edit_sound: "osa_first_edit l r n \<Longrightarrow> osa_within l r (Suc n)"
proof -
  have two: "\<exists>a b t. xs = a # b # t" if "2 \<le> length xs" for xs :: str
    using that by (cases xs; cases "tl xs") auto
  assume "osa_first_edit l r n"
  then show ?thesis unfolding osa_first_edit_def
  proof (elim disjE conjE)
    assume "l \<noteq> []" "r \<noteq> []" "osa_within (tl l) (tl r) n"
    then show ?thesis
      by (cases l; cases r) (auto intro: osa_within_intros)
  next
    assume "l \<noteq> []" "osa_within (tl l) r n"
    then show ?thesis by (cases l) (auto intro: osa_within_intros)
  next
    assume "r \<noteq> []" "osa_within l (tl r) n"
    then show ?thesis by (cases r) (auto intro: osa_within_intros)
  next
    assume "2 \<le> length l" "2 \<le> length r" "l ! 0 = r ! 1" "l ! 1 = r ! 0"
      "osa_within (drop 2 l) (drop 2 r) n"
    then show ?thesis
      using two [of l] two [of r] by (auto intro: osa_within_intros)
  qed
qed

lemma osa_first_edit_complete:
  assumes "osa l r m" "m \<le> Suc n" "\<not> (l = [] \<and> r = [])"
    and "\<And>x y l' r'. l = x # l' \<Longrightarrow> r = y # r' \<Longrightarrow> x \<noteq> y"
  shows "osa_first_edit l r n"
  using assms by (cases rule: osa.cases) (auto simp: osa_first_edit_def osa_within_def)

lemma within_edits_unfold:
  assumes "l' = drop (common_prefix l r) l" "r' = drop (common_prefix l r) r"
  shows "within_edits l r n \<longleftrightarrow> abs_diff (length l) (length r) \<le> n \<and>
    ((l' = [] \<and> r' = []) \<or> (case n of 0 \<Rightarrow> False | Suc m \<Rightarrow>
       (l' \<noteq> [] \<and> r' \<noteq> [] \<and> within_edits (tl l') (tl r') m) \<or>
       (l' \<noteq> [] \<and> within_edits (tl l') r' m) \<or>
       (r' \<noteq> [] \<and> within_edits l' (tl r') m) \<or>
       (length l' \<ge> 2 \<and> length r' \<ge> 2 \<and> l' ! 0 = r' ! 1 \<and> l' ! 1 = r' ! 0 \<and>
        within_edits (drop 2 l') (drop 2 r') m)))"
  unfolding within_edits.simps [of l r n] assms Let_def by (auto simp: not_less)

lemma within_edits_osa: "within_edits l r n \<longleftrightarrow> osa_within l r n"
proof (induction n arbitrary: l r)
  case 0
  define l' r' where lr: "l' = drop (common_prefix l r) l" "r' = drop (common_prefix l r) r"
  have "osa_within l r 0 \<longleftrightarrow> osa_within l' r' 0" by (simp add: lr osa_within_common)
  also have "\<dots> \<longleftrightarrow> l' = [] \<and> r' = []"
    using common_prefix_rest [of l r] osa_within_intros(1)
    by (auto simp: osa_within_def lr elim: osa.cases intro: osa.empty)
  finally show ?case
    using osa_length [of l r 0] by (auto simp: within_edits_unfold [OF lr] osa_within_def)
next
  case (Suc n)
  define l' r' where lr: "l' = drop (common_prefix l r) l" "r' = drop (common_prefix l r) r"
  have ne: "\<And>x y l'' r''. l' = x # l'' \<Longrightarrow> r' = y # r'' \<Longrightarrow> x \<noteq> y"
    using common_prefix_rest [of l r] by (simp add: lr)
  have "osa_within l r (Suc n) \<longleftrightarrow> osa_within l' r' (Suc n)"
    by (simp add: lr osa_within_common)
  also have "\<dots> \<longleftrightarrow> (l' = [] \<and> r' = []) \<or> osa_first_edit l' r' n"
  proof
    assume "osa_within l' r' (Suc n)"
    then obtain m where m: "osa l' r' m" "m \<le> Suc n" by (auto simp: osa_within_def)
    then show "(l' = [] \<and> r' = []) \<or> osa_first_edit l' r' n"
      using osa_first_edit_complete [OF m _ ne] by (cases "l' = [] \<and> r' = []") simp_all
  next
    assume "(l' = [] \<and> r' = []) \<or> osa_first_edit l' r' n"
    then show "osa_within l' r' (Suc n)"
      using osa_first_edit_sound osa_within_intros(1) by auto
  qed
  finally have o: "osa_within l r (Suc n) \<longleftrightarrow> (l' = [] \<and> r' = []) \<or> osa_first_edit l' r' n" .
  have "within_edits l r (Suc n) \<longleftrightarrow> abs_diff (length l) (length r) \<le> Suc n \<and>
      ((l' = [] \<and> r' = []) \<or> osa_first_edit l' r' n)"
    by (simp add: within_edits_unfold [OF lr] Suc osa_first_edit_def)
  moreover have "abs_diff (length l) (length r) \<le> Suc n" if "osa_within l r (Suc n)"
    using that osa_length unfolding osa_within_def by (meson order_trans)
  ultimately show ?case using o by blast
qed

section \<open>Properties\<close>

lemma find_upt_Some:
  "find P [0..<n] = Some d \<longleftrightarrow> d < n \<and> P d \<and> (\<forall>m < d. \<not> P m)"
  by (auto simp: find_Some_iff)

text \<open>C33: The edit distance used for suggestions, computed by skipping the common prefix and trying
  one edit at the first difference, is the optimal string alignment distance: the least number of
  insertions, deletions, substitutions and adjacent swaps, when that is at most the limit.\<close>

theorem edit_distance_is_osa:
  "edit_distance l r limit = Some d \<longleftrightarrow> d \<le> limit \<and> osa l r d \<and> (\<forall>m < d. \<not> osa l r m)"
proof -
  have "edit_distance l r limit = Some d \<longleftrightarrow>
      d \<le> limit \<and> osa_within l r d \<and> (\<forall>m < d. \<not> osa_within l r m)"
    unfolding edit_distance_def by (subst find_upt_Some) (simp add: within_edits_osa less_Suc_eq_le)
  then show ?thesis unfolding osa_within_def by (metis le_neq_implies_less le_refl order_le_less_trans)
qed

theorem edit_distance_is_osa_witness: "edit_distance ''ab'' ''ba'' 2 = Some 1"
proof -
  have "osa ''ab'' ''ba'' (Suc 0)" by (intro osa.swap osa.empty)
  moreover have "\<not> osa ''ab'' ''ba'' 0" by (auto elim: osa.cases)
  ultimately show ?thesis using edit_distance_is_osa [of "''ab''" "''ba''" 2 1] by simp
qed

text \<open>The rank of a candidate: its distance and its name, when it qualifies.\<close>

definition candidate_rank :: "str \<Rightarrow> str \<Rightarrow> (nat \<times> str) option" where
  "candidate_rank name c =
     (if c = name \<or> c = ''_'' then None
      else case edit_distance name c MAX_SUGGESTION_DISTANCE of
        None \<Rightarrow> None
      | Some d \<Rightarrow> if d < length name then Some (d, c) else None)"

fun better :: "'a::linorder option \<Rightarrow> 'a option \<Rightarrow> 'a option" where
  "better None b = b"
| "better a None = a"
| "better (Some x) (Some y) = Some (min x y)"

lemma closest_step_better: "closest_step name best c = better best (candidate_rank name c)"
  by (cases best) (auto simp: closest_step_def candidate_rank_def min_def not_less split: option.splits)

lemma better_laws:
  "better (better a b) c = better a (better b c)" "better a None = a"
  by (cases a; cases b; cases c; simp add: min.assoc) (cases a; simp)

definition best_of :: "'a::linorder option list \<Rightarrow> 'a option" where
  "best_of xs = foldr better xs None"

lemma foldl_closest_step:
  "foldl (closest_step name) best cs = better best (best_of (map (candidate_rank name) cs))"
  by (induction cs arbitrary: best) (simp_all add: closest_step_better best_of_def better_laws)

lemma best_of_None: "best_of xs = None \<longleftrightarrow> (\<forall>y. Some y \<notin> set xs)"
proof (induction xs)
  case (Cons x xs)
  then show ?case by (cases x; cases "best_of xs") (auto simp: best_of_def)
qed (simp add: best_of_def)

lemma best_of_Some:
  "best_of xs = Some m \<longleftrightarrow> Some m \<in> set xs \<and> (\<forall>y. Some y \<in> set xs \<longrightarrow> m \<le> y)"
proof (induction xs arbitrary: m)
  case (Cons x xs)
  show ?case
  proof (cases "best_of xs")
    case None
    then have "Some y \<notin> set xs" for y using best_of_None by blast
    then show ?thesis using None by (cases x) (auto simp: best_of_def)
  next
    case (Some b)
    have s: "best_of (x # xs) = better x (Some b)" using Some by (simp add: best_of_def)
    have b: "Some b \<in> set xs" "\<And>y. Some y \<in> set xs \<Longrightarrow> b \<le> y" using Cons.IH [of b] Some by blast+
    show ?thesis
    proof (cases x)
      case None
      then show ?thesis using s b by (auto intro: antisym)
    next
      case (Some a)
      then show ?thesis using s b by (auto simp: min_def intro: order_trans antisym)
    qed
  qed
qed (simp add: best_of_def)

text \<open>The suggested name is the least of the qualifying candidates by number of edits and then by
  name; the right-hand side depends only on the set of candidates, so their order does not matter.\<close>

lemma closest_name_least:
  "closest_name name cs = Some c \<longleftrightarrow>
     (\<exists>d. Some (d, c) \<in> candidate_rank name ` set cs \<and>
        (\<forall>x. Some x \<in> candidate_rank name ` set cs \<longrightarrow> (d, c) \<le> x))"
proof -
  have "closest_name name cs = Some c \<longleftrightarrow> (\<exists>d. best_of (map (candidate_rank name) cs) = Some (d, c))"
    by (auto simp: closest_name_def foldl_closest_step)
  then show ?thesis by (simp add: best_of_Some)
qed

lemma contract_names_distinct: "distinct (map field_name (contract_fields c))"
  by (cases c) (simp_all add: contract_fields_def HTTP_REQUEST_FIELDS_def HTTP_RESPONSE_FIELDS_def
      NAME_VALUE_FIELDS_def required_def defaulted_def)

lemma contract_field_of_None: "contract_field_of c name = None \<longleftrightarrow> name \<notin> field_name ` set (contract_fields c)"
  by (auto simp: contract_field_of_def find_None_iff)

lemma check_written_ok:
  "check_written contract written fs = Inr names \<longleftrightarrow>
     names = rev (map cf_name fs) @ written \<and> set (map cf_name fs) \<subseteq> field_name ` set (contract_fields contract) \<and>
     distinct (map cf_name fs) \<and> set (map cf_name fs) \<inter> set written = {}"
  by (induction fs arbitrary: written) (auto simp: contract_field_of_None)

lemma check_construction_fields_iff:
  "check_construction_fields contract s fs = Inr () \<longleftrightarrow>
     distinct (map cf_name fs) \<and>
     set (map cf_name fs) \<subseteq> field_name ` set (contract_fields contract) \<and>
     {field_name f | f. f \<in> set (contract_fields contract) \<and> field_default f = None}
       \<subseteq> set (map cf_name fs)"
proof (cases "check_written contract [] fs")
  case (Inl d)
  then show ?thesis using check_written_ok [of contract "[]" fs "rev (map cf_name fs)"]
    by (auto simp: check_construction_fields_def)
next
  case (Inr written)
  then show ?thesis using check_written_ok [of contract "[]" fs written]
    by (auto simp: check_construction_fields_def Let_def filter_empty_conv)
qed

text \<open>C34: A named construction is accepted exactly when every written field is a field of the
  contract, none is written twice, and every field without a default is written.\<close>

theorem check_construction_fields_exact:
  "check_construction_fields contract s fs = Inr () \<longleftrightarrow>
     distinct (map cf_name fs) \<and>
     set (map cf_name fs) \<subseteq> field_name ` set (contract_fields contract) \<and>
     {field_name f | f. f \<in> set (contract_fields contract) \<and> field_default f = None}
       \<subseteq> set (map cf_name fs)"
  by (rule check_construction_fields_iff)

end
