(* ===== verification/Patterns.thy ===== *)
theory Patterns
  imports Krit_Ast Ordered_Map Suggestions "HOL-Library.Sublist"
begin

text \<open>
  The rules that decide which match arms may stand together (\<open>krit/src/patterns.rs\<close>): the path of a
  pattern, the outcomes a set of paths misses, and the checks for one family at each position, no
  overlap, no catch-all and exhaustiveness.
\<close>

section \<open>Constructors\<close>

datatype constructor = CSome | CNone | COk | CErr | CEmpty | CCons

datatype family = OptionF | ResultF | ListF

text \<open>The derived \<open>Ord\<close>: declaration order.\<close>

definition constructor_rank :: "constructor \<Rightarrow> nat" where
  "constructor_rank c =
     (case c of CSome \<Rightarrow> 0 | CNone \<Rightarrow> 1 | COk \<Rightarrow> 2 | CErr \<Rightarrow> 3 | CEmpty \<Rightarrow> 4 | CCons \<Rightarrow> 5)"

lemma constructor_rank_inject: "constructor_rank a = constructor_rank b \<longleftrightarrow> a = b"
  by (cases a; cases b) (simp_all add: constructor_rank_def)

instantiation constructor :: linorder
begin

definition less_eq_constructor :: "constructor \<Rightarrow> constructor \<Rightarrow> bool" where
  "less_eq_constructor a b \<longleftrightarrow> constructor_rank a \<le> constructor_rank b"

definition less_constructor :: "constructor \<Rightarrow> constructor \<Rightarrow> bool" where
  "less_constructor a b \<longleftrightarrow> constructor_rank a < constructor_rank b"

instance
  by standard (auto simp: less_eq_constructor_def less_constructor_def constructor_rank_inject)

end

definition family_constructors :: "family \<Rightarrow> constructor list" where
  "family_constructors f =
     (case f of OptionF \<Rightarrow> [CSome, CNone] | ResultF \<Rightarrow> [COk, CErr] | ListF \<Rightarrow> [CEmpty, CCons])"

definition family_described :: "family \<Rightarrow> str" where
  "family_described f =
     (case f of
        OptionF \<Rightarrow> ''an '' @ backquoted ''Option''
      | ResultF \<Rightarrow> ''a '' @ backquoted ''Result''
      | ListF \<Rightarrow> ''a '' @ backquoted ''List'')"

definition from_variant :: "variant_name \<Rightarrow> constructor" where
  "from_variant v = (case v of VSome \<Rightarrow> CSome | VNone \<Rightarrow> CNone | VOk \<Rightarrow> COk | VErr \<Rightarrow> CErr)"

definition constructor_variant :: "constructor \<Rightarrow> variant_name option" where
  "constructor_variant c =
     (case c of CSome \<Rightarrow> Some VSome | CNone \<Rightarrow> Some VNone | COk \<Rightarrow> Some VOk | CErr \<Rightarrow> Some VErr
      | CEmpty \<Rightarrow> None | CCons \<Rightarrow> None)"

definition constructor_family :: "constructor \<Rightarrow> family" where
  "constructor_family c =
     (case c of CSome \<Rightarrow> OptionF | CNone \<Rightarrow> OptionF | COk \<Rightarrow> ResultF | CErr \<Rightarrow> ResultF
      | CEmpty \<Rightarrow> ListF | CCons \<Rightarrow> ListF)"

definition open_pattern :: "constructor \<Rightarrow> str" where
  "open_pattern c =
     (case c of CSome \<Rightarrow> ''Some(_)'' | CNone \<Rightarrow> ''None'' | COk \<Rightarrow> ''Ok(_)'' | CErr \<Rightarrow> ''Err(_)''
      | CEmpty \<Rightarrow> ''[]'' | CCons \<Rightarrow> ''[_, .._]'')"

definition constructor_name :: "constructor \<Rightarrow> str" where
  "constructor_name c =
     (case c of CSome \<Rightarrow> ''Some'' | CNone \<Rightarrow> ''None'' | COk \<Rightarrow> ''Ok'' | CErr \<Rightarrow> ''Err''
      | CEmpty \<Rightarrow> ''[]'' | CCons \<Rightarrow> ''[_, .._]'')"

definition pattern_constructor :: "pattern \<Rightarrow> constructor option" where
  "pattern_constructor p =
     (case pat_kind p of
        Binder _ \<Rightarrow> None
      | Wildcard \<Rightarrow> None
      | EmptyListPattern \<Rightarrow> Some CEmpty
      | ConsPattern _ _ \<Rightarrow> Some CCons
      | Variant v _ \<Rightarrow> Some (from_variant v))"

record step =
  step_constructor :: constructor
  step_span :: span

section \<open>Paths\<close>

text \<open>The loop of \<open>path\<close>; \<open>steps\<close> are the steps already pushed.\<close>

fun path_from :: "step list \<Rightarrow> pattern \<Rightarrow> (diagnostic, step list) result" where
  "path_from steps (Pattern (Binder _) _) = Inr steps"
| "path_from steps (Pattern Wildcard _) = Inr steps"
| "path_from steps (Pattern EmptyListPattern s) =
     Inr (steps @ [\<lparr>step_constructor = CEmpty, step_span = s\<rparr>])"
| "path_from steps (Pattern (ConsPattern head tail) s) =
     (if \<not> is_catch_all head \<or> \<not> is_catch_all tail then
        Inl (diagnostic_new ''K1003''
          (''the head and tail of a list pattern are names or '' @ backquoted ''_'') s)
      else Inr (steps @ [\<lparr>step_constructor = CCons, step_span = s\<rparr>]))"
| "path_from steps (Pattern (Variant v payload) s) =
     (let steps' = steps @ [\<lparr>step_constructor = from_variant v, step_span = s\<rparr>] in
      case payload of
        None \<Rightarrow>
          if v = VNone then Inr steps'
          else Inl (diagnostic_new ''K1003''
            (backquoted (variant_as_str v) @ '' must bind one value'') s)
      | Some p \<Rightarrow>
          if v = VNone then
            Inl (diagnostic_new ''K1003'' (backquoted ''None'' @ '' does not bind a value'') s)
          else path_from steps' p)"

definition path :: "pattern \<Rightarrow> (diagnostic, step list) result" where
  "path p = path_from [] p"

definition constructors :: "step list \<Rightarrow> constructor list" where
  "constructors steps = map step_constructor steps"

definition render_path :: "constructor list \<Rightarrow> str" where
  "render_path p =
     (if p = [] then ''_''
      else
        let outer = butlast p in
        concat (map (\<lambda>c. constructor_name c @ ''('') outer) @ open_pattern (last p) @
        replicate (length outer) CHR '')'')"

text \<open>
  \<open>missing\<close>: \<open>note_path\<close> is the body of the loop that fills \<open>prefixes\<close> (first family wins) and
  \<open>continued\<close>.
\<close>

definition note_path ::
  "(constructor list, family) omap \<times> constructor list set \<Rightarrow> constructor list \<Rightarrow>
     (constructor list, family) omap \<times> constructor list set" where
  "note_path acc p =
     foldl (\<lambda>(prefixes, continued) n.
        (om_or_insert (take n p) (constructor_family (p ! n)) prefixes,
         insert (take (Suc n) p) continued))
       acc [0..<length p]"

definition missing :: "constructor list list \<Rightarrow> constructor list list" where
  "missing paths =
     (let (prefixes, continued) = foldl note_path ([], {}) paths in
      sort (concat (map (\<lambda>(p, f).
        filter (\<lambda>candidate. candidate \<notin> continued)
          (map (\<lambda>c. p @ [c]) (family_constructors f))) prefixes)))"

definition quoted_list :: "constructor list list \<Rightarrow> str" where
  "quoted_list paths = join '', '' (map (\<lambda>p. backquoted (render_path p)) paths)"

definition arm_list :: "constructor list list \<Rightarrow> str" where
  "arm_list paths =
     (let arms = map (\<lambda>p. backquoted (render_path p @ '' => ...'')) paths in
      case arms of
        [] \<Rightarrow> []
      | [only] \<Rightarrow> only
      | _ \<Rightarrow> join '', '' (butlast arms) @ '' and '' @ last arms)"

fun sub_pattern :: "pattern \<Rightarrow> nat \<Rightarrow> pattern" where
  "sub_pattern p 0 = p"
| "sub_pattern p (Suc n) =
     (case pat_kind p of Variant _ (Some payload) \<Rightarrow> sub_pattern payload n | _ \<Rightarrow> p)"

section \<open>Checking the arms\<close>

type_synonym 'e ends = "(constructor list, nat \<times> 'e match_arm) omap"
type_synonym 'e families = "(constructor list, family \<times> 'e match_arm) omap"

text \<open>The walk along the arm's own path: \<open>check_depth\<close> is one iteration.\<close>

definition check_depth ::
  "'e ends \<Rightarrow> 'e families \<Rightarrow> 'e match_arm \<Rightarrow> step list \<Rightarrow> nat \<Rightarrow> diagnostic option" where
  "check_depth ends families arm steps depth =
     (let own = constructors steps; prefix = take depth own; pat = ma_pattern arm in
      case om_get ends prefix of
        Some (_, other) \<Rightarrow>
          Some (if depth = length own then
            with_note ''remove one of the two arms''
              (diagnostic_new ''K1003''
                (''duplicate match arm: '' @ backquoted (pattern_display pat) @
                 '' matches exactly what the earlier arm '' @
                 backquoted (pattern_display (ma_pattern other)) @ '' matches'')
                (pat_span pat))
           else
            with_note ''remove this arm''
              (diagnostic_new ''K1003''
                (''unreachable match arm: the earlier arm '' @
                 backquoted (pattern_display (ma_pattern other)) @
                 '' already matches every value '' @ backquoted (pattern_display pat) @ '' matches'')
                (pat_span pat)))
      | None \<Rightarrow>
          if depth < length own then
            (case om_get families prefix of
               Some (f, other) \<Rightarrow>
                 if f \<noteq> constructor_family (own ! depth) then
                   Some (with_note
                     (''each position of a match takes the patterns of one family: '' @
                      backquoted ''Some'' @ '' and '' @ backquoted ''None'' @ '', '' @
                      backquoted ''Ok'' @ '' and '' @ backquoted ''Err'' @ '', or '' @
                      backquoted ''[]'' @ '' and '' @ backquoted ''[head, ..tail]'')
                     (diagnostic_new ''K1003''
                       (backquoted (pattern_display (sub_pattern pat depth)) @ '' is '' @
                        family_described (constructor_family (own ! depth)) @
                        '' pattern, but the earlier arm '' @
                        backquoted (pattern_display (ma_pattern other)) @ '' matches '' @
                        family_described f @ '' value here'')
                       (step_span (steps ! depth))))
                 else None
             | None \<Rightarrow> None)
          else None)"

definition first_error :: "diagnostic option list \<Rightarrow> diagnostic option" where
  "first_error ds = (case filter (\<lambda>d. d \<noteq> None) ds of [] \<Rightarrow> None | d # _ \<Rightarrow> d)"

text \<open>Earlier arms whose paths extend this one's: a contiguous range of \<open>ends\<close>.\<close>

definition narrower_of :: "'e ends \<Rightarrow> constructor list \<Rightarrow> 'e ends" where
  "narrower_of ends own =
     takeWhile (\<lambda>(other, _). prefix own other) (filter (\<lambda>(other, _). own < other) ends)"

fun min_by :: "('a \<Rightarrow> nat) \<Rightarrow> 'a list \<Rightarrow> 'a option" where
  "min_by f [] = None"
| "min_by f (x # xs) =
     (case min_by f xs of None \<Rightarrow> Some x | Some y \<Rightarrow> Some (if f x \<le> f y then x else y))"

definition overlap_error :: "'e ends \<Rightarrow> 'e match_arm \<Rightarrow> constructor list \<Rightarrow> diagnostic option" where
  "overlap_error ends arm own =
     (let narrower = narrower_of ends own; pat = ma_pattern arm in
      case min_by (\<lambda>(_, position, _). position) narrower of
        None \<Rightarrow> None
      | Some (_, _, first) \<Rightarrow>
          let remainder = filter (prefix own) (missing (map fst narrower)) in
          if remainder = [] then
            Some (with_note ''remove this arm''
              (diagnostic_new ''K1003''
                (''unreachable match arm: earlier arms already match every value '' @
                 backquoted (pattern_display pat) @ '' matches'')
                (pat_span pat)))
          else
            Some (with_note
              (''name each remaining outcome instead: replace '' @
               backquoted (pattern_display pat @ '' => ...'') @ '' with '' @ arm_list remainder)
              (diagnostic_new ''K1003''
                (''match arm '' @ backquoted (pattern_display pat) @ '' overlaps the earlier arm '' @
                 backquoted (pattern_display (ma_pattern first)) @ '': arms may not overlap'')
                (pat_span pat))))"

definition note_families :: "'e match_arm \<Rightarrow> constructor list \<Rightarrow> 'e families \<Rightarrow> 'e families" where
  "note_families arm own families =
     foldl (\<lambda>fs depth. om_or_insert (take depth own) (constructor_family (own ! depth), arm) fs)
       families [0..<length own]"

text \<open>The loop over the arms; it returns the final \<open>ends\<close>.\<close>

fun check_each ::
  "nat \<Rightarrow> 'e ends \<Rightarrow> 'e families \<Rightarrow> 'e match_arm list \<Rightarrow> (diagnostic, 'e ends) result" where
  "check_each index ends families [] = Inr ends"
| "check_each index ends families (arm # arms) =
     (if is_catch_all (ma_pattern arm) then check_each (Suc index) ends families arms
      else
        case path (ma_pattern arm) of
          Inl d \<Rightarrow> Inl d
        | Inr steps \<Rightarrow>
            let own = constructors steps in
            case first_error (map (check_depth ends families arm steps) [0..<Suc (length own)]) of
              Some d \<Rightarrow> Inl d
            | None \<Rightarrow>
                case overlap_error ends arm own of
                  Some d \<Rightarrow> Inl d
                | None \<Rightarrow>
                    check_each (Suc index) (om_insert own (index, arm) ends)
                      (note_families arm own families) arms)"

definition catch_all_error :: "'e ends \<Rightarrow> 'e match_arm \<Rightarrow> family option \<Rightarrow> diagnostic" where
  "catch_all_error ends catch_all subject =
     (let named = map fst ends; pat = ma_pattern catch_all;
          remainder =
            (if named = [] then
               map_option (\<lambda>f. map (\<lambda>c. [c]) (family_constructors f)) subject
             else Some (missing named));
          arm = backquoted (pattern_display pat @ '' => ...'');
          what = (case pat_kind pat of
              Wildcard \<Rightarrow> backquoted ''_''
            | _ \<Rightarrow> ''the name '' @ backquoted (pattern_display pat)) in
      with_note
        (case remainder of
           Some r \<Rightarrow>
             if r = [] then ''name every outcome: the other arms already do, so remove '' @ arm
             else ''name every outcome: replace '' @ arm @ '' with '' @ arm_list r
         | None \<Rightarrow>
             ''name every outcome with its own arm, such as '' @ backquoted ''Some(value)'' @
             '' and '' @ backquoted ''None'' @ '', '' @ backquoted ''Ok(value)'' @ '' and '' @
             backquoted ''Err(error)'' @ '', or '' @ backquoted ''[]'' @ '' and '' @
             backquoted ''[head, ..tail]'')
        (diagnostic_new ''K3005''
          (''a match arm cannot match every value: '' @ what @
           '' would stand for outcomes it does not name'')
          (pat_span pat)))"

definition check_arms :: "'e match_arm list \<Rightarrow> family option \<Rightarrow> (diagnostic, unit) result" where
  "check_arms arms subject =
     (case check_each 0 [] [] arms of
        Inl d \<Rightarrow> Inl d
      | Inr ends \<Rightarrow>
          (case find (\<lambda>arm. is_catch_all (ma_pattern arm)) arms of
             None \<Rightarrow> Inr ()
           | Some catch_all \<Rightarrow> Inl (catch_all_error ends catch_all subject)))"

fun collect_paths :: "'e match_arm list \<Rightarrow> (diagnostic, constructor list list) result" where
  "collect_paths [] = Inr []"
| "collect_paths (arm # arms) =
     (case path (ma_pattern arm) of
        Inl d \<Rightarrow> Inl d
      | Inr steps \<Rightarrow>
          (case collect_paths arms of Inl d \<Rightarrow> Inl d | Inr ps \<Rightarrow> Inr (constructors steps # ps)))"

definition check_exhaustive :: "'e match_arm list \<Rightarrow> span \<Rightarrow> (diagnostic, unit) result" where
  "check_exhaustive arms s =
     (case collect_paths arms of
        Inl d \<Rightarrow> Inl d
      | Inr paths \<Rightarrow>
          let ms = missing paths in
          if ms = [] then Inr ()
          else Inl (with_note (''add an arm for each missing pattern: '' @ arm_list ms)
            (diagnostic_new ''K3005'' (''non-exhaustive match; missing: '' @ quoted_list ms) s)))"

section \<open>Paths of patterns\<close>

text \<open>The path of a well-formed pattern, without the spans.\<close>

fun cpath :: "pattern \<Rightarrow> constructor list" where
  "cpath (Pattern (Variant v (Some p)) _) = from_variant v # cpath p"
| "cpath (Pattern (Variant v None) _) = [from_variant v]"
| "cpath (Pattern EmptyListPattern _) = [CEmpty]"
| "cpath (Pattern (ConsPattern _ _) _) = [CCons]"
| "cpath (Pattern (Binder _) _) = []"
| "cpath (Pattern Wildcard _) = []"

lemma path_from_constructors:
  "path_from steps p = Inr steps' \<Longrightarrow> constructors steps' = constructors steps @ cpath p"
  by (induction steps p rule: path_from.induct)
     (auto simp: constructors_def Let_def split: if_splits option.splits)

lemma path_constructors: "path p = Inr steps \<Longrightarrow> constructors steps = cpath p"
  using path_from_constructors [of "[]" p steps] by (simp add: path_def constructors_def)

lemma cpath_Nil: "cpath p = [] \<longleftrightarrow> is_catch_all p"
  by (cases p rule: cpath.cases) (auto simp: is_catch_all_def)

end
