(* ===== verification/Request_Target.thy ===== *)
theory Request_Target
  imports Krit_Prelude
begin

text \<open>
  The host's rule for HTTP request paths and queries and the percent-encoding builders
  (\<open>krit-capability/src/request_target.rs\<close>).  The rule side is \<open>is_origin_form_path\<close> and
  \<open>is_valid_query\<close>; the builder side is \<open>encode_path_segment\<close> and \<open>encode_query\<close>, which the
  language's \<open>url_path_segment\<close> and \<open>url_query\<close> call.  The theorems show that the builder's
  refusals are exactly the host's, that every built text is accepted and decodes to what
  was encoded, and that an accepted path keeps its meaning under one and two decodings.
\<close>

section \<open>The host rule\<close>

definition hex_digit :: "char \<Rightarrow> 8 word option" where
  "hex_digit b =
     (if u8 CHR ''0'' \<le> u8 b \<and> u8 b \<le> u8 CHR ''9'' then Some (u8 b - u8 CHR ''0'')
      else if u8 CHR ''a'' \<le> u8 b \<and> u8 b \<le> u8 CHR ''f'' then Some (u8 b - u8 CHR ''a'' + 10)
      else if u8 CHR ''A'' \<le> u8 b \<and> u8 b \<le> u8 CHR ''F'' then Some (u8 b - u8 CHR ''A'' + 10)
      else None)"

definition has_origin_form_shape :: "str \<Rightarrow> bool" where
  "has_origin_form_shape path \<longleftrightarrow>
     prefix ''/'' path \<and> \<not> prefix ''//'' path \<and> \<not> sublist ''://'' path \<and>
     \<not> list_ex (\<lambda>b. is_ascii_control b \<or>
        b \<in> {CHR '' '', CHR 0x5C, CHR ''?'', CHR ''#''}) path"

text \<open>\<open>None\<close> is the source's \<open>false\<close>; \<open>Some d\<close> is \<open>true\<close> with \<open>d\<close> left in the output vector.\<close>

fun decode_segment :: "str \<Rightarrow> str option" where
  "decode_segment [] = Some []"
| "decode_segment (b # bs) =
     (if b \<noteq> CHR ''%'' then map_option (Cons b) (decode_segment bs)
      else case bs of
             h # l # rest \<Rightarrow>
               (case (hex_digit h, hex_digit l) of
                  (Some high, Some low) \<Rightarrow>
                    (let byte = of_u8 (push_bit 4 high OR low) in
                     if byte \<in> {CHR ''.'', CHR ''/'', CHR 0x5C} \<or> is_ascii_control byte then None
                     else map_option (Cons byte) (decode_segment rest))
                | _ \<Rightarrow> None)
           | _ \<Rightarrow> None)"

definition is_ascii_whitespace :: "char \<Rightarrow> bool" where
  "is_ascii_whitespace b \<longleftrightarrow> b \<in> {CHR '' '', CHR 0x09, CHR 0x0A, CHR 0x0C, CHR 0x0D}"

definition trim_ascii :: "str \<Rightarrow> str" where
  "trim_ascii s = rev (dropWhile is_ascii_whitespace (rev (dropWhile is_ascii_whitespace s)))"

definition is_dot_segment :: "str \<Rightarrow> bool" where
  "is_dot_segment decoded \<longleftrightarrow>
     (let name = takeWhile (\<lambda>b. b \<notin> {CHR '';'', CHR ''?'', CHR ''#''}) decoded
      in trim_ascii name \<in> {''.'', ''..''})"

definition begins_escape :: "char \<Rightarrow> bool" where
  "begins_escape b \<longleftrightarrow> hex_digit b \<noteq> None \<or> b \<in> {CHR ''u'', CHR ''U''}"

definition holds_escape :: "str \<Rightarrow> bool" where
  "holds_escape decoded \<longleftrightarrow>
     list_ex (\<lambda>(x, y). x = CHR ''%'' \<and> begins_escape y) (windows2 decoded)"

definition holds_overlong_utf8 :: "str \<Rightarrow> bool" where
  "holds_overlong_utf8 decoded \<longleftrightarrow>
     list_ex (\<lambda>b. u8 b = 0xC0 \<or> u8 b = 0xC1) decoded \<or>
     list_ex (\<lambda>(x, y).
        let bits = u8 y AND 0x3F in
        if u8 x = 0xE0 then bits < 0x20
        else if u8 x = 0xF0 then bits < 0x10
        else if u8 x = 0xF8 then bits < 0x08
        else if u8 x = 0xFC then bits < 0x04
        else False) (windows2 decoded)"

definition has_traversal_form :: "str \<Rightarrow> bool" where
  "has_traversal_form path \<longleftrightarrow>
     list_ex (\<lambda>segment.
        case decode_segment segment of
          None \<Rightarrow> True
        | Some decoded \<Rightarrow>
            is_dot_segment decoded \<or> holds_escape decoded \<or> holds_overlong_utf8 decoded)
       (split_on CHR ''/'' path)"

definition is_origin_form_path :: "str \<Rightarrow> bool" where
  "is_origin_form_path path \<longleftrightarrow> has_origin_form_shape path \<and> \<not> has_traversal_form path"

definition is_valid_query :: "str \<Rightarrow> bool" where
  "is_valid_query query \<longleftrightarrow>
     \<not> prefix ''?'' query \<and>
     \<not> list_ex (\<lambda>b. is_ascii_control b \<or> b \<in> {CHR '' '', CHR ''#'', CHR 0x5C}) query"

section \<open>The builders\<close>

definition is_unreserved :: "char \<Rightarrow> bool" where
  "is_unreserved b \<longleftrightarrow>
     is_ascii_alphanumeric b \<or> b \<in> {CHR ''-'', CHR ''.'', CHR ''_'', CHR ''~''}"

definition HEX :: str where
  "HEX = ''0123456789ABCDEF''"

fun percent_encode :: "str \<Rightarrow> str \<Rightarrow> str" where
  "percent_encode [] out = out"
| "percent_encode (b # bs) out =
     percent_encode bs
       (if is_unreserved b then out @ [b]
        else out @ [CHR ''%'', HEX ! unat (drop_bit 4 (u8 b)), HEX ! unat (u8 b AND 0x0F)])"

datatype path_segment_error = Empty | ForbiddenByte | EscapeLike | DotSegment

definition path_segment_check :: "str \<Rightarrow> path_segment_error option" where
  "path_segment_check text =
     (if text = [] then Some Empty
      else if list_ex (\<lambda>b. b \<in> {CHR ''/'', CHR 0x5C} \<or> is_ascii_control b) text
      then Some ForbiddenByte
      else if holds_escape text then Some EscapeLike
      else if is_dot_segment text then Some DotSegment
      else None)"

definition encode_path_segment :: "str \<Rightarrow> (path_segment_error, str) result" where
  "encode_path_segment text =
     (case path_segment_check text of
        Some err \<Rightarrow> Inl err
      | None \<Rightarrow> Inr (percent_encode text []))"

fun encode_query_from :: "nat \<Rightarrow> str \<Rightarrow> (str \<times> str) list \<Rightarrow> str" where
  "encode_query_from index query [] = query"
| "encode_query_from index query ((name, val) # pairs) =
     encode_query_from (Suc index)
       (percent_encode val
         (percent_encode name (if index > 0 then query @ ''&'' else query) @ ''='')) pairs"

definition encode_query :: "(str \<times> str) list \<Rightarrow> str" where
  "encode_query pairs = encode_query_from 0 [] pairs"

section \<open>Encoding one byte\<close>

definition enc_byte :: "char \<Rightarrow> str" where
  "enc_byte b =
     (if is_unreserved b then [b]
      else [CHR ''%'', HEX ! unat (drop_bit 4 (u8 b)), HEX ! unat (u8 b AND 0x0F)])"

definition enc :: "str \<Rightarrow> str" where
  "enc t = concat (map enc_byte t)"

lemma enc_simps [simp]: "enc [] = []" "enc (b # bs) = enc_byte b @ enc bs"
  by (simp_all add: enc_def)

lemma percent_encode_eq: "percent_encode t out = out @ enc t"
  by (induction t out rule: percent_encode.induct) (simp_all add: enc_byte_def)

lemma hex_digit_nat [krit_eval]:
  "hex_digit b =
     (let n = of_char b :: nat in
      if 48 \<le> n \<and> n \<le> 57 then Some (word_of_nat (n - 48))
      else if 97 \<le> n \<and> n \<le> 102 then Some (word_of_nat (n - 87))
      else if 65 \<le> n \<and> n \<le> 70 then Some (word_of_nat (n - 55))
      else None)"
  unfolding hex_digit_def u8_le_iff Let_def by (auto simp: u8_eq_of_nat of_nat_diff)

lemma HEX_nth: "n < 16 \<Longrightarrow> of_char (HEX ! n) = (if n < 10 then 48 + n else 55 + n)"
proof -
  have "\<forall>n \<in> {0..<16}. of_char (HEX ! n) = (if n < 10 then 48 + n else 55 + n)"
    by (simp add: HEX_def atLeastLessThan_nat_numeral)
  then show "n < 16 \<Longrightarrow> ?thesis" by simp
qed

lemmas path_rule_eval [krit_eval] =
  path_segment_check_def holds_escape_def begins_escape_def is_dot_segment_def trim_ascii_def
  is_ascii_whitespace_def

lemma hex_digit_HEX: "unat w < 16 \<Longrightarrow> hex_digit (HEX ! unat w) = Some w"
  by (simp add: hex_digit_nat HEX_nth Let_def)

lemma is_unreserved_nat [krit_eval]:
  "is_unreserved b \<longleftrightarrow>
     (let n = of_char b :: nat in
      48 \<le> n \<and> n \<le> 57 \<or> 97 \<le> n \<and> n \<le> 122 \<or> 65 \<le> n \<and> n \<le> 90 \<or>
      n = 45 \<or> n = 46 \<or> n = 95 \<or> n = 126)"
  unfolding is_unreserved_def is_ascii_alphanumeric_def ascii_nat Let_def
  by (auto simp: char_eq_nat [of b])

lemma HEX_unreserved: "n < 16 \<Longrightarrow> is_unreserved (HEX ! n)"
  by (simp add: is_unreserved_nat HEX_nth Let_def)

lemma nibbles:
  fixes w :: "8 word"
  shows "unat (drop_bit 4 w) < 16" "unat (w AND 0x0F) < 16"
    "push_bit 4 (drop_bit 4 w) OR (w AND 0x0F) = w"
proof -
  have m: "w AND 0x0F = take_bit 4 w"
    by (simp add: take_bit_eq_mask mask_eq_exp_minus_1)
  have w: "unat w < 256" using unsigned_less [of w] by simp
  moreover have "unat (drop_bit 4 w) = unat w div 16"
    using w by (simp only: unsigned_drop_bit_eq) (simp add: drop_bit_eq_div take_bit_eq_mod)
  ultimately show "unat (drop_bit 4 w) < 16" by simp
  show "unat (w AND 0x0F) < 16"
    unfolding m by (simp only: unsigned_take_bit_eq) (simp add: take_bit_eq_mod)
  show "push_bit 4 (drop_bit 4 w) OR (w AND 0x0F) = w"
    unfolding m
    by (rule bit_eqI)
       (auto simp: bit_or_iff bit_push_bit_iff bit_drop_bit_eq bit_take_bit_iff)
qed

definition is_forbidden :: "char \<Rightarrow> bool" where
  "is_forbidden b \<longleftrightarrow> b \<in> {CHR ''/'', CHR 0x5C} \<or> is_ascii_control b"

lemma decode_segment_enc_byte:
  "decode_segment (enc_byte b @ rest) =
     (if is_forbidden b then None else map_option (Cons b) (decode_segment rest))"
proof (cases "is_unreserved b")
  case True
  then have "b \<noteq> CHR ''%''" "\<not> is_forbidden b"
    by (auto simp: is_unreserved_nat is_forbidden_def ascii_nat char_eq_nat [of b] Let_def)
  with True show ?thesis by (simp add: enc_byte_def)
next
  case False
  then have "b \<noteq> CHR ''.''" by (auto simp: is_unreserved_def)
  with False show ?thesis
    by (auto simp: enc_byte_def hex_digit_HEX nibbles Let_def is_forbidden_def)
qed

lemma decode_segment_enc:
  "decode_segment (enc t) = (if list_ex is_forbidden t then None else Some t)"
  by (induction t) (simp_all add: decode_segment_enc_byte)

lemma enc_byte_chars: "c \<in> set (enc_byte b) \<Longrightarrow> is_unreserved c \<or> c = CHR ''%''"
  by (auto simp: enc_byte_def HEX_unreserved nibbles split: if_splits)

lemma enc_chars: "c \<in> set (enc t) \<Longrightarrow> is_unreserved c \<or> c = CHR ''%''"
  by (induction t) (auto dest: enc_byte_chars)

lemma enc_Nil_iff [simp]: "enc t = [] \<longleftrightarrow> t = []"
  by (cases t) (auto simp: enc_byte_def)

section \<open>UTF-8 text is never overlong\<close>

definition overlong_pair :: "char \<Rightarrow> char \<Rightarrow> bool" where
  "overlong_pair x y \<longleftrightarrow>
     (let n = of_char x; bits = of_char y mod 64 :: nat in
      n = (0xE0::nat) \<and> bits < 0x20 \<or> n = 0xF0 \<and> bits < 0x10 \<or>
      n = 0xF8 \<and> bits < 0x08 \<or> n = 0xFC \<and> bits < 0x04)"

lemma unat_and_3F: "unat (u8 y AND 0x3F) = of_char y mod 64"
proof -
  have m: "u8 y AND 0x3F = take_bit 6 (u8 y)"
    by (simp add: take_bit_eq_mask mask_eq_exp_minus_1)
  show ?thesis unfolding m by (simp only: unsigned_take_bit_eq) (simp add: take_bit_eq_mod)
qed

lemma overlong_pair_u8:
  "overlong_pair x y \<longleftrightarrow>
     (let bits = u8 y AND 0x3F in
      if u8 x = 0xE0 then bits < 0x20
      else if u8 x = 0xF0 then bits < 0x10
      else if u8 x = 0xF8 then bits < 0x08
      else if u8 x = 0xFC then bits < 0x04
      else False)"
  unfolding overlong_pair_def Let_def word_unat_eq_iff word_less_nat_alt unat_and_3F unat_u8
  by auto

lemma holds_overlong_utf8_nat:
  "holds_overlong_utf8 s \<longleftrightarrow>
     (\<exists>b \<in> set s. of_char b = (0xC0::nat) \<or> of_char b = (0xC1::nat)) \<or>
     (\<exists>(x, y) \<in> set (windows2 s). overlong_pair x y)"
  unfolding holds_overlong_utf8_def list_ex_iff overlong_pair_u8 word_unat_eq_iff unat_u8
  by simp

lemma windows2_append:
  "set (windows2 (xs @ ys)) =
     set (windows2 xs) \<union> set (windows2 ys) \<union>
     (if xs = [] \<or> ys = [] then {} else {(last xs, hd ys)})"
proof (induction xs)
  case (Cons x xs)
  show ?case
  proof (cases xs)
    case Nil
    then show ?thesis by (cases ys) auto
  next
    case (Cons x' xs')
    with Cons.IH show ?thesis by auto
  qed
qed simp

lemma mod_64: "k < 64 \<Longrightarrow> (128 + k) mod 64 = (k::nat)"
  using mod_mult_self3 [of 2 64 k] by simp

lemma utf8_char_ok:
  assumes "is_scalar n"
  shows "utf8_char n \<noteq> []"
    "\<forall>b \<in> set (utf8_char n). of_char b \<noteq> (0xC0::nat) \<and> of_char b \<noteq> (0xC1::nat)"
    "\<forall>(x, y) \<in> set (windows2 (utf8_char n)). \<not> overlong_pair x y"
    "of_char (last (utf8_char n)) < (0xC0::nat)"
proof -
  have n: "n < 0x110000" using assms by (auto simp: is_scalar_def)
  show "utf8_char n \<noteq> []" by (simp add: utf8_char_def)
  show "\<forall>b \<in> set (utf8_char n). of_char b \<noteq> (0xC0::nat) \<and> of_char b \<noteq> (0xC1::nat)"
    using n by (auto simp: utf8_char_def)
  have "32 \<le> (128 + n div 64) mod 64" if "\<not> n < 2048" "n div 4096 = 0"
    using that mod_64 [of "n div 64"] by (simp add: div_eq_0_iff)
  moreover have "16 \<le> (128 + n div 4096) mod 64" if "\<not> n < 65536" "n div 262144 = 0"
    using that mod_64 [of "n div 4096"] by (simp add: div_eq_0_iff)
  ultimately show "\<forall>(x, y) \<in> set (windows2 (utf8_char n)). \<not> overlong_pair x y"
    using n by (auto simp: utf8_char_def overlong_pair_def Let_def linorder_not_less)
  show "of_char (last (utf8_char n)) < (0xC0::nat)"
    using n by (auto simp: utf8_char_def)
qed

lemma utf8_not_overlong:
  "list_all is_scalar cs \<Longrightarrow> \<not> holds_overlong_utf8 (utf8 cs)"
proof (induction cs)
  case Nil
  then show ?case by (simp add: utf8_def holds_overlong_utf8_nat)
next
  case (Cons n cs)
  then have n: "is_scalar n" and IH: "\<not> holds_overlong_utf8 (utf8 cs)" by auto
  have "\<not> overlong_pair (last (utf8_char n)) y" for y
    using utf8_char_ok(4) [OF n] by (auto simp: overlong_pair_def Let_def)
  then show ?case
    using IH utf8_char_ok(2,3) [OF n]
    by (auto simp: utf8_def holds_overlong_utf8_nat windows2_append split: if_splits)
qed

section \<open>The builder is exactly as strict as the host\<close>

lemma enc_plain:
  assumes "c \<in> set (enc t)"
  shows "c \<noteq> CHR ''/'' \<and> c \<noteq> CHR '':'' \<and> c \<noteq> CHR '' '' \<and> c \<noteq> CHR 0x5C \<and> c \<noteq> CHR ''?'' \<and>
     c \<noteq> CHR ''#'' \<and> c \<noteq> CHR ''&'' \<and> c \<noteq> CHR ''='' \<and> \<not> is_ascii_control c"
  using enc_chars [OF assms] by (auto simp: is_unreserved_nat ascii_nat Let_def)

lemma enc_no_delimiters [simp]:
  "CHR ''/'' \<notin> set (enc t)" "CHR '':'' \<notin> set (enc t)" "CHR ''&'' \<notin> set (enc t)"
  "CHR ''='' \<notin> set (enc t)"
  using enc_plain by blast+

definition bad_segment :: "str \<Rightarrow> bool" where
  "bad_segment segment \<longleftrightarrow>
     (case decode_segment segment of
        None \<Rightarrow> True
      | Some d \<Rightarrow> is_dot_segment d \<or> holds_escape d \<or> holds_overlong_utf8 d)"

lemma has_traversal_form_iff:
  "has_traversal_form path \<longleftrightarrow> (\<exists>segment \<in> set (split_on CHR ''/'' path). bad_segment segment)"
  by (simp add: has_traversal_form_def list_ex_iff bad_segment_def)

lemma bad_segment_Nil [simp]: "\<not> bad_segment []"
  by (simp add: bad_segment_def is_dot_segment_def holds_escape_def holds_overlong_utf8_def
      trim_ascii_def Let_def)

lemma bad_segment_enc:
  assumes "list_all is_scalar cs"
  shows "bad_segment (enc (utf8 cs)) \<longleftrightarrow> path_segment_check (utf8 cs) \<notin> {None, Some Empty}"
  using utf8_not_overlong [OF assms] bad_segment_Nil
  by (cases "utf8 cs = []")
     (auto simp: bad_segment_def decode_segment_enc path_segment_check_def is_forbidden_def
       list_ex_iff split: if_splits)

lemma shape_enc: "has_origin_form_shape (CHR ''/'' # enc t)"
proof -
  have "\<not> sublist ''://'' (CHR ''/'' # enc t)"
    by (auto dest: set_mono_sublist)
  moreover have "\<not> prefix ''//'' (CHR ''/'' # enc t)"
    by (auto dest: set_mono_prefix)
  moreover have "\<not> is_ascii_control CHR ''/''" by (simp add: ascii_nat)
  ultimately show ?thesis
    using enc_plain by (auto simp: has_origin_form_shape_def list_ex_iff)
qed

lemma path_segment_check_iff:
  assumes "list_all is_scalar cs"
  shows "is_origin_form_path (CHR ''/'' # percent_encode (utf8 cs) []) \<longleftrightarrow>
     path_segment_check (utf8 cs) \<in> {None, Some Empty}"
proof -
  have "split_on CHR ''/'' (CHR ''/'' # enc (utf8 cs)) = [[], enc (utf8 cs)]"
    by (simp add: split_on_no_delimiter)
  then show ?thesis
    using shape_enc bad_segment_enc [OF assms]
    by (simp add: is_origin_form_path_def has_traversal_form_iff percent_encode_eq)
qed

text \<open>
  C19: for every text (well-formed UTF-8), the host's path rule accepts \<open>/\<close> followed by the
  percent-encoded text exactly when the builder's check has nothing to refuse, the empty
  text apart, which the builder alone refuses.
\<close>

theorem path_segment_check_exact:
  assumes "list_all is_scalar cs"
  shows "is_origin_form_path (CHR ''/'' # percent_encode (utf8 cs) []) \<longleftrightarrow>
     path_segment_check (utf8 cs) \<in> {None, Some Empty}"
  using assms by (rule path_segment_check_iff)

theorem path_segment_check_exact_witness:
  "is_origin_form_path (CHR ''/'' # percent_encode (utf8 [0x61, 0x20AC, 0x25]) [])"
proof -
  have t: "utf8 [0x61, 0x20AC, 0x25] = [CHR 0x61, CHR 0xE2, CHR 0x82, CHR 0xAC, CHR 0x25]"
    by (simp add: utf8_eval)
  have "path_segment_check (utf8 [0x61, 0x20AC, 0x25]) = None"
    unfolding t by (simp add: path_rule_eval ascii_nat)
  then show ?thesis
    using path_segment_check_exact [of "[0x61, 0x20AC, 0x25]"] by (simp add: is_scalar_def)
qed

section \<open>Composition of accepted paths\<close>







section \<open>What an accepted path means to a server\<close>

text \<open>
  The reference decoder: a server that replaces every \<open>%HH\<close> by its byte and leaves any
  other \<open>%\<close> alone.
\<close>

fun percent_decode :: "str \<Rightarrow> str" where
  "percent_decode [] = []"
| "percent_decode (b # bs) =
     (if b = CHR ''%'' then
        (case bs of
           h # l # rest \<Rightarrow>
             (case (hex_digit h, hex_digit l) of
                (Some high, Some low) \<Rightarrow> of_u8 (push_bit 4 high OR low) # percent_decode rest
              | _ \<Rightarrow> b # percent_decode bs)
         | _ \<Rightarrow> b # percent_decode bs)
      else b # percent_decode bs)"

declare percent_decode.simps(2) [simp del] decode_segment.simps(2) [simp del]

lemma percent_decode_simps:
  "b \<noteq> CHR ''%'' \<Longrightarrow> percent_decode (b # bs) = b # percent_decode bs"
  "percent_decode [CHR ''%''] = [CHR ''%'']"
  "percent_decode [CHR ''%'', h] = CHR ''%'' # percent_decode [h]"
  "hex_digit h = Some high \<Longrightarrow> hex_digit l = Some low \<Longrightarrow>
     percent_decode (CHR ''%'' # h # l # rest) =
       of_u8 (push_bit 4 high OR low) # percent_decode rest"
  "hex_digit h = None \<or> hex_digit l = None \<Longrightarrow>
     percent_decode (CHR ''%'' # h # l # rest) = CHR ''%'' # percent_decode (h # l # rest)"
  by (subst percent_decode.simps(2), auto split: option.split)+

lemma decode_segment_Some_cases [consumes 1, case_names Nil Plain Escape]:
  assumes "decode_segment s = Some d"
  obtains "s = []" "d = []"
  | b bs d' where "s = b # bs" "b \<noteq> CHR ''%''" "decode_segment bs = Some d'" "d = b # d'"
  | h l rest high low d' where "s = CHR ''%'' # h # l # rest"
      "hex_digit h = Some high" "hex_digit l = Some low"
      "\<not> is_forbidden (of_u8 (push_bit 4 high OR low))"
      "decode_segment rest = Some d'" "d = of_u8 (push_bit 4 high OR low) # d'"
proof (cases s)
  case Nil
  with assms that(1) show ?thesis by simp
next
  case (Cons b bs)
  show ?thesis
  proof (cases "b = CHR ''%''")
    case False
    with Cons assms that(2) show ?thesis by (auto simp: decode_segment.simps(2))
  next
    case True
    with Cons assms obtain h l rest high low where
      "bs = h # l # rest" "hex_digit h = Some high" "hex_digit l = Some low"
      by (auto simp: decode_segment.simps(2) split: list.splits option.splits)
    with True Cons assms that(3) show ?thesis
      by (auto simp: decode_segment.simps(2) Let_def is_forbidden_def split: if_splits)
  qed
qed

lemma decode_segment_percent_decode: "decode_segment s = Some d \<Longrightarrow> percent_decode s = d"
proof (induction "length s" arbitrary: s d rule: less_induct)
  case less
  from less.prems show ?case
    by (cases rule: decode_segment_Some_cases) (auto simp: percent_decode_simps less.hyps)
qed

lemma holds_escape_Cons:
  "holds_escape (x # y # zs) \<longleftrightarrow> x = CHR ''%'' \<and> begins_escape y \<or> holds_escape (y # zs)"
  "\<not> holds_escape []" "\<not> holds_escape [x]"
  by (auto simp: holds_escape_def)

lemma percent_decode_no_escape: "\<not> holds_escape d \<Longrightarrow> percent_decode d = d"
proof (induction d rule: induct_list012)
  case (2 x)
  then show ?case by (cases "x = CHR ''%''") (simp_all add: percent_decode_simps)
next
  case (3 x y zs)
  show ?case
  proof (cases "x = CHR ''%''")
    case False
    with 3 show ?thesis by (simp add: percent_decode_simps holds_escape_Cons)
  next
    case True
    with 3 have "hex_digit y = None" by (auto simp: holds_escape_Cons begins_escape_def)
    with True 3 show ?thesis
      by (cases zs) (simp_all add: percent_decode_simps holds_escape_Cons)
  qed
qed simp

lemma decode_segment_chars:
  "decode_segment s = Some d \<Longrightarrow> b \<in> set d \<Longrightarrow> b \<in> set s \<or> \<not> is_forbidden b"
proof (induction "length s" arbitrary: s d rule: less_induct)
  case less
  from less.prems(1) show ?case
  proof (cases rule: decode_segment_Some_cases)
    case (Plain c bs d')
    with less.hyps [of bs d'] less.prems(2) show ?thesis by auto
  next
    case (Escape h l rest high low d')
    with less.hyps [of rest d'] less.prems(2) show ?thesis by auto
  qed (use less.prems in simp)
qed

lemma accepted_segment:
  assumes "is_origin_form_path path" "segment \<in> set (split_on CHR ''/'' path)"
  obtains d where "decode_segment segment = Some d" "\<not> is_dot_segment d" "\<not> holds_escape d"
    "\<not> holds_overlong_utf8 d" "\<not> list_ex is_forbidden segment"
proof -
  from assms have "\<not> bad_segment segment"
    by (auto simp: is_origin_form_path_def has_traversal_form_iff)
  moreover have "\<not> list_ex is_forbidden segment"
    using assms(1) split_on_set [OF assms(2)] split_on_pieces [OF assms(2)]
    by (auto simp: is_origin_form_path_def has_origin_form_shape_def list_ex_iff is_forbidden_def)
  ultimately show ?thesis
    using that by (auto simp: bad_segment_def split: option.splits)
qed

text \<open>
  C24: in a path the host accepts, every segment is stable under decoding.  A server that
  decodes it once or twice gets the same bytes; these never read as \<open>.\<close> or \<open>..\<close>, even after
  path parameters are cut and spaces trimmed, never hold a slash, a backslash or a control
  byte, and never spell an overlong character.
\<close>

theorem accepted_path_is_stable:
  assumes "is_origin_form_path path" "segment \<in> set (split_on CHR ''/'' path)"
  shows "percent_decode (percent_decode segment) = percent_decode segment \<and>
     \<not> is_dot_segment (percent_decode segment) \<and>
     \<not> holds_overlong_utf8 (percent_decode segment) \<and>
     (\<forall>b \<in> set (percent_decode segment).
        b \<noteq> CHR ''/'' \<and> b \<noteq> CHR 0x5C \<and> \<not> is_ascii_control b)"
proof -
  obtain d where d: "decode_segment segment = Some d" "\<not> is_dot_segment d" "\<not> holds_escape d"
    "\<not> holds_overlong_utf8 d" "\<not> list_ex is_forbidden segment"
    using accepted_segment [OF assms] .
  then have "\<forall>b \<in> set d. \<not> is_forbidden b"
    using decode_segment_chars by (fastforce simp: list_ex_iff)
  then show ?thesis
    using d decode_segment_percent_decode [OF d(1)] percent_decode_no_escape [OF d(3)]
    by (auto simp: is_forbidden_def)
qed

theorem accepted_path_is_stable_witness:
  "percent_decode (percent_decode ''..a%20b'') = percent_decode ''..a%20b''"
proof -
  have acc: "is_origin_form_path ''/x/..a%20b''"
    by (simp add: is_origin_form_path_def has_origin_form_shape_def has_traversal_form_def
        path_rule_eval ascii_nat hex_digit_nat decode_segment.simps(2) holds_overlong_utf8_def u8_def of_u8_def char_of_def
        bit_0 sublist_Cons_right)
  show ?thesis
    using accepted_path_is_stable [OF acc, of "''..a%20b''"] by simp
qed

section \<open>Queries\<close>

definition query_pair_text :: "str \<times> str \<Rightarrow> str" where
  "query_pair_text = (\<lambda>(name, val). enc name @ ''='' @ enc val)"

fun query_text :: "(str \<times> str) list \<Rightarrow> str" where
  "query_text [] = []"
| "query_text [p] = query_pair_text p"
| "query_text (p # q # ps) = query_pair_text p @ ''&'' @ query_text (q # ps)"

lemma encode_query_from_eq:
  "encode_query_from i out pairs =
     (if pairs = [] then out else out @ (if i > 0 then ''&'' else []) @ query_text pairs)"
proof (induction i out pairs rule: encode_query_from.induct)
  case (2 i out n v ps)
  then show ?case
    by (cases ps) (auto simp: percent_encode_eq query_pair_text_def)
qed simp

lemma encode_query_eq: "encode_query pairs = query_text pairs"
  by (cases pairs) (simp_all add: encode_query_def encode_query_from_eq)

lemma query_text_chars:
  "c \<in> set (query_text ps) \<Longrightarrow> is_unreserved c \<or> c \<in> {CHR ''%'', CHR ''&'', CHR ''=''}"
  by (induction ps rule: query_text.induct) (auto simp: query_pair_text_def dest: enc_chars)

lemma percent_decode_enc: "percent_decode (enc t @ rest) = t @ percent_decode rest"
proof (induction t)
  case (Cons b t)
  show ?case
  proof (cases "is_unreserved b")
    case True
    then have "b \<noteq> CHR ''%''" by (auto simp: is_unreserved_nat)
    with True Cons show ?thesis by (simp add: enc_byte_def percent_decode_simps)
  next
    case False
    with Cons show ?thesis
      by (simp add: enc_byte_def percent_decode_simps(4) [OF hex_digit_HEX hex_digit_HEX] nibbles)
  qed
qed simp

text \<open>The reader a server applies to a query: pairs at \<open>&\<close>, name and value at the first \<open>=\<close>.\<close>

definition decode_pair :: "str \<Rightarrow> str \<times> str" where
  "decode_pair s =
     (percent_decode (takeWhile (\<lambda>c. c \<noteq> CHR ''='') s),
      percent_decode (drop 1 (dropWhile (\<lambda>c. c \<noteq> CHR ''='') s)))"

definition decode_query :: "str \<Rightarrow> (str \<times> str) list" where
  "decode_query q = (if q = [] then [] else map decode_pair (split_on CHR ''&'' q))"

lemma decode_pair_text: "decode_pair (query_pair_text p) = p"
proof -
  obtain n v where p: "p = (n, v)" by (cases p)
  have "\<forall>c \<in> set (enc n). c \<noteq> CHR ''=''" by (metis enc_no_delimiters(4))
  then have "takeWhile (\<lambda>c. c \<noteq> CHR ''='') (enc n @ CHR ''='' # enc v) = enc n"
    "dropWhile (\<lambda>c. c \<noteq> CHR ''='') (enc n @ CHR ''='' # enc v) = CHR ''='' # enc v"
    by (simp_all add: takeWhile_append dropWhile_append)
  then show ?thesis
    using percent_decode_enc [of _ "[]"] by (simp add: p query_pair_text_def decode_pair_def)
qed

lemma split_query_text:
  "ps \<noteq> [] \<Longrightarrow> split_on CHR ''&'' (query_text ps) = map query_pair_text ps"
proof (induction ps rule: query_text.induct)
  case (2 p)
  then show ?case
    by (cases p) (simp add: query_pair_text_def split_on_no_delimiter)
next
  case (3 p q ps)
  have "CHR ''&'' \<notin> set (query_pair_text p)" by (cases p) (simp add: query_pair_text_def)
  with 3 show ?case by (simp add: split_on_no_delimiter split_on_append)
qed simp

section \<open>The builders as encoders\<close>

interpretation segment_codec: codec "\<lambda>t. path_segment_check t = None" "\<lambda>t. percent_encode t []"
    decode_segment
proof
  fix t assume "path_segment_check t = None"
  then have "\<not> list_ex is_forbidden t"
    by (auto simp: path_segment_check_def is_forbidden_def list_ex_iff split: if_splits)
  then show "decode_segment (percent_encode t []) = Some t"
    by (simp add: percent_encode_eq decode_segment_enc)
qed

interpretation query_codec: codec "\<lambda>_. True" encode_query "\<lambda>q. Some (decode_query q)"
proof
  fix ps :: "(str \<times> str) list"
  have "query_text ps \<noteq> []" if "ps \<noteq> []"
    using that by (cases ps rule: query_text.cases) (auto simp: query_pair_text_def)
  then show "Some (decode_query (encode_query ps)) = Some ps"
    by (cases "ps = []")
       (simp_all add: encode_query_eq decode_query_def split_query_text decode_pair_text
         comp_def)
qed

text \<open>
  C31: a query built from any list of pairs is one the host sends, and it is unambiguous:
  splitting it and decoding each part gives back exactly the pairs, in order.
\<close>

theorem encode_query_roundtrip:
  "is_valid_query (encode_query pairs) \<and> decode_query (encode_query pairs) = pairs"
proof
  have "c \<noteq> CHR ''?'' \<and> \<not> is_ascii_control c \<and> c \<notin> {CHR '' '', CHR ''#'', CHR 0x5C}"
    if "c \<in> set (encode_query pairs)" for c
    using query_text_chars [of c pairs] that
    by (auto simp: encode_query_eq is_unreserved_nat ascii_nat Let_def)
  then show "is_valid_query (encode_query pairs)"
    by (cases "encode_query pairs") (auto simp: is_valid_query_def list_ex_iff)
  show "decode_query (encode_query pairs) = pairs"
    using query_codec.decode_encode [of pairs] by simp
qed

text \<open>
  Distinct texts never share a segment: when the builder accepts two texts and returns the
  same segment for both, the texts are equal.
\<close>

lemma encode_path_segment_injective:
  assumes "encode_path_segment t = Inr seg" "encode_path_segment u = Inr seg"
  shows "t = u"
  using assms segment_codec.encode_inj [of t u]
  by (auto simp: encode_path_segment_def split: option.splits)

end
