(* ===== verification/Values.thy ===== *)
theory Values
  imports Patterns Request_Target
begin

text \<open>
  Run-time values of the direct evaluator and the pure operations on them (\<open>krit/src/evaluator.rs\<close>):
  construction with the recorded nesting depth, rendering, equality, arithmetic, JSON, pattern
  matching and environments.  What the code takes from outside the repository is a field of the
  record \<open>host\<close>: the \<open>Debug\<close> form of a string (Unicode tables), \<open>serde_json\<close> and the output writer.
\<close>

section \<open>Limits and integers\<close>

definition MAX_CALL_DEPTH :: nat where "MAX_CALL_DEPTH = 10000"
definition MAX_EVALUATION_DEPTH :: nat where "MAX_EVALUATION_DEPTH = 100000"
definition MAX_VALUE_DEPTH :: nat where "MAX_VALUE_DEPTH = 10000"

definition i64_min :: int where "i64_min = - (2 ^ 63)"
definition i64_max :: int where "i64_max = 2 ^ 63 - 1"

definition in_i64 :: "int \<Rightarrow> bool" where
  "in_i64 n \<longleftrightarrow> i64_min \<le> n \<and> n \<le> i64_max"

text \<open>\<open>i64::try_from\<close>, and the common part of the checked operations.\<close>

definition i64_try :: "int \<Rightarrow> int option" where
  "i64_try n = (if in_i64 n then Some n else None)"

definition checked_add :: "int \<Rightarrow> int \<Rightarrow> int option" where "checked_add a b = i64_try (a + b)"
definition checked_sub :: "int \<Rightarrow> int \<Rightarrow> int option" where "checked_sub a b = i64_try (a - b)"
definition checked_mul :: "int \<Rightarrow> int \<Rightarrow> int option" where "checked_mul a b = i64_try (a * b)"
definition checked_neg :: "int \<Rightarrow> int option" where "checked_neg a = i64_try (- a)"

text \<open>Division and remainder truncate towards zero; both are \<open>None\<close> for \<open>i64::MIN\<close> by \<open>-1\<close> and by zero.\<close>

definition quot :: "int \<Rightarrow> int \<Rightarrow> int" where "quot a b = sgn a * sgn b * (\<bar>a\<bar> div \<bar>b\<bar>)"
definition rem :: "int \<Rightarrow> int \<Rightarrow> int" where "rem a b = sgn a * (\<bar>a\<bar> mod \<bar>b\<bar>)"

definition checked_div :: "int \<Rightarrow> int \<Rightarrow> int option" where
  "checked_div a b = (if b = 0 then None else i64_try (quot a b))"

definition checked_rem :: "int \<Rightarrow> int \<Rightarrow> int option" where
  "checked_rem a b = (if b = 0 \<or> \<not> in_i64 (quot a b) then None else Some (rem a b))"

text \<open>Decimal \<open>to_string\<close>.\<close>

fun show_nat :: "nat \<Rightarrow> str" where
  "show_nat n = (if n < 10 then [char_of (48 + n)] else show_nat (n div 10) @ [char_of (48 + n mod 10)])"

declare show_nat.simps [simp del]

definition show_int :: "int \<Rightarrow> str" where
  "show_int i = (if i < 0 then CHR ''-'' # show_nat (nat (- i)) else show_nat (nat i))"

section \<open>Values\<close>

datatype builtin_function =
    AiInvoke | Print | Println | SomeFn | OkFn | ErrFn | JsonEncode | JsonDecode | ConfigString
  | SecretFn | HttpRequestFn | LogInfo | LogError | StateGet | StatePut | StateDelete
  | CheckpointGet | CheckpointPut | ReplayHttp | ReplayAi | QueuePublish | CacheGet | CachePut
  | CacheDelete | SearchQuery | VectorSearch | ObjectGet | ObjectPut | ObjectDelete
  | DatabaseBeginRead | DatabaseBeginWrite | DatabaseQuery | DatabaseExecute | DatabaseCommit
  | DatabaseRollback | IntToString | UrlPathSegment | UrlQuery | StringByteLen | StringIsEmpty
  | StringContains | StringStartsWith | StringEndsWith

datatype 'v list_value = ListValue (lv_elements: "'v list") (lv_depth: nat)

datatype 'v record_value = RecordValue (rv_fields: "(str \<times> 'v) list") (rv_depth: nat)

datatype 'v variant_payload = VariantPayload (vp_value: 'v) (vp_depth: nat)

text \<open>An environment is its chain of bindings, innermost first.\<close>

datatype 'v function_value =
  FunctionValue (fn_name: "str option") (fn_parameters: "str list") (fn_body: block)
    (fn_environment: "(str \<times> 'v) list")

datatype (plugins only: code size) val =
    IntegerV int
  | BooleanV bool
  | StringV str
  | UnitV
  | ListV "val list_value"
  | RecordV "val record_value"
  | VariantV variant_name "val variant_payload option"
  | FunctionV "val function_value"
  | BuiltinV builtin_function

type_synonym environment = "(str \<times> val) list"

definition env_extend :: "environment \<Rightarrow> str \<Rightarrow> val \<Rightarrow> environment" where
  "env_extend env name v = (name, v) # env"

definition env_lookup :: "environment \<Rightarrow> str \<Rightarrow> val option" where
  "env_lookup env name = map_of env name"

lemma size_elements: "v \<in> set vs \<Longrightarrow> size v < Suc (size_list size vs)"
  by (induction vs) auto

lemma size_fields: "(n, v) \<in> set fs \<Longrightarrow> size v < Suc (size_list (size_prod (\<lambda>_. 0) size) fs)"
  by (induction fs) auto

lemma size_list_value: "v \<in> set (lv_elements l) \<Longrightarrow> size v < size (ListV l)"
  by (cases l) (auto dest: size_elements)

lemma size_record_value: "(n, v) \<in> set (rv_fields r) \<Longrightarrow> size v < size (RecordV r)"
  by (cases r) (auto dest: size_fields)

lemma size_payload: "size (vp_value p) < size (VariantV n (Some p))"
  by (cases p) simp

lemma size_closure: "(n, v) \<in> set (fn_environment f) \<Longrightarrow> size v < size (FunctionV f)"
  by (cases f) (auto dest: size_fields)

lemmas size_parts =
  size_list_value [simplified] size_record_value [simplified] size_payload [simplified]
  size_closure [simplified]

lemma val_induct [case_names Integer Boolean String Unit List Record Variant Function Builtin]:
  assumes "\<And>i. P (IntegerV i)" "\<And>b. P (BooleanV b)" "\<And>t. P (StringV t)" "P UnitV"
    and "\<And>l. (\<And>v. v \<in> set (lv_elements l) \<Longrightarrow> P v) \<Longrightarrow> P (ListV l)"
    and "\<And>r. (\<And>n v. (n, v) \<in> set (rv_fields r) \<Longrightarrow> P v) \<Longrightarrow> P (RecordV r)"
    and "\<And>n p. (\<And>q. p = Some q \<Longrightarrow> P (vp_value q)) \<Longrightarrow> P (VariantV n p)"
    and "\<And>f. (\<And>n v. (n, v) \<in> set (fn_environment f) \<Longrightarrow> P v) \<Longrightarrow> P (FunctionV f)"
    and "\<And>b. P (BuiltinV b)"
  shows "P v"
proof (induction v rule: measure_induct_rule [where f = size])
  case (less v)
  then show ?case using assms by (cases v) (auto simp: size_parts)
qed

text \<open>
  \<open>serde_json\<close> values: a number is a \<open>u64\<close>, a negative \<open>i64\<close> or an \<open>f64\<close>, whose bits are never
  looked at; an object is a map ordered by its keys.
\<close>

datatype json_number = PosInt "64 word" | NegInt "64 word" | FloatNumber "64 word"

datatype json =
    JNull
  | JBool bool
  | JNumber json_number
  | JString str
  | JArray "json list"
  | JObject "(str \<times> json) list"

record 'o host =
  debug_str :: "str \<Rightarrow> str"
  json_to_string :: "json \<Rightarrow> (str, str) result"
  json_from_str :: "str \<Rightarrow> (str, json) result"
  write_all :: "str \<Rightarrow> 'o \<Rightarrow> 'o \<times> str option"

section \<open>Building values\<close>

definition value_depth :: "val \<Rightarrow> nat" where
  "value_depth v =
     (case v of
        ListV l \<Rightarrow> lv_depth l
      | RecordV r \<Rightarrow> rv_depth r
      | VariantV _ p \<Rightarrow> (case p of None \<Rightarrow> 1 | Some payload \<Rightarrow> vp_depth payload)
      | _ \<Rightarrow> 0)"

fun max_depth :: "val list \<Rightarrow> nat" where
  "max_depth [] = 0"
| "max_depth (v # vs) = max (value_depth v) (max_depth vs)"

definition container_depth :: "val list \<Rightarrow> span \<Rightarrow> (diagnostic, nat) result" where
  "container_depth children s =
     (let depth = 1 + max_depth children in
      if depth > MAX_VALUE_DEPTH then
        Inl (diagnostic_new ''K4010''
          (''value depth limit exceeded: lists, records, and variants may nest at most '' @
           show_nat MAX_VALUE_DEPTH @ '' levels'') s)
      else Inr depth)"

definition value_list :: "val list \<Rightarrow> span \<Rightarrow> (diagnostic, val) result" where
  "value_list elements s =
     (case container_depth elements s of
        Inl d \<Rightarrow> Inl d | Inr depth \<Rightarrow> Inr (ListV (ListValue elements depth)))"

definition value_record :: "(str \<times> val) list \<Rightarrow> span \<Rightarrow> (diagnostic, val) result" where
  "value_record fs s =
     (case container_depth (map snd fs) s of
        Inl d \<Rightarrow> Inl d | Inr depth \<Rightarrow> Inr (RecordV (RecordValue fs depth)))"

definition value_variant :: "variant_name \<Rightarrow> val \<Rightarrow> span \<Rightarrow> (diagnostic, val) result" where
  "value_variant name payload s =
     (case container_depth [payload] s of
        Inl d \<Rightarrow> Inl d | Inr depth \<Rightarrow> Inr (VariantV name (Some (VariantPayload payload depth))))"

definition variant_family_name :: "variant_family \<Rightarrow> str" where
  "variant_family_name f = (case f of OptionFamily \<Rightarrow> ''option'' | ResultFamily \<Rightarrow> ''result'')"

definition value_kind :: "val \<Rightarrow> str" where
  "value_kind v =
     (case v of
        IntegerV _ \<Rightarrow> ''integer''
      | BooleanV _ \<Rightarrow> ''boolean''
      | StringV _ \<Rightarrow> ''string''
      | UnitV \<Rightarrow> ''unit''
      | ListV _ \<Rightarrow> ''list''
      | RecordV _ \<Rightarrow> ''record''
      | VariantV name _ \<Rightarrow>
          (case name of VSome \<Rightarrow> ''option'' | VNone \<Rightarrow> ''option'' | VOk \<Rightarrow> ''result'' | VErr \<Rightarrow> ''result'')
      | FunctionV _ \<Rightarrow> ''function''
      | BuiltinV _ \<Rightarrow> ''function'')"

fun contains_function :: "val \<Rightarrow> bool" where
  "contains_function (FunctionV _) = True"
| "contains_function (BuiltinV _) = True"
| "contains_function (ListV (ListValue vs _)) = list_ex contains_function vs"
| "contains_function (RecordV (RecordValue fs _)) = list_ex (\<lambda>(_, v). contains_function v) fs"
| "contains_function (VariantV _ (Some (VariantPayload v _))) = contains_function v"
| "contains_function (VariantV _ None) = False"
| "contains_function (IntegerV _) = False"
| "contains_function (BooleanV _) = False"
| "contains_function (StringV _) = False"
| "contains_function UnitV = False"

section \<open>Built-in functions\<close>

definition builtin_name :: "builtin_function \<Rightarrow> str" where
  "builtin_name b =
     (case b of
        AiInvoke \<Rightarrow> ''ai_invoke''
      | Print \<Rightarrow> ''print''
      | Println \<Rightarrow> ''println''
      | SomeFn \<Rightarrow> ''Some''
      | OkFn \<Rightarrow> ''Ok''
      | ErrFn \<Rightarrow> ''Err''
      | JsonEncode \<Rightarrow> ''json_encode''
      | JsonDecode \<Rightarrow> ''json_decode''
      | ConfigString \<Rightarrow> ''config_string''
      | SecretFn \<Rightarrow> ''secret''
      | HttpRequestFn \<Rightarrow> ''http_request''
      | LogInfo \<Rightarrow> ''log_info''
      | LogError \<Rightarrow> ''log_error''
      | StateGet \<Rightarrow> ''state_get''
      | StatePut \<Rightarrow> ''state_put''
      | StateDelete \<Rightarrow> ''state_delete''
      | CheckpointGet \<Rightarrow> ''checkpoint_get''
      | CheckpointPut \<Rightarrow> ''checkpoint_put''
      | ReplayHttp \<Rightarrow> ''replay_http''
      | ReplayAi \<Rightarrow> ''replay_ai''
      | QueuePublish \<Rightarrow> ''queue_publish''
      | CacheGet \<Rightarrow> ''cache_get''
      | CachePut \<Rightarrow> ''cache_put''
      | CacheDelete \<Rightarrow> ''cache_delete''
      | SearchQuery \<Rightarrow> ''search_query''
      | VectorSearch \<Rightarrow> ''vector_search''
      | ObjectGet \<Rightarrow> ''object_get''
      | ObjectPut \<Rightarrow> ''object_put''
      | ObjectDelete \<Rightarrow> ''object_delete''
      | DatabaseBeginRead \<Rightarrow> ''db_begin_read''
      | DatabaseBeginWrite \<Rightarrow> ''db_begin_write''
      | DatabaseQuery \<Rightarrow> ''db_query''
      | DatabaseExecute \<Rightarrow> ''db_execute''
      | DatabaseCommit \<Rightarrow> ''db_commit''
      | DatabaseRollback \<Rightarrow> ''db_rollback''
      | IntToString \<Rightarrow> ''int_to_string''
      | UrlPathSegment \<Rightarrow> ''url_path_segment''
      | UrlQuery \<Rightarrow> ''url_query''
      | StringByteLen \<Rightarrow> ''string_byte_len''
      | StringIsEmpty \<Rightarrow> ''string_is_empty''
      | StringContains \<Rightarrow> ''string_contains''
      | StringStartsWith \<Rightarrow> ''string_starts_with''
      | StringEndsWith \<Rightarrow> ''string_ends_with'')"

definition builtin_value :: "str \<Rightarrow> val option" where
  "builtin_value name =
     (if name = ''None'' then Some (VariantV VNone None)
      else map_option BuiltinV (map_of
     [(''ai_invoke'', AiInvoke),
      (''print'', Print),
      (''println'', Println),
      (''Some'', SomeFn),
      (''Ok'', OkFn),
      (''Err'', ErrFn),
      (''json_encode'', JsonEncode),
      (''json_decode'', JsonDecode),
      (''config_string'', ConfigString),
      (''secret'', SecretFn),
      (''http_request'', HttpRequestFn),
      (''log_info'', LogInfo),
      (''log_error'', LogError),
      (''state_get'', StateGet),
      (''state_put'', StatePut),
      (''state_delete'', StateDelete),
      (''checkpoint_get'', CheckpointGet),
      (''checkpoint_put'', CheckpointPut),
      (''replay_http'', ReplayHttp),
      (''replay_ai'', ReplayAi),
      (''queue_publish'', QueuePublish),
      (''cache_get'', CacheGet),
      (''cache_put'', CachePut),
      (''cache_delete'', CacheDelete),
      (''search_query'', SearchQuery),
      (''vector_search'', VectorSearch),
      (''object_get'', ObjectGet),
      (''object_put'', ObjectPut),
      (''object_delete'', ObjectDelete),
      (''db_begin_read'', DatabaseBeginRead),
      (''db_begin_write'', DatabaseBeginWrite),
      (''db_query'', DatabaseQuery),
      (''db_execute'', DatabaseExecute),
      (''db_commit'', DatabaseCommit),
      (''db_rollback'', DatabaseRollback),
      (''int_to_string'', IntToString),
      (''url_path_segment'', UrlPathSegment),
      (''url_query'', UrlQuery),
      (''string_byte_len'', StringByteLen),
      (''string_is_empty'', StringIsEmpty),
      (''string_contains'', StringContains),
      (''string_starts_with'', StringStartsWith),
      (''string_ends_with'', StringEndsWith)] name))"

definition builtin_arity :: "builtin_function \<Rightarrow> nat" where
  "builtin_arity b =
     (if b \<in> {ReplayHttp, ReplayAi, CachePut} then 4
      else if b \<in> {HttpRequestFn, StatePut, CheckpointPut, ObjectPut, SearchQuery, VectorSearch,
                    DatabaseQuery, DatabaseExecute} then 3
      else if b \<in> {AiInvoke, LogInfo, LogError, StateGet, StateDelete, CheckpointGet, QueuePublish,
                    ObjectGet, CacheGet, CacheDelete, ObjectDelete, StringContains,
                    StringStartsWith, StringEndsWith} then 2
      else 1)"

definition unavailable_builtin_message :: "builtin_function \<Rightarrow> str option" where
  "unavailable_builtin_message b =
     (if b = HttpRequestFn then
        Some ''HTTP host operations are unavailable in direct source execution''
      else if b = AiInvoke then Some ''AI invocation is unavailable in direct source execution''
      else if b \<in> {LogInfo, LogError} then
        Some ''structured logging is unavailable in direct source execution''
      else if b \<in> {StateGet, StatePut, StateDelete, CheckpointGet, CheckpointPut, ReplayHttp, ReplayAi,
                    QueuePublish, ObjectGet, ObjectPut, ObjectDelete, DatabaseBeginRead,
                    DatabaseBeginWrite, DatabaseQuery, DatabaseExecute, DatabaseCommit,
                    DatabaseRollback, CacheGet, CachePut, CacheDelete, SearchQuery, VectorSearch} then
        Some (''durable state, queue, schedule, object, database, cache, search, and replay '' @
              ''operations are unavailable in direct source execution'')
      else if b = ConfigString then
        Some ''configuration host operations are unavailable in direct source execution''
      else if b = SecretFn then
        Some ''secret host operations are unavailable in direct source execution''
      else None)"

section \<open>Rendering\<close>

fun render :: "(str \<Rightarrow> str) \<Rightarrow> val \<Rightarrow> str" and render_nested :: "(str \<Rightarrow> str) \<Rightarrow> val \<Rightarrow> str" where
  "render dbg (IntegerV i) = show_int i"
| "render dbg (BooleanV b) = (if b then ''true'' else ''false'')"
| "render dbg (StringV s) = s"
| "render dbg UnitV = ''()''"
| "render dbg (ListV (ListValue vs _)) = ''['' @ join '', '' (map (render_nested dbg) vs) @ '']''"
| "render dbg (RecordV (RecordValue fs _)) =
     (if fs = [] then ''record {}''
      else ''record { '' @
        join '', '' (map (\<lambda>(name, v). name @ '': '' @ render_nested dbg v) fs) @ '' }'')"
| "render dbg (VariantV name None) = variant_as_str name"
| "render dbg (VariantV name (Some (VariantPayload v _))) =
     variant_as_str name @ ''('' @ render_nested dbg v @ '')''"
| "render dbg (FunctionV f) =
     (case fn_name f of None \<Rightarrow> ''<function>'' | Some name \<Rightarrow> ''<function '' @ name @ ''>'')"
| "render dbg (BuiltinV b) = ''<function '' @ builtin_name b @ ''>''"
| "render_nested dbg v = (case v of StringV s \<Rightarrow> dbg s | _ \<Rightarrow> render dbg v)"

end
