(* ===== verification/Operations.thy ===== *)
theory Operations
  imports Values
begin

text \<open>
  The operators and built-in functions of the direct evaluator on evaluated operands, pattern
  matching and \<open>?\<close> (the free functions of \<open>krit/src/evaluator.rs\<close>).  A call of \<open>unreachable!\<close> or
  \<open>expect\<close> is the value \<open>Panicked\<close>.
\<close>

section \<open>Results\<close>

datatype exit = Question span | LetElseExit span

datatype interrupt = Failed diagnostic | Exited val exit | Panicked str

type_synonym 'a flow = "interrupt + 'a"

text \<open>The \<open>?\<close> of Rust on a \<open>Result\<close> with a diagnostic, where a \<open>Flow\<close> is expected.\<close>

definition to_flow :: "(diagnostic, 'a) result \<Rightarrow> 'a flow" where
  "to_flow r = (case r of Inl d \<Rightarrow> Inl (Failed d) | Inr a \<Rightarrow> Inr a)"

text \<open>\<open>iter().map(f).collect::<Result<Vec<_>, _>>()\<close>.\<close>

fun collect_results :: "('a \<Rightarrow> 'e + 'b) \<Rightarrow> 'a list \<Rightarrow> 'e + 'b list" where
  "collect_results f [] = Inr []"
| "collect_results f (x # xs) =
     (case f x of
        Inl e \<Rightarrow> Inl e
      | Inr y \<Rightarrow> (case collect_results f xs of Inl e \<Rightarrow> Inl e | Inr ys \<Rightarrow> Inr (y # ys)))"

lemma collect_results_cong [fundef_cong]:
  "xs = ys \<Longrightarrow> (\<And>x. x \<in> set ys \<Longrightarrow> f x = g x) \<Longrightarrow> collect_results f xs = collect_results g ys"
  by (induction xs arbitrary: ys) (auto split: sum.splits)

text \<open>A loop that stops with \<open>Ok(false)\<close> at the first element whose test is not \<open>Ok(true)\<close>.\<close>

fun all_results :: "('a \<Rightarrow> 'e + bool) \<Rightarrow> 'a list \<Rightarrow> 'e + bool" where
  "all_results f [] = Inr True"
| "all_results f (x # xs) =
     (case f x of Inl e \<Rightarrow> Inl e | Inr b \<Rightarrow> if b then all_results f xs else Inr False)"

lemma all_results_cong [fundef_cong]:
  "xs = ys \<Longrightarrow> (\<And>x. x \<in> set ys \<Longrightarrow> f x = g x) \<Longrightarrow> all_results f xs = all_results g ys"
  by (induction xs arbitrary: ys) (auto split: sum.splits)

section \<open>Expected kinds\<close>

definition expect_boolean :: "val \<Rightarrow> span \<Rightarrow> (diagnostic, bool) result" where
  "expect_boolean v s =
     (case v of
        BooleanV b \<Rightarrow> Inr b
      | _ \<Rightarrow> Inl (diagnostic_new ''K4001'' (''expected boolean, found '' @ value_kind v) s))"

definition expect_integer :: "val \<Rightarrow> span \<Rightarrow> (diagnostic, int) result" where
  "expect_integer v s =
     (case v of
        IntegerV i \<Rightarrow> Inr i
      | _ \<Rightarrow> Inl (diagnostic_new ''K4001'' (''expected integer, found '' @ value_kind v) s))"

definition expect_string :: "val \<Rightarrow> span \<Rightarrow> (diagnostic, str) result" where
  "expect_string v s =
     (case v of
        StringV t \<Rightarrow> Inr t
      | _ \<Rightarrow> Inl (diagnostic_new ''K4001'' (''expected string, found '' @ value_kind v) s))"

definition not_callable :: "val \<Rightarrow> span \<Rightarrow> diagnostic" where
  "not_callable v s = diagnostic_new ''K4002'' (''cannot call '' @ value_kind v) s"

definition arity_error :: "nat \<Rightarrow> nat \<Rightarrow> span \<Rightarrow> diagnostic" where
  "arity_error expected actual s =
     diagnostic_new ''K4003''
       (''function expects '' @ show_nat expected @ '' argument(s), found '' @ show_nat actual) s"

definition kind_pair_error :: "str \<Rightarrow> val \<Rightarrow> val \<Rightarrow> span \<Rightarrow> diagnostic" where
  "kind_pair_error operation left right s =
     diagnostic_new ''K4001''
       (operation @ '' does not accept '' @ value_kind left @ '' and '' @ value_kind right) s"

definition integer_pair :: "val \<Rightarrow> val \<Rightarrow> span \<Rightarrow> (diagnostic, int \<times> int) result" where
  "integer_pair left right s =
     (case (left, right) of
        (IntegerV l, IntegerV r) \<Rightarrow> Inr (l, r)
      | _ \<Rightarrow> Inl (kind_pair_error ''integer operator'' left right s))"

definition overflow :: "int option \<Rightarrow> str \<Rightarrow> span \<Rightarrow> (diagnostic, val) result" where
  "overflow r m s =
     (case r of Some i \<Rightarrow> Inr (IntegerV i) | None \<Rightarrow> Inl (diagnostic_new ''K4005'' m s))"

definition checked_integer_operation ::
  "val \<Rightarrow> val \<Rightarrow> span \<Rightarrow> (int \<Rightarrow> int \<Rightarrow> int option) \<Rightarrow> (diagnostic, val) result" where
  "checked_integer_operation left right s operation =
     (case (left, right) of
        (IntegerV l, IntegerV r) \<Rightarrow> overflow (operation l r) ''integer overflow'' s
      | _ \<Rightarrow> Inl (kind_pair_error ''integer operator'' left right s))"

definition field_value :: "val \<Rightarrow> str \<Rightarrow> span \<Rightarrow> (diagnostic, val) result" where
  "field_value v field s =
     (case v of
        RecordV r \<Rightarrow>
          (case find (\<lambda>(name, _). name = field) (rv_fields r) of
             Some (_, w) \<Rightarrow> Inr w
           | None \<Rightarrow> Inl (diagnostic_new ''K4001'' (''record has no field '' @ backquoted field) s))
      | _ \<Rightarrow>
          Inl (diagnostic_new ''K4001''
            (''expected record for field access, found '' @ value_kind v) s))"

section \<open>Equality\<close>

function value_equal :: "val \<Rightarrow> val \<Rightarrow> span \<Rightarrow> (diagnostic, bool) result" where
  "value_equal left right s =
     (if contains_function left \<or> contains_function right then
        Inl (diagnostic_new ''K4006'' ''functions cannot be compared'' s)
      else
        case (left, right) of
          (IntegerV l, IntegerV r) \<Rightarrow> Inr (l = r)
        | (BooleanV l, BooleanV r) \<Rightarrow> Inr (l = r)
        | (StringV l, StringV r) \<Rightarrow> Inr (l = r)
        | (UnitV, UnitV) \<Rightarrow> Inr True
        | (ListV l, ListV r) \<Rightarrow>
            if length (lv_elements l) \<noteq> length (lv_elements r) then Inr False
            else all_results (\<lambda>(a, b). value_equal a b s) (zip (lv_elements l) (lv_elements r))
        | (RecordV l, RecordV r) \<Rightarrow>
            if length (rv_fields l) \<noteq> length (rv_fields r) then Inr False
            else all_results (\<lambda>(name, a).
                (case map_of (rv_fields r) name of
                   None \<Rightarrow> Inr False
                 | Some b \<Rightarrow> value_equal a b s)) (rv_fields l)
        | (VariantV n p, VariantV m q) \<Rightarrow>
            if n \<noteq> m then Inr False
            else (case (p, q) of
                (None, None) \<Rightarrow> Inr True
              | (Some a, Some b) \<Rightarrow> value_equal (vp_value a) (vp_value b) s
              | _ \<Rightarrow> Inr False)
        | _ \<Rightarrow> Inr False)"
  by pat_completeness auto

termination
  by (relation "measure (\<lambda>(l, _, _). size l)")
     (auto intro!: size_parts dest: set_zip_leftD)

declare value_equal.simps [simp del]

section \<open>Operators\<close>

definition apply_binary :: "binary_operator \<Rightarrow> val \<Rightarrow> val \<Rightarrow> span \<Rightarrow> val flow" where
  "apply_binary operator left right s =
     (case operator of
        Add \<Rightarrow>
          (case (left, right) of
             (IntegerV l, IntegerV r) \<Rightarrow> to_flow (overflow (checked_add l r) ''integer overflow'' s)
           | (StringV l, StringV r) \<Rightarrow> Inr (StringV (l @ r))
           | _ \<Rightarrow> Inl (Failed (kind_pair_error (backquoted ''+'') left right s)))
      | Subtract \<Rightarrow> to_flow (checked_integer_operation left right s checked_sub)
      | Multiply \<Rightarrow> to_flow (checked_integer_operation left right s checked_mul)
      | Divide \<Rightarrow>
          (case integer_pair left right s of
             Inl d \<Rightarrow> Inl (Failed d)
           | Inr (l, r) \<Rightarrow>
               if r = 0 then Inl (Failed (diagnostic_new ''K4004'' ''division by zero'' s))
               else to_flow (overflow (checked_div l r) ''integer overflow'' s))
      | Remainder \<Rightarrow>
          (case integer_pair left right s of
             Inl d \<Rightarrow> Inl (Failed d)
           | Inr (l, r) \<Rightarrow>
               if r = 0 then Inl (Failed (diagnostic_new ''K4004'' ''remainder by zero'' s))
               else to_flow (overflow (checked_rem l r) ''integer overflow'' s))
      | Equal \<Rightarrow> to_flow (map_sum id BooleanV (value_equal left right s))
      | NotEqual \<Rightarrow> to_flow (map_sum id (\<lambda>equal. BooleanV (\<not> equal)) (value_equal left right s))
      | And \<Rightarrow> Inl (Panicked ''short-circuit operators returned above'')
      | Or \<Rightarrow> Inl (Panicked ''short-circuit operators returned above'')
      | _ \<Rightarrow>
          (case (left, right) of
             (IntegerV l, IntegerV r) \<Rightarrow> Inr (BooleanV
               (if operator = Less then l < r else if operator = LessEqual then l \<le> r
                else if operator = Greater then l > r else l \<ge> r))
           | (StringV l, StringV r) \<Rightarrow> Inr (BooleanV
               (if operator = Less then l < r else if operator = LessEqual then l \<le> r
                else if operator = Greater then l > r else l \<ge> r))
           | _ \<Rightarrow> Inl (Failed (kind_pair_error ''comparison operator'' left right s))))"

definition apply_unary :: "unary_operator \<Rightarrow> val \<Rightarrow> span \<Rightarrow> (diagnostic, val) result" where
  "apply_unary operator v s =
     (case operator of
        Not \<Rightarrow> map_sum id (\<lambda>b. BooleanV (\<not> b)) (expect_boolean v s)
      | Negate \<Rightarrow>
          (case expect_integer v s of
             Inl d \<Rightarrow> Inl d
           | Inr i \<Rightarrow> overflow (checked_neg i) ''integer overflow during negation'' s))"

text \<open>A literal is an \<open>i128\<close>; negating its least value overflows before the range check.\<close>

definition negate_literal :: "int \<Rightarrow> span \<Rightarrow> (diagnostic, val) result" where
  "negate_literal i s =
     overflow (if i = - (2 ^ 127) then None else i64_try (- i)) ''integer overflow during negation'' s"

definition literal_value :: "value_literal \<Rightarrow> span \<Rightarrow> (diagnostic, val) result" where
  "literal_value l s =
     (case l of
        IntegerLit i \<Rightarrow> overflow (i64_try i) ''integer literal is out of range'' s
      | BooleanLit b \<Rightarrow> Inr (BooleanV b)
      | StringLit t \<Rightarrow> Inr (StringV t))"

definition variable :: "str \<Rightarrow> environment \<Rightarrow> span \<Rightarrow> (diagnostic, val) result" where
  "variable name env s =
     (case env_lookup env name of
        Some v \<Rightarrow> Inr v
      | None \<Rightarrow>
          (case builtin_value name of
             Some v \<Rightarrow> Inr v
           | None \<Rightarrow> Inl (diagnostic_new ''K2001'' (''undefined name '' @ backquoted name) s)))"

definition closure :: "str option \<Rightarrow> parameter list \<Rightarrow> block \<Rightarrow> environment \<Rightarrow> val" where
  "closure name parameters body env =
     FunctionV (FunctionValue name (map param_name parameters) body env)"

definition propagate :: "val \<Rightarrow> span \<Rightarrow> val flow" where
  "propagate v question =
     (case v of
        VariantV VOk (Some payload) \<Rightarrow> Inr (vp_value payload)
      | VariantV VSome (Some payload) \<Rightarrow> Inr (vp_value payload)
      | VariantV VErr _ \<Rightarrow> Inl (Exited v (Question question))
      | VariantV VNone _ \<Rightarrow> Inl (Exited v (Question question))
      | _ \<Rightarrow> Inl (Failed (diagnostic_new ''K4001''
          (''expected result or option for '' @ backquoted ''?'' @ '', found '' @ value_kind v) question)))"

section \<open>Pattern matching\<close>

definition binder_name :: "pattern \<Rightarrow> str" where
  "binder_name p = (case pat_kind p of Binder name \<Rightarrow> name | _ \<Rightarrow> ''_'')"

definition no_variant :: "variant_family \<Rightarrow> str \<Rightarrow> span \<Rightarrow> diagnostic" where
  "no_variant f found s =
     diagnostic_new ''K4001''
       (''expected '' @ variant_family_name f @ '' for variant match, found '' @ found) s"

fun match_pattern ::
  "pattern \<Rightarrow> val \<Rightarrow> span \<Rightarrow> environment \<Rightarrow> (diagnostic, environment option) result" where
  "match_pattern (Pattern (Binder name) ps) v s env =
     Inr (Some (env_extend env (binder_name (Pattern (Binder name) ps)) v))"
| "match_pattern (Pattern Wildcard ps) v s env =
     Inr (Some (env_extend env (binder_name (Pattern Wildcard ps)) v))"
| "match_pattern (Pattern EmptyListPattern _) v s env =
     (case v of
        ListV l \<Rightarrow> (case lv_elements l of [] \<Rightarrow> Inr (Some env) | _ # _ \<Rightarrow> Inr None)
      | _ \<Rightarrow> Inl (diagnostic_new ''K4001'' (''expected list, found '' @ value_kind v) s))"
| "match_pattern (Pattern (ConsPattern head tail) _) v s env =
     (case v of
        ListV l \<Rightarrow>
          (case lv_elements l of
             [] \<Rightarrow> Inr None
           | x # xs \<Rightarrow>
               (case value_list xs s of
                  Inl d \<Rightarrow> Inl d
                | Inr rest \<Rightarrow>
                    Inr (Some (env_extend (env_extend env (binder_name head) x)
                      (binder_name tail) rest))))
      | _ \<Rightarrow> Inl (diagnostic_new ''K4001'' (''expected list, found '' @ value_kind v) s))"
| "match_pattern (Pattern (Variant variant payload) _) v s env =
     (case v of
        VariantV name carried \<Rightarrow>
          if variant_family name \<noteq> variant_family variant then
            Inl (no_variant (variant_family variant) (variant_family_name (variant_family name)) s)
          else if name \<noteq> variant then Inr None
          else
            (case (payload, carried) of
               (Some p, Some w) \<Rightarrow> match_pattern p (vp_value w) s env
             | (None, None) \<Rightarrow> Inr (Some env)
             | _ \<Rightarrow> Inl (diagnostic_new ''K4001''
                 (backquoted (variant_as_str name) @ '' pattern has the wrong payload shape'') s))
      | _ \<Rightarrow> Inl (no_variant (variant_family variant) (value_kind v) s))"

fun select_match_arm ::
  "val \<Rightarrow> span \<Rightarrow> 'e match_arm list \<Rightarrow> environment \<Rightarrow> (diagnostic, 'e \<times> environment) result" where
  "select_match_arm v s [] env =
     Inl (diagnostic_new ''K4001''
       (''no match arm matches '' @
        (case v of
           VariantV name _ \<Rightarrow> backquoted (variant_as_str name)
         | ListV l \<Rightarrow> if lv_elements l = [] then ''an empty list'' else ''a non-empty list''
         | _ \<Rightarrow> value_kind v)) s)"
| "select_match_arm v s (arm # arms) env =
     (case match_pattern (ma_pattern arm) v s env of
        Inl d \<Rightarrow> Inl d
      | Inr (Some bound) \<Rightarrow> Inr (ma_value arm, bound)
      | Inr None \<Rightarrow> select_match_arm v s arms env)"

section \<open>URL and JSON built-ins\<close>

definition path_segment_message :: "path_segment_error \<Rightarrow> str" where
  "path_segment_message e =
     (case e of
        Empty \<Rightarrow> ''path segment is empty''
      | ForbiddenByte \<Rightarrow>
          ''path segment contains '' @ backquoted ''/'' @ '', '' @ backquoted [CHR 0x5C] @
          '', or an ASCII control character''
      | EscapeLike \<Rightarrow>
          ''path segment contains '' @ backquoted ''%'' @ '' followed by a hex digit, '' @
          backquoted ''u'' @ '', or '' @ backquoted ''U''
      | DotSegment \<Rightarrow> ''path segment reads as '' @ backquoted ''.'' @ '' or '' @ backquoted ''..'')"

definition url_path_segment :: "val \<Rightarrow> span \<Rightarrow> (diagnostic, val) result" where
  "url_path_segment v s =
     (case expect_string v s of
        Inl d \<Rightarrow> Inl d
      | Inr text \<Rightarrow>
          (case encode_path_segment text of
             Inr segment \<Rightarrow> value_variant VOk (StringV segment) s
           | Inl e \<Rightarrow> value_variant VErr (StringV (path_segment_message e)) s))"

definition query_pair :: "span \<Rightarrow> val \<Rightarrow> (diagnostic, str \<times> str) result" where
  "query_pair s entry =
     (case field_value entry ''name'' s of
        Inl d \<Rightarrow> Inl d
      | Inr n \<Rightarrow>
          (case expect_string n s of
             Inl d \<Rightarrow> Inl d
           | Inr name \<Rightarrow>
               (case field_value entry ''value'' s of
                  Inl d \<Rightarrow> Inl d
                | Inr w \<Rightarrow> map_sum id (Pair name) (expect_string w s))))"

definition url_query :: "val \<Rightarrow> span \<Rightarrow> (diagnostic, val) result" where
  "url_query v s =
     (case v of
        ListV entries \<Rightarrow>
          map_sum id (\<lambda>pairs. StringV (encode_query pairs))
            (collect_results (query_pair s) (lv_elements entries))
      | _ \<Rightarrow> Inl (diagnostic_new ''K4001'' (''expected list, found '' @ value_kind v) s))"

definition integer_json :: "int \<Rightarrow> json" where
  "integer_json i = JNumber (if i \<ge> 0 then PosInt (word_of_int i) else NegInt (word_of_int i))"

definition object_of :: "(str \<times> json) list \<Rightarrow> json" where
  "object_of kvs = JObject (foldl (\<lambda>m (k, j). om_insert k j m) [] kvs)"

function value_to_json :: "val \<Rightarrow> span \<Rightarrow> (diagnostic, json) result" where
  "value_to_json v s =
     (case v of
        IntegerV i \<Rightarrow> Inr (integer_json i)
      | BooleanV b \<Rightarrow> Inr (JBool b)
      | StringV t \<Rightarrow> Inr (JString t)
      | UnitV \<Rightarrow> Inr JNull
      | ListV l \<Rightarrow> map_sum id JArray (collect_results (\<lambda>w. value_to_json w s) (lv_elements l))
      | RecordV r \<Rightarrow>
          map_sum id object_of
            (collect_results (\<lambda>(name, w). map_sum id (Pair name) (value_to_json w s))
              (sort_key fst (rv_fields r)))
      | VariantV name payload \<Rightarrow>
          map_sum id (\<lambda>j. object_of [(variant_as_str name, j)])
            (case payload of None \<Rightarrow> Inr JNull | Some p \<Rightarrow> value_to_json (vp_value p) s)
      | _ \<Rightarrow> Inl (diagnostic_new ''K4008'' ''functions cannot be encoded as JSON'' s))"
  by pat_completeness auto
termination
  by (relation "measure (\<lambda>(v, _). size v)")
     (auto intro!: size_parts)

declare value_to_json.simps [simp del]

definition json_encode :: "'o host \<Rightarrow> val \<Rightarrow> span \<Rightarrow> (diagnostic, val) result" where
  "json_encode h v s =
     (case value_to_json v s of
        Inl d \<Rightarrow> Inl d
      | Inr j \<Rightarrow>
          (case json_to_string h j of
             Inr text \<Rightarrow> Inr (StringV text)
           | Inl e \<Rightarrow> Inl (diagnostic_new ''K4008'' (''JSON encoding failed: '' @ e) s)))"

definition as_i64 :: "json_number \<Rightarrow> int option" where
  "as_i64 n =
     (case n of PosInt m \<Rightarrow> i64_try (uint m) | NegInt i \<Rightarrow> Some (sint i) | FloatNumber _ \<Rightarrow> None)"

definition variant_of_tag :: "str \<Rightarrow> variant_name option" where
  "variant_of_tag tag =
     map_of [(''Some'', VSome), (''None'', VNone), (''Ok'', VOk), (''Err'', VErr)] tag"

fun json_to_value :: "json \<Rightarrow> span \<Rightarrow> (diagnostic, val) result" where
  "json_to_value JNull s = Inr UnitV"
| "json_to_value (JBool b) s = Inr (BooleanV b)"
| "json_to_value (JNumber n) s =
     (case as_i64 n of
        Some i \<Rightarrow> Inr (IntegerV i)
      | None \<Rightarrow> Inl (diagnostic_new ''K4009'' ''JSON number is not a signed 64-bit integer'' s))"
| "json_to_value (JString t) s = Inr (StringV t)"
| "json_to_value (JArray js) s =
     (case collect_results (\<lambda>j. json_to_value j s) js of
        Inl d \<Rightarrow> Inl d
      | Inr vs \<Rightarrow> value_list vs s)"
| "json_to_value (JObject fs) s =
     (case (if length fs = 1 then variant_of_tag (fst (hd fs)) else None) of
        Some VNone \<Rightarrow>
          if snd (hd fs) \<noteq> JNull then
            Inl (diagnostic_new ''K4009''
              (''the JSON '' @ backquoted ''None'' @ '' tag must contain null'') s)
          else Inr (VariantV VNone None)
      | Some name \<Rightarrow>
          (case fs of
             [] \<Rightarrow> value_record [] s
           | (_, j) # _ \<Rightarrow>
               (case json_to_value j s of Inl d \<Rightarrow> Inl d | Inr v \<Rightarrow> value_variant name v s))
      | None \<Rightarrow>
          (case collect_results (\<lambda>(name, j). map_sum id (Pair name) (json_to_value j s)) fs of
             Inl d \<Rightarrow> Inl d
           | Inr vs \<Rightarrow> value_record (sort_key fst vs) s))"

definition json_decode :: "'o host \<Rightarrow> val \<Rightarrow> span \<Rightarrow> (diagnostic, val) result" where
  "json_decode h v s =
     (case v of
        StringV text \<Rightarrow>
          (case json_from_str h text of
             Inl e \<Rightarrow> Inl (diagnostic_new ''K4009'' (''invalid JSON: '' @ e) s)
           | Inr j \<Rightarrow> json_to_value j s)
      | _ \<Rightarrow> Inl (diagnostic_new ''K4001'' (''expected string, found '' @ value_kind v) s))"

end
