(* ===== verification/Evaluator.thy ===== *)
theory Evaluator
  imports Operations
begin

text \<open>
  The direct evaluator (\<open>impl Evaluator\<close> of \<open>krit/src/evaluator.rs\<close>).  The output writer is threaded as
  a state of type \<open>'o\<close>.  The counters \<open>depth\<close> and \<open>calls\<close> of the source are restored after every nested
  evaluation, so they are parameters: \<open>calls\<close> counts the active calls, and the depth is given by the
  evaluations still allowed, \<open>MAX_EVALUATION_DEPTH - depth\<close>, on which \<open>expression\<close> and \<open>block\<close> recurse.
  Every handler takes the evaluators of the next level, \<open>ev\<close> for \<open>self.expression\<close> and \<open>bl\<close> for
  \<open>self.block\<close>.
\<close>

section \<open>Computations\<close>

type_synonym ('o, 'a) comp = "'o \<Rightarrow> 'o \<times> 'a flow"

definition ret :: "'a \<Rightarrow> ('o, 'a) comp" where
  "ret a out = (out, Inr a)"

definition stop :: "interrupt \<Rightarrow> ('o, 'a) comp" where
  "stop i out = (out, Inl i)"

definition lift :: "(diagnostic, 'a) result \<Rightarrow> ('o, 'a) comp" where
  "lift r out = (out, to_flow r)"

definition lift_flow :: "'a flow \<Rightarrow> ('o, 'a) comp" where
  "lift_flow r out = (out, r)"

text \<open>The \<open>?\<close> of Rust: the interrupt of \<open>m\<close> ends the computation, its value is passed on.\<close>

definition andthen :: "('o, 'a) comp \<Rightarrow> ('a \<Rightarrow> ('o, 'b) comp) \<Rightarrow> ('o, 'b) comp" where
  "andthen m f out = (case m out of (out', Inl i) \<Rightarrow> (out', Inl i) | (out', Inr a) \<Rightarrow> f a out')"

type_synonym 'o eval = "expression \<Rightarrow> environment \<Rightarrow> ('o, val) comp"
type_synonym 'o eval_block = "block \<Rightarrow> environment \<Rightarrow> ('o, val) comp"

section \<open>Operands, statements and blocks\<close>

fun eval_list :: "'o eval \<Rightarrow> expression list \<Rightarrow> environment \<Rightarrow> ('o, val list) comp" where
  "eval_list ev [] env = ret []"
| "eval_list ev (e # es) env =
     andthen (ev e env) (\<lambda>v. andthen (eval_list ev es env) (\<lambda>vs. ret (v # vs)))"

fun eval_fields :: "'o eval \<Rightarrow> expression record_field list \<Rightarrow> environment \<Rightarrow> ('o, (str \<times> val) list) comp" where
  "eval_fields ev [] env = ret []"
| "eval_fields ev (f # fs) env =
     andthen (ev (rf_value f) env) (\<lambda>v.
       andthen (eval_fields ev fs env) (\<lambda>vs. ret ((rf_name f, v) # vs)))"

fun eval_entries :: "'o eval \<Rightarrow> expression list_entry list \<Rightarrow> environment \<Rightarrow> ('o, val list) comp" where
  "eval_entries ev [] env = ret []"
| "eval_entries ev (e # es) env =
     andthen (ev (le_key e) env) (\<lambda>name.
       andthen (ev (le_value e) env) (\<lambda>v.
         andthen (lift (value_record [(''name'', name), (''value'', v)] (le_span e))) (\<lambda>r.
           andthen (eval_entries ev es env) (\<lambda>rs. ret (r # rs)))))"

fun eval_written :: "'o eval \<Rightarrow> expression construct_field list \<Rightarrow> environment \<Rightarrow> ('o, (str \<times> val) list) comp" where
  "eval_written ev [] env = ret []"
| "eval_written ev (f # fs) env =
     andthen (ev (cf_value f) env) (\<lambda>v.
       andthen (eval_written ev fs env) (\<lambda>vs. ret ((cf_name f, v) # vs)))"

fun interpolation :: "'o eval \<Rightarrow> str \<Rightarrow> expression string_part list \<Rightarrow> environment \<Rightarrow> ('o, val) comp" where
  "interpolation ev text [] env = ret (StringV text)"
| "interpolation ev text (Text t _ # ps) env = interpolation ev (text @ t) ps env"
| "interpolation ev text (Hole e s # ps) env =
     andthen (ev e env) (\<lambda>v.
       case v of
         StringV t \<Rightarrow> interpolation ev (text @ t) ps env
       | _ \<Rightarrow> stop (Failed (diagnostic_new ''K4001''
           (''an interpolation hole must be a string, found '' @ value_kind v) s)))"

definition bind_payload ::
  "environment \<Rightarrow> str option \<Rightarrow> val variant_payload option \<Rightarrow> environment" where
  "bind_payload env binding payload =
     (case (binding, payload) of
        (Some name, Some p) \<Rightarrow> env_extend env name (vp_value p)
      | _ \<Rightarrow> env)"

definition let_else ::
  "'o eval \<Rightarrow> span \<Rightarrow> variant_pattern \<Rightarrow> expression \<Rightarrow> expression variant_arm \<Rightarrow> environment \<Rightarrow>
     ('o, environment) comp" where
  "let_else ev head pat e arm env =
     andthen (ev e env) (\<lambda>subject.
       let f = variant_family (vp_variant pat) in
       case subject of
         VariantV name payload \<Rightarrow>
           if name = vp_variant pat then ret (bind_payload env (vp_binding pat) payload)
           else if name \<noteq> va_variant arm then
             stop (Failed (diagnostic_new ''K4001''
               (if variant_family name = f then
                  ''no let-else pattern matches '' @ backquoted (variant_as_str name)
                else ''expected '' @ variant_family_name f @ '' for let-else, found '' @
                  variant_family_name (variant_family name))
               (ex_span e)))
           else
             andthen (ev (va_value arm) (bind_payload env (va_binding arm) payload))
               (\<lambda>v. stop (Exited v (LetElseExit head)))
       | _ \<Rightarrow> stop (Failed (diagnostic_new ''K4001''
           (''expected '' @ variant_family_name f @ '' for let-else, found '' @ value_kind subject)
           (ex_span e))))"

definition eval_statement :: "'o eval \<Rightarrow> statement \<Rightarrow> environment \<Rightarrow> ('o, environment) comp" where
  "eval_statement ev st env =
     (case st_kind st of
        Let name _ e \<Rightarrow> andthen (ev e env) (\<lambda>v. ret (env_extend env name v))
      | LetElse pat _ e _ arm \<Rightarrow>
          let_else ev (span_new (span_start (st_span st)) (span_end (vp_span pat))) pat e arm env
      | Function name ps _ body _ \<Rightarrow> ret (env_extend env name (closure (Some name) ps body env))
      | Webhook name ps _ body _ \<Rightarrow> ret (env_extend env name (closure (Some name) ps body env))
      | QueueConsumer _ _ name ps _ body _ \<Rightarrow>
          ret (env_extend env name (closure (Some name) ps body env))
      | ScheduleHandler _ _ name ps _ body _ \<Rightarrow>
          ret (env_extend env name (closure (Some name) ps body env))
      | ExpressionStmt e \<Rightarrow> andthen (ev e env) (\<lambda>_. ret env))"

fun eval_statements :: "'o eval \<Rightarrow> statement list \<Rightarrow> environment \<Rightarrow> ('o, environment) comp" where
  "eval_statements ev [] env = ret env"
| "eval_statements ev (st # sts) env =
     andthen (eval_statement ev st env) (\<lambda>local. eval_statements ev sts local)"

definition block_contents :: "'o eval \<Rightarrow> block \<Rightarrow> environment \<Rightarrow> ('o, val) comp" where
  "block_contents ev b env =
     andthen (eval_statements ev (bl_statements b) env) (\<lambda>local.
       case bl_tail b of None \<Rightarrow> ret UnitV | Some e \<Rightarrow> ev e local)"

section \<open>Expressions\<close>

fun construct_fields ::
  "contract_field list \<Rightarrow> (str \<times> val) list \<Rightarrow> span \<Rightarrow> (str \<times> val) list flow" where
  "construct_fields [] written s = Inr []"
| "construct_fields (f # fs) written s =
     (case (case (map_of written (field_name f), field_default f) of
              (Some v, _) \<Rightarrow> Inr v
            | (None, Some EmptyString) \<Rightarrow> Inr (StringV [])
            | (None, Some EmptyListDefault) \<Rightarrow> to_flow (value_list [] s)
            | (None, None) \<Rightarrow> Inl (Panicked ''checked constructions write every required field'')) of
        Inl i \<Rightarrow> Inl i
      | Inr v \<Rightarrow> map_sum id (\<lambda>vs. (field_name f, v) # vs) (construct_fields fs written s))"

definition construction ::
  "'o eval \<Rightarrow> contract_record \<Rightarrow> span \<Rightarrow> expression construct_field list \<Rightarrow> environment \<Rightarrow> span \<Rightarrow>
     ('o, val) comp" where
  "construction ev contract contract_span fs env s =
     andthen (lift (check_construction_fields contract contract_span fs)) (\<lambda>_.
       andthen (eval_written ev fs env) (\<lambda>written.
         andthen (lift_flow (construct_fields (contract_fields contract) written s)) (\<lambda>vs.
           lift (value_record vs s))))"

definition match_expression ::
  "'o eval \<Rightarrow> expression \<Rightarrow> expression match_arm list \<Rightarrow> environment \<Rightarrow> ('o, val) comp" where
  "match_expression ev subject arms env =
     andthen (ev subject env) (\<lambda>v.
       andthen (lift (select_match_arm v (ex_span subject) arms env)) (\<lambda>(arm, arm_env). ev arm arm_env))"

fun if_chain :: "'o eval \<Rightarrow> 'o eval_block \<Rightarrow> expression \<Rightarrow> environment \<Rightarrow> ('o, val) comp" where
  "if_chain ev bl (Expression (If condition consequent alternative) s) env =
     andthen (ev condition env) (\<lambda>c.
       andthen (lift (expect_boolean c (ex_span condition))) (\<lambda>b.
         if b then bl consequent env else if_chain ev bl alternative env))"
| "if_chain ev bl e env = ev e env"

definition eval_binary ::
  "'o eval \<Rightarrow> binary_operator \<Rightarrow> val \<Rightarrow> expression \<Rightarrow> environment \<Rightarrow> span \<Rightarrow> ('o, val) comp" where
  "eval_binary ev operator left right env s =
     (if operator = And then
        andthen (lift (expect_boolean left s)) (\<lambda>l.
          if l then andthen (ev right env) (\<lambda>r.
            andthen (lift (expect_boolean r s)) (\<lambda>b. ret (BooleanV b)))
          else ret (BooleanV False))
      else if operator = Or then
        andthen (lift (expect_boolean left s)) (\<lambda>l.
          if l then ret (BooleanV True)
          else andthen (ev right env) (\<lambda>r.
            andthen (lift (expect_boolean r s)) (\<lambda>b. ret (BooleanV b))))
      else andthen (ev right env) (\<lambda>r. lift_flow (apply_binary operator left r s)))"

text \<open>The first loop of \<open>binary_chain\<close>: the leftmost operand and the spine, outermost node first.\<close>

fun binary_spine :: "expression list \<Rightarrow> expression \<Rightarrow> expression \<times> expression list" where
  "binary_spine nodes (Expression (Binary left operator right) s) =
     binary_spine (nodes @ [Expression (Binary left operator right) s]) left"
| "binary_spine nodes e = (e, nodes)"

text \<open>The second loop pops the spine from its end.\<close>

fun binary_nodes :: "'o eval \<Rightarrow> val \<Rightarrow> expression list \<Rightarrow> environment \<Rightarrow> ('o, val) comp" where
  "binary_nodes ev v [] env = ret v"
| "binary_nodes ev v (node # nodes) env =
     (case ex_kind node of
        Binary _ operator right \<Rightarrow>
          andthen (eval_binary ev operator v right env (ex_span node)) (\<lambda>w. binary_nodes ev w nodes env)
      | _ \<Rightarrow> stop (Panicked ''the binary spine holds only binary expressions''))"

definition binary_chain :: "'o eval \<Rightarrow> expression \<Rightarrow> environment \<Rightarrow> ('o, val) comp" where
  "binary_chain ev e env =
     (let (start, spine) = binary_spine [] e in
      andthen (ev start env) (\<lambda>v. binary_nodes ev v (rev spine) env))"

definition eval_unary ::
  "'o eval \<Rightarrow> unary_operator \<Rightarrow> expression \<Rightarrow> environment \<Rightarrow> span \<Rightarrow> ('o, val) comp" where
  "eval_unary ev operator operand env s =
     (case (operator, ex_kind operand) of
        (Negate, Literal (IntegerLit i)) \<Rightarrow> lift (negate_literal i s)
      | _ \<Rightarrow> andthen (ev operand env) (\<lambda>v. lift (apply_unary operator v s)))"

section \<open>Calls\<close>

definition output_error :: "str \<Rightarrow> span \<Rightarrow> interrupt" where
  "output_error e s = Failed (diagnostic_new ''K4007'' (''output failed: '' @ e) s)"

definition write_output :: "'o host \<Rightarrow> str \<Rightarrow> span \<Rightarrow> ('o, unit) comp" where
  "write_output h text s out =
     (case write_all h text out of
        (out', None) \<Rightarrow> (out', Inr ())
      | (out', Some e) \<Rightarrow> (out', Inl (output_error e s)))"

text \<open>\<open>argument()\<close>: the next argument, which the arity check guarantees.\<close>

definition argument :: "val list \<Rightarrow> (val \<Rightarrow> val list \<Rightarrow> ('o, val) comp) \<Rightarrow> ('o, val) comp" where
  "argument vs k =
     (case vs of
        [] \<Rightarrow> stop (Panicked ''built-in arity is checked before application'')
      | v # rest \<Rightarrow> k v rest)"

definition str_contains :: "str \<Rightarrow> str \<Rightarrow> bool" where
  "str_contains text part \<longleftrightarrow> list_ex (prefix part) (suffixes text)"

definition apply_builtin ::
  "'o host \<Rightarrow> builtin_function \<Rightarrow> val list \<Rightarrow> span \<Rightarrow> ('o, val) comp" where
  "apply_builtin h b vs s =
     (if b = Print \<or> b = Println then
        argument vs (\<lambda>v _.
          andthen (write_output h (render (debug_str h) v) s) (\<lambda>_.
            if b = Println then andthen (write_output h [CHR 0x0A] s) (\<lambda>_. ret UnitV)
            else ret UnitV))
      else if b = SomeFn then argument vs (\<lambda>v _. lift (value_variant VSome v s))
      else if b = OkFn then argument vs (\<lambda>v _. lift (value_variant VOk v s))
      else if b = ErrFn then argument vs (\<lambda>v _. lift (value_variant VErr v s))
      else if b = JsonEncode then argument vs (\<lambda>v _. lift (json_encode h v s))
      else if b = JsonDecode then argument vs (\<lambda>v _. lift (json_decode h v s))
      else if b = IntToString then
        argument vs (\<lambda>v _. lift (map_sum id (\<lambda>i. StringV (show_int i)) (expect_integer v s)))
      else if b = UrlPathSegment then argument vs (\<lambda>v _. lift (url_path_segment v s))
      else if b = UrlQuery then argument vs (\<lambda>v _. lift (url_query v s))
      else if b = StringByteLen then
        argument vs (\<lambda>v _. andthen (lift (expect_string v s)) (\<lambda>text.
          lift (overflow (i64_try (int (length text))) ''string byte length overflow'' s)))
      else if b = StringIsEmpty then
        argument vs (\<lambda>v _. lift (map_sum id (\<lambda>text. BooleanV (text = [])) (expect_string v s)))
      else if b = StringContains \<or> b = StringStartsWith \<or> b = StringEndsWith then
        argument vs (\<lambda>v rest. andthen (lift (expect_string v s)) (\<lambda>text.
          argument rest (\<lambda>w _. andthen (lift (expect_string w s)) (\<lambda>part.
            ret (BooleanV
              (if b = StringContains then str_contains text part
               else if b = StringStartsWith then prefix part text
               else suffix part text))))))
      else stop (Panicked ''host operations are refused before built-in application''))"

definition call_builtin ::
  "'o host \<Rightarrow> 'o eval \<Rightarrow> builtin_function \<Rightarrow> expression list \<Rightarrow> environment \<Rightarrow> span \<Rightarrow> ('o, val) comp" where
  "call_builtin h ev b arguments env s =
     (if length arguments \<noteq> builtin_arity b then
        stop (Failed (arity_error (builtin_arity b) (length arguments) s))
      else case unavailable_builtin_message b of
        Some m \<Rightarrow>
          andthen (eval_list ev arguments env) (\<lambda>_. stop (Failed (diagnostic_new ''K5003'' m s)))
      | None \<Rightarrow> andthen (eval_list ev arguments env) (\<lambda>vs. apply_builtin h b vs s))"

text \<open>The body of a call: an early exit of the body is the value of the call.\<close>

definition catch_exit :: "('o, val) comp \<Rightarrow> ('o, val) comp" where
  "catch_exit m out =
     (case m out of (out', Inl (Exited v _)) \<Rightarrow> (out', Inr v) | r \<Rightarrow> r)"

definition call_function ::
  "'o eval \<Rightarrow> (nat \<Rightarrow> 'o eval_block) \<Rightarrow> nat \<Rightarrow> val function_value \<Rightarrow> expression list \<Rightarrow> environment \<Rightarrow>
     span \<Rightarrow> ('o, val) comp" where
  "call_function ev bl calls f arguments env s =
     (if length arguments \<noteq> length (fn_parameters f) then
        stop (Failed (arity_error (length (fn_parameters f)) (length arguments) s))
      else
        andthen (eval_list ev arguments env) (\<lambda>vs.
          let named = (case fn_name f of
                None \<Rightarrow> fn_environment f
              | Some name \<Rightarrow> env_extend (fn_environment f) name (FunctionV f));
              call_env = foldl (\<lambda>e (p, v). env_extend e p v) named (zip (fn_parameters f) vs) in
          if calls \<ge> MAX_CALL_DEPTH then
            stop (Failed (diagnostic_new ''K4010''
              (''call depth limit exceeded: more than '' @ show_nat MAX_CALL_DEPTH @
               '' nested function calls'') s))
          else catch_exit (bl (calls + 1) (fn_body f) call_env)))"

definition call ::
  "'o host \<Rightarrow> 'o eval \<Rightarrow> (nat \<Rightarrow> 'o eval_block) \<Rightarrow> nat \<Rightarrow> expression \<Rightarrow> expression list \<Rightarrow>
     environment \<Rightarrow> span \<Rightarrow> ('o, val) comp" where
  "call h ev bl calls callee arguments env s =
     andthen (ev callee env) (\<lambda>v.
       case v of
         FunctionV f \<Rightarrow> call_function ev bl calls f arguments env s
       | BuiltinV b \<Rightarrow> call_builtin h ev b arguments env s
       | _ \<Rightarrow> stop (Failed (not_callable v (ex_span callee))))"

section \<open>The evaluator\<close>

definition expression_contents ::
  "'o host \<Rightarrow> (nat \<Rightarrow> 'o eval) \<Rightarrow> (nat \<Rightarrow> 'o eval_block) \<Rightarrow> nat \<Rightarrow> expression \<Rightarrow> environment \<Rightarrow>
     ('o, val) comp" where
  "expression_contents h ev bl calls e env =
     (case ex_kind e of
        Literal l \<Rightarrow> lift (literal_value l (ex_span e))
      | Interpolation parts \<Rightarrow> interpolation (ev calls) [] parts env
      | UnitExpr \<Rightarrow> ret UnitV
      | Variable name \<Rightarrow> lift (variable name env (ex_span e))
      | ListExpr es \<Rightarrow> andthen (eval_list (ev calls) es env) (\<lambda>vs. lift (value_list vs (ex_span e)))
      | RecordExpr fs \<Rightarrow> andthen (eval_fields (ev calls) fs env) (\<lambda>vs. lift (value_record vs (ex_span e)))
      | EntryList es \<Rightarrow> andthen (eval_entries (ev calls) es env) (\<lambda>vs. lift (value_list vs (ex_span e)))
      | Construct contract contract_span fs \<Rightarrow>
          construction (ev calls) contract contract_span fs env (ex_span e)
      | FieldAccess e' field \<Rightarrow>
          andthen (ev calls e' env) (\<lambda>v. lift (field_value v field (ex_span e)))
      | BlockExpr b \<Rightarrow> bl calls b env
      | If _ _ _ \<Rightarrow> if_chain (ev calls) (bl calls) e env
      | FunctionExpr ps _ body \<Rightarrow> ret (closure None ps body env)
      | Call callee arguments \<Rightarrow> call h (ev calls) bl calls callee arguments env (ex_span e)
      | Propagate operand question \<Rightarrow>
          andthen (ev calls operand env) (\<lambda>v. lift_flow (propagate v question))
      | Match subject arms \<Rightarrow> match_expression (ev calls) subject arms env
      | Unary operator operand \<Rightarrow> eval_unary (ev calls) operator operand env (ex_span e)
      | Binary _ _ _ \<Rightarrow> binary_chain (ev calls) e env)"

definition depth_error :: "span \<Rightarrow> interrupt" where
  "depth_error s =
     Failed (diagnostic_new ''K4010''
       (''evaluation depth limit exceeded: more than '' @ show_nat MAX_EVALUATION_DEPTH @
        '' nested evaluations'') s)"

text \<open>\<open>enter\<close>, the contents and the decrement; the first argument is the depth still allowed.\<close>

fun expression :: "'o host \<Rightarrow> nat \<Rightarrow> nat \<Rightarrow> 'o eval"
  and eval_block :: "'o host \<Rightarrow> nat \<Rightarrow> nat \<Rightarrow> 'o eval_block" where
  "expression h 0 = (\<lambda>calls e env. stop (depth_error (ex_span e)))"
| "expression h (Suc n) = (\<lambda>calls e env. expression_contents h (expression h n) (eval_block h n) calls e env)"
| "eval_block h 0 = (\<lambda>calls b env. stop (depth_error (bl_span b)))"
| "eval_block h (Suc n) = (\<lambda>calls b env. block_contents (expression h n calls) b env)"

fun run_program :: "'o eval \<Rightarrow> program \<Rightarrow> environment \<Rightarrow> 'o \<Rightarrow> 'o \<times> val flow" where
  "run_program ev [] env out = (out, Inr UnitV)"
| "run_program ev (st # sts) env out =
     (case eval_statement ev st env out of
        (out', Inr env') \<Rightarrow> run_program ev sts env' out'
      | (out', Inl (Exited _ (Question question))) \<Rightarrow>
          (out', Inl (Failed (diagnostic_new ''K3012''
            (backquoted ''?'' @ '' is not allowed at the top level'') question)))
      | (out', Inl (Exited _ (LetElseExit head))) \<Rightarrow>
          (out', Inl (Failed (diagnostic_new ''K3014'' ''let-else is not allowed at the top level'' head)))
      | (out', Inl i) \<Rightarrow> (out', Inl i))"

definition execute :: "'o host \<Rightarrow> program \<Rightarrow> 'o \<Rightarrow> 'o \<times> val flow" where
  "execute h p out = run_program (expression h MAX_EVALUATION_DEPTH 0) p [] out"

end
