(* ===== verification/Value_Equality.thy ===== *)
theory Value_Equality
  imports Operations
begin

text \<open>
  \<open>==\<close> on values.  \<open>veq\<close> is the relation the operator decides: equality up to the order of record
  fields.  On values whose records have distinct field names it is an equivalence.
\<close>

section \<open>The relation\<close>

inductive veq :: "val \<Rightarrow> val \<Rightarrow> bool" where
  veq_integer: "veq (IntegerV i) (IntegerV i)"
| veq_boolean: "veq (BooleanV b) (BooleanV b)"
| veq_string: "veq (StringV t) (StringV t)"
| veq_unit: "veq UnitV UnitV"
| veq_list: "list_all2 veq (lv_elements l) (lv_elements r) \<Longrightarrow> veq (ListV l) (ListV r)"
| veq_record: "length (rv_fields l) = length (rv_fields r) \<Longrightarrow>
     (\<forall>n a. (n, a) \<in> set (rv_fields l) \<longrightarrow> (\<exists>b. map_of (rv_fields r) n = Some b \<and> veq a b)) \<Longrightarrow>
     veq (RecordV l) (RecordV r)"
| veq_none: "veq (VariantV n None) (VariantV n None)"
| veq_payload: "veq (vp_value p) (vp_value q) \<Longrightarrow> veq (VariantV n (Some p)) (VariantV n (Some q))"

inductive_simps veq_simps [simp]:
  "veq (IntegerV i) v" "veq (BooleanV b) v" "veq (StringV t) v" "veq UnitV v" "veq (ListV l) v"
  "veq (RecordV r) v" "veq (VariantV n p) v" "veq (FunctionV f) v" "veq (BuiltinV b) v"

section \<open>The operator decides it\<close>

lemma all_results_Inr:
  "(\<And>x. x \<in> set xs \<Longrightarrow> f x = Inr (P x)) \<Longrightarrow> all_results f xs = Inr (list_all P xs)"
  by (induction xs) auto

lemma function_free_parts:
  "v \<in> set (lv_elements l) \<Longrightarrow> \<not> contains_function (ListV l) \<Longrightarrow> \<not> contains_function v"
  "(n, v) \<in> set (rv_fields r) \<Longrightarrow> \<not> contains_function (RecordV r) \<Longrightarrow> \<not> contains_function v"
  "\<not> contains_function (VariantV m (Some p)) \<Longrightarrow> \<not> contains_function (vp_value p)"
  by (cases l, force simp: list_ex_iff, cases r, force simp: list_ex_iff, cases p, simp)

lemma value_equal_list:
  assumes IH: "\<And>a b. a \<in> set xs \<Longrightarrow> b \<in> set ys \<Longrightarrow> value_equal a b s = Inr (veq a b)"
    and "length xs = length ys"
  shows "all_results (\<lambda>(a, b). value_equal a b s) (zip xs ys) = Inr (list_all2 veq xs ys)"
proof -
  have "all_results (\<lambda>(a, b). value_equal a b s) (zip xs ys) = Inr (list_all (\<lambda>(a, b). veq a b) (zip xs ys))"
    using IH by (intro all_results_Inr) (auto dest: set_zip_leftD set_zip_rightD)
  then show ?thesis using assms(2) by (simp add: list_all2_iff list_all_iff)
qed

lemma value_equal_fields:
  assumes IH: "\<And>n a b. (n, a) \<in> set fs \<Longrightarrow> map_of gs n = Some b \<Longrightarrow> value_equal a b s = Inr (veq a b)"
  shows "all_results (\<lambda>(n, a). case map_of gs n of None \<Rightarrow> Inr False | Some b \<Rightarrow> value_equal a b s) fs =
    Inr (\<forall>n a. (n, a) \<in> set fs \<longrightarrow> (\<exists>b. map_of gs n = Some b \<and> veq a b))"
proof -
  have "all_results (\<lambda>(n, a). case map_of gs n of None \<Rightarrow> Inr False | Some b \<Rightarrow> value_equal a b s) fs =
      Inr (list_all (\<lambda>(n, a). case map_of gs n of None \<Rightarrow> False | Some b \<Rightarrow> veq a b) fs)"
    using IH by (intro all_results_Inr) (auto split: option.splits)
  also have "list_all (\<lambda>(n, a). case map_of gs n of None \<Rightarrow> False | Some b \<Rightarrow> veq a b) fs \<longleftrightarrow>
      (\<forall>n a. (n, a) \<in> set fs \<longrightarrow> (\<exists>b. map_of gs n = Some b \<and> veq a b))"
    by (fastforce simp: list_all_iff split: option.splits)
  finally show ?thesis .
qed

lemma value_equal_data:
  "\<not> contains_function l \<Longrightarrow> \<not> contains_function r \<Longrightarrow> value_equal l r s = Inr (veq l r)"
proof (induction l arbitrary: r rule: val_induct)
  case (List l)
  note eq = value_equal.simps [of "ListV l" r s]
  show ?case
  proof (cases r)
    case r: (ListV m)
    have "length (lv_elements l) = length (lv_elements m) \<Longrightarrow>
        all_results (\<lambda>(a, b). value_equal a b s) (zip (lv_elements l) (lv_elements m)) =
        Inr (list_all2 veq (lv_elements l) (lv_elements m))"
      using List function_free_parts(1) r by (intro value_equal_list) blast+
    then show ?thesis using eq List.prems r by (auto dest: list_all2_lengthD)
  qed (use eq List.prems in simp_all)
next
  case (Record l)
  note eq = value_equal.simps [of "RecordV l" r s]
  show ?case
  proof (cases r)
    case r: (RecordV m)
    have "all_results (\<lambda>(n, a). case map_of (rv_fields m) n of None \<Rightarrow> Inr False
          | Some b \<Rightarrow> value_equal a b s) (rv_fields l) =
        Inr (\<forall>n a. (n, a) \<in> set (rv_fields l) \<longrightarrow> (\<exists>b. map_of (rv_fields m) n = Some b \<and> veq a b))"
      using Record.IH Record.prems function_free_parts(2) function_free_parts(2) [OF map_of_SomeD] r
      by (intro value_equal_fields) blast
    then show ?thesis using eq Record.prems r by auto
  qed (use eq Record.prems in simp_all)
next
  case (Variant n p)
  note eq = value_equal.simps [of "VariantV n p" r s]
  show ?case
  proof (cases r)
    case r: (VariantV m q)
    show ?thesis using eq Variant r function_free_parts(3) by (cases p; cases q) auto
  qed (use eq Variant.prems in simp_all)
qed (subst value_equal.simps; auto split: val.splits)+

lemma value_equal_exact:
  "value_equal l r s =
     (if contains_function l \<or> contains_function r
      then Inl (diagnostic_new ''K4006'' ''functions cannot be compared'' s) else Inr (veq l r))"
proof (cases "contains_function l \<or> contains_function r")
  case True
  then show ?thesis by (subst value_equal.simps) simp
qed (use value_equal_data in simp)

section \<open>An equivalence on records with distinct fields\<close>

fun distinct_fields :: "val \<Rightarrow> bool" where
  "distinct_fields (ListV (ListValue vs _)) = list_all distinct_fields vs"
| "distinct_fields (RecordV (RecordValue fs _)) =
     (distinct (map fst fs) \<and> list_all (\<lambda>(_, v). distinct_fields v) fs)"
| "distinct_fields (VariantV _ (Some (VariantPayload v _))) = distinct_fields v"
| "distinct_fields _ = True"

lemma distinct_fields_parts:
  "distinct_fields (ListV l) \<longleftrightarrow> (\<forall>v \<in> set (lv_elements l). distinct_fields v)"
  "distinct_fields (RecordV r) \<longleftrightarrow> distinct (map fst (rv_fields r)) \<and>
     (\<forall>(n, v) \<in> set (rv_fields r). distinct_fields v)"
  "distinct_fields (VariantV m (Some p)) \<longleftrightarrow> distinct_fields (vp_value p)"
  by (cases l, simp add: list_all_iff, cases r, simp add: list_all_iff, cases p, simp)

lemma veq_refl:
  "distinct_fields v \<Longrightarrow> \<not> contains_function v \<Longrightarrow> veq v v"
proof (induction v rule: val_induct)
  case (List l)
  then show ?case using function_free_parts(1)
    by (auto simp: distinct_fields_parts list_all2_same)
next
  case (Record r)
  have "veq a a" if "(n, a) \<in> set (rv_fields r)" for n a
    using Record that function_free_parts(2) by (auto simp: distinct_fields_parts)
  then show ?case using Record.prems by (auto simp: distinct_fields_parts)
next
  case (Variant n p)
  then show ?case using function_free_parts(3) by (cases p) (auto simp: distinct_fields_parts)
qed simp_all

text \<open>Equal records have the same field names.\<close>

lemma same_names:
  assumes "distinct (map fst fs)" "distinct (map fst gs)" "length fs = length gs"
    and "\<And>n a. (n, a) \<in> set fs \<Longrightarrow> n \<in> fst ` set gs"
  shows "fst ` set gs = fst ` set fs"
proof -
  have "fst ` set fs \<subseteq> fst ` set gs" using assms(4) by auto
  moreover have "card (fst ` set fs) = card (fst ` set gs)"
    using assms(1-3) by (metis distinct_card length_map set_map)
  ultimately show ?thesis by (metis card_subset_eq finite_imageI List.finite_set)
qed

lemma veq_sym: "veq l r \<Longrightarrow> distinct_fields l \<Longrightarrow> distinct_fields r \<Longrightarrow> veq r l"
proof (induction l arbitrary: r rule: val_induct)
  case (List l)
  then obtain m where r: "r = ListV m" "list_all2 veq (lv_elements l) (lv_elements m)" by auto
  have "list_all2 veq (lv_elements m) (lv_elements l)"
    unfolding list_all2_conv_all_nth
  proof (intro conjI allI impI)
    show len: "length (lv_elements m) = length (lv_elements l)" using r(2) by (simp add: list_all2_lengthD)
    fix i assume "i < length (lv_elements m)"
    then show "veq (lv_elements m ! i) (lv_elements l ! i)"
      using List r len by (auto simp: distinct_fields_parts list_all2_conv_all_nth)
  qed
  then show ?case using r(1) by simp
next
  case (Record l)
  then obtain m where r: "r = RecordV m" "length (rv_fields l) = length (rv_fields m)"
    "\<And>n a. (n, a) \<in> set (rv_fields l) \<Longrightarrow> \<exists>b. map_of (rv_fields m) n = Some b \<and> veq a b"
    by auto
  have dl: "distinct (map fst (rv_fields l))" and dm: "distinct (map fst (rv_fields m))"
    using Record.prems r(1) by (simp_all add: distinct_fields_parts)
  have names: "fst ` set (rv_fields m) = fst ` set (rv_fields l)"
    using r(3) by (intro same_names [OF dl dm r(2)]) (force dest: map_of_SomeD)
  have "\<exists>a. map_of (rv_fields l) n = Some a \<and> veq b a" if b: "(n, b) \<in> set (rv_fields m)" for n b
  proof -
    obtain a where a: "(n, a) \<in> set (rv_fields l)" using names b by force
    then have "veq a b" using r(3) [OF a] b dm by auto
    moreover have "distinct_fields a" "distinct_fields b"
      using Record.prems a b r(1) by (auto simp: distinct_fields_parts)
    ultimately show ?thesis using Record.IH [OF a] dl a by auto
  qed
  then show ?case using r(1,2) by simp
next
  case (Variant n p)
  then show ?case by (cases p) (auto simp: distinct_fields_parts)
qed auto

lemma veq_trans: "veq l m \<Longrightarrow> veq m r \<Longrightarrow> veq l r"
proof (induction l arbitrary: m r rule: val_induct)
  case (List l)
  then show ?case by (clarsimp simp: list_all2_conv_all_nth) (metis nth_mem)
next
  case (Record l)
  then show ?case by (fastforce dest: map_of_SomeD)
qed auto

text \<open>C29: On values without functions whose records have distinct field names, the \<open>==\<close> operator
  always answers, and it is reflexive, symmetric and transitive.\<close>

theorem equality_is_equivalence:
  assumes "\<not> contains_function a" "\<not> contains_function b" "\<not> contains_function c"
    and "distinct_fields a" "distinct_fields b"
  shows "value_equal a a s = Inr True \<and> value_equal a b s = value_equal b a s \<and>
    (value_equal a b s = Inr True \<longrightarrow> value_equal b c s = Inr True \<longrightarrow> value_equal a c s = Inr True)"
  using assms veq_refl [of a] veq_sym [of a b] veq_sym [of b a] veq_trans [of a b c]
  by (auto simp: value_equal_exact)

text \<open>Two records that differ in the order of their fields are equal.\<close>

definition demo_ab :: val where
  "demo_ab = RecordV (RecordValue [(''a'', IntegerV 1), (''b'', UnitV)] 1)"

definition demo_ba :: val where
  "demo_ba = RecordV (RecordValue [(''b'', UnitV), (''a'', IntegerV 1)] 1)"

theorem equality_is_equivalence_witness:
  "value_equal demo_ab demo_ba (span_new 0 1) = value_equal demo_ba demo_ab (span_new 0 1) \<and>
   value_equal demo_ba demo_ba (span_new 0 1) = Inr True"
  using equality_is_equivalence [of demo_ab demo_ba demo_ab "span_new 0 1"]
    equality_is_equivalence [of demo_ba demo_ab demo_ba "span_new 0 1"]
  by (simp add: demo_ab_def demo_ba_def)

end
