(* ===== verification/Evaluator_Invariant.thy ===== *)
theory Evaluator_Invariant
  imports Evaluator Value_Equality
begin

text \<open>
  What every evaluation keeps.  The locale \<open>value_contract\<close> states what a property of values must
  satisfy for the evaluator to keep it: the laws of building a value and of taking it apart.  Inside
  it the evaluator is shown, handler by handler, to return and to exit with values of that
  property only, to fail with its own diagnostic codes only, and never to panic.
\<close>

section \<open>Outcomes\<close>

definition EVALUATOR_CODES :: "str list" where
  "EVALUATOR_CODES =
     [''K2001'', ''K3016'', ''K4001'', ''K4002'', ''K4003'', ''K4004'', ''K4005'', ''K4006'', ''K4007'',
      ''K4008'', ''K4009'', ''K4010'', ''K5003'']"

definition diag_ok :: "diagnostic \<Rightarrow> bool" where
  "diag_ok d \<longleftrightarrow> severity d = Error \<and> code d \<in> set EVALUATOR_CODES"

lemma diag_ok_new: "c \<in> set EVALUATOR_CODES \<Longrightarrow> diag_ok (diagnostic_new c m s)"
  by (simp add: diag_ok_def diagnostic_new_def)

lemma diag_ok_note [simp]: "diag_ok (with_note n d) = diag_ok d"
  by (simp add: diag_ok_def with_note_def)

lemmas diag_codes = diag_ok_new EVALUATOR_CODES_def

definition result_ok :: "('a \<Rightarrow> bool) \<Rightarrow> (diagnostic, 'a) result \<Rightarrow> bool" where
  "result_ok P r = (case r of Inl d \<Rightarrow> diag_ok d | Inr a \<Rightarrow> P a)"

definition interrupt_ok :: "(val \<Rightarrow> bool) \<Rightarrow> interrupt \<Rightarrow> bool" where
  "interrupt_ok good i = (case i of Failed d \<Rightarrow> diag_ok d | Exited v _ \<Rightarrow> good v | Panicked _ \<Rightarrow> False)"

definition flow_ok :: "(val \<Rightarrow> bool) \<Rightarrow> ('a \<Rightarrow> bool) \<Rightarrow> 'a flow \<Rightarrow> bool" where
  "flow_ok good P r = (case r of Inl i \<Rightarrow> interrupt_ok good i | Inr a \<Rightarrow> P a)"

definition comp_ok :: "(val \<Rightarrow> bool) \<Rightarrow> ('a \<Rightarrow> bool) \<Rightarrow> ('o, 'a) comp \<Rightarrow> bool" where
  "comp_ok good P m \<longleftrightarrow> (\<forall>out. flow_ok good P (snd (m out)))"

lemma result_ok_simps [simp]: "result_ok P (Inl d) = diag_ok d" "result_ok P (Inr a) = P a"
  by (simp_all add: result_ok_def)

lemma flow_ok_simps [simp]:
  "flow_ok good P (Inl (Failed d)) = diag_ok d" "flow_ok good P (Inl (Exited v x)) = good v"
  "flow_ok good P (Inl (Panicked m)) = False" "flow_ok good P (Inr a) = P a"
  by (simp_all add: flow_ok_def interrupt_ok_def)

lemma result_ok_mono: "result_ok P r \<Longrightarrow> (\<And>a. P a \<Longrightarrow> Q a) \<Longrightarrow> result_ok Q r"
  by (cases r) auto

lemma result_ok_map [simp]: "result_ok P (map_sum id f r) = result_ok (\<lambda>a. P (f a)) r"
  by (cases r) auto

lemma flow_ok_to_flow [simp]: "flow_ok good P (to_flow r) = result_ok P r"
  by (cases r) (simp_all add: to_flow_def)

lemma comp_ok_ret [simp]: "comp_ok good P (ret a) = P a"
  by (simp add: comp_ok_def ret_def)

lemma comp_ok_stop [simp]: "comp_ok good P (stop i) = interrupt_ok good i"
  by (simp add: comp_ok_def stop_def flow_ok_def)

lemma interrupt_ok_simps [simp]:
  "interrupt_ok good (Failed d) = diag_ok d" "interrupt_ok good (Exited v x) = good v"
  "interrupt_ok good (Panicked m) = False"
  by (simp_all add: interrupt_ok_def)

lemma comp_ok_lift [simp]:
  "comp_ok good P (lift r) = result_ok P r" "comp_ok good P (lift_flow f) = flow_ok good P f"
  by (simp_all add: comp_ok_def lift_def lift_flow_def)

lemma comp_ok_andthen:
  assumes "comp_ok good P m" "\<And>a. P a \<Longrightarrow> comp_ok good Q (f a)"
  shows "comp_ok good Q (andthen m f)"
proof -
  have "flow_ok good Q (snd (andthen m f out))" for out
  proof (cases "m out")
    case (Pair out' r)
    have "flow_ok good P r" using assms(1) Pair unfolding comp_ok_def by (metis snd_conv)
    then show ?thesis using assms(2) Pair
      by (cases r) (auto simp: andthen_def comp_ok_def flow_ok_def)
  qed
  then show ?thesis by (simp add: comp_ok_def)
qed

lemma collect_results_ok:
  assumes "\<And>x. x \<in> set xs \<Longrightarrow> result_ok (P x) (f x)"
  shows "result_ok (\<lambda>ys. list_all2 P xs ys) (collect_results f xs)"
  using assms by (induction xs) (fastforce split: sum.splits)+

lemma all_results_ok:
  "(\<And>x. x \<in> set xs \<Longrightarrow> result_ok (\<lambda>_. True) (f x)) \<Longrightarrow> result_ok (\<lambda>_. True) (all_results f xs)"
  by (induction xs) (fastforce split: sum.splits)+

section \<open>Operations without values\<close>

lemma expect_ok:
  "result_ok (\<lambda>_. True) (expect_boolean v s)"
  "result_ok (\<lambda>i. v = IntegerV i) (expect_integer v s)"
  "result_ok (\<lambda>_. True) (expect_string v s)"
  by (auto simp: expect_boolean_def expect_integer_def expect_string_def diag_codes split: val.splits)

lemma kind_pair_ok: "diag_ok (kind_pair_error m l r s)"
  by (simp add: kind_pair_error_def diag_codes)

lemma integer_pair_ok: "result_ok (\<lambda>(i, j). l = IntegerV i \<and> r = IntegerV j) (integer_pair l r s)"
  by (auto simp: integer_pair_def kind_pair_ok split: val.splits)

lemma container_depth_ok:
  "result_ok (\<lambda>d. d = 1 + max_depth vs \<and> d \<le> MAX_VALUE_DEPTH) (container_depth vs s)"
  by (auto simp: container_depth_def Let_def diag_codes)

lemma i64_try_Some: "i64_try n = Some m \<longleftrightarrow> m = n \<and> in_i64 n"
  by (auto simp: i64_try_def)

lemma overflow_ok: "result_ok (\<lambda>v. \<exists>i. r = Some i \<and> v = IntegerV i) (overflow r m s)"
  by (auto simp: overflow_def diag_codes split: option.splits)

lemma rem_in_i64: "in_i64 a \<Longrightarrow> in_i64 (rem a b)"
proof -
  assume a: "in_i64 a"
  have m: "\<bar>a\<bar> mod \<bar>b\<bar> \<le> \<bar>a\<bar>" "0 \<le> \<bar>a\<bar> mod \<bar>b\<bar>"
    by (simp add: zmod_le_nonneg_dividend, cases "b = 0", simp_all)
  define r where "r = \<bar>a\<bar> mod \<bar>b\<bar>"
  have "r \<le> \<bar>a\<bar>" "0 \<le> r" using m by (simp_all add: r_def)
  then show ?thesis using a
    unfolding rem_def r_def [symmetric] in_i64_def i64_min_def i64_max_def by (auto simp: sgn_if)
qed

lemma checked_in_i64:
  "checked_add a b = Some c \<Longrightarrow> in_i64 c" "checked_sub a b = Some c \<Longrightarrow> in_i64 c"
  "checked_mul a b = Some c \<Longrightarrow> in_i64 c" "checked_neg a = Some c \<Longrightarrow> in_i64 c"
  "checked_div a b = Some c \<Longrightarrow> in_i64 c" "in_i64 a \<Longrightarrow> checked_rem a b = Some c \<Longrightarrow> in_i64 c"
  by (auto simp: checked_add_def checked_sub_def checked_mul_def checked_neg_def checked_div_def
      checked_rem_def i64_try_Some rem_in_i64 split: if_splits)

lemma check_written_diag: "result_ok (\<lambda>_. True) (check_written contract written fs)"
  by (induction fs arbitrary: written) (auto simp: diag_codes)

lemma check_construction_diag: "result_ok (\<lambda>_. True) (check_construction_fields contract s fs)"
  using check_written_diag [of contract "[]" fs]
  by (auto simp: check_construction_fields_def Let_def diag_codes split: sum.splits)

lemma value_equal_ok: "result_ok (\<lambda>_. True) (value_equal l r s)"
  by (simp add: value_equal_exact diag_codes)

lemma value_to_json_ok: "result_ok (\<lambda>_. True) (value_to_json v s)"
proof (induction v rule: val_induct)
  case (List l)
  then have "result_ok (list_all2 (\<lambda>_ _. True) (lv_elements l))
      (collect_results (\<lambda>w. value_to_json w s) (lv_elements l))"
    by (intro collect_results_ok)
  then show ?case by (subst value_to_json.simps) (auto elim: result_ok_mono)
next
  case (Record r)
  then have "result_ok (list_all2 (\<lambda>_ _. True) (sort_key fst (rv_fields r)))
      (collect_results (\<lambda>(name, w). map_sum id (Pair name) (value_to_json w s)) (sort_key fst (rv_fields r)))"
    by (intro collect_results_ok) auto
  then show ?case by (subst value_to_json.simps) (auto elim: result_ok_mono)
next
  case (Variant n p)
  then show ?case by (subst value_to_json.simps) (auto split: option.splits)
qed (subst value_to_json.simps; simp add: diag_codes)+

lemma json_encode_ok: "result_ok (\<lambda>v. \<exists>t. v = StringV t) (json_encode h v s)"
  using value_to_json_ok [of v s]
  by (auto simp: json_encode_def diag_codes split: sum.splits)

section \<open>Properties of values the evaluator keeps\<close>

text \<open>Also what a result must satisfy to be stored in a container.\<close>

locale value_contract =
  fixes good :: "val \<Rightarrow> bool"
  assumes good_integer: "good (IntegerV i) \<longleftrightarrow> in_i64 i"
    and good_boolean: "good (BooleanV b)"
    and good_string: "good (StringV t)"
    and good_unit: "good UnitV"
    and good_none: "good (VariantV VNone None)"
    and good_builtin: "good (BuiltinV bf)"
    and good_list: "\<forall>v \<in> set vs. good v \<Longrightarrow> value_list vs s = Inr v' \<Longrightarrow> good v'"
    and good_record: "\<forall>(n, v) \<in> set fs. good v \<Longrightarrow> value_record fs s = Inr v' \<Longrightarrow> good v'"
    and good_variant: "m \<noteq> VNone \<Longrightarrow> good v \<Longrightarrow> value_variant m v s = Inr v' \<Longrightarrow> good v'"
    and good_element: "good (ListV l) \<Longrightarrow> v \<in> set (lv_elements l) \<Longrightarrow> good v"
    and good_field: "good (RecordV r) \<Longrightarrow> (n, v) \<in> set (rv_fields r) \<Longrightarrow> good v"
    and good_payload: "good (VariantV m (Some p)) \<Longrightarrow> good (vp_value p)"
    and good_function: "good (FunctionV f) \<longleftrightarrow> (\<forall>(n, v) \<in> set (fn_environment f). good v)"
begin

lemma list_ok: "\<forall>v \<in> set vs. good v \<Longrightarrow> result_ok good (value_list vs s)"
  using good_list [of vs s] container_depth_ok [of vs s]
  by (cases "value_list vs s") (auto simp: value_list_def split: sum.splits)

lemma record_ok: "\<forall>(n, v) \<in> set fs. good v \<Longrightarrow> result_ok good (value_record fs s)"
  using good_record [of fs s] container_depth_ok [of "map snd fs" s]
  by (cases "value_record fs s") (auto simp: value_record_def split: sum.splits)

lemma variant_ok: "n \<noteq> VNone \<Longrightarrow> good v \<Longrightarrow> result_ok good (value_variant n v s)"
  using good_variant [of n v s] container_depth_ok [of "[v]" s]
  by (cases "value_variant n v s") (auto simp: value_variant_def split: sum.splits)

lemma overflow_good: "(\<And>i. r = Some i \<Longrightarrow> in_i64 i) \<Longrightarrow> result_ok good (overflow r m s)"
  using overflow_ok [of r m s] by (auto simp: good_integer elim: result_ok_mono)

lemma checked_operation_ok:
  assumes "\<And>a b c. operation a b = Some c \<Longrightarrow> in_i64 c"
  shows "result_ok good (checked_integer_operation l r s operation)"
  using assms by (auto simp: checked_integer_operation_def kind_pair_ok intro!: overflow_good split: val.splits)

lemma apply_binary_ok:
  assumes "good l" "good r" "operator \<noteq> And" "operator \<noteq> Or"
  shows "flow_ok good good (apply_binary operator l r s)"
proof (cases operator)
  case Divide
  then show ?thesis using integer_pair_ok [of l r s] checked_in_i64(5)
    by (auto simp: apply_binary_def diag_codes intro!: overflow_good split: sum.splits)
next
  case Remainder
  then show ?thesis using integer_pair_ok [of l r s] checked_in_i64(6) assms
    by (auto simp: apply_binary_def diag_codes good_integer intro!: overflow_good split: sum.splits)
next
  case Equal
  then show ?thesis using value_equal_ok [of l r s]
    by (auto simp: apply_binary_def good_boolean elim: result_ok_mono)
next
  case NotEqual
  then show ?thesis using value_equal_ok [of l r s]
    by (auto simp: apply_binary_def good_boolean elim: result_ok_mono)
qed (use assms checked_in_i64 in \<open>auto simp: apply_binary_def kind_pair_ok good_boolean good_string
       intro!: checked_operation_ok overflow_good split: val.splits\<close>)

lemma apply_unary_ok: "result_ok good (apply_unary operator v s)"
  using expect_ok(1) [of v s] expect_ok(2) [of v s] checked_in_i64(4)
  by (auto simp: apply_unary_def good_boolean intro!: overflow_good elim: result_ok_mono
      split: unary_operator.splits sum.splits)

lemma negate_literal_ok: "result_ok good (negate_literal i s)"
  unfolding negate_literal_def by (rule overflow_good) (auto simp: i64_try_Some split: if_splits)

lemma literal_ok: "result_ok good (literal_value l s)"
  by (auto simp: literal_value_def good_boolean good_string i64_try_Some intro!: overflow_good
      split: value_literal.splits)

end

definition env_ok :: "(val \<Rightarrow> bool) \<Rightarrow> environment \<Rightarrow> bool" where
  "env_ok good env \<longleftrightarrow> (\<forall>(n, v) \<in> set env. good v)"

lemma env_ok_simps [simp]:
  "env_ok good []" "env_ok good (env_extend env n v) \<longleftrightarrow> good v \<and> env_ok good env"
  by (simp_all add: env_ok_def env_extend_def)

section \<open>Values taken apart and built\<close>

context value_contract
begin

lemma field_value_ok: "good v \<Longrightarrow> result_ok good (field_value v field s)"
proof (cases v)
  case (RecordV r)
  assume "good v"
  then have "good w" if "find (\<lambda>(name, _). name = field) (rv_fields r) = Some (n, w)" for n w
    using RecordV that good_field [of r n w] by (auto simp: find_Some_iff) (metis nth_mem)
  then show ?thesis by (auto simp: field_value_def RecordV diag_codes split: option.splits)
qed (simp_all add: field_value_def diag_codes)

lemma builtin_value_good: "builtin_value name = Some v \<Longrightarrow> good v"
  by (auto simp: builtin_value_def good_none good_builtin split: if_splits)

lemma variable_ok: "env_ok good env \<Longrightarrow> result_ok good (variable name env s)"
  using builtin_value_good
  by (auto simp: variable_def env_lookup_def env_ok_def diag_codes split: option.splits
      dest!: map_of_SomeD)

lemma closure_good: "env_ok good env \<Longrightarrow> good (closure name ps body env)"
  by (simp add: closure_def good_function env_ok_def)

lemma propagate_ok: "good v \<Longrightarrow> flow_ok good good (propagate v q)"
  by (auto simp: propagate_def diag_codes split: val.splits variant_name.splits option.splits
      dest: good_payload)

lemma bind_payload_ok:
  "good (VariantV n p) \<Longrightarrow> env_ok good env \<Longrightarrow> env_ok good (bind_payload env b p)"
  by (auto simp: bind_payload_def split: option.splits dest: good_payload)

lemma match_pattern_ok:
  "good v \<Longrightarrow> env_ok good env \<Longrightarrow>
     result_ok (\<lambda>r. \<forall>e. r = Some e \<longrightarrow> env_ok good e) (match_pattern p v s env)"
proof (induction p v s env rule: match_pattern.induct)
  case (4 head tail ps v s env)
  show ?case
  proof (cases v)
    case (ListV l)
    then have g: "\<forall>w \<in> set (lv_elements l). good w" using 4 good_element by blast
    then show ?thesis using ListV 4 list_ok [of "tl (lv_elements l)" s]
      by (cases "lv_elements l") (auto split: sum.splits)
  qed (simp_all add: diag_codes)
next
  case (5 variant payload ps v s env)
  then show ?case using good_payload
    by (auto simp: diag_codes no_variant_def split: val.splits option.splits)
qed (auto simp: diag_codes split: val.splits list.splits)

lemma select_arm_ok:
  "good v \<Longrightarrow> env_ok good env \<Longrightarrow>
     result_ok (\<lambda>(e, env'). env_ok good env') (select_match_arm v s arms env)"
proof (induction arms)
  case Nil
  then show ?case by (auto simp: diag_codes)
next
  case (Cons arm arms)
  then show ?case using match_pattern_ok [of v env "ma_pattern arm" s]
    by (auto split: sum.splits option.splits)
qed

lemma url_path_segment_ok: "result_ok good (url_path_segment v s)"
  using expect_ok(3) [of v s]
  by (auto simp: url_path_segment_def good_string intro!: variant_ok split: sum.splits)

lemma query_pair_ok: "good v \<Longrightarrow> result_ok (\<lambda>_. True) (query_pair s v)"
  using field_value_ok [of v "''name''" s] field_value_ok [of v "''value''" s] expect_ok(3)
  by (auto simp: query_pair_def split: sum.splits) (metis result_ok_simps(1))

lemma url_query_ok: "good v \<Longrightarrow> result_ok good (url_query v s)"
proof (cases v)
  case (ListV l)
  assume "good v"
  then have "result_ok (list_all2 (\<lambda>_ _. True) (lv_elements l)) (collect_results (query_pair s) (lv_elements l))"
    using ListV good_element query_pair_ok by (intro collect_results_ok) blast
  then show ?thesis by (auto simp: url_query_def ListV good_string elim: result_ok_mono)
qed (simp_all add: url_query_def diag_codes)

lemma as_i64_in: "as_i64 n = Some i \<Longrightarrow> in_i64 i"
  using sint_ge [of "case n of NegInt w \<Rightarrow> w"] sint_lt [of "case n of NegInt w \<Rightarrow> w"]
  by (cases n) (auto simp: as_i64_def i64_try_Some in_i64_def i64_min_def i64_max_def)

lemma json_to_value_ok: "result_ok good (json_to_value j s)"
proof (induction j s rule: json_to_value.induct)
  case (3 n s)
  then show ?case using as_i64_in by (auto simp: good_integer diag_codes split: option.splits)
next
  case (5 js s)
  then have "result_ok (list_all2 (\<lambda>_. good) js) (collect_results (\<lambda>j. json_to_value j s) js)"
    by (intro collect_results_ok)
  then show ?case by (auto simp: list_all2_conv_all_nth in_set_conv_nth intro!: list_ok split: sum.splits)
next
  case (6 fs s)
  show ?case
  proof (cases "if length fs = 1 then variant_of_tag (fst (hd fs)) else None")
    case None
    have "result_ok (list_all2 (\<lambda>_ (n, v). good v) fs)
        (collect_results (\<lambda>(name, j). map_sum id (Pair name) (json_to_value j s)) fs)"
      using "6.IH"(1) [OF None] by (intro collect_results_ok) auto
    then have "result_ok (\<lambda>vs. \<forall>(n, v) \<in> set vs. good v)
        (collect_results (\<lambda>(name, j). map_sum id (Pair name) (json_to_value j s)) fs)"
      by (rule result_ok_mono) (fastforce simp: list_all2_conv_all_nth in_set_conv_nth)
    then show ?thesis using None by (auto intro!: record_ok split: sum.splits)
  next
    case (Some n)
    then obtain k j where fs: "fs = [(k, j)]"
      by (cases fs) (auto split: if_splits)
    have j: "n \<noteq> VNone \<Longrightarrow> result_ok good (json_to_value j s)"
      using "6.IH"(2-4) Some fs by (cases n) auto
    show ?thesis using Some j fs
      by (cases n) (auto simp: good_none diag_codes intro!: variant_ok split: sum.splits)
  qed
qed (simp_all add: good_unit good_boolean good_string)

lemma json_decode_ok: "result_ok good (json_decode h v s)"
  using json_to_value_ok by (auto simp: json_decode_def diag_codes split: val.splits sum.splits)

end

end
