(* ===== verification/Evaluator_Safety.thy ===== *)
theory Evaluator_Safety
  imports Evaluator_Invariant
begin

text \<open>
  The handlers of the evaluator keep every property of values that meets \<open>value_contract\<close>.  The locale
  \<open>evaluator_level\<close> assumes this of the evaluators one level deeper; the induction over the
  evaluation depth and the interpretation on the model discharge it.
\<close>

locale evaluator_level = value_contract +
  fixes ev :: "nat \<Rightarrow> 'o eval" and bl :: "nat \<Rightarrow> 'o eval_block"
  assumes ev_ok: "env_ok good env \<Longrightarrow> comp_ok good good (ev calls e env)"
    and bl_ok: "env_ok good env \<Longrightarrow> comp_ok good good (bl calls b env)"
begin

lemmas step = comp_ok_andthen [OF ev_ok]

lemma eval_list_ok:
  "env_ok good env \<Longrightarrow>
     comp_ok good (\<lambda>vs. length vs = length es \<and> (\<forall>v \<in> set vs. good v)) (eval_list (ev calls) es env)"
proof (induction es)
  case (Cons e es)
  then show ?case by (auto intro!: step [OF Cons.prems] comp_ok_andthen [OF Cons.IH [OF Cons.prems]])
qed simp

lemma eval_fields_ok:
  "env_ok good env \<Longrightarrow> comp_ok good (\<lambda>vs. \<forall>(n, v) \<in> set vs. good v) (eval_fields (ev calls) fs env)"
proof (induction fs)
  case (Cons f fs)
  then show ?case by (auto intro!: step [OF Cons.prems] comp_ok_andthen [OF Cons.IH [OF Cons.prems]])
qed simp

lemma eval_written_ok:
  "env_ok good env \<Longrightarrow>
     comp_ok good (\<lambda>vs. map fst vs = map cf_name fs \<and> (\<forall>(n, v) \<in> set vs. good v))
       (eval_written (ev calls) fs env)"
proof (induction fs)
  case (Cons f fs)
  then show ?case by (auto intro!: step [OF Cons.prems] comp_ok_andthen [OF Cons.IH [OF Cons.prems]])
qed simp

lemma eval_entries_ok:
  "env_ok good env \<Longrightarrow> comp_ok good (\<lambda>vs. \<forall>v \<in> set vs. good v) (eval_entries (ev calls) es env)"
proof (induction es)
  case (Cons e es)
  have "comp_ok good (\<lambda>vs. \<forall>v \<in> set vs. good v)
      (andthen (lift (value_record [(''name'', a), (''value'', b)] (le_span e))) (\<lambda>r.
         andthen (eval_entries (ev calls) es env) (\<lambda>rs. ret (r # rs))))" if "good a" "good b" for a b
    by (rule comp_ok_andthen [where P = good])
       (use that in \<open>auto intro!: record_ok comp_ok_andthen [OF Cons.IH [OF Cons.prems]]\<close>)
  then show ?case by (auto intro!: step [OF Cons.prems])
qed simp

lemma interpolation_ok:
  "env_ok good env \<Longrightarrow> comp_ok good good (interpolation (ev calls) t ps env)"
proof (induction "ev calls" t ps env rule: interpolation.induct)
  case (3 t e s ps env)
  then show ?case by (auto intro!: step simp: diag_codes split: val.splits)
qed (auto simp: good_string)

lemma let_else_ok:
  "env_ok good env \<Longrightarrow> comp_ok good (env_ok good) (let_else (ev calls) head pat e arm env)"
  unfolding let_else_def
  by (auto simp: Let_def diag_codes bind_payload_ok intro!: step split: val.splits)

lemma statement_ok:
  "env_ok good env \<Longrightarrow> comp_ok good (env_ok good) (eval_statement (ev calls) st env)"
  by (cases "st_kind st")
     (auto simp: eval_statement_def closure_good let_else_ok intro!: step)

lemma statements_ok:
  "env_ok good env \<Longrightarrow> comp_ok good (env_ok good) (eval_statements (ev calls) sts env)"
  by (induction sts arbitrary: env) (auto intro!: comp_ok_andthen [OF statement_ok])

lemma block_contents_ok: "env_ok good env \<Longrightarrow> comp_ok good good (block_contents (ev calls) b env)"
  unfolding block_contents_def
  by (rule comp_ok_andthen [OF statements_ok]) (auto simp: good_unit ev_ok split: option.splits)

lemma construct_fields_ok:
  assumes "\<forall>(n, v) \<in> set written. good v"
    and "\<forall>f \<in> set fs. field_default f = None \<longrightarrow> field_name f \<in> fst ` set written"
  shows "flow_ok good (\<lambda>vs. \<forall>(n, v) \<in> set vs. good v) (construct_fields fs written s)"
  using assms(2)
proof (induction fs)
  case (Cons f fs)
  then have IH: "flow_ok good (\<lambda>vs. \<forall>(n, v) \<in> set vs. good v) (construct_fields fs written s)" by simp
  have m: "good v" if "map_of written (field_name f) = Some v" for v
    using that assms(1) by (auto dest: map_of_SomeD)
  have n: "field_default f \<noteq> None" if "map_of written (field_name f) = None"
    using that Cons.prems by (auto simp: map_of_eq_None_iff)
  have e: "result_ok good (value_list [] s)" by (rule list_ok) simp
  show ?case
  proof (cases "map_of written (field_name f)")
    case None
    then show ?thesis using n e IH
      by (cases "construct_fields fs written s"; cases "value_list [] s")
         (auto simp: good_string to_flow_def flow_ok_def split: field_default.splits)
  next
    case (Some v)
    then show ?thesis using m IH by (cases "construct_fields fs written s") (auto simp: flow_ok_def)
  qed
qed simp

lemma construction_ok:
  assumes env: "env_ok good env"
  shows "comp_ok good good (construction (ev calls) contract cs fs env s)"
proof (cases "check_construction_fields contract cs fs")
  case (Inl d)
  then show ?thesis using check_construction_diag [of contract cs fs]
    by (auto simp: construction_def intro!: comp_ok_andthen [where P = "\<lambda>_. False"])
next
  case (Inr u)
  have need: "\<forall>f \<in> set (contract_fields contract). field_default f = None \<longrightarrow> field_name f \<in> set (map cf_name fs)"
    using Inr check_construction_fields_iff [of contract cs fs] by auto
  have "comp_ok good good (andthen (eval_written (ev calls) fs env) (\<lambda>written.
      andthen (lift_flow (construct_fields (contract_fields contract) written s)) (\<lambda>vs. lift (value_record vs s))))"
  proof (rule comp_ok_andthen [OF eval_written_ok [OF env]])
    fix written assume w: "map fst written = map cf_name fs \<and> (\<forall>(n, v) \<in> set written. good v)"
    have "flow_ok good (\<lambda>vs. \<forall>(n, v) \<in> set vs. good v) (construct_fields (contract_fields contract) written s)"
      using w need by (intro construct_fields_ok) (auto simp flip: set_map)
    then show "comp_ok good good (andthen (lift_flow (construct_fields (contract_fields contract) written s))
        (\<lambda>vs. lift (value_record vs s)))"
      by (intro comp_ok_andthen [where P = "\<lambda>vs. \<forall>(n, v) \<in> set vs. good v"]) (simp_all add: record_ok)
  qed
  then show ?thesis using Inr by (auto simp: construction_def intro!: comp_ok_andthen [where P = "\<lambda>_. True"])
qed

lemma match_expression_ok:
  "env_ok good env \<Longrightarrow> comp_ok good good (match_expression (ev calls) subject arms env)"
  unfolding match_expression_def
proof (rule step, assumption)
  fix v assume "env_ok good env" "good v"
  then have "result_ok (\<lambda>(e, env'). env_ok good env') (select_match_arm v (ex_span subject) arms env)"
    using select_arm_ok by blast
  then show "comp_ok good good (andthen (lift (select_match_arm v (ex_span subject) arms env))
      (\<lambda>(arm, arm_env). ev calls arm arm_env))"
    by (intro comp_ok_andthen [where P = "\<lambda>(e, env'). env_ok good env'"]) (auto intro: ev_ok)
qed

lemma expect_boolean_then:
  "(\<And>b. comp_ok good P (f b)) \<Longrightarrow> comp_ok good P (andthen (lift (expect_boolean v s)) f)"
  by (rule comp_ok_andthen [where P = "\<lambda>_. True"]) (simp_all add: expect_ok)

lemma if_chain_ok:
  "env_ok good env \<Longrightarrow> comp_ok good good (if_chain (ev calls) (bl calls) e env)"
  by (induction "ev calls" "bl calls" e env rule: if_chain.induct)
     (auto intro!: step expect_boolean_then intro: bl_ok ev_ok)

lemma eval_binary_ok:
  "env_ok good env \<Longrightarrow> good l \<Longrightarrow> comp_ok good good (eval_binary (ev calls) operator l r env s)"
  by (auto simp: eval_binary_def good_boolean apply_binary_ok intro!: step expect_boolean_then)

lemma binary_spine_nodes:
  "binary_spine nodes e = (start, spine) \<Longrightarrow>
     \<forall>n \<in> set nodes. \<exists>l op r. ex_kind n = Binary l op r \<Longrightarrow> \<forall>n \<in> set spine. \<exists>l op r. ex_kind n = Binary l op r"
  by (induction nodes e rule: binary_spine.induct) auto

lemma binary_nodes_ok:
  "env_ok good env \<Longrightarrow> good v \<Longrightarrow> \<forall>n \<in> set nodes. \<exists>l op r. ex_kind n = Binary l op r \<Longrightarrow>
     comp_ok good good (binary_nodes (ev calls) v nodes env)"
proof (induction nodes arbitrary: v)
  case (Cons n nodes)
  then obtain l op r where "ex_kind n = Binary l op r" by auto
  then show ?case using Cons by (auto intro!: comp_ok_andthen [OF eval_binary_ok])
qed simp

lemma binary_chain_ok: "env_ok good env \<Longrightarrow> comp_ok good good (binary_chain (ev calls) e env)"
proof -
  assume env: "env_ok good env"
  obtain start spine where s: "binary_spine [] e = (start, spine)" by fastforce
  then have "\<forall>n \<in> set (rev spine). \<exists>l op r. ex_kind n = Binary l op r"
    using binary_spine_nodes [OF s] by simp
  then show ?thesis using env s by (auto simp: binary_chain_def intro!: step binary_nodes_ok)
qed

lemma eval_unary_ok:
  "env_ok good env \<Longrightarrow> comp_ok good good (eval_unary (ev calls) operator operand env s)"
  by (auto simp: eval_unary_def negate_literal_ok apply_unary_ok intro!: step
      split: unary_operator.splits expression_kind.splits value_literal.splits)

lemma write_output_ok: "comp_ok good (\<lambda>_. True) (write_output h t s)"
  by (auto simp: comp_ok_def write_output_def output_error_def diag_codes split: prod.splits option.splits)

lemma expect_string_then:
  "(\<And>t. comp_ok good P (f t)) \<Longrightarrow> comp_ok good P (andthen (lift (expect_string v s)) f)"
  by (rule comp_ok_andthen [where P = "\<lambda>_. True"]) (simp_all add: expect_ok)

lemma write_output_then:
  "comp_ok good P (f ()) \<Longrightarrow> comp_ok good P (andthen (write_output h t s) f)"
  by (rule comp_ok_andthen [OF write_output_ok]) simp

lemma argument_ok:
  assumes "vs \<noteq> []" "\<forall>v \<in> set vs. good v"
    and "\<And>v rest. vs = v # rest \<Longrightarrow> good v \<Longrightarrow> comp_ok good P (k v rest)"
  shows "comp_ok good P (argument vs k)"
  using assms by (cases vs) (auto simp: argument_def)

lemma apply_builtin_ok:
  assumes "unavailable_builtin_message b = None" "length vs = builtin_arity b" "\<forall>v \<in> set vs. good v"
  shows "comp_ok good good (apply_builtin h b vs s)"
proof -
  have ne: "vs \<noteq> []" using assms(2) by (auto simp: builtin_arity_def split: if_splits)
  note arg = argument_ok [OF ne assms(3)]
  have int: "result_ok good (map_sum id (\<lambda>i. StringV (show_int i)) (expect_integer v s))" for v
    using expect_ok(2) [of v s] by (auto simp: good_string elim: result_ok_mono)
  have empty: "result_ok good (map_sum id (\<lambda>t. BooleanV (t = [])) (expect_string v s))" for v
    using expect_ok(3) [of v s] by (auto simp: good_boolean elim: result_ok_mono)
  have json: "result_ok good (json_encode h v s)" for v
    using json_encode_ok [of h v s] by (auto simp: good_string elim: result_ok_mono)
  have len: "result_ok good (overflow (i64_try n) m s)" for n m
    by (rule overflow_good) (simp add: i64_try_Some)
  consider "b \<in> {Print, Println, SomeFn, OkFn, ErrFn}" | "b \<in> {JsonEncode, JsonDecode, IntToString}"
    | "b \<in> {UrlPathSegment, UrlQuery, StringByteLen, StringIsEmpty}"
    | "b \<in> {StringContains, StringStartsWith, StringEndsWith}"
    using assms(1) by (cases b) (simp_all add: unavailable_builtin_message_def)
  then show ?thesis
  proof cases
    case 1
    then show ?thesis
      by (elim insertE) (auto simp: apply_builtin_def good_unit intro!: arg write_output_then variant_ok)
  next
    case 2
    then show ?thesis using int json
      by (elim insertE) (auto simp: apply_builtin_def json_decode_ok intro!: arg)
  next
    case 3
    then show ?thesis using empty len
      by (elim insertE)
         (auto simp: apply_builtin_def url_path_segment_ok url_query_ok intro!: arg expect_string_then)
  next
    case 4
    then have "length vs = 2" using assms(2) by (auto simp: builtin_arity_def)
    then obtain x y where vs: "vs = [x, y]" by (auto simp: numeral_2_eq_2 length_Suc_conv)
    show ?thesis using 4 by (elim insertE)
      (auto simp: apply_builtin_def vs argument_def good_boolean intro!: expect_string_then)
  qed
qed

lemma call_builtin_ok:
  assumes "env_ok good env"
  shows "comp_ok good good (call_builtin h (ev calls) b arguments env s)"
  unfolding call_builtin_def
  by (auto simp: arity_error_def diag_codes apply_builtin_ok split: option.splits
      intro!: comp_ok_andthen [OF eval_list_ok [OF assms]])

lemma catch_exit_ok: "comp_ok good good m \<Longrightarrow> comp_ok good good (catch_exit m)"
proof -
  assume m: "comp_ok good good m"
  have "flow_ok good good (snd (catch_exit m out))" for out
  proof -
    have "flow_ok good good (snd (m out))" using m by (simp add: comp_ok_def)
    then show ?thesis by (auto simp: catch_exit_def split: prod.splits sum.splits interrupt.splits)
  qed
  then show ?thesis by (simp add: comp_ok_def)
qed

lemma parameters_ok:
  "env_ok good env \<Longrightarrow> \<forall>v \<in> set vs. good v \<Longrightarrow>
     env_ok good (foldl (\<lambda>e (p, v). env_extend e p v) env (zip ps vs))"
proof (induction vs arbitrary: env ps)
  case (Cons v vs)
  then show ?case by (cases ps) auto
qed simp

lemma call_function_ok:
  assumes "env_ok good env" "good (FunctionV f)"
  shows "comp_ok good good (call_function (ev calls) bl calls f arguments env s)"
proof -
  have f: "env_ok good (fn_environment f)" using assms(2) by (simp add: good_function env_ok_def)
  have c: "comp_ok good good (catch_exit (bl n b (foldl (\<lambda>e (p, v). env_extend e p v) env' (zip ps vs))))"
    if "env_ok good env'" "\<forall>v \<in> set vs. good v" for n b env' ps vs
    by (intro catch_exit_ok bl_ok parameters_ok that)
  show ?thesis unfolding call_function_def
    by (auto simp: arity_error_def diag_codes Let_def f assms(2) split: option.splits
        intro!: comp_ok_andthen [OF eval_list_ok [OF assms(1)]] c)
qed

lemma call_ok:
  "env_ok good env \<Longrightarrow> comp_ok good good (call h (ev calls) bl calls callee arguments env s)"
  unfolding call_def
  by (auto simp: not_callable_def diag_codes call_function_ok call_builtin_ok intro!: step split: val.splits)

lemma contents_ok:
  assumes env: "env_ok good env"
  shows "comp_ok good good (expression_contents h ev bl calls e env)"
proof (cases "ex_kind e")
  case (ListExpr es)
  then show ?thesis
    by (auto simp: expression_contents_def list_ok intro!: comp_ok_andthen [OF eval_list_ok [OF env]])
next
  case (EntryList es)
  then show ?thesis
    by (auto simp: expression_contents_def list_ok intro!: comp_ok_andthen [OF eval_entries_ok [OF env]])
next
  case (RecordExpr fs)
  then show ?thesis
    by (auto simp: expression_contents_def record_ok intro!: comp_ok_andthen [OF eval_fields_ok [OF env]])
qed (use env in \<open>auto simp: expression_contents_def literal_ok interpolation_ok good_unit variable_ok
       construction_ok field_value_ok bl_ok if_chain_ok closure_good call_ok propagate_ok
       match_expression_ok eval_unary_ok binary_chain_ok intro!: step\<close>)

end

text \<open>By induction on the depth still allowed, the evaluator keeps every such property.\<close>

lemma evaluator_level_all:
  assumes "value_contract good"
  shows "evaluator_level good (expression h n) (eval_block h n)"
proof (induction n)
  case 0
  show ?case using assms
    by (auto simp: evaluator_level_def evaluator_level_axioms_def depth_error_def diag_codes)
next
  case (Suc n)
  show ?case using assms evaluator_level.contents_ok [OF Suc] evaluator_level.block_contents_ok [OF Suc]
    by (auto simp: evaluator_level_def evaluator_level_axioms_def)
qed

section \<open>The values of the evaluator\<close>

text \<open>
  What the representation promises: integers are 64-bit, the recorded depth of a container is its
  nesting depth and within the limit, \<open>None\<close> is the variant without payload, and so for the captured
  environments of functions.
\<close>

function nesting :: "val \<Rightarrow> nat" where
  "nesting v =
     (case v of
        ListV l \<Rightarrow> Suc (Max (insert 0 (nesting ` set (lv_elements l))))
      | RecordV r \<Rightarrow> Suc (Max (insert 0 ((\<lambda>(n, w). nesting w) ` set (rv_fields r))))
      | VariantV _ (Some p) \<Rightarrow> Suc (nesting (vp_value p))
      | VariantV _ None \<Rightarrow> 1
      | _ \<Rightarrow> 0)"
  by pat_completeness auto
termination by (relation "measure size") (auto intro!: size_parts)

declare nesting.simps [simp del]

inductive value_ok :: "val \<Rightarrow> bool" where
  ok_integer: "in_i64 i \<Longrightarrow> value_ok (IntegerV i)"
| ok_boolean: "value_ok (BooleanV b)"
| ok_string: "value_ok (StringV t)"
| ok_unit: "value_ok UnitV"
| ok_list: "\<forall>v \<in> set (lv_elements l). value_ok v \<Longrightarrow> lv_depth l = 1 + max_depth (lv_elements l) \<Longrightarrow>
     lv_depth l \<le> MAX_VALUE_DEPTH \<Longrightarrow> value_ok (ListV l)"
| ok_record: "\<forall>n v. (n, v) \<in> set (rv_fields r) \<longrightarrow> value_ok v \<Longrightarrow>
     rv_depth r = 1 + max_depth (map snd (rv_fields r)) \<Longrightarrow> rv_depth r \<le> MAX_VALUE_DEPTH \<Longrightarrow>
     value_ok (RecordV r)"
| ok_none: "value_ok (VariantV VNone None)"
| ok_variant: "n \<noteq> VNone \<Longrightarrow> value_ok (vp_value p) \<Longrightarrow> vp_depth p = 1 + value_depth (vp_value p) \<Longrightarrow>
     vp_depth p \<le> MAX_VALUE_DEPTH \<Longrightarrow> value_ok (VariantV n (Some p))"
| ok_function: "\<forall>n v. (n, v) \<in> set (fn_environment f) \<longrightarrow> value_ok v \<Longrightarrow> value_ok (FunctionV f)"
| ok_builtin: "value_ok (BuiltinV b)"

inductive_simps value_ok_simps:
  "value_ok (IntegerV i)" "value_ok (BooleanV b)" "value_ok (StringV t)" "value_ok UnitV"
  "value_ok (ListV l)" "value_ok (RecordV r)" "value_ok (VariantV n p)" "value_ok (FunctionV f)"
  "value_ok (BuiltinV b)"

interpretation vals: value_contract value_ok
proof
  fix vs v' s
  assume "\<forall>v \<in> set vs. value_ok v" "value_list vs s = Inr v'"
  then show "value_ok v'" using container_depth_ok [of vs s]
    by (auto simp: value_list_def value_ok_simps split: sum.splits)
next
  fix fs :: "(str \<times> val) list" and v' s
  assume "\<forall>(n, v) \<in> set fs. value_ok v" "value_record fs s = Inr v'"
  then show "value_ok v'" using container_depth_ok [of "map snd fs" s]
    by (auto simp: value_record_def value_ok_simps split: sum.splits)
next
  fix m v v' s
  assume "m \<noteq> VNone" "value_ok v" "value_variant m v s = Inr v'"
  then show "value_ok v'" using container_depth_ok [of "[v]" s]
    by (auto simp: value_variant_def value_ok_simps split: sum.splits)
qed (auto simp: value_ok_simps)

interpretation run: evaluator_level value_ok "expression h n" "eval_block h n" for h n
  using vals.value_contract_axioms by (rule evaluator_level_all)

end
