(* ===== verification/Pattern_Rules.thy ===== *)
theory Pattern_Rules
  imports Patterns
begin

text \<open>
  Correctness of the arm rules: arms that \<open>check_arms\<close> accepts have pairwise disjoint paths with one
  family at each position, and \<open>missing\<close> lists exactly the outcomes they leave out, so arms that
  \<open>check_exhaustive\<close> accepts too cover every outcome exactly once.
\<close>

section \<open>Links of a path\<close>

text \<open>A link of a path is a proper prefix with the constructor that continues it.\<close>

definition links :: "'c list \<Rightarrow> ('c list \<times> 'c) list" where
  "links p = map (\<lambda>n. (take n p, p ! n)) [0..<length p]"

lemma links_set: "(q, c) \<in> set (links p) \<longleftrightarrow> prefix (q @ [c]) p"
proof
  assume "(q, c) \<in> set (links p)"
  then obtain n where "n < length p" "q = take n p" "c = p ! n" by (auto simp: links_def)
  then show "prefix (q @ [c]) p" by (metis take_Suc_conv_app_nth take_is_prefix)
next
  assume "prefix (q @ [c]) p"
  then obtain r where "p = q @ c # r" by (auto simp: prefix_def)
  then show "(q, c) \<in> set (links p)"
    by (auto simp: links_def image_def intro!: bexI [of _ "length q"])
qed

lemma foldl_concat: "foldl (foldl f) a xss = foldl f a (concat xss)"
  by (induction xss arbitrary: a) simp_all

lemma foldl_or_insert:
  assumes "om_ok m"
  shows "om_ok (foldl (\<lambda>m (k, v). om_or_insert k v m) m kvs)"
    "om_get (foldl (\<lambda>m (k, v). om_or_insert k v m) m kvs) k =
       (case om_get m k of Some v \<Rightarrow> Some v | None \<Rightarrow> map_of kvs k)"
  using assms
  by (induction kvs arbitrary: m) (auto simp: om_or_insert_laws split: option.splits)

lemma note_families_eq:
  "note_families arm own fs =
     foldl (\<lambda>m (k, v). om_or_insert k v m) fs
       (map (\<lambda>(q, c). (q, constructor_family c, arm)) (links own))"
  by (simp add: note_families_def links_def foldl_map case_prod_beta)

definition note_links ::
  "(constructor list \<times> constructor) list \<Rightarrow> (constructor list, family) omap" where
  "note_links ls = foldl (\<lambda>m (k, v). om_or_insert k v m) [] (map (\<lambda>(q, c). (q, constructor_family c)) ls)"

lemma note_paths_eq:
  "foldl note_path ([], {}) paths =
     (note_links (concat (map links paths)), {q @ [c] | q c. \<exists>p \<in> set paths. prefix (q @ [c]) p})"
proof -
  define step where "step = (\<lambda>(m, s) (q, c).
      (om_or_insert q (constructor_family c) m, insert (q @ [c]) s) :: (constructor list, family) omap \<times> constructor list set)"
  have np: "note_path acc p = foldl step acc (links p)" for acc p
  proof -
    have "foldl (\<lambda>(prefixes, continued) n.
        (om_or_insert (take n p) (constructor_family (p ! n)) prefixes,
         insert (take (Suc n) p) continued)) acc xs = foldl step acc (map (\<lambda>n. (take n p, p ! n)) xs)"
      if "set xs \<subseteq> {0..<length p}" for xs
      using that by (induction xs arbitrary: acc)
        (auto simp: step_def take_Suc_conv_app_nth split: prod.splits)
    then show ?thesis by (simp add: note_path_def links_def)
  qed
  have st: "foldl step (m, s) ls = (foldl (\<lambda>m (k, v). om_or_insert k v m) m
      (map (\<lambda>(q, c). (q, constructor_family c)) ls), s \<union> {q @ [c] | q c. (q, c) \<in> set ls})" for m s ls
    by (induction ls arbitrary: m s) (auto simp: step_def)
  have "foldl note_path a ps = foldl step a (concat (map links ps))" for a ps
    by (induction ps arbitrary: a) (simp_all add: np)
  then show ?thesis by (simp add: st note_links_def links_set [symmetric])
qed

section \<open>Missing outcomes\<close>

definition consistent :: "constructor list list \<Rightarrow> bool" where
  "consistent paths \<longleftrightarrow>
     (\<forall>p \<in> set paths. \<forall>p' \<in> set paths. \<forall>q c c'. prefix (q @ [c]) p \<and> prefix (q @ [c']) p' \<longrightarrow>
        constructor_family c = constructor_family c')"

lemma family_constructors_set: "c \<in> set (family_constructors f) \<longleftrightarrow> constructor_family c = f"
  by (cases c; cases f) (simp_all add: family_constructors_def constructor_family_def)

lemma note_links_get:
  assumes "consistent paths"
  shows "om_get (note_links (concat (map links paths))) q = Some f \<longleftrightarrow>
    (\<exists>p \<in> set paths. \<exists>c. prefix (q @ [c]) p \<and> constructor_family c = f)"
proof -
  let ?ls = "concat (map links paths)"
  have l: "(q, c) \<in> set ?ls \<longleftrightarrow> (\<exists>p \<in> set paths. prefix (q @ [c]) p)" for q c
    by (auto simp: links_set)
  have g: "om_get (note_links ?ls) q = map_of (map (\<lambda>(q, c). (q, constructor_family c)) ?ls) q"
    by (simp add: note_links_def foldl_or_insert)
  show ?thesis
  proof
    assume "om_get (note_links ?ls) q = Some f"
    then have "(q, f) \<in> set (map (\<lambda>(q, c). (q, constructor_family c)) ?ls)"
      unfolding g by (rule map_of_SomeD)
    then show "\<exists>p \<in> set paths. \<exists>c. prefix (q @ [c]) p \<and> constructor_family c = f"
      using l by fastforce
  next
    assume "\<exists>p \<in> set paths. \<exists>c. prefix (q @ [c]) p \<and> constructor_family c = f"
    then obtain p c where p: "p \<in> set paths" "prefix (q @ [c]) p" "constructor_family c = f" by blast
    then have "(q, c) \<in> set ?ls" using l by blast
    then have "map_of (map (\<lambda>(q, c). (q, constructor_family c)) ?ls) q \<noteq> None"
      unfolding map_of_eq_None_iff by force
    then obtain f' where f': "map_of (map (\<lambda>(q, c). (q, constructor_family c)) ?ls) q = Some f'" by blast
    then have "(q, f') \<in> set (map (\<lambda>(q, c). (q, constructor_family c)) ?ls)" by (rule map_of_SomeD)
    then obtain c' p' where "p' \<in> set paths" "prefix (q @ [c']) p'" "constructor_family c' = f'"
      using l by fastforce
    then have "f' = f" using assms p unfolding consistent_def by blast
    then show "om_get (note_links ?ls) q = Some f" using f' g by simp
  qed
qed

lemma missing_set:
  assumes "consistent paths"
  shows "r \<in> set (missing paths) \<longleftrightarrow>
    (\<exists>q c c'. r = q @ [c'] \<and> (\<exists>p \<in> set paths. prefix (q @ [c]) p) \<and>
       constructor_family c' = constructor_family c \<and> (\<forall>p \<in> set paths. \<not> prefix r p))"
proof -
  let ?m = "note_links (concat (map links paths))"
  have ok: "om_ok ?m" by (simp add: note_links_def foldl_or_insert)
  have "r \<in> set (missing paths) \<longleftrightarrow>
    (\<exists>q f c'. (q, f) \<in> set ?m \<and> r = q @ [c'] \<and> constructor_family c' = f \<and>
       \<not> (\<exists>p \<in> set paths. prefix (q @ [c']) p))"
    unfolding missing_def note_paths_eq by (fastforce simp: family_constructors_set)
  also have "\<dots> \<longleftrightarrow> (\<exists>q c c'. r = q @ [c'] \<and> (\<exists>p \<in> set paths. prefix (q @ [c]) p) \<and>
       constructor_family c' = constructor_family c \<and> (\<forall>p \<in> set paths. \<not> prefix r p))"
    unfolding om_get_set [OF ok, symmetric] note_links_get [OF assms] by blast
  finally show ?thesis .
qed

section \<open>Accepted arms\<close>

text \<open>Arms overlap exactly when one path is a prefix of the other.\<close>

definition apart :: "constructor list \<Rightarrow> constructor list \<Rightarrow> bool" where
  "apart p q \<longleftrightarrow> \<not> prefix p q \<and> \<not> prefix q p"

definition arms_noted ::
  "constructor list list \<Rightarrow> 'e ends \<Rightarrow> 'e families \<Rightarrow> bool" where
  "arms_noted ps ends families \<longleftrightarrow>
     om_ok ends \<and> om_ok families \<and> fst ` set ends = set ps \<and>
     (\<forall>p \<in> set ps. \<forall>q c. prefix (q @ [c]) p \<longrightarrow>
        (\<exists>arm. om_get families q = Some (constructor_family c, arm))) \<and>
     (\<forall>q f arm. om_get families q = Some (f, arm) \<longrightarrow>
        (\<exists>p \<in> set ps. \<exists>c. prefix (q @ [c]) p \<and> constructor_family c = f))"

lemma arms_noted_consistent: "arms_noted ps ends families \<Longrightarrow> consistent ps"
  unfolding arms_noted_def consistent_def by (metis option.inject prod.inject)

lemma om_get_keys: "om_get m k \<noteq> None \<longleftrightarrow> k \<in> fst ` set m"
  by (simp add: om_get_def map_of_eq_None_iff)

lemma first_error_None: "first_error ds = None \<longleftrightarrow> (\<forall>d \<in> set ds. d = None)"
  by (induction ds) (auto simp: first_error_def)

lemma min_by_None: "min_by f xs = None \<longleftrightarrow> xs = []"
  by (cases xs) (auto split: option.splits)

lemma overlap_error_None: "overlap_error ends arm own = None \<longleftrightarrow> narrower_of ends own = []"
  using min_by_None [of "\<lambda>(_, position, _). position" "narrower_of ends own"]
  by (auto simp: overlap_error_def Let_def split: option.splits)

text \<open>The extensions of a path follow it directly in lexicographic order.\<close>

lemma extension_range:
  fixes own :: "'a::linorder list"
  shows "own < k1 \<Longrightarrow> k1 \<le> k2 \<Longrightarrow> prefix own k2 \<Longrightarrow> prefix own k1"
proof (induction own arbitrary: k1 k2)
  case (Cons x xs)
  obtain k2' where k2: "k2 = x # k2'" "prefix xs k2'" using Cons.prems(3) by (cases k2) auto
  obtain y k1' where k1: "k1 = y # k1'" using Cons.prems(1) by (cases k1) auto
  have "y = x" "k1' \<le> k2'" "xs < k1'" using Cons.prems(1,2) unfolding k1 k2(1) by auto
  then show ?case using Cons.IH k2(2) by (auto simp: k1)
qed simp

lemma strict_prefix_less:
  fixes own :: "'a::linorder list"
  shows "strict_prefix own k \<Longrightarrow> own < k"
proof (induction own arbitrary: k)
  case Nil
  then show ?case by (cases k) auto
next
  case (Cons x xs)
  then show ?case by (cases k) auto
qed

lemma narrower_empty:
  assumes ok: "om_ok ends" and n: "narrower_of ends own = []" and k: "k \<in> fst ` set ends"
  shows "\<not> strict_prefix own k"
proof
  assume s: "strict_prefix own k"
  let ?above = "filter (\<lambda>(other, _). own < other) ends"
  have less: "own < k" and pre: "prefix own k" using s strict_prefix_less by auto
  then have "k \<in> fst ` set ?above" using k by force
  then obtain kv rest where f: "?above = kv # rest" by (cases ?above) auto
  have "sorted_wrt (<) (map fst ?above)"
    using ok unfolding om_ok_def sorted_wrt_map by (rule sorted_wrt_filter)
  then have "fst kv \<le> k" using \<open>k \<in> fst ` set ?above\<close> unfolding f by (auto intro: less_imp_le)
  moreover have "kv \<in> set ?above" using f by simp
  then have "own < fst kv" by auto
  ultimately have "prefix own (fst kv)" using extension_range pre by blast
  then show False using n f by (simp add: narrower_of_def case_prod_beta)
qed

lemma check_depth_None:
  "check_depth ends families arm steps depth = None \<longleftrightarrow>
     om_get ends (take depth (constructors steps)) = None \<and>
     (depth < length (constructors steps) \<longrightarrow>
        (\<forall>f other. om_get families (take depth (constructors steps)) = Some (f, other) \<longrightarrow>
           f = constructor_family (constructors steps ! depth)))"
  by (auto simp: check_depth_def Let_def split: option.splits)

lemma check_depths_None:
  assumes ok: "arms_noted ps ends families"
    and c: "first_error (map (check_depth ends families arm steps)
        [0..<Suc (length (constructors steps))]) = None"
  shows "\<forall>p \<in> set ps. \<not> prefix p (constructors steps)"
    "prefix (q @ [c]) (constructors steps) \<Longrightarrow> om_get families q = Some (f, other) \<Longrightarrow>
       f = constructor_family c"
proof -
  let ?own = "constructors steps"
  have d: "check_depth ends families arm steps n = None" if "n \<le> length ?own" for n
    using c that by (auto simp: first_error_None)
  show "\<forall>p \<in> set ps. \<not> prefix p ?own"
  proof (intro ballI notI)
    fix p assume p: "p \<in> set ps" "prefix p ?own"
    then have "length p \<le> length ?own" "take (length p) ?own = p" by (auto simp: prefix_def)
    then have "om_get ends p = None" using d [of "length p"] by (simp add: check_depth_None)
    then show False using om_get_keys [of ends p] ok p(1) by (simp add: arms_noted_def)
  qed
  assume "prefix (q @ [c]) ?own" and f: "om_get families q = Some (f, other)"
  then obtain r where r: "?own = q @ c # r" by (auto simp: prefix_def)
  show "f = constructor_family c"
    using d [of "length q"] f by (auto simp: check_depth_None r)
qed

lemma note_families_get:
  assumes "om_ok families"
  shows "om_ok (note_families arm own families)"
    "om_get families q = Some x \<Longrightarrow> om_get (note_families arm own families) q = Some x"
    "om_get families q = None \<Longrightarrow> prefix (q @ [c]) own \<Longrightarrow>
       om_get (note_families arm own families) q = Some (constructor_family c, arm)"
proof -
  show "om_ok (note_families arm own families)"
    "om_get families q = Some x \<Longrightarrow> om_get (note_families arm own families) q = Some x"
    unfolding note_families_eq by (simp_all add: foldl_or_insert assms)
  assume n: "om_get families q = None" and p: "prefix (q @ [c]) own"
  have u: "c' = c" if "prefix (q @ [c']) own" for c' using that p by (auto simp: prefix_def)
  let ?kvs = "map (\<lambda>(q, c). (q, constructor_family c, arm)) (links own)"
  have "(q, constructor_family c, arm) \<in> set ?kvs" using p by (force simp: links_set)
  then have "q \<in> fst ` set ?kvs" by force
  then obtain v where v: "map_of ?kvs q = Some v"
    by (cases "map_of ?kvs q") (simp_all add: map_of_eq_None_iff)
  then have "(q, v) \<in> set ?kvs" by (rule map_of_SomeD)
  then have "v = (constructor_family c, arm)" using u by (auto simp: links_set)
  then show "om_get (note_families arm own families) q = Some (constructor_family c, arm)"
    unfolding note_families_eq using v n by (simp add: foldl_or_insert assms)
qed

lemma note_families_origin:
  assumes "om_ok families" "om_get (note_families arm own families) q = Some (f, a)"
  shows "om_get families q = Some (f, a) \<or> (\<exists>c. prefix (q @ [c]) own \<and> constructor_family c = f)"
proof (cases "om_get families q")
  case None
  then have "map_of (map (\<lambda>(q, c). (q, constructor_family c, arm)) (links own)) q = Some (f, a)"
    using assms by (simp add: note_families_eq foldl_or_insert)
  then have "(q, f, a) \<in> set (map (\<lambda>(q, c). (q, constructor_family c, arm)) (links own))"
    by (rule map_of_SomeD)
  then show ?thesis by (auto simp: links_set)
next
  case (Some x)
  then show ?thesis using note_families_get(2) [OF assms(1) Some] assms(2) by simp
qed

lemma arms_noted_step:
  assumes ok: "arms_noted ps ends families"
    and d: "\<And>q c f other. prefix (q @ [c]) own \<Longrightarrow> om_get families q = Some (f, other) \<Longrightarrow>
       f = constructor_family c"
  shows "arms_noted (ps @ [own]) (om_insert own (index, arm) ends) (note_families arm own families)"
proof -
  have o: "om_ok ends" "om_ok families" "fst ` set ends = set ps" using ok by (auto simp: arms_noted_def)
  have fam: "\<exists>a. om_get families q = Some (constructor_family c, a)"
    if "p \<in> set ps" "prefix (q @ [c]) p" for p q c
    using ok that unfolding arms_noted_def by blast
  have "\<exists>a. om_get (note_families arm own families) q = Some (constructor_family c, a)"
    if "p \<in> set (ps @ [own])" "prefix (q @ [c]) p" for p q c
  proof (cases "om_get families q")
    case None
    then have "p = own" using that fam [of p q c] by (cases "p = own") auto
    then show ?thesis using note_families_get(3) [OF o(2) None] that(2) by blast
  next
    case (Some fa)
    then have "fst fa = constructor_family c"
      using that fam [of p q c] d [of q c "fst fa" "snd fa"] by (cases "p = own") auto
    then show ?thesis using note_families_get(2) [OF o(2) Some] by (metis prod.collapse)
  qed
  moreover have "\<exists>p \<in> set (ps @ [own]). \<exists>c. prefix (q @ [c]) p \<and> constructor_family c = f"
    if "om_get (note_families arm own families) q = Some (f, a)" for q f a
    using note_families_origin [OF o(2) that] ok unfolding arms_noted_def by fastforce
  ultimately show ?thesis using o note_families_get(1) [OF o(2)]
    unfolding arms_noted_def by (simp add: om.ok_ins om_insert_keys)
qed

lemma check_depths_accept:
  assumes ok: "arms_noted ps ends families" and a: "\<forall>p \<in> set ps. \<not> prefix p (constructors steps)"
    and c: "consistent (ps @ [constructors steps])"
  shows "first_error (map (check_depth ends families arm steps)
      [0..<Suc (length (constructors steps))]) = None"
proof -
  let ?own = "constructors steps"
  have "check_depth ends families arm steps n = None" if n: "n \<le> length ?own" for n
  proof -
    have "take n ?own \<notin> set ps" using a take_is_prefix by blast
    then have "om_get ends (take n ?own) = None"
      using om_get_keys [of ends "take n ?own"] ok unfolding arms_noted_def by blast
    moreover have "f = constructor_family (?own ! n)"
      if l: "n < length ?own" and g: "om_get families (take n ?own) = Some (f, other)" for f other
    proof -
      obtain p c where "p \<in> set ps" "prefix (take n ?own @ [c]) p" "constructor_family c = f"
        using ok g unfolding arms_noted_def by blast
      moreover have "prefix (take n ?own @ [?own ! n]) ?own"
        using l by (metis take_Suc_conv_app_nth take_is_prefix)
      ultimately show ?thesis using c unfolding consistent_def by (metis in_set_conv_decomp Un_iff set_append)
    qed
    ultimately show ?thesis by (simp add: check_depth_None)
  qed
  then show ?thesis by (auto simp: first_error_None)
qed

lemma narrower_nonempty:
  assumes "narrower_of ends own \<noteq> []"
  shows "\<exists>k \<in> fst ` set ends. strict_prefix own k"
proof -
  obtain kv where kv: "kv \<in> set (narrower_of ends own)"
    using assms by (cases "narrower_of ends own") auto
  then have "prefix own (fst kv)" unfolding narrower_of_def by (auto dest: set_takeWhileD)
  moreover have "kv \<in> set ends" "own < fst kv" using kv unfolding narrower_of_def
    by (auto dest!: set_takeWhileD)
  ultimately show ?thesis by (auto simp: strict_prefix_def)
qed

text \<open>One arm passes its checks exactly when it is apart from the earlier ones and agrees with their
  families.\<close>

lemma arm_checks:
  assumes ok: "arms_noted ps ends families"
  shows "first_error (map (check_depth ends families arm steps) [0..<Suc (length (constructors steps))]) = None \<and>
      overlap_error ends arm (constructors steps) = None \<longleftrightarrow>
    (\<forall>p \<in> set ps. apart p (constructors steps)) \<and> consistent (ps @ [constructors steps])"
    (is "?d \<and> ?o \<longleftrightarrow> ?a \<and> ?c")
proof
  have e: "om_ok ends" "fst ` set ends = set ps" using ok by (auto simp: arms_noted_def)
  assume do: "?d \<and> ?o"
  note d = check_depths_None [OF ok conjunct1 [OF do]]
  have "\<not> strict_prefix (constructors steps) p" if "p \<in> set ps" for p
    using narrower_empty [OF e(1)] do that e(2) by (auto simp: overlap_error_None)
  then have "?a" using d(1) by (auto simp: apart_def strict_prefix_def)
  moreover have "?c"
    by (rule arms_noted_consistent [OF arms_noted_step [OF ok, where index = 0 and arm = arm]])
       (rule d(2))
  ultimately show "?a \<and> ?c" by simp
next
  have e: "fst ` set ends = set ps" using ok by (auto simp: arms_noted_def)
  assume ac: "?a \<and> ?c"
  then have "?d" using check_depths_accept [OF ok] by (auto simp: apart_def)
  moreover have "?o" using ac narrower_nonempty [of ends "constructors steps"] e
    by (auto simp: overlap_error_None apart_def strict_prefix_def)
  ultimately show "?d \<and> ?o" by simp
qed

definition arm_path :: "'e match_arm \<Rightarrow> constructor list" where
  "arm_path arm = cpath (ma_pattern arm)"

definition named_arms :: "'e match_arm list \<Rightarrow> 'e match_arm list" where
  "named_arms arms = filter (\<lambda>arm. \<not> is_catch_all (ma_pattern arm)) arms"

definition well_formed :: "'e match_arm \<Rightarrow> bool" where
  "well_formed arm \<longleftrightarrow> (\<exists>steps. path (ma_pattern arm) = Inr steps)"

lemma sorted_wrt_snoc: "sorted_wrt R (xs @ [x]) \<longleftrightarrow> sorted_wrt R xs \<and> (\<forall>y \<in> set xs. R y x)"
  by (simp add: sorted_wrt_append)

lemma consistent_sub: "consistent (xs @ ys) \<Longrightarrow> consistent xs"
  unfolding consistent_def set_append by blast

lemma check_each_exact:
  assumes "arms_noted ps ends families" "sorted_wrt apart ps"
  shows "(\<exists>ends'. check_each index ends families arms = Inr ends') \<longleftrightarrow>
    (\<forall>arm \<in> set (named_arms arms). well_formed arm) \<and>
    sorted_wrt apart (ps @ map arm_path (named_arms arms)) \<and>
    consistent (ps @ map arm_path (named_arms arms))"
  using assms
proof (induction arms arbitrary: index ps ends families)
  case Nil
  then show ?case using arms_noted_consistent by (simp add: named_arms_def)
next
  case (Cons arm arms)
  let ?new = "\<lambda>own. om_insert own (index, arm) ends" and ?rest = "map arm_path (named_arms arms)"
  show ?case
  proof (cases "is_catch_all (ma_pattern arm)")
    case True
    then show ?thesis using Cons by (simp add: named_arms_def)
  next
    case named: False
    then have n: "named_arms (arm # arms) = arm # named_arms arms" by (simp add: named_arms_def)
    show ?thesis
    proof (cases "path (ma_pattern arm)")
      case (Inl d)
      then show ?thesis using named n by (simp add: well_formed_def)
    next
      case (Inr steps)
      define own where "own = constructors steps"
      have own: "arm_path arm = own" using path_constructors [OF Inr] by (simp add: own_def arm_path_def)
      note chk = arm_checks [OF Cons.prems(1), of arm steps, folded own_def]
      show ?thesis
      proof (cases "(\<forall>p \<in> set ps. apart p own) \<and> consistent (ps @ [own])")
        case True
        then have pass: "first_error (map (check_depth ends families arm steps) [0..<Suc (length own)]) = None"
          "overlap_error ends arm own = None" using chk by simp_all
        have an: "arms_noted (ps @ [own]) (?new own) (note_families arm own families)"
          by (rule arms_noted_step [OF Cons.prems(1)])
             (rule check_depths_None(2) [OF Cons.prems(1) pass(1) [unfolded own_def], folded own_def])
        show ?thesis
          using Cons.IH [OF an, of "Suc index"] named n Inr pass Cons.prems(2) True own
          by (simp add: own_def [symmetric] Let_def sorted_wrt_snoc well_formed_def)
      next
        case False
        then have "\<not> (\<exists>ends'. check_each index ends families (arm # arms) = Inr ends')"
          using named Inr chk by (auto simp: own_def [symmetric] Let_def split: option.splits)
        moreover have "\<not> (sorted_wrt apart (ps @ own # ?rest) \<and> consistent (ps @ own # ?rest))"
          using False consistent_sub [of "ps @ [own]" ?rest] by (auto simp: sorted_wrt_append)
        ultimately show ?thesis using n own by simp
      qed
    qed
  qed
qed

section \<open>Every outcome has exactly one arm\<close>

text \<open>
  An outcome is the list of constructors of a value from the outside in.  It fits a set of paths
  when, wherever a path continues, the outcome continues with a constructor of the same family:
  this is what typing the subject against the arms ensures.
\<close>

definition fits :: "constructor list \<Rightarrow> constructor list list \<Rightarrow> bool" where
  "fits w paths \<longleftrightarrow>
     (\<forall>q. prefix q w \<longrightarrow> (\<forall>p \<in> set paths. \<forall>c. prefix (q @ [c]) p \<longrightarrow>
        (\<exists>c'. prefix (q @ [c']) w \<and> constructor_family c' = constructor_family c)))"

lemma exhaustive_walk:
  assumes "consistent paths" "missing paths = []" "fits w paths"
    and "prefix q w" "p \<in> set paths" "prefix q p"
  shows "\<exists>p \<in> set paths. prefix p w"
  using assms(4-)
proof (induction "length w - length q" arbitrary: q p)
  case 0
  then have "q = w" by (metis diff_is_0_eq prefix_length_le prefix_length_prefix prefix_order.eq_iff prefix_order.refl)
  show ?case
  proof (cases "q = p")
    case False
    then obtain c where "prefix (q @ [c]) p"
      using "0.prems"(3) by (metis append_one_prefix prefix_length_less strict_prefix_def)
    then obtain c' where "prefix (q @ [c']) w"
      using assms(3) "0.prems" unfolding fits_def by blast
    then show ?thesis using \<open>q = w\<close> by (auto dest: prefix_length_le)
  qed (use "0.prems" in blast)
next
  case (Suc n)
  show ?case
  proof (cases "q = p")
    case False
    then obtain c where c: "prefix (q @ [c]) p"
      using Suc.prems(3) by (metis append_one_prefix prefix_length_less strict_prefix_def)
    then obtain c' where c': "prefix (q @ [c']) w" "constructor_family c' = constructor_family c"
      using assms(3) Suc.prems unfolding fits_def by blast
    have "q @ [c'] \<notin> set (missing paths)" using assms(2) by simp
    then obtain p' where "p' \<in> set paths" "prefix (q @ [c']) p'"
      using missing_set [OF assms(1)] c c'(2) Suc.prems(2) by blast
    then show ?thesis using Suc.hyps(1) [of "q @ [c']" p'] Suc.hyps(2) c'(1) by simp
  qed (use Suc.prems in blast)
qed

lemma collect_paths_ok:
  "collect_paths arms = Inr ps \<longleftrightarrow> (\<forall>arm \<in> set arms. well_formed arm) \<and> ps = map arm_path arms"
proof (induction arms arbitrary: ps)
  case (Cons arm arms)
  show ?case
  proof (cases "path (ma_pattern arm)")
    case (Inl d)
    then show ?thesis by (simp add: well_formed_def)
  next
    case (Inr steps)
    then show ?thesis using Cons.IH [of "map arm_path arms"] Cons.IH [of "tl ps"] path_constructors [OF Inr]
      by (cases "collect_paths arms") (auto simp: well_formed_def arm_path_def)
  qed
qed auto

lemma check_arms_named:
  assumes "check_arms arms subject = Inr ()"
  shows "named_arms arms = arms" "\<forall>arm \<in> set arms. well_formed arm"
    "sorted_wrt apart (map arm_path arms)" "consistent (map arm_path arms)"
proof -
  obtain ends where e: "check_each 0 [] [] arms = Inr ends"
    and f: "find (\<lambda>arm. is_catch_all (ma_pattern arm)) arms = None"
    using assms by (auto simp: check_arms_def split: sum.splits option.splits)
  show n: "named_arms arms = arms"
    using f by (auto simp: named_arms_def find_None_iff intro!: filter_True)
  have "arms_noted [] [] []" by (simp add: arms_noted_def)
  from check_each_exact [OF this, of 0 arms] e n
  show "\<forall>arm \<in> set arms. well_formed arm" "sorted_wrt apart (map arm_path arms)"
    "consistent (map arm_path arms)" by auto
qed

lemma check_arms_iff:
  "check_arms arms subject = Inr () \<longleftrightarrow>
     \<not> (\<exists>arm \<in> set arms. is_catch_all (ma_pattern arm) \<or> \<not> well_formed arm) \<and>
     sorted_wrt apart (map arm_path arms) \<and> consistent (map arm_path arms)"
proof
  assume c: "check_arms arms subject = Inr ()"
  have "filter (\<lambda>arm. \<not> is_catch_all (ma_pattern arm)) arms = arms"
    using check_arms_named(1) [OF c] by (simp add: named_arms_def)
  then have "\<not> is_catch_all (ma_pattern arm)" if "arm \<in> set arms" for arm
    using that by (metis (mono_tags, lifting) filter_id_conv)
  then show "\<not> (\<exists>arm \<in> set arms. is_catch_all (ma_pattern arm) \<or> \<not> well_formed arm) \<and>
     sorted_wrt apart (map arm_path arms) \<and> consistent (map arm_path arms)"
    using check_arms_named(2-4) [OF c] by blast
next
  assume a: "\<not> (\<exists>arm \<in> set arms. is_catch_all (ma_pattern arm) \<or> \<not> well_formed arm) \<and>
     sorted_wrt apart (map arm_path arms) \<and> consistent (map arm_path arms)"
  then have n: "named_arms arms = arms" "find (\<lambda>arm. is_catch_all (ma_pattern arm)) arms = None"
    by (auto simp: named_arms_def find_None_iff intro!: filter_True)
  have "arms_noted [] [] []" by (simp add: arms_noted_def)
  from check_each_exact [OF this, of 0 arms] obtain ends where "check_each 0 [] [] arms = Inr ends"
    using a n(1) by auto
  then show "check_arms arms subject = Inr ()" using n(2) by (simp add: check_arms_def)
qed

text \<open>C18: The checks on the arms of a match accept exactly the arms with well-formed patterns of which
  none matches everything, whose paths are pairwise not prefixes of each other, and which have one
  family at each position.\<close>

theorem check_arms_exact:
  "check_arms arms subject = Inr () \<longleftrightarrow>
     set arms \<subseteq> {arm. well_formed arm \<and> \<not> is_catch_all (ma_pattern arm)} \<and>
     sorted_wrt apart (map arm_path arms) \<and> consistent (map arm_path arms)"
  using check_arms_iff [of arms subject] by blast

lemma match_once:
  assumes "check_arms arms subject = Inr ()" "check_exhaustive arms s = Inr ()" "arms \<noteq> []"
    and "fits w (map arm_path arms)"
  shows "\<exists>!i. i < length arms \<and> prefix (arm_path (arms ! i)) w"
proof -
  note n = check_arms_named [OF assms(1)]
  have m: "missing (map arm_path arms) = []"
    using assms(2) collect_paths_ok [of arms "map arm_path arms"] n(2)
    by (auto simp: check_exhaustive_def Let_def split: if_splits)
  obtain arm where "arm \<in> set arms" using assms(3) by (cases arms) auto
  then have "\<exists>p \<in> set (map arm_path arms). prefix p w"
    by (intro exhaustive_walk [OF n(4) m assms(4), of "[]" "arm_path arm"]) auto
  then obtain i where i: "i < length arms" "prefix (arm_path (arms ! i)) w"
    by (auto simp: in_set_conv_nth)
  moreover have "j = i" if j: "j < length arms" "prefix (arm_path (arms ! j)) w" for j
  proof (rule ccontr)
    have same: "prefix (arm_path (arms ! j)) (arm_path (arms ! i)) \<or>
        prefix (arm_path (arms ! i)) (arm_path (arms ! j))"
      using i(2) j(2) by (rule prefix_same_cases [rotated])
    assume "j \<noteq> i"
    then have "apart (arm_path (arms ! j)) (arm_path (arms ! i)) \<or>
        apart (arm_path (arms ! i)) (arm_path (arms ! j))"
      using sorted_wrt_nth_less [OF n(3)] i(1) j(1) by (metis length_map linorder_neqE_nat nth_map)
    then show False using same by (auto simp: apart_def)
  qed
  ultimately show ?thesis by blast
qed

text \<open>C17: When the arms of a match pass both checks, every outcome that fits the arms' families is
  covered by exactly one arm, wherever it stands in the match.\<close>

theorem match_covers_once:
  assumes "check_arms arms subject = Inr ()" "check_exhaustive arms s = Inr ()" "arms \<noteq> []"
    and "fits w (map arm_path arms)"
  shows "\<exists>!i. i < length arms \<and> prefix (arm_path (arms ! i)) w"
  using assms by (rule match_once)

text \<open>The arms \<open>None => 0, Some(_) => 1\<close>.\<close>

definition demo_arms :: "nat match_arm list" where
  "demo_arms =
     [MatchArm (Pattern (Variant VNone None) (span_new 0 4)) 0 (span_new 0 9),
      MatchArm (Pattern (Variant VSome (Some (Pattern Wildcard (span_new 16 17)))) (span_new 11 18)) 1
        (span_new 11 23)]"

lemma demo_arms_checked:
  "check_arms demo_arms None = Inr ()" "check_exhaustive demo_arms (span_new 0 30) = Inr ()"
  "map arm_path demo_arms = [[CNone], [CSome]]"
proof -
  have paths: "map arm_path demo_arms = [[CNone], [CSome]]"
    by (simp add: demo_arms_def arm_path_def from_variant_def)
  then show "map arm_path demo_arms = [[CNone], [CSome]]" .
  have wf: "\<not> (\<exists>arm \<in> set demo_arms. is_catch_all (ma_pattern arm) \<or> \<not> well_formed arm)"
    by (simp add: demo_arms_def is_catch_all_def well_formed_def path_def)
  moreover have "consistent [[CNone], [CSome]]"
    by (auto simp: consistent_def constructor_family_def prefix_Cons)
  moreover have "sorted_wrt apart [[CNone], [CSome]]" by (simp add: apart_def)
  ultimately show "check_arms demo_arms None = Inr ()" by (simp add: check_arms_iff paths)
  have "collect_paths demo_arms = Inr [[CNone], [CSome]]" using wf paths by (simp add: collect_paths_ok)
  moreover have "missing [[CNone], [CSome]] = []"
    by (simp add: missing_def note_path_def om_or_insert_def om_get_def constructor_family_def
        family_constructors_def)
  ultimately show "check_exhaustive demo_arms (span_new 0 30) = Inr ()"
    by (simp add: check_exhaustive_def)
qed

lemma demo_fits: "constructor_family c = OptionF \<Longrightarrow> fits (c # w) [[CNone], [CSome]]"
  by (auto simp: fits_def prefix_Cons constructor_family_def)

theorem match_covers_once_witness:
  "\<exists>!i. i < length demo_arms \<and> prefix (arm_path (demo_arms ! i)) [CSome, COk]"
  using match_covers_once [OF demo_arms_checked(1,2), of "[CSome, COk]"] demo_fits [of CSome "[COk]"]
  by (simp add: demo_arms_checked(3)) (simp add: demo_arms_def constructor_family_def)

end
