(* ===== verification/Evaluator_Laws.thy ===== *)
theory Evaluator_Laws
  imports Evaluator_Safety Pattern_Rules
begin

text \<open>
  What the direct evaluator guarantees to its callers: no panic and no ill-formed value, early exits
  that stop at the call, exact 64-bit arithmetic, chains of operators that mean what their nesting
  says, and matches in which exactly one arm applies.
\<close>

section \<open>Depth\<close>

lemma max_depth_Max: "max_depth vs = Max (insert 0 (value_depth ` set vs))"
proof (induction vs)
  case (Cons v vs)
  have "insert 0 (value_depth ` set (v # vs)) = insert (value_depth v) (insert 0 (value_depth ` set vs))"
    by auto
  then show ?case using Cons by (simp only: max_depth.simps) (simp add: Max_insert del: insert_commute)
qed simp

lemma value_ok_nesting: "value_ok v \<Longrightarrow> value_depth v = nesting v \<and> nesting v \<le> MAX_VALUE_DEPTH"
proof (induction rule: value_ok.induct)
  case (ok_list l)
  then have "value_depth ` set (lv_elements l) = nesting ` set (lv_elements l)" by (auto simp: image_def)
  then show ?case using ok_list
    by (simp add: value_depth_def [of "ListV l"] nesting.simps [of "ListV l"] max_depth_Max)
next
  case (ok_record r)
  have "value_depth ` set (map snd (rv_fields r)) = (\<lambda>(n, w). nesting w) ` set (rv_fields r)"
    using ok_record(1) by (force simp: image_def)
  then show ?case using ok_record
    by (simp add: value_depth_def [of "RecordV r"] nesting.simps [of "RecordV r"] max_depth_Max)
next
  case (ok_variant n p)
  then show ?case by (simp add: value_depth_def [of "VariantV n (Some p)"] nesting.simps [of "VariantV n (Some p)"])
qed (simp_all add: value_depth_def nesting.simps MAX_VALUE_DEPTH_def)

section \<open>Safety\<close>

lemma expression_ok:
  "env_ok value_ok env \<Longrightarrow> flow_ok value_ok value_ok (snd (expression h n calls e env out))"
  using run.ev_ok [of env h n calls e] by (simp add: comp_ok_def)

text \<open>C16: In an environment of well-formed values every value that evaluation returns, or that an early
  exit carries, is well formed: its integers are 64-bit, the depth it records is its nesting depth
  and at most the limit of 10000, and \<open>None\<close> is the only variant without a payload.\<close>

theorem evaluation_keeps_values:
  assumes "env_ok value_ok env"
  shows "case snd (expression h n calls e env out) of
      Inr v \<Rightarrow> value_ok v \<and> value_depth v = nesting v \<and> nesting v \<le> MAX_VALUE_DEPTH
    | Inl (Exited v _) \<Rightarrow> value_ok v \<and> nesting v \<le> MAX_VALUE_DEPTH
    | Inl (Failed d) \<Rightarrow> severity d = Error \<and> code d \<in> set EVALUATOR_CODES
    | Inl (Panicked _) \<Rightarrow> False"
  using expression_ok [OF assms, of h n calls e out] value_ok_nesting
  by (auto simp: diag_ok_def split: sum.splits interrupt.splits)

lemma run_program_safe:
  "env_ok value_ok env \<Longrightarrow>
     (case snd (run_program (expression h n calls) p env out) of
        Inr v \<Rightarrow> v = UnitV
      | Inl (Failed d) \<Rightarrow> severity d = Error \<and> code d \<in> set (''K3012'' # ''K3014'' # EVALUATOR_CODES)
      | Inl _ \<Rightarrow> False)"
proof (induction p arbitrary: env out)
  case (Cons st sts)
  obtain out' r where r: "eval_statement (expression h n calls) st env out = (out', r)" by fastforce
  have ok: "flow_ok value_ok (env_ok value_ok) r"
    using run.statement_ok [OF Cons.prems, of h n calls st] r unfolding comp_ok_def by (metis snd_conv)
  show ?case
  proof (cases r)
    case (Inr env')
    then show ?thesis using ok r Cons.IH [of env' out'] by simp
  next
    case (Inl i)
    show ?thesis
    proof (cases i)
      case (Exited v x)
      then show ?thesis using Inl r by (cases x) (simp_all add: diagnostic_new_def)
    qed (use ok r Inl in \<open>simp_all add: diag_ok_def\<close>)
  qed
qed simp

text \<open>C1: Running any program, checked or not, ends with the unit value or with an error diagnostic of
  the evaluator: no \<open>unreachable!\<close> and no \<open>expect\<close> of the evaluator is ever reached, and no early exit
  escapes.\<close>

theorem execute_never_panics:
  "case snd (execute h p out) of
     Inr v \<Rightarrow> v = UnitV
   | Inl (Failed d) \<Rightarrow> severity d = Error \<and> code d \<in> set (''K3012'' # ''K3014'' # EVALUATOR_CODES)
   | Inl (Exited _ _) \<Rightarrow> False
   | Inl (Panicked _) \<Rightarrow> False"
  using run_program_safe [of "[]" h MAX_EVALUATION_DEPTH 0 p out]
  by (auto simp: execute_def split: sum.splits interrupt.splits)

section \<open>Early exits\<close>

lemma andthen_Inl:
  "andthen m f out = (out', Inl i) \<longleftrightarrow>
     m out = (out', Inl i) \<or> (\<exists>out1 a. m out = (out1, Inr a) \<and> f a out1 = (out', Inl i))"
  by (auto simp: andthen_def split: prod.splits sum.splits)

lemma catch_exit_no_exit [simp]: "catch_exit m out \<noteq> (out', Inl (Exited v x))"
  by (auto simp: catch_exit_def split: prod.splits sum.splits interrupt.splits)

text \<open>An early exit ends exactly the innermost call: when a call of a function exits, the exit comes
  from one of its arguments, which belong to the caller, and never from the body.\<close>

lemma exit_stops_at_call:
  assumes "call_function ev bl calls f arguments env s out = (out', Inl (Exited v x))"
  shows "eval_list ev arguments env out = (out', Inl (Exited v x))"
  using assms
  by (auto simp: call_function_def stop_def andthen_Inl Let_def split: if_splits)

section \<open>Chains of binary operators\<close>

text \<open>The meaning of nested binary operators: the left operand, then the operator on it.\<close>

fun binary_nested :: "'o eval \<Rightarrow> expression \<Rightarrow> environment \<Rightarrow> ('o, val) comp" where
  "binary_nested ev (Expression (Binary left operator right) s) env =
     andthen (binary_nested ev left env) (\<lambda>v. eval_binary ev operator v right env s)"
| "binary_nested ev e env = ev e env"

lemma andthen_assoc: "andthen (andthen m f) g = andthen m (\<lambda>a. andthen (f a) g)"
  by (auto simp: andthen_def fun_eq_iff split: prod.splits sum.splits)

lemma andthen_ret: "andthen m ret = m" "andthen (ret a) f = f a" "andthen (stop i) f = stop i"
  by (auto simp: andthen_def ret_def stop_def fun_eq_iff split: prod.splits sum.splits)

lemma binary_nodes_append:
  "binary_nodes ev v (xs @ ys) env = andthen (binary_nodes ev v xs env) (\<lambda>w. binary_nodes ev w ys env)"
proof (induction xs arbitrary: v)
  case (Cons x xs)
  then show ?case by (cases "ex_kind x") (simp_all add: andthen_assoc andthen_ret)
qed (simp add: andthen_ret)

lemma binary_spine_nested:
  "binary_spine nodes e = (start, spine) \<Longrightarrow>
     andthen (ev start env) (\<lambda>v. binary_nodes ev v (rev spine) env) =
     andthen (binary_nested ev e env) (\<lambda>v. binary_nodes ev v (rev nodes) env)"
proof (induction nodes e rule: binary_spine.induct)
  case (1 nodes left operator right s)
  then show ?case by (simp add: binary_nodes_append andthen_assoc andthen_ret eta_contract_eq)
qed auto

text \<open>C27: The loop that evaluates a chain of binary operators left to right gives what the nested
  expression means: for every expression it is the recursive evaluation of the left operand followed
  by the operator.\<close>

theorem binary_chain_is_nested: "binary_chain ev e env = binary_nested ev e env"
proof -
  obtain start spine where s: "binary_spine [] e = (start, spine)" by fastforce
  have "binary_nodes ev v [] env = ret v" for v by simp
  then show ?thesis using binary_spine_nested [OF s, of ev env]
    by (simp add: binary_chain_def s andthen_ret)
qed

section \<open>Integer arithmetic\<close>

lemma quot_rem: "quot a b * b + rem a b = a"
proof -
  have "sgn b * b = \<bar>b\<bar>" by (simp add: abs_sgn mult.commute)
  moreover have "quot a b * b = sgn a * (\<bar>a\<bar> div \<bar>b\<bar> * (sgn b * b))"
    by (simp only: quot_def mult.assoc mult.commute mult.left_commute)
  ultimately have "quot a b * b = sgn a * (\<bar>a\<bar> div \<bar>b\<bar> * \<bar>b\<bar>)" by (simp only:)
  then have "quot a b * b + rem a b = sgn a * (\<bar>a\<bar> div \<bar>b\<bar> * \<bar>b\<bar> + \<bar>a\<bar> mod \<bar>b\<bar>)"
    by (simp only: rem_def distrib_left)
  also have "\<dots> = a" by (simp add: sgn_mult_abs)
  finally show ?thesis .
qed

text \<open>Addition, subtraction and multiplication of integers give the exact result when it is a signed
  64-bit integer and fail with K4005 otherwise; they never wrap.\<close>

lemma integer_arithmetic_exact:
  "apply_binary Add (IntegerV a) (IntegerV b) s =
     (if in_i64 (a + b) then Inr (IntegerV (a + b))
      else Inl (Failed (diagnostic_new ''K4005'' ''integer overflow'' s))) \<and>
   apply_binary Subtract (IntegerV a) (IntegerV b) s =
     (if in_i64 (a - b) then Inr (IntegerV (a - b))
      else Inl (Failed (diagnostic_new ''K4005'' ''integer overflow'' s))) \<and>
   apply_binary Multiply (IntegerV a) (IntegerV b) s =
     (if in_i64 (a * b) then Inr (IntegerV (a * b))
      else Inl (Failed (diagnostic_new ''K4005'' ''integer overflow'' s)))"
  by (simp add: apply_binary_def checked_integer_operation_def checked_add_def checked_sub_def
      checked_mul_def overflow_def i64_try_def to_flow_def)

lemma quot_in_i64:
  assumes "in_i64 a" "in_i64 b" "b \<noteq> 0"
  shows "in_i64 (quot a b) \<longleftrightarrow> \<not> (a = i64_min \<and> b = - 1)"
proof (cases "\<bar>b\<bar> = 1")
  case True
  then have "quot a b = a * b" by (cases "b = 1") (auto simp: quot_def abs_if sgn_if)
  then show ?thesis using assms True
    by (cases "b = 1") (auto simp: in_i64_def i64_min_def i64_max_def abs_if split: if_splits)
next
  case False
  then have b: "2 \<le> \<bar>b\<bar>" using assms(3) by linarith
  have "\<bar>a\<bar> div \<bar>b\<bar> * 2 \<le> \<bar>a\<bar> div \<bar>b\<bar> * \<bar>b\<bar>" using b by (intro mult_left_mono) (auto simp: pos_imp_zdiv_nonneg_iff)
  also have "\<dots> \<le> \<bar>a\<bar>" by (metis abs_ge_zero minus_mod_eq_div_mult [symmetric] diff_le_eq le_add_same_cancel1 pos_mod_sign assms(3) zero_less_abs_iff)
  finally have q: "\<bar>a\<bar> div \<bar>b\<bar> * 2 \<le> \<bar>a\<bar>" .
  have "\<bar>quot a b\<bar> = \<bar>a\<bar> div \<bar>b\<bar>" if "a \<noteq> 0"
    using that assms(3) b by (simp add: quot_def abs_mult pos_imp_zdiv_nonneg_iff)
  then have "\<bar>quot a b\<bar> * 2 \<le> \<bar>a\<bar>" using q by (cases "a = 0") (simp_all add: quot_def)
  moreover have "\<bar>a\<bar> \<le> 2 ^ 63" using assms(1) by (auto simp: in_i64_def i64_min_def i64_max_def abs_le_iff)
  ultimately have "\<bar>quot a b\<bar> \<le> 2 ^ 62" by simp
  then have "in_i64 (quot a b)" by (auto simp: in_i64_def i64_min_def i64_max_def abs_le_iff)
  then show ?thesis using False by auto
qed

text \<open>C28: Division truncates towards zero: on 64-bit operands with a non-zero divisor, division and
  remainder fail exactly for the least integer divided by minus one, and otherwise the quotient and
  the remainder recombine to the dividend, the remainder is smaller than the divisor and has the
  sign of the dividend.\<close>

theorem division_exact:
  assumes "in_i64 a" "in_i64 b" "b \<noteq> 0"
  shows "(if a = i64_min \<and> b = - 1
     then apply_binary Divide (IntegerV a) (IntegerV b) s =
            Inl (Failed (diagnostic_new ''K4005'' ''integer overflow'' s)) \<and>
          apply_binary Remainder (IntegerV a) (IntegerV b) s =
            Inl (Failed (diagnostic_new ''K4005'' ''integer overflow'' s))
     else \<exists>q m. apply_binary Divide (IntegerV a) (IntegerV b) s = Inr (IntegerV q) \<and>
          apply_binary Remainder (IntegerV a) (IntegerV b) s = Inr (IntegerV m) \<and>
          q * b + m = a \<and> \<bar>m\<bar> < \<bar>b\<bar> \<and> (m = 0 \<or> sgn m = sgn a))"
proof -
  define m where "m = \<bar>a\<bar> mod \<bar>b\<bar>"
  have m: "0 \<le> m" "m < \<bar>b\<bar>" "rem a b = sgn a * m" using assms(3) by (simp_all add: m_def rem_def)
  have "\<bar>rem a b\<bar> \<le> m" using m(1) unfolding m(3) by (cases "a = 0") (simp_all add: abs_mult)
  then have r: "\<bar>rem a b\<bar> < \<bar>b\<bar>" using m(2) by simp
  have "rem a b = 0 \<or> sgn (rem a b) = sgn a" using m(1) unfolding m(3) by (cases "m = 0") (auto simp: sgn_mult)
  note r = r this
  show ?thesis using assms quot_in_i64 [OF assms] r quot_rem [of a b]
    by (auto simp: apply_binary_def integer_pair_def overflow_def checked_div_def checked_rem_def
        i64_try_def to_flow_def)
qed

theorem division_exact_witness:
  "\<exists>q m. apply_binary Divide (IntegerV (- 7)) (IntegerV 2) (span_new 0 1) = Inr (IntegerV q) \<and>
     apply_binary Remainder (IntegerV (- 7)) (IntegerV 2) (span_new 0 1) = Inr (IntegerV m) \<and>
     q * 2 + m = - 7 \<and> \<bar>m\<bar> < 2 \<and> (m = 0 \<or> sgn m = - 1)"
  using division_exact [of "- 7" 2 "span_new 0 1"] by (simp add: in_i64_def i64_min_def i64_max_def)

text \<open>A host whose output is a string, and \<open>print([1, 2])\<close>.\<close>

definition demo_host :: "str host" where
  "demo_host = \<lparr>debug_str = (\<lambda>t. t), json_to_string = (\<lambda>_. Inr []), json_from_str = (\<lambda>_. Inl []),
     write_all = (\<lambda>t out. (out @ t, None))\<rparr>"

definition demo_expression :: expression where
  "demo_expression =
     Expression (ListExpr [Expression (Literal (IntegerLit 1)) (span_new 1 2),
       Expression (Literal (IntegerLit 2)) (span_new 4 5)]) (span_new 0 6)"

theorem evaluation_keeps_values_witness:
  "\<exists>v. snd (expression demo_host 2 0 demo_expression [] []) = Inr v \<and> value_ok v \<and> nesting v \<le> MAX_VALUE_DEPTH"
proof -
  have "snd (expression demo_host 2 0 demo_expression [] []) =
      Inr (ListV (ListValue [IntegerV 1, IntegerV 2] 1))"
    by (simp add: demo_expression_def numeral_2_eq_2 expression_contents_def literal_value_def overflow_def
        i64_try_def in_i64_def i64_min_def i64_max_def andthen_def ret_def lift_def to_flow_def value_list_def
        container_depth_def value_depth_def MAX_VALUE_DEPTH_def Let_def)
  then show ?thesis
    using evaluation_keeps_values [of "[]" demo_host 2 0 demo_expression "[]"] by simp
qed

end
