(* ===== verification/Match_Laws.thy ===== *)
theory Match_Laws
  imports Evaluator_Safety Pattern_Rules
begin

text \<open>
  Matching and the arm rules together: a well-formed pattern matches a well-formed value exactly when
  its path is a prefix of the value's constructors, so arms that analysis accepts select exactly one
  arm for every value of the subject's type, in whatever order they are written.
\<close>

section \<open>Matching\<close>

text \<open>The constructors of a value from the outside in.\<close>

fun value_path :: "val \<Rightarrow> constructor list" where
  "value_path (VariantV n (Some (VariantPayload v _))) = from_variant n # value_path v"
| "value_path (VariantV n None) = [from_variant n]"
| "value_path (ListV l) = [if lv_elements l = [] then CEmpty else CCons]"
| "value_path _ = []"

lemma value_path_Some: "value_path (VariantV n (Some p)) = from_variant n # value_path (vp_value p)"
  by (cases p) simp

lemma max_depth_le: "v \<in> set vs \<Longrightarrow> value_depth v \<le> max_depth vs"
  by (induction vs) auto

lemma max_depth_tl: "max_depth (tl vs) \<le> max_depth vs"
  by (cases vs) simp_all

lemma tail_list: "value_ok (ListV l) \<Longrightarrow> \<exists>v. value_list (tl (lv_elements l)) s = Inr v"
  using max_depth_tl [of "lv_elements l"]
  by (auto simp: value_ok_simps value_list_def container_depth_def Let_def)

lemma path_from_any: "path_from steps p = Inr x \<Longrightarrow> \<exists>y. path_from steps' p = Inr y"
  by (induction steps p arbitrary: x steps' rule: path_from.induct)
     (auto simp: Let_def split: option.splits if_splits)

lemma path_variant:
  assumes "\<exists>steps. path (Pattern (Variant v payload) s) = Inr steps"
  shows "payload = None \<longleftrightarrow> v = VNone" "payload = Some p \<Longrightarrow> \<exists>steps. path p = Inr steps"
  using assms path_from_any [of _ p _ "[]"]
  by (auto simp: path_def Let_def split: option.splits if_splits)

lemma family_variant:
  "constructor_family (from_variant a) = constructor_family (from_variant b) \<longleftrightarrow> variant_family a = variant_family b"
  "from_variant a = from_variant b \<longleftrightarrow> a = b"
  "constructor_family (from_variant a) \<noteq> ListF"
  by (cases a; cases b; simp add: from_variant_def constructor_family_def variant_family_def)+

lemma fits_head:
  assumes "fits w [c # p]"
  obtains c' w' where "w = c' # w'" "constructor_family c' = constructor_family c"
    "c' = c \<Longrightarrow> fits w' [p]"
proof -
  have "\<exists>c'. prefix [c'] w \<and> constructor_family c' = constructor_family c"
    using assms unfolding fits_def by (elim allE [of _ "[]"]) auto
  then obtain c' w' where w: "w = c' # w'" "constructor_family c' = constructor_family c"
    by (auto simp: prefix_def)
  have "fits w' [p]" if "c' = c"
    unfolding fits_def
  proof (intro allI impI ballI)
    fix q p' d assume "prefix q w'" "p' \<in> set [p]" "prefix (q @ [d]) p'"
    then have "\<exists>c'. prefix ((c # q) @ [c']) w \<and> constructor_family c' = constructor_family d"
      using assms that w(1) unfolding fits_def by (elim allE [of _ "c # q"]) auto
    then show "\<exists>c'. prefix (q @ [c']) w' \<and> constructor_family c' = constructor_family d"
      using w(1) that by simp
  qed
  with w that show ?thesis by blast
qed

text \<open>A well-formed pattern that a well-formed value fits matches it exactly when its path is a prefix
  of the value's constructors, and never fails.\<close>

lemma match_pattern_path:
  assumes "value_ok v" "\<exists>steps. path p = Inr steps" "fits (value_path v) [cpath p]"
  shows "\<exists>r. match_pattern p v s env = Inr r \<and> (r \<noteq> None \<longleftrightarrow> prefix (cpath p) (value_path v))"
  using assms
proof (induction p v s env rule: match_pattern.induct)
  case (3 ps v s env)
  then obtain c' w' where w: "value_path v = c' # w'" "constructor_family c' = ListF"
    by (auto elim!: fits_head simp: constructor_family_def)
  show ?case
  proof (cases v)
    case (ListV l)
    then show ?thesis by (cases "lv_elements l") auto
  next
    case (VariantV n q)
    then show ?thesis using w family_variant(3) by (cases q) (auto simp: value_path_Some)
  qed (use w in auto)
next
  case (4 head tail ps v s env)
  then obtain c' w' where w: "value_path v = c' # w'" "constructor_family c' = ListF"
    by (auto elim!: fits_head simp: constructor_family_def)
  show ?case
  proof (cases v)
    case (ListV l)
    then show ?thesis using tail_list [of l s] "4.prems"(1) by (cases "lv_elements l") auto
  next
    case (VariantV n q)
    then show ?thesis using w family_variant(3) by (cases q) (auto simp: value_path_Some)
  qed (use w in auto)
next
  case (5 variant payload ps v s env)
  note shape = path_variant [OF "5.prems"(2)]
  have cp: "cpath (Pattern (Variant variant payload) ps) =
      from_variant variant # (case payload of None \<Rightarrow> [] | Some p \<Rightarrow> cpath p)"
    by (cases payload) simp_all
  from "5.prems"(3) obtain c' w' where w: "value_path v = c' # w'"
    "constructor_family c' = constructor_family (from_variant variant)"
    "c' = from_variant variant \<Longrightarrow> fits w' [case payload of None \<Rightarrow> [] | Some p \<Rightarrow> cpath p]"
    unfolding cp by (rule fits_head) blast
  show ?case
  proof (cases v)
    case (ListV l)
    then have "constructor_family c' = ListF" using w(1) by (auto simp: constructor_family_def)
    then show ?thesis using w(2) family_variant(3) [of variant] by simp
  next
    case v: (VariantV n q)
    then have c': "c' = from_variant n" using w(1) by (cases q) (auto simp: value_path_Some)
    then have fam: "variant_family n = variant_family variant" using w(2) family_variant(1) by metis
    show ?thesis
    proof (cases "n = variant")
      case False
      then show ?thesis using fam v c' w(1) family_variant(2) by (simp add: cp)
    next
      case True
      show ?thesis
      proof (cases payload)
        case None
        then have "q = None" using shape(1) True v "5.prems"(1) by (auto simp: value_ok_simps)
        then show ?thesis using None v True by simp
      next
        case (Some p)
        then obtain u where q: "q = Some u" using shape(1) True v "5.prems"(1) by (auto simp: value_ok_simps)
        have "value_ok (vp_value u)" using "5.prems"(1) v q by (simp add: value_ok_simps)
        moreover have "fits (value_path (vp_value u)) [cpath p]" using w Some q v c' True by (simp add: value_path_Some)
        ultimately show ?thesis
          using "5.IH" shape(2) [OF Some] v q Some True by (auto simp: value_path_Some)
      qed
    qed
  qed (use w in auto)
qed auto

section \<open>Selecting an arm\<close>

lemma select_unique:
  assumes a: "match_pattern (ma_pattern a) v s env = Inr (Some bound)"
  shows "\<forall>b \<in> set arms. \<exists>r. match_pattern (ma_pattern b) v s env = Inr r \<Longrightarrow> a \<in> set arms \<Longrightarrow>
    \<forall>b \<in> set arms. \<forall>e. match_pattern (ma_pattern b) v s env = Inr (Some e) \<longrightarrow> b = a \<Longrightarrow>
    select_match_arm v s arms env = Inr (ma_value a, bound)"
proof (induction arms)
  case (Cons b arms)
  obtain r where r: "match_pattern (ma_pattern b) v s env = Inr r"
    using Cons.prems(1) by (meson list.set_intros(1))
  show ?case
  proof (cases r)
    case None
    then have "b \<noteq> a" using a r by force
    then have "a \<in> set arms" using Cons.prems(2) by simp
    then have "select_match_arm v s arms env = Inr (ma_value a, bound)"
      using Cons.IH Cons.prems(1,3) by (meson list.set_intros(2))
    then show ?thesis using r None by simp
  next
    case (Some e)
    then have "b = a" using Cons.prems(3) r by (meson list.set_intros(1))
    then show ?thesis using a by simp
  qed
qed simp

lemma fits_path_mono: "fits w ps \<Longrightarrow> set qs \<subseteq> set ps \<Longrightarrow> fits w qs"
  unfolding fits_def by blast

lemma covers_once:
  assumes "check_arms arms subject = Inr ()" "check_exhaustive arms t = Inr ()" "arms \<noteq> []"
    and "fits w (map arm_path arms)"
  shows "\<exists>a \<in> set arms. prefix (arm_path a) w \<and> (\<forall>b \<in> set arms. prefix (arm_path b) w \<longrightarrow> b = a)"
proof -
  obtain i where i: "i < length arms" "prefix (arm_path (arms ! i)) w"
    and u: "\<And>j. j < length arms \<Longrightarrow> prefix (arm_path (arms ! j)) w \<Longrightarrow> j = i"
    using match_once [OF assms] by blast
  have "b = arms ! i" if "b \<in> set arms" "prefix (arm_path b) w" for b
    using that u by (metis in_set_conv_nth)
  with i show ?thesis by (meson nth_mem)
qed

text \<open>C15: When analysis accepts the arms of a match, evaluating it on a well-formed value of the
  subject's type selects an arm, with no error, and the same arm with the same bindings whatever
  the order in which the arms are written.\<close>

theorem match_order_irrelevant:
  assumes "check_arms arms subject = Inr ()" "check_exhaustive arms t = Inr ()" "arms \<noteq> []"
    and "value_ok v" "fits (value_path v) (map arm_path arms)" "set arms' = set arms"
  shows "\<exists>a bound. a \<in> set arms \<and> prefix (arm_path a) (value_path v) \<and>
    select_match_arm v s arms env = Inr (ma_value a, bound) \<and>
    select_match_arm v s arms' env = Inr (ma_value a, bound)"
proof -
  obtain a where a: "a \<in> set arms" "prefix (arm_path a) (value_path v)"
    "\<forall>b \<in> set arms. prefix (arm_path b) (value_path v) \<longrightarrow> b = a"
    using covers_once [OF assms(1-3,5)] by blast
  have m: "\<exists>r. match_pattern (ma_pattern b) v s env = Inr r \<and> (r \<noteq> None \<longleftrightarrow> prefix (arm_path b) (value_path v))"
    if "b \<in> set arms" for b
    unfolding arm_path_def
    using that check_arms_named(2) [OF assms(1)] fits_path_mono [OF assms(5), of "[arm_path b]"]
    by (intro match_pattern_path [OF assms(4)]) (auto simp: well_formed_def arm_path_def)
  then obtain bound where b: "match_pattern (ma_pattern a) v s env = Inr (Some bound)"
    using a(1,2) by blast
  have tot: "\<forall>b \<in> set arms. \<exists>r. match_pattern (ma_pattern b) v s env = Inr r" using m by blast
  have un: "\<forall>b \<in> set arms. \<forall>e. match_pattern (ma_pattern b) v s env = Inr (Some e) \<longrightarrow> b = a"
  proof (intro ballI allI impI)
    fix c e assume c: "c \<in> set arms" "match_pattern (ma_pattern c) v s env = Inr (Some e)"
    then have "prefix (arm_path c) (value_path v)" using m [OF c(1)] by auto
    then show "c = a" using a(3) c(1) by blast
  qed
  have "select_match_arm v s arms env = Inr (ma_value a, bound)"
    by (rule select_unique [OF b tot a(1) un])
  moreover have "select_match_arm v s arms' env = Inr (ma_value a, bound)"
    using tot a(1) un assms(6) by (intro select_unique [OF b]) simp_all
  ultimately show ?thesis using a(1,2) by blast
qed

theorem match_order_irrelevant_witness:
  "\<exists>a bound. a \<in> set demo_arms \<and> prefix (arm_path a) [CNone] \<and>
     select_match_arm (VariantV VNone None) (span_new 0 1) demo_arms [] = Inr (ma_value a, bound) \<and>
     select_match_arm (VariantV VNone None) (span_new 0 1) (rev demo_arms) [] = Inr (ma_value a, bound)"
  using match_order_irrelevant [OF demo_arms_checked(1,2), of "VariantV VNone None" "rev demo_arms" "span_new 0 1" "[]"]
    demo_fits [of CNone "[]"] demo_arms_checked(3)
  by (simp add: from_variant_def constructor_family_def value_ok_simps) (simp add: demo_arms_def)

end
