(* ===== verification/Source_Text.thy ===== *)
theory Source_Text
  imports Krit_Ast
begin

text \<open>
  Source text by characters (the \<open>str\<close> methods the compiler uses) and by position
  (\<open>krit/src/source.rs\<close>).  Text is the list of its UTF-8 bytes; a character is the list of its own
  bytes, which is what every consumer of the source appends, counts or compares.
\<close>

section \<open>Characters\<close>

definition char_len :: "char \<Rightarrow> nat" where
  "char_len b =
     (let n = (of_char b :: nat) in
      if n < 0x80 then 1 else if n < 0xE0 then 2 else if n < 0xF0 then 3 else 4)"

definition next_char :: "str \<Rightarrow> str option" where
  "next_char s = (case s of [] \<Rightarrow> None | b # _ \<Rightarrow> Some (take (char_len b) s))"

lemma char_len_pos [simp]: "0 < char_len b" "char_len b \<noteq> 0"
  by (simp_all add: char_len_def Let_def)

lemma next_char_simps [simp]: "next_char [] = None"
  by (simp add: next_char_def)

lemma next_char_None: "next_char s = None \<longleftrightarrow> s = []"
  by (simp add: next_char_def split: list.splits)

lemma next_char_length: "next_char s = Some c \<Longrightarrow> 0 < length c \<and> length c \<le> length s"
  by (auto simp: next_char_def split: list.splits)

lemma next_char_shrinks: "next_char s = Some c \<Longrightarrow> length s - length c < length s"
  using next_char_length [of s c] by linarith

lemma next_char_prefix: "next_char s = Some c \<Longrightarrow> s = c @ drop (length c) s"
  by (auto simp: next_char_def min_def split: list.splits)

lemma next_char_ascii: "of_char b < (0x80 :: nat) \<Longrightarrow> next_char (b # s) = Some [b]"
  by (simp add: next_char_def char_len_def)

function chars :: "str \<Rightarrow> str list" where
  "chars s = (case next_char s of None \<Rightarrow> [] | Some c \<Rightarrow> c # chars (drop (length c) s))"
  by pat_completeness auto
termination
  by (relation "measure length") (simp_all add: next_char_shrinks)

declare chars.simps [simp del]

lemma chars_Nil [simp]: "chars [] = []"
  by (simp add: chars.simps)

lemma concat_chars [simp]: "concat (chars s) = s"
proof (induction s rule: chars.induct)
  case (1 s)
  then show ?case
    using next_char_prefix [of s] by (subst chars.simps) (auto split: option.splits simp: next_char_None)
qed

text \<open>\<open>char::is_whitespace\<close>: the code points of the Unicode property \<open>White_Space\<close>.\<close>

definition white_space :: "nat list" where
  "white_space =
     [0x09, 0x0A, 0x0B, 0x0C, 0x0D, 0x20, 0x85, 0xA0, 0x1680, 0x2000, 0x2001, 0x2002, 0x2003, 0x2004,
      0x2005, 0x2006, 0x2007, 0x2008, 0x2009, 0x200A, 0x2028, 0x2029, 0x202F, 0x205F, 0x3000]"

definition is_whitespace :: "str \<Rightarrow> bool" where
  "is_whitespace c \<longleftrightarrow> c \<in> set (map utf8_char white_space)"

text \<open>\<open>str::trim\<close>.\<close>

definition trim :: "str \<Rightarrow> str" where
  "trim s = concat (rev (dropWhile is_whitespace (rev (dropWhile is_whitespace (chars s)))))"

lemma utf8_char_ascii: "n < 0x80 \<Longrightarrow> utf8_char n = [char_of n]"
  by (simp add: utf8_char_def)

lemma utf8_char_not_Nil [simp]: "utf8_char n \<noteq> []"
  by (simp add: utf8_char_def)

lemma char_len_utf8: "is_scalar n \<Longrightarrow> char_len (hd (utf8_char n)) = length (utf8_char n)"
proof -
  assume "is_scalar n"
  then have n: "n < 0x110000" by (auto simp: is_scalar_def)
  consider "n < 0x80" | "0x80 \<le> n" "n < 0x800" | "0x800 \<le> n" "n < 0x10000" | "0x10000 \<le> n" by linarith
  then show ?thesis
  proof cases
    case 2
    then have "2 \<le> n div 64" "n div 64 < 32" by linarith+
    then show ?thesis using 2 by (simp add: utf8_char_def char_len_def of_char_of)
  next
    case 3
    then have "n div 4096 < 16" by linarith
    then show ?thesis using 3 by (simp add: utf8_char_def char_len_def of_char_of)
  next
    case 4
    then have "n div 262144 < 5" using n by linarith
    then show ?thesis using 4 by (simp add: utf8_char_def char_len_def of_char_of)
  qed (simp add: utf8_char_def char_len_def of_char_of)
qed

lemma next_char_utf8: "is_scalar n \<Longrightarrow> next_char (utf8_char n @ s) = Some (utf8_char n)"
  using char_len_utf8 [of n] by (cases "utf8_char n") (simp_all add: next_char_def)

lemma chars_utf8: "list_all is_scalar cs \<Longrightarrow> chars (utf8 cs) = map utf8_char cs"
proof (induction cs)
  case (Cons n cs)
  then show ?case by (subst chars.simps) (simp add: utf8_def next_char_utf8)
qed (simp add: utf8_def)

section \<open>Positions\<close>

record position =
  pos_line :: nat
  pos_column :: nat
  pos_byte :: nat

record source =
  source_name :: str
  source_text :: str
  line_starts :: "nat list"

definition source_new :: "str \<Rightarrow> str \<Rightarrow> source" where
  "source_new name txt =
     \<lparr>source_name = name, source_text = txt,
      line_starts = 0 # map Suc (filter (\<lambda>i. txt ! i = CHR 0x0A) [0..<length txt])\<rparr>"

text \<open>
  \<open>partition_point\<close> on the ascending line starts: how many satisfy the predicate.  Slicing the text at a byte
  that is not the start of a character panics, which is \<open>None\<close>; the line starts follow a line feed, so they
  are always boundaries.
\<close>

definition is_char_boundary :: "str \<Rightarrow> nat \<Rightarrow> bool" where
  "is_char_boundary s i \<longleftrightarrow>
     i = 0 \<or> i = length s \<or> i < length s \<and> (let n = of_char (s ! i) in n < (0x80 :: nat) \<or> 0xC0 \<le> n)"

definition position_of :: "source \<Rightarrow> nat \<Rightarrow> position option" where
  "position_of src n =
     (let b = min n (length (source_text src));
          line_index = length (takeWhile (\<lambda>start. start \<le> b) (line_starts src)) - 1;
          line_start = line_starts src ! line_index in
      if is_char_boundary (source_text src) b then
        Some \<lparr>pos_line = line_index + 1,
              pos_column = length (chars (drop line_start (take b (source_text src)))) + 1,
              pos_byte = b\<rparr>
      else None)"

section \<open>Boundaries of characters\<close>

lemma utf8_simps: "utf8 [] = []" "utf8 (n # cs) = utf8_char n @ utf8 cs" "utf8 (as @ bs) = utf8 as @ utf8 bs"
  by (simp_all add: utf8_def)

text \<open>The boundaries of the characters of valid UTF-8 text.\<close>

definition boundary :: "str \<Rightarrow> nat \<Rightarrow> bool" where
  "boundary t i \<longleftrightarrow> (\<exists>as bs. list_all is_scalar (as @ bs) \<and> t = utf8 (as @ bs) \<and> i = length (utf8 as))"

lemma boundary_ends:
  assumes "list_all is_scalar cs"
  shows "boundary (utf8 cs) 0" "boundary (utf8 cs) (length (utf8 cs))"
proof -
  show "boundary (utf8 cs) 0" using assms unfolding boundary_def by (intro exI [of _ "[]"] exI [of _ cs]) (simp add: utf8_simps)
  show "boundary (utf8 cs) (length (utf8 cs))"
    using assms unfolding boundary_def by (intro exI [of _ cs] exI [of _ "[]"]) (simp add: utf8_simps)
qed

lemma boundary_next:
  assumes "boundary t i" "next_char (drop i t) = Some c"
  shows "boundary t (i + length c)"
proof -
  obtain as bs where t: "list_all is_scalar as" "list_all is_scalar bs" "t = utf8 as @ utf8 bs" "i = length (utf8 as)"
    using assms(1) by (auto simp: boundary_def utf8_simps)
  then have "next_char (utf8 bs) = Some c" using assms(2) by simp
  then obtain n ns where n: "bs = n # ns" "c = utf8_char n"
    using t(2) next_char_utf8 by (cases bs) (auto simp: utf8_simps)
  then show ?thesis
    using t unfolding boundary_def by (intro exI [of _ "as @ [n]"] exI [of _ ns]) (simp add: utf8_simps)
qed

lemma utf8_char_ascii_byte: "b \<in> set (utf8_char n) \<Longrightarrow> of_char b < (0x80 :: nat) \<Longrightarrow> is_scalar n \<Longrightarrow> utf8_char n = [b]"
  by (auto simp: utf8_char_def is_scalar_def of_char_of split: if_splits)

lemma boundary_after_ascii:
  "list_all is_scalar cs \<Longrightarrow> i < length (utf8 cs) \<Longrightarrow> of_char (utf8 cs ! i) < (0x80 :: nat) \<Longrightarrow> boundary (utf8 cs) (Suc i)"
proof (induction cs arbitrary: i)
  case (Cons n cs)
  show ?case
  proof (cases "i < length (utf8_char n)")
    case True
    then have "utf8_char n = [utf8_char n ! i]" using Cons.prems by (intro utf8_char_ascii_byte) (auto simp: nth_append utf8_simps)
    then have "length (utf8_char n) = Suc 0" by (metis length_Cons list.size(3))
    then show ?thesis using Cons.prems True unfolding boundary_def by (intro exI [of _ "[n]"] exI [of _ cs]) (simp add: utf8_simps)
  next
    case False
    then have "boundary (utf8 cs) (Suc (i - length (utf8_char n)))"
      using Cons.prems by (intro Cons.IH) (auto simp: nth_append utf8_simps)
    then obtain as bs where "list_all is_scalar (as @ bs)" "utf8 cs = utf8 (as @ bs)"
      "Suc (i - length (utf8_char n)) = length (utf8 as)" by (auto simp: boundary_def)
    then show ?thesis using Cons.prems(1) False unfolding boundary_def by (intro exI [of _ "n # as"] exI [of _ bs]) (simp add: utf8_simps)
  qed
qed (simp add: utf8_simps)

lemma utf8_char_hd: "is_scalar n \<Longrightarrow> of_char (hd (utf8_char n)) < (0x80 :: nat) \<or> 0xC0 \<le> (of_char (hd (utf8_char n)) :: nat)"
  by (auto simp: utf8_char_def is_scalar_def of_char_of)

lemma boundary_is_char:
  assumes "boundary t i"
  shows "is_char_boundary t i"
proof -
  obtain as bs where t: "list_all is_scalar bs" "t = utf8 as @ utf8 bs" "i = length (utf8 as)"
    using assms by (auto simp: boundary_def utf8_simps)
  show ?thesis
  proof (cases bs)
    case (Cons n ns)
    then have "t ! i = hd (utf8_char n)" using t by (cases "utf8_char n") (simp_all add: nth_append utf8_simps)
    then show ?thesis using Cons t utf8_char_hd [of n] by (simp add: is_char_boundary_def Let_def utf8_simps)
  qed (use t in \<open>simp add: is_char_boundary_def utf8_simps\<close>)
qed

end
