(* ===== verification/Lexer.thy ===== *)
theory Lexer
  imports Source_Text
begin

text \<open>
  The lexer (\<open>krit/src/token.rs\<close>, \<open>krit/src/lexer.rs\<close>).  A handler takes the lexer and returns it with
  the cursor moved and the tokens pushed, or the diagnostic.  Every loop moves the cursor forward, which
  is what its termination rests on.
\<close>

section \<open>Tokens\<close>

datatype template_part = TextPart str span | HolePart "(str \<times> span) list" span

record template =
  tpl_parts :: "template_part list"
  text_block_lines :: "str list option"

datatype token_kind =
    TIdentifier str | TInteger str | TString str | TTemplate template
  | TLet | TFn | TWebhook | TIf | TElse | TMatch | TRecord | TTrue | TFalse
  | TLeftParen | TRightParen | TLeftBrace | TRightBrace | TLeftBracket | TRightBracket
  | TComma | TColon | TSemicolon | TQuestion | TDot | TEqual | TEqualEqual | TBang | TBangEqual
  | TLess | TLessEqual | TGreater | TGreaterEqual | TPlus | TMinus | TStar | TSlash | TPercent
  | TAndAnd | TOrOr | TDotDot | TFatArrow | TThinArrow | TEof

record token =
  tok_kind :: token_kind
  tok_span :: span

definition token_new :: "token_kind \<Rightarrow> span \<Rightarrow> token" where
  "token_new k s = \<lparr>tok_kind = k, tok_span = s\<rparr>"

definition description :: "token_kind \<Rightarrow> str" where
  "description k =
     (case k of
        TIdentifier _ \<Rightarrow> ''identifier'' | TInteger _ \<Rightarrow> ''integer''
      | TString _ \<Rightarrow> ''string'' | TTemplate _ \<Rightarrow> ''string''
      | TLet \<Rightarrow> backquoted ''let'' | TFn \<Rightarrow> backquoted ''fn'' | TWebhook \<Rightarrow> backquoted ''webhook'' | TIf \<Rightarrow> backquoted ''if''
      | TElse \<Rightarrow> backquoted ''else'' | TMatch \<Rightarrow> backquoted ''match'' | TRecord \<Rightarrow> backquoted ''record''
      | TTrue \<Rightarrow> backquoted ''true'' | TFalse \<Rightarrow> backquoted ''false''
      | TLeftParen \<Rightarrow> backquoted ''('' | TRightParen \<Rightarrow> backquoted '')'' | TLeftBrace \<Rightarrow> backquoted ''{'' | TRightBrace \<Rightarrow> backquoted ''}''
      | TLeftBracket \<Rightarrow> backquoted ''['' | TRightBracket \<Rightarrow> backquoted '']''
      | TComma \<Rightarrow> backquoted '','' | TColon \<Rightarrow> backquoted '':'' | TSemicolon \<Rightarrow> backquoted '';'' | TQuestion \<Rightarrow> backquoted ''?''
      | TDot \<Rightarrow> backquoted ''.'' | TEqual \<Rightarrow> backquoted ''='' | TEqualEqual \<Rightarrow> backquoted ''=='' | TBang \<Rightarrow> backquoted ''!''
      | TBangEqual \<Rightarrow> backquoted ''!='' | TLess \<Rightarrow> backquoted ''<'' | TLessEqual \<Rightarrow> backquoted ''<='' | TGreater \<Rightarrow> backquoted ''>''
      | TGreaterEqual \<Rightarrow> backquoted ''>='' | TPlus \<Rightarrow> backquoted ''+'' | TMinus \<Rightarrow> backquoted ''-'' | TStar \<Rightarrow> backquoted ''*''
      | TSlash \<Rightarrow> backquoted ''/'' | TPercent \<Rightarrow> backquoted ''%'' | TAndAnd \<Rightarrow> backquoted ''&&'' | TOrOr \<Rightarrow> backquoted ''||''
      | TDotDot \<Rightarrow> backquoted ''..'' | TFatArrow \<Rightarrow> backquoted ''=>'' | TThinArrow \<Rightarrow> backquoted ''->'' | TEof \<Rightarrow> ''end of file'')"

definition keyword :: "str \<Rightarrow> token_kind option" where
  "keyword word =
     (if word = ''let'' then Some TLet
      else if word = ''fn'' then Some TFn
      else if word = ''webhook'' then Some TWebhook
      else if word = ''if'' then Some TIf
      else if word = ''else'' then Some TElse
      else if word = ''match'' then Some TMatch
      else if word = ''record'' then Some TRecord
      else if word = ''true'' then Some TTrue
      else if word = ''false'' then Some TFalse
      else None)"

section \<open>The cursor\<close>

record comment =
  comment_text :: str
  comment_span :: span
  comment_inline :: bool

record lexer =
  lx_text :: str
  cursor :: nat
  lx_tokens :: "token list"
  lx_comments :: "comment list"

definition lexer_new :: "str \<Rightarrow> lexer" where
  "lexer_new txt = \<lparr>lx_text = txt, cursor = 0, lx_tokens = [], lx_comments = []\<rparr>"

text \<open>The slice \<open>text[a..b]\<close>.\<close>

definition str_slice :: "str \<Rightarrow> nat \<Rightarrow> nat \<Rightarrow> str" where
  "str_slice txt a b = drop a (take b txt)"

definition peek :: "lexer \<Rightarrow> str option" where
  "peek lx = next_char (drop (cursor lx) (lx_text lx))"

definition peek_next :: "lexer \<Rightarrow> str option" where
  "peek_next lx =
     Option.bind (peek lx) (\<lambda>c. next_char (drop (cursor lx + length c) (lx_text lx)))"

text \<open>\<open>advance\<close> returns the character and moves past it; \<open>bump\<close> is the move alone.\<close>

definition bump :: "lexer \<Rightarrow> lexer" where
  "bump lx = (case peek lx of None \<Rightarrow> lx | Some c \<Rightarrow> lx\<lparr>cursor := cursor lx + length c\<rparr>)"

definition advance :: "lexer \<Rightarrow> str option \<times> lexer" where
  "advance lx = (peek lx, bump lx)"

text \<open>\<open>consume\<close>: whether the next character is the expected one, and the lexer after it.\<close>

definition consume :: "str \<Rightarrow> lexer \<Rightarrow> bool \<times> lexer" where
  "consume expected lx = (if peek lx = Some expected then (True, bump lx) else (False, lx))"

definition push_token :: "token_kind \<Rightarrow> nat \<Rightarrow> lexer \<Rightarrow> lexer" where
  "push_token k start lx = lx\<lparr>lx_tokens := lx_tokens lx @ [token_new k (span_new start (cursor lx))]\<rparr>"

text \<open>How much text is left, the measure of every loop.\<close>

definition left :: "lexer \<Rightarrow> nat" where
  "left lx = length (lx_text lx) - cursor lx"

lemma peek_None: "peek lx = None \<longleftrightarrow> length (lx_text lx) \<le> cursor lx"
  by (simp add: peek_def next_char_None)

lemma peek_length: "peek lx = Some c \<Longrightarrow> 0 < length c \<and> cursor lx + length c \<le> length (lx_text lx)"
  using next_char_length [of "drop (cursor lx) (lx_text lx)" c]
  by (cases "cursor lx \<le> length (lx_text lx)") (auto simp: peek_def)

lemma bump_text [simp]:
  "lx_text (bump lx) = lx_text lx" "lx_tokens (bump lx) = lx_tokens lx"
  "lx_comments (bump lx) = lx_comments lx"
  by (simp_all add: bump_def split: option.splits)

lemma bump_cursor: "peek lx = Some c \<Longrightarrow> cursor (bump lx) = cursor lx + length c"
  by (simp add: bump_def)

lemma left_bump: "peek lx = Some c \<Longrightarrow> left (bump lx) < left lx"
  using peek_length [of lx c] bump_cursor [of lx c] unfolding left_def bump_text by linarith

text \<open>\<open>moved\<close>: only the cursor moved, forward, not past the end of the text and to a boundary of the characters.\<close>

definition moved :: "lexer \<Rightarrow> lexer \<Rightarrow> bool" where
  "moved lx lx' \<longleftrightarrow>
     lx_text lx' = lx_text lx \<and> lx_tokens lx' = lx_tokens lx \<and> lx_comments lx' = lx_comments lx \<and>
     cursor lx \<le> cursor lx' \<and> (cursor lx' = cursor lx \<or> cursor lx' \<le> length (lx_text lx)) \<and>
     (boundary (lx_text lx) (cursor lx) \<longrightarrow> boundary (lx_text lx) (cursor lx'))"

lemma moved_refl [simp]: "moved lx lx" by (simp add: moved_def)

lemma moved_trans: "moved a b \<Longrightarrow> moved b c \<Longrightarrow> moved a c" by (auto simp: moved_def)

lemma moved_bump [simp]: "moved lx (bump lx)"
  using peek_length [of lx] boundary_next [of "lx_text lx" "cursor lx"]
  by (auto simp: moved_def bump_def peek_def split: option.splits)

lemma moved_left: "moved lx lx' \<Longrightarrow> left lx' \<le> left lx"
  by (auto simp: moved_def left_def diff_le_mono2)

text \<open>\<open>emits\<close>: the cursor moved and one token was pushed, from \<open>start\<close> to the cursor.\<close>

definition emits :: "nat \<Rightarrow> lexer \<Rightarrow> lexer \<Rightarrow> bool" where
  "emits start lx lx' \<longleftrightarrow> (\<exists>k lx1. k \<noteq> TEof \<and> moved lx lx1 \<and> lx' = push_token k start lx1)"

lemma emitsI: "moved lx lx1 \<Longrightarrow> k \<noteq> TEof \<Longrightarrow> emits start lx (push_token k start lx1)"
  by (auto simp: emits_def)

function advance_while :: "(str \<Rightarrow> bool) \<Rightarrow> lexer \<Rightarrow> lexer" where
  "advance_while P lx =
     (case peek lx of
        None \<Rightarrow> lx
      | Some c \<Rightarrow> if P c then advance_while P (bump lx) else lx)"
  by pat_completeness auto
termination
  by (relation "measure (left \<circ> snd)") (simp_all add: left_bump)

declare advance_while.simps [simp del]

lemma moved_advance_while: "moved lx (advance_while P lx)"
proof (induction P lx rule: advance_while.induct)
  case (1 P lx)
  then show ?case
    by (subst advance_while.simps) (auto split: option.splits intro: moved_trans [OF moved_bump])
qed

section \<open>Trivia, identifiers, integers\<close>

definition is_line_break :: "char \<Rightarrow> bool" where
  "is_line_break b \<longleftrightarrow> b = CHR 0x0A \<or> b = CHR 0x0D"

definition line_break_char :: "str \<Rightarrow> bool" where
  "line_break_char c \<longleftrightarrow> c = [CHR 0x0A] \<or> c = [CHR 0x0D]"

text \<open>\<open>text.rfind(['\n', '\r']).map_or(0, |index| index + 1)\<close>.\<close>

definition line_start_of :: "str \<Rightarrow> nat" where
  "line_start_of before = length before - length (takeWhile (\<lambda>b. \<not> is_line_break b) (rev before))"

definition line_comment :: "lexer \<Rightarrow> lexer" where
  "line_comment lx =
     (let start = cursor lx;
          line_start = line_start_of (take start (lx_text lx));
          inline = list_ex (\<lambda>c. \<not> is_whitespace c) (chars (str_slice (lx_text lx) line_start start));
          lx' = advance_while (\<lambda>c. \<not> line_break_char c) lx in
      lx'\<lparr>lx_comments := lx_comments lx' @
        [\<lparr>comment_text = str_slice (lx_text lx') start (cursor lx'),
          comment_span = span_new start (cursor lx'), comment_inline = inline\<rparr>]\<rparr>)"

text \<open>\<open>skipped\<close>: the cursor moved and only comments were added.\<close>

definition skipped :: "lexer \<Rightarrow> lexer \<Rightarrow> bool" where
  "skipped lx lx' \<longleftrightarrow>
     moved lx (lx'\<lparr>lx_comments := lx_comments lx\<rparr>) \<and> prefix (lx_comments lx) (lx_comments lx')"

lemma skipped_moved: "moved lx lx' \<Longrightarrow> skipped lx lx'"
  by (simp add: skipped_def moved_def)

lemma skipped_trans: "skipped a b \<Longrightarrow> skipped b c \<Longrightarrow> skipped a c"
  by (auto simp: skipped_def moved_def intro: prefix_order.trans)

lemma skipped_left: "skipped lx lx' \<Longrightarrow> left lx' \<le> left lx"
  by (auto simp: skipped_def moved_def left_def diff_le_mono2)

lemma line_comment_skipped: "skipped lx (line_comment lx)"
  using moved_advance_while [of lx "\<lambda>c. \<not> line_break_char c"]
  by (simp add: skipped_def moved_def line_comment_def Let_def)

lemma line_comment_left:
  assumes "peek lx = Some ''/''"
  shows "left (line_comment lx) < left lx"
proof -
  have "advance_while (\<lambda>c. \<not> line_break_char c) lx = advance_while (\<lambda>c. \<not> line_break_char c) (bump lx)"
    using assms by (subst advance_while.simps) (simp add: line_break_char_def)
  then have "left (line_comment lx) \<le> left (bump lx)"
    using moved_left [OF moved_advance_while [of "bump lx" "\<lambda>c. \<not> line_break_char c"]]
    by (simp add: line_comment_def Let_def left_def)
  then show ?thesis using left_bump [OF assms] by simp
qed

function skip_trivia :: "lexer \<Rightarrow> lexer" where
  "skip_trivia lx =
     (let lx' = advance_while is_whitespace lx in
      if peek lx' = Some ''/'' \<and> peek_next lx' = Some ''/'' then skip_trivia (line_comment lx') else lx')"
  by pat_completeness auto
termination
proof (relation "measure left")
  fix lx lx' :: lexer
  assume "lx' = advance_while is_whitespace lx" "peek lx' = Some ''/'' \<and> peek_next lx' = Some ''/''"
  then show "(line_comment lx', lx) \<in> measure left"
    using line_comment_left [of lx'] moved_left [OF moved_advance_while [of lx is_whitespace]] by simp
qed simp

declare skip_trivia.simps [simp del]

lemma skip_trivia_skipped: "skipped lx (skip_trivia lx)"
proof (induction lx rule: skip_trivia.induct)
  case (1 lx)
  show ?case
    using skipped_moved [OF moved_advance_while [of lx is_whitespace]] 1
    by (subst skip_trivia.simps) (auto simp: Let_def intro: skipped_trans skipped_trans [OF line_comment_skipped])
qed

definition is_word_byte :: "char \<Rightarrow> bool" where
  "is_word_byte b \<longleftrightarrow> is_ascii_alphanumeric b \<or> b = CHR ''_''"

definition is_word_char :: "str \<Rightarrow> bool" where
  "is_word_char c \<longleftrightarrow> (case c of [b] \<Rightarrow> is_word_byte b | _ \<Rightarrow> False)"

definition lex_identifier :: "nat \<Rightarrow> lexer \<Rightarrow> lexer" where
  "lex_identifier start lx =
     (let lx' = advance_while is_word_char lx;
          value = str_slice (lx_text lx') start (cursor lx');
          kind = (case keyword value of Some k \<Rightarrow> k | None \<Rightarrow> TIdentifier value) in
      push_token kind start lx')"

definition is_digit_char :: "str \<Rightarrow> bool" where
  "is_digit_char c \<longleftrightarrow> (case c of [b] \<Rightarrow> is_ascii_digit b | _ \<Rightarrow> False)"

definition is_alphabetic_byte :: "char \<Rightarrow> bool" where
  "is_alphabetic_byte b \<longleftrightarrow> is_ascii_lowercase b \<or> is_ascii_uppercase b"

definition is_alphabetic_char :: "str \<Rightarrow> bool" where
  "is_alphabetic_char c \<longleftrightarrow> (case c of [b] \<Rightarrow> is_alphabetic_byte b | _ \<Rightarrow> False)"

function integer_digits :: "nat \<Rightarrow> bool \<Rightarrow> lexer \<Rightarrow> (diagnostic, bool \<times> lexer) result" where
  "integer_digits start previous_separator lx =
     (case peek lx of
        None \<Rightarrow> Inr (previous_separator, lx)
      | Some c \<Rightarrow>
          if is_digit_char c then integer_digits start False (bump lx)
          else if c = ''_'' then
            if \<not> previous_separator then integer_digits start True (bump lx)
            else Inl (diagnostic_new ''K0001'' ''integer separators cannot be repeated''
              (span_new start (cursor lx + 1)))
          else if is_alphabetic_char c then
            Inl (diagnostic_new ''K0001'' ''an integer and identifier must be separated''
              (span_new start (cursor (bump lx))))
          else Inr (previous_separator, lx))"
  by pat_completeness auto
termination
  by (relation "measure (\<lambda>(_, _, lx). left lx)") (simp_all add: left_bump)

declare integer_digits.simps [simp del]

definition lex_integer :: "nat \<Rightarrow> lexer \<Rightarrow> (diagnostic, lexer) result" where
  "lex_integer start lx =
     (case integer_digits start False lx of
        Inl d \<Rightarrow> Inl d
      | Inr (previous_separator, lx') \<Rightarrow>
          if previous_separator then
            Inl (diagnostic_new ''K0001'' ''an integer separator cannot be trailing''
              (span_new start (cursor lx')))
          else
            Inr (push_token
              (TInteger (filter (\<lambda>b. b \<noteq> CHR ''_'') (str_slice (lx_text lx') start (cursor lx')))) start lx'))"

lemma integer_digits_moved: "integer_digits start p lx = Inr (p', lx') \<Longrightarrow> moved lx lx'"
proof (induction start p lx rule: integer_digits.induct)
  case (1 start p lx)
  from 1(3) show ?case
    by (subst (asm) integer_digits.simps)
       (auto split: option.splits if_splits dest: 1(1,2) intro: moved_trans [OF moved_bump])
qed

lemma lex_integer_emits: "lex_integer start lx = Inr lx' \<Longrightarrow> emits start lx lx'"
  using integer_digits_moved [of start False lx]
  by (auto simp: lex_integer_def split: sum.splits if_splits intro!: emitsI)

lemma keyword_not_Eof: "keyword w \<noteq> Some TEof"
  by (simp add: keyword_def)

lemma lex_identifier_emits: "emits start lx (lex_identifier start lx)"
  unfolding lex_identifier_def Let_def
  by (rule emitsI [OF moved_advance_while]) (auto split: option.splits simp: keyword_not_Eof)

section \<open>Parts of a string\<close>

record parts_builder =
  pb_parts :: "template_part list"
  pb_text :: str
  pb_text_span :: "span option"

definition parts_default :: parts_builder where
  "parts_default = \<lparr>pb_parts = [], pb_text = [], pb_text_span = None\<rparr>"

definition push_text :: "str \<Rightarrow> span \<Rightarrow> parts_builder \<Rightarrow> parts_builder" where
  "push_text c s pb =
     pb\<lparr>pb_text := pb_text pb @ c,
        pb_text_span := Some (case pb_text_span pb of None \<Rightarrow> s | Some t \<Rightarrow> span_join t s)\<rparr>"

definition flush_text :: "parts_builder \<Rightarrow> parts_builder" where
  "flush_text pb =
     (case pb_text_span pb of
        None \<Rightarrow> pb
      | Some s \<Rightarrow>
          pb\<lparr>pb_parts := pb_parts pb @ [TextPart (pb_text pb) s], pb_text := [], pb_text_span := None\<rparr>)"

definition push_hole :: "(str \<times> span) list \<Rightarrow> span \<Rightarrow> parts_builder \<Rightarrow> parts_builder" where
  "push_hole p s pb = (let pb' = flush_text pb in pb'\<lparr>pb_parts := pb_parts pb' @ [HolePart p s]\<rparr>)"

definition has_holes :: "parts_builder \<Rightarrow> bool" where
  "has_holes pb \<longleftrightarrow> pb_parts pb \<noteq> []"

definition parts_finish :: "parts_builder \<Rightarrow> template_part list" where
  "parts_finish pb = pb_parts (flush_text pb)"

section \<open>Interpolation holes\<close>

datatype hole_problem = HoleEmpty | HoleWhitespace | NotAPath

text \<open>The spelling \<open>\(name)\<close> of a hole.\<close>

definition hole_text :: "str \<Rightarrow> str" where
  "hole_text name = CHR 0x5C # ''('' @ name @ '')''"

definition hole_diagnostic :: "hole_problem \<Rightarrow> span \<Rightarrow> diagnostic" where
  "hole_diagnostic problem s =
     (case problem of
        HoleEmpty \<Rightarrow>
          with_note (''write the name of a '' @ backquoted ''String'' @ '' value between '' @
              backquoted [CHR 0x5C, CHR ''(''] @ '' and '' @ backquoted '')'' @ '', as in '' @
              backquoted (hole_text ''name''))
            (diagnostic_new ''K3015'' ''interpolation hole is empty'' s)
      | HoleWhitespace \<Rightarrow>
          with_note (''write the hole without spaces, as in '' @ backquoted (hole_text ''request.path''))
            (diagnostic_new ''K3015'' ''an interpolation hole cannot contain whitespace'' s)
      | NotAPath \<Rightarrow>
          with_note (''bind the value to a name first ('' @ backquoted ''let text = ...;'' @ ''), then write '' @
              backquoted (hole_text ''text''))
            (diagnostic_new ''K3015''
              (''an interpolation hole holds only a name and its field accesses, such as '' @
               backquoted (hole_text ''name'') @ '' or '' @ backquoted (hole_text ''request.path'')) s))"

definition is_identifier :: "str \<Rightarrow> bool" where
  "is_identifier segment \<longleftrightarrow>
     (case segment of [] \<Rightarrow> False | b # _ \<Rightarrow> is_alphabetic_byte b \<or> b = CHR ''_'') \<and>
     list_all is_word_byte segment \<and> keyword segment = None"

text \<open>The loop of \<open>hole_path\<close>; \<open>None\<close> at the first segment that is not an identifier.\<close>

fun path_segments :: "nat \<Rightarrow> str list \<Rightarrow> (str \<times> span) list option" where
  "path_segments start [] = Some []"
| "path_segments start (segment # segments) =
     (if is_identifier segment then
        map_option (Cons (segment, span_new start (start + length segment)))
          (path_segments (start + length segment + 1) segments)
      else None)"

function hole_path :: "str \<Rightarrow> nat \<Rightarrow> (hole_problem, (str \<times> span) list) result" where
  "hole_path content start =
     (if trim content = [] then Inl HoleEmpty
      else case path_segments start (split_on CHR ''.'' content) of
        Some p \<Rightarrow> Inr p
      | None \<Rightarrow>
          let trimmed = join ''.'' (map trim (split_on CHR ''.'' content)) in
          if length trimmed < length content then
            (case hole_path trimmed 0 of Inr _ \<Rightarrow> Inl HoleWhitespace | Inl _ \<Rightarrow> Inl NotAPath)
          else Inl NotAPath)"
  by pat_completeness auto
termination
  by (relation "measure (length \<circ> fst)") simp_all

declare hole_path.simps [simp del]

text \<open>The inner loop of \<open>hole\<close>, over a quoted string; \<open>None\<close> when the hole is not closed.\<close>

function skip_quoted :: "lexer \<Rightarrow> lexer option" where
  "skip_quoted lx =
     (case peek lx of
        None \<Rightarrow> None
      | Some c \<Rightarrow>
          let lx' = bump lx in
          if line_break_char c then None
          else if c = [CHR 0x22] then Some lx'
          else if c = [CHR 0x5C] \<and> \<not> (case peek lx' of None \<Rightarrow> True | Some d \<Rightarrow> line_break_char d)
          then skip_quoted (bump lx')
          else skip_quoted lx')"
  by pat_completeness auto
termination
proof (relation "measure left")
  fix lx c lx'
  assume p: "peek lx = Some c" "(lx' :: lexer) = bump lx"
  then show "(lx', lx) \<in> measure left" by (simp add: left_bump)
  show "(bump lx', lx) \<in> measure left"
    using left_bump [OF p(1)] moved_left [OF moved_bump, of lx'] p(2) by simp
qed simp

declare skip_quoted.simps [simp del]

lemma skip_quoted_moved: "skip_quoted lx = Some lx' \<Longrightarrow> moved lx lx'"
proof (induction lx rule: skip_quoted.induct)
  case (1 lx)
  from 1(3) show ?case
    by (subst (asm) skip_quoted.simps)
       (auto simp: Let_def split: option.splits if_splits dest: 1(1,2)
         intro: moved_trans [OF moved_bump] moved_trans [OF moved_bump moved_trans [OF moved_bump]])
qed

text \<open>The outer loop of \<open>hole\<close>: the end of the content and the lexer after the closing parenthesis.\<close>

function hole_content :: "nat \<Rightarrow> lexer \<Rightarrow> (nat \<times> lexer) option" where
  "hole_content depth lx =
     (case peek lx of
        None \<Rightarrow> None
      | Some c \<Rightarrow>
          if line_break_char c then None
          else if c = '')'' \<and> depth = 0 then Some (cursor lx, bump lx)
          else if c = [CHR 0x22] then
            (case skip_quoted (bump lx) of None \<Rightarrow> None | Some lx' \<Rightarrow> hole_content depth lx')
          else
            hole_content (if c = ''('' then depth + 1 else if c = '')'' then depth - 1 else depth) (bump lx))"
  by pat_completeness auto
termination
proof (relation "measure (left \<circ> snd)")
  fix depth lx c lx'
  assume "peek lx = Some c" "skip_quoted (bump lx) = Some lx'"
  then show "((depth, lx'), depth, lx) \<in> measure (left \<circ> snd)"
    using left_bump [of lx c] moved_left [OF skip_quoted_moved] by fastforce
qed (simp_all add: left_bump)

declare hole_content.simps [simp del]

lemma hole_content_moved: "hole_content depth lx = Some (e, lx') \<Longrightarrow> moved lx lx'"
proof (induction depth lx rule: hole_content.induct)
  case (1 depth lx)
  from 1(3) show ?case
    using moved_trans [OF moved_bump skip_quoted_moved]
    by (subst (asm) hole_content.simps)
       (auto split: option.splits if_splits dest: 1(1,2) intro: moved_trans [OF moved_bump], blast intro: 1(1) moved_trans)
qed

definition lex_hole :: "nat \<Rightarrow> lexer \<Rightarrow> (diagnostic, ((str \<times> span) list \<times> span) \<times> lexer) result" where
  "lex_hole hole_start lx =
     (let lx1 = bump lx; content_start = cursor lx1 in
      case hole_content 0 lx1 of
        None \<Rightarrow>
          Inl (with_note (''end the hole with '' @ backquoted '')'' @ '' right after the name, as in '' @
              backquoted (hole_text ''name''))
            (diagnostic_new ''K3015'' ''interpolation hole is not closed'' (span_new hole_start content_start)))
      | Some (content_end, lx2) \<Rightarrow>
          let s = span_new hole_start (cursor lx2) in
          (case hole_path (str_slice (lx_text lx) content_start content_end) content_start of
             Inl problem \<Rightarrow> Inl (hole_diagnostic problem s)
           | Inr p \<Rightarrow> Inr ((p, s), lx2)))"

lemma lex_hole_moved: "lex_hole hole_start lx = Inr (ps, lx') \<Longrightarrow> moved lx lx'"
  by (auto simp: lex_hole_def Let_def split: option.splits sum.splits prod.splits
      intro: moved_trans [OF moved_bump] dest: hole_content_moved)

section \<open>Escapes and strings\<close>

definition hex_digit_value :: "char \<Rightarrow> nat option" where
  "hex_digit_value b =
     (let n = of_char b in
      if 0x30 \<le> n \<and> n \<le> 0x39 then Some (n - 0x30)
      else if 0x61 \<le> n \<and> n \<le> 0x66 then Some (n - 0x61 + 10)
      else if 0x41 \<le> n \<and> n \<le> 0x46 then Some (n - 0x41 + 10)
      else None)"

definition is_hex_char :: "str \<Rightarrow> bool" where
  "is_hex_char c \<longleftrightarrow> (case c of [b] \<Rightarrow> hex_digit_value b \<noteq> None | _ \<Rightarrow> False)"

text \<open>\<open>u32::from_str_radix(digits, 16)\<close>, which cannot overflow on six digits.\<close>

definition hex_value :: "str \<Rightarrow> nat" where
  "hex_value digits = foldl (\<lambda>n b. 16 * n + (case hex_digit_value b of Some d \<Rightarrow> d | None \<Rightarrow> 0)) 0 digits"

function hex_digits :: "nat \<Rightarrow> lexer \<Rightarrow> lexer" where
  "hex_digits digits_start lx =
     (case peek lx of
        None \<Rightarrow> lx
      | Some c \<Rightarrow>
          if is_hex_char c \<and> cursor lx - digits_start < 6 then hex_digits digits_start (bump lx) else lx)"
  by pat_completeness auto
termination
  by (relation "measure (left \<circ> snd)") (simp_all add: left_bump)

declare hex_digits.simps [simp del]

lemma hex_digits_moved: "moved lx (hex_digits n lx)"
proof (induction n lx rule: hex_digits.induct)
  case (1 n lx)
  then show ?case
    by (subst hex_digits.simps) (auto split: option.splits intro: moved_trans [OF moved_bump])
qed

definition unicode_escape :: "nat \<Rightarrow> lexer \<Rightarrow> (diagnostic, str \<times> lexer) result" where
  "unicode_escape escape_start lx =
     (case consume ''{'' lx of
        (False, lx1) \<Rightarrow>
          Inl (diagnostic_new ''K0003'' (''a Unicode escape must use '' @ backquoted (CHR 0x5C # ''u{...}''))
            (span_new escape_start (cursor lx1)))
      | (True, lx1) \<Rightarrow>
          let digits_start = cursor lx1; lx2 = hex_digits digits_start lx1 in
          if digits_start = cursor lx2 then
            Inl (diagnostic_new ''K0003'' ''invalid Unicode escape'' (span_new escape_start (cursor lx2)))
          else
            (case consume ''}'' lx2 of
               (False, lx3) \<Rightarrow>
                 Inl (diagnostic_new ''K0003'' ''invalid Unicode escape'' (span_new escape_start (cursor lx3)))
             | (True, lx3) \<Rightarrow>
                 let scalar = hex_value (str_slice (lx_text lx3) digits_start (cursor lx3 - 1)) in
                 if is_scalar scalar then Inr (utf8_char scalar, lx3)
                 else Inl (diagnostic_new ''K0003'' ''Unicode escape is not a valid scalar value''
                   (span_new escape_start (cursor lx3)))))"

definition simple_escape :: "str \<Rightarrow> str option" where
  "simple_escape c =
     (if c = [CHR 0x22] then Some [CHR 0x22]
      else if c = [CHR 0x5C] then Some [CHR 0x5C]
      else if c = ''n'' then Some [CHR 0x0A]
      else if c = ''r'' then Some [CHR 0x0D]
      else if c = ''t'' then Some [CHR 0x09]
      else if c = ''0'' then Some [CHR 0x00]
      else None)"

definition lex_escape :: "nat \<Rightarrow> lexer \<Rightarrow> (diagnostic, str \<times> lexer) result" where
  "lex_escape string_start lx =
     (let escape_start = cursor lx - 1 in
      case peek lx of
        None \<Rightarrow> Inl (diagnostic_new ''K0002'' ''unterminated string'' (span_new string_start (cursor lx)))
      | Some c \<Rightarrow>
          let lx1 = bump lx in
          (case simple_escape c of
             Some escaped \<Rightarrow> Inr (escaped, lx1)
           | None \<Rightarrow>
               if c = ''u'' then unicode_escape escape_start lx1
               else Inl (diagnostic_new ''K0003'' (''invalid string escape '' @ backquoted (CHR 0x5C # c))
                 (span_new escape_start (cursor lx1)))))"

lemma consume_moved: "moved lx (snd (consume c lx))"
  by (simp add: consume_def)

lemma unicode_escape_moved:
  assumes "unicode_escape n lx = Inr (c, lx')"
  shows "moved lx lx'"
proof -
  have "lx' = bump (hex_digits (cursor (bump lx)) (bump lx))"
    using assms by (auto simp: unicode_escape_def consume_def Let_def split: if_splits)
  then show ?thesis using moved_trans [OF moved_bump moved_trans [OF hex_digits_moved moved_bump]] by simp
qed

lemma lex_escape_moved:
  assumes "lex_escape n lx = Inr (e, lx')"
  shows "moved lx lx'"
proof (cases "peek lx")
  case (Some c)
  show ?thesis
  proof (cases "simple_escape c")
    case None
    with assms Some have "unicode_escape (cursor lx - 1) (bump lx) = Inr (e, lx')"
      by (simp add: lex_escape_def Let_def split: if_splits)
    then show ?thesis by (blast intro: moved_trans [OF moved_bump] unicode_escape_moved)
  qed (use assms Some in \<open>auto simp: lex_escape_def Let_def\<close>)
qed (use assms in \<open>simp add: lex_escape_def\<close>)

lemma left_hole: "peek lx = Some c \<Longrightarrow> lex_hole n (bump lx) = Inr (ps, lx') \<Longrightarrow> left lx' < left lx"
  using left_bump [of lx c] moved_left [OF lex_hole_moved] by fastforce

lemma left_escape: "peek lx = Some c \<Longrightarrow> lex_escape n (bump lx) = Inr (e, lx') \<Longrightarrow> left lx' < left lx"
  using left_bump [of lx c] moved_left [OF lex_escape_moved] by fastforce

text \<open>The loop of \<open>string\<close>.\<close>

function string_chars :: "nat \<Rightarrow> parts_builder \<Rightarrow> lexer \<Rightarrow> (diagnostic, lexer) result" where
  "string_chars start pb lx =
     (let character_start = cursor lx in
      case peek lx of
        None \<Rightarrow> Inl (diagnostic_new ''K0002'' ''unterminated string'' (span_new start (cursor lx)))
      | Some c \<Rightarrow>
          let lx1 = bump lx in
          if c = [CHR 0x22] then
            Inr (push_token
              (if has_holes pb then TTemplate \<lparr>tpl_parts = parts_finish pb, text_block_lines = None\<rparr>
               else TString (pb_text pb)) start lx1)
          else if line_break_char c then
            Inl (diagnostic_new ''K0002'' ''unterminated string'' (span_new start (cursor lx1)))
          else if c = [CHR 0x5C] \<and> peek lx1 = Some ''('' then
            (case lex_hole character_start lx1 of
               Inl d \<Rightarrow> Inl d
             | Inr ((p, s), lx2) \<Rightarrow> string_chars start (push_hole p s pb) lx2)
          else if c = [CHR 0x5C] then
            (case lex_escape start lx1 of
               Inl d \<Rightarrow> Inl d
             | Inr (escaped, lx2) \<Rightarrow>
                 string_chars start (push_text escaped (span_new character_start (cursor lx2)) pb) lx2)
          else string_chars start (push_text c (span_new character_start (cursor lx1)) pb) lx1)"
  by pat_completeness auto
termination
  by (relation "measure (\<lambda>(_, _, lx). left lx)") (auto simp: left_bump intro: left_hole left_escape)

declare string_chars.simps [simp del]

text \<open>The invariant rule of the loop: what its three steps keep holds before the closing quote.\<close>

definition string_kind :: "parts_builder \<Rightarrow> token_kind" where
  "string_kind pb =
     (if has_holes pb then TTemplate \<lparr>tpl_parts = parts_finish pb, text_block_lines = None\<rparr>
      else TString (pb_text pb))"

lemma string_chars_inv:
  assumes "string_chars start pb lx = Inr lx'" "I pb lx"
    and plain: "\<And>pb lx c. I pb lx \<Longrightarrow> peek lx = Some c \<Longrightarrow> c \<noteq> [CHR 0x22] \<Longrightarrow> c \<noteq> [CHR 0x5C] \<Longrightarrow>
      \<not> line_break_char c \<Longrightarrow> I (push_text c (span_new (cursor lx) (cursor (bump lx))) pb) (bump lx)"
    and hole: "\<And>pb lx p s lx2. I pb lx \<Longrightarrow> peek lx = Some [CHR 0x5C] \<Longrightarrow> peek (bump lx) = Some ''('' \<Longrightarrow>
      lex_hole (cursor lx) (bump lx) = Inr ((p, s), lx2) \<Longrightarrow> I (push_hole p s pb) lx2"
    and escape: "\<And>pb lx e lx2. I pb lx \<Longrightarrow> peek lx = Some [CHR 0x5C] \<Longrightarrow> peek (bump lx) \<noteq> Some ''('' \<Longrightarrow>
      lex_escape start (bump lx) = Inr (e, lx2) \<Longrightarrow> I (push_text e (span_new (cursor lx) (cursor lx2)) pb) lx2"
  shows "\<exists>pb' lx1. I pb' lx1 \<and> peek lx1 = Some [CHR 0x22] \<and> lx' = push_token (string_kind pb') start (bump lx1)"
  using assms(1,2)
proof (induction "left lx" arbitrary: pb lx rule: less_induct)
  case less
  obtain c where p: "peek lx = Some c"
    using less.prems(1) by (subst (asm) string_chars.simps) (auto simp: Let_def split: option.splits)
  have ih: "string_chars start pb2 lx2 = Inr lx' \<Longrightarrow> I pb2 lx2 \<Longrightarrow> left lx2 < left lx \<Longrightarrow> ?case" for pb2 lx2
    using less.hyps by blast
  consider "c = [CHR 0x22]" | "c = [CHR 0x5C]" "peek (bump lx) = Some ''(''"
    | "c = [CHR 0x5C]" "peek (bump lx) \<noteq> Some ''(''" | "c \<noteq> [CHR 0x22]" "c \<noteq> [CHR 0x5C]" by blast
  then show ?case
  proof cases
    case 1
    then have "lx' = push_token (string_kind pb) start (bump lx)"
      using less.prems(1) p by (subst (asm) string_chars.simps) (auto simp: string_kind_def)
    then show ?thesis using less.prems(2) p 1 by blast
  next
    case 2
    then obtain q s lx2 where h: "lex_hole (cursor lx) (bump lx) = Inr ((q, s), lx2)"
      "string_chars start (push_hole q s pb) lx2 = Inr lx'"
      using less.prems(1) p
      by (subst (asm) string_chars.simps) (auto simp: line_break_char_def split: sum.splits)
    show ?thesis using h p 2 by (intro ih [OF h(2)] hole [OF less.prems(2) _ _ h(1)] left_hole [OF p h(1)]) auto
  next
    case 3
    then obtain e lx2 where h: "lex_escape start (bump lx) = Inr (e, lx2)"
      "string_chars start (push_text e (span_new (cursor lx) (cursor lx2)) pb) lx2 = Inr lx'"
      using less.prems(1) p
      by (subst (asm) string_chars.simps) (auto simp: line_break_char_def split: sum.splits)
    show ?thesis using h p 3 by (intro ih [OF h(2)] escape [OF less.prems(2) _ _ h(1)] left_escape [OF p h(1)]) auto
  next
    case 4
    then have h: "\<not> line_break_char c"
      "string_chars start (push_text c (span_new (cursor lx) (cursor (bump lx))) pb) (bump lx) = Inr lx'"
      using less.prems(1) p
      by (subst (asm) string_chars.simps, auto simp: Let_def split: if_splits)+
    show ?thesis using h(1) p 4 by (intro ih [OF h(2)] plain [OF less.prems(2) p] left_bump [OF p]) auto
  qed
qed

lemma string_chars_emits:
  assumes "string_chars start pb lx = Inr lx'"
  shows "emits start lx lx'"
proof -
  have "\<exists>pb' lx1. moved lx lx1 \<and> peek lx1 = Some [CHR 0x22] \<and>
      lx' = push_token (string_kind pb') start (bump lx1)"
    by (rule string_chars_inv [OF assms, of "\<lambda>_. moved lx"])
       (blast intro: moved_refl moved_bump moved_trans lex_hole_moved lex_escape_moved)+
  moreover have "string_kind pb' \<noteq> TEof" for pb' by (simp add: string_kind_def)
  ultimately show ?thesis by (metis emitsI moved_bump moved_trans)
qed

section \<open>Text blocks\<close>

definition line_break_at :: "str \<Rightarrow> nat \<Rightarrow> nat option" where
  "line_break_at txt index =
     (case drop index txt of
        [] \<Rightarrow> None
      | b # rest \<Rightarrow>
          if b = CHR 0x0D \<and> (case rest of c # _ \<Rightarrow> c = CHR 0x0A | [] \<Rightarrow> False) then Some 2
          else if is_line_break b then Some 1 else None)"

definition line_end :: "str \<Rightarrow> nat \<Rightarrow> nat" where
  "line_end txt start = start + length (takeWhile (\<lambda>b. \<not> is_line_break b) (drop start txt))"

definition triple_quote :: str where
  "triple_quote = replicate 3 (CHR 0x22)"

definition unterminated_text_block :: "span \<Rightarrow> diagnostic" where
  "unterminated_text_block opening =
     with_note (''close the text block with '' @ backquoted triple_quote @ '' on a line of its own'')
       (diagnostic_new ''K0002'' ''unterminated text block'' opening)"

definition misplaced_closing_delimiter :: "nat \<Rightarrow> diagnostic" where
  "misplaced_closing_delimiter start =
     with_note (''move the '' @ backquoted triple_quote @ '' to the next line, or write '' @
         backquoted (CHR 0x5C # triple_quote) @ '' for three quote characters in the text'')
       (diagnostic_new ''K0004''
         (''the closing '' @ backquoted triple_quote @ '' of a text block must be on a line of its own'')
         (span_new start (start + 3)))"

text \<open>The scan of one line for a misplaced closing delimiter: its offset in the line.\<close>

fun misplaced_in :: "nat \<Rightarrow> str list \<Rightarrow> nat option" where
  "misplaced_in offset [] = None"
| "misplaced_in offset (c # cs) =
     (if c = [CHR 0x5C] then
        (case cs of [] \<Rightarrow> None | d # ds \<Rightarrow> misplaced_in (offset + length c + length d) ds)
      else if c = [CHR 0x22] \<and> prefix triple_quote (concat (c # cs)) then Some offset
      else misplaced_in (offset + length c) cs)"

fun unclosed_text_block :: "str \<Rightarrow> span \<Rightarrow> (nat \<times> nat) list \<Rightarrow> diagnostic" where
  "unclosed_text_block txt opening [] = unterminated_text_block opening"
| "unclosed_text_block txt opening ((start, fin) # lines) =
     (case misplaced_in 0 (chars (str_slice txt start fin)) of
        Some offset \<Rightarrow> misplaced_closing_delimiter (start + offset)
      | None \<Rightarrow> unclosed_text_block txt opening lines)"

definition is_blank :: "char \<Rightarrow> bool" where
  "is_blank b \<longleftrightarrow> b = CHR '' '' \<or> b = CHR 0x09"

lemma line_break_at_less: "line_break_at txt n = Some k \<Longrightarrow> n < length txt \<and> 0 < k"
  by (cases "n < length txt") (auto simp: line_break_at_def split: list.splits if_splits)

lemma line_end_ge: "start \<le> line_end txt start"
  by (simp add: line_end_def)

text \<open>
  The loop that looks for the closing delimiter: the content lines, the indentation of the closing
  line and where its delimiter starts.
\<close>

function block_lines ::
  "str \<Rightarrow> span \<Rightarrow> (nat \<times> nat) list \<Rightarrow> nat \<Rightarrow> (diagnostic, (nat \<times> nat) list \<times> str \<times> nat) result" where
  "block_lines txt opening lines line_start =
     (let fin = line_end txt line_start;
          line = str_slice txt line_start fin;
          indentation = takeWhile is_blank line in
      if prefix triple_quote (drop (length indentation) line) then
        Inr (lines, indentation, line_start + length indentation)
      else
        let lines' = lines @ [(line_start, fin)] in
        case line_break_at txt fin of
          Some k \<Rightarrow> block_lines txt opening lines' (fin + k)
        | None \<Rightarrow> Inl (unclosed_text_block txt opening lines'))"
  by pat_completeness auto
termination
proof (relation "measure (\<lambda>(txt, _, _, n). length txt - n)")
  fix t op_span lines line_start fin k and lines' :: "(nat \<times> nat) list"
  assume "fin = line_end t line_start" "line_break_at t fin = Some k"
  then show "((t, op_span, lines', fin + k), t, op_span, lines, line_start)
      \<in> measure (\<lambda>(txt, _, _, n). length txt - n)"
    using line_break_at_less [of t fin k] line_end_ge [of line_start t] by simp linarith
qed simp

declare block_lines.simps [simp del]

text \<open>The characters of one content line.\<close>

function block_line_chars ::
  "nat \<Rightarrow> nat \<Rightarrow> parts_builder \<Rightarrow> lexer \<Rightarrow> (diagnostic, parts_builder \<times> lexer) result" where
  "block_line_chars start fin pb lx =
     (if cursor lx < fin then
        let character_start = cursor lx in
        case peek lx of
          None \<Rightarrow> Inr (pb, lx)
        | Some c \<Rightarrow>
            let lx1 = bump lx in
            if c = [CHR 0x22] \<and> prefix [CHR 0x22, CHR 0x22] (str_slice (lx_text lx) (cursor lx1) fin) then
              Inl (misplaced_closing_delimiter character_start)
            else if c = [CHR 0x5C] \<and> peek lx1 = Some ''('' then
              (case lex_hole character_start lx1 of
                 Inl d \<Rightarrow> Inl d
               | Inr ((p, s), lx2) \<Rightarrow> block_line_chars start fin (push_hole p s pb) lx2)
            else if c = [CHR 0x5C] \<and> cursor lx1 = fin then
              Inl (diagnostic_new ''K0003''
                (''invalid string escape: a line of a text block cannot end with '' @ backquoted [CHR 0x5C])
                (span_new character_start (cursor lx1)))
            else if c = [CHR 0x5C] then
              (case lex_escape start lx1 of
                 Inl d \<Rightarrow> Inl d
               | Inr (escaped, lx2) \<Rightarrow>
                   block_line_chars start fin
                     (push_text escaped (span_new character_start (cursor lx2)) pb) lx2)
            else block_line_chars start fin (push_text c (span_new character_start (cursor lx1)) pb) lx1
      else Inr (pb, lx))"
  by pat_completeness auto
termination
  by (relation "measure (\<lambda>(_, _, _, lx). left lx)") (auto simp: left_bump intro: left_hole left_escape)

declare block_line_chars.simps [simp del]

lemma block_line_chars_inv:
  assumes "block_line_chars start fin pb lx = Inr (pb', lx')" "I pb lx"
    and plain: "\<And>pb lx c. I pb lx \<Longrightarrow> peek lx = Some c \<Longrightarrow> cursor lx < fin \<Longrightarrow> c \<noteq> [CHR 0x5C] \<Longrightarrow>
      I (push_text c (span_new (cursor lx) (cursor (bump lx))) pb) (bump lx)"
    and hole: "\<And>pb lx p s lx2. I pb lx \<Longrightarrow> peek lx = Some [CHR 0x5C] \<Longrightarrow> peek (bump lx) = Some ''('' \<Longrightarrow>
      lex_hole (cursor lx) (bump lx) = Inr ((p, s), lx2) \<Longrightarrow> I (push_hole p s pb) lx2"
    and escape: "\<And>pb lx e lx2. I pb lx \<Longrightarrow> peek lx = Some [CHR 0x5C] \<Longrightarrow> cursor (bump lx) \<noteq> fin \<Longrightarrow>
      lex_escape start (bump lx) = Inr (e, lx2) \<Longrightarrow> I (push_text e (span_new (cursor lx) (cursor lx2)) pb) lx2"
  shows "I pb' lx'"
  using assms(1,2)
proof (induction "left lx" arbitrary: pb lx rule: less_induct)
  case less
  have ih: "block_line_chars start fin pb2 lx2 = Inr (pb', lx') \<Longrightarrow> I pb2 lx2 \<Longrightarrow> left lx2 < left lx \<Longrightarrow> ?case"
    for pb2 lx2 using less.hyps by blast
  note unfolded = less.prems(1) [unfolded block_line_chars.simps [of start fin pb lx] Let_def]
  consider "\<not> cursor lx < fin \<or> peek lx = None" | c where "cursor lx < fin" "peek lx = Some c" by force
  then show ?case
  proof cases
    case 1
    then show ?thesis using unfolded less.prems(2) by (auto split: if_splits)
  next
    case (2 c)
    consider "c = [CHR 0x5C]" "peek (bump lx) = Some ''(''"
      | "c = [CHR 0x5C]" "peek (bump lx) \<noteq> Some ''(''" | "c \<noteq> [CHR 0x5C]" by blast
    then show ?thesis
    proof cases
      case a: 1
      then obtain q s lx2 where h: "lex_hole (cursor lx) (bump lx) = Inr ((q, s), lx2)"
        "block_line_chars start fin (push_hole q s pb) lx2 = Inr (pb', lx')"
        using unfolded 2 by (auto split: sum.splits)
      show ?thesis using h 2 a by (intro ih [OF h(2)] hole [OF less.prems(2) _ _ h(1)] left_hole [OF 2(2) h(1)]) auto
    next
      case b: 2
      then obtain e lx2 where h: "lex_escape start (bump lx) = Inr (e, lx2)" "cursor (bump lx) \<noteq> fin"
        "block_line_chars start fin (push_text e (span_new (cursor lx) (cursor lx2)) pb) lx2 = Inr (pb', lx')"
        using unfolded 2 by (auto split: sum.splits if_splits)
      show ?thesis using h 2 b
        by (intro ih [OF h(3)] escape [OF less.prems(2) _ h(2,1)] left_escape [OF 2(2) h(1)]) auto
    next
      case 3
      then have h: "block_line_chars start fin (push_text c (span_new (cursor lx) (cursor (bump lx))) pb) (bump lx)
          = Inr (pb', lx')"
        using unfolded 2 by (auto split: if_splits)
      show ?thesis using 2 3 by (intro ih [OF h] plain [OF less.prems(2) 2(2)] left_bump [OF 2(2)]) auto
    qed
  qed
qed

text \<open>The loop over the content lines; \<open>previous\<close> is the end of the line before.\<close>

fun block_content ::
  "nat \<Rightarrow> str \<Rightarrow> nat option \<Rightarrow> (nat \<times> nat) list \<Rightarrow> parts_builder \<Rightarrow> str list \<Rightarrow> lexer \<Rightarrow>
     (diagnostic, parts_builder \<times> str list \<times> lexer) result" where
  "block_content start indentation previous [] pb raw_lines lx = Inr (pb, raw_lines, lx)"
| "block_content start indentation previous ((line_start, fin) # lines) pb raw_lines lx =
     (let pb1 = (case previous of
            None \<Rightarrow> pb
          | Some previous_end \<Rightarrow> push_text [CHR 0x0A] (span_new previous_end line_start) pb);
          line = str_slice (lx_text lx) line_start fin;
          content_start =
            (if prefix indentation line then Some (line_start + length indentation)
             else if list_all is_blank line then Some fin else None) in
      case content_start of
        None \<Rightarrow>
          let content = dropWhile is_blank line;
              first = (case next_char content of None \<Rightarrow> 0 | Some c \<Rightarrow> length c) in
          Inl (with_note (''indent every line at least as far as the closing '' @ backquoted triple_quote @
              '', with the same spaces and tabs; that indentation is removed from each line'')
            (diagnostic_new ''K0004''
              (''a text block line must start with the indentation of the closing '' @ backquoted triple_quote)
              (span_new line_start (fin - length content + first))))
      | Some begin_at \<Rightarrow>
          (case block_line_chars start fin pb1 (lx\<lparr>cursor := begin_at\<rparr>) of
             Inl d \<Rightarrow> Inl d
           | Inr (pb2, lx2) \<Rightarrow>
               block_content start indentation (Some fin) lines pb2
                 (raw_lines @ [str_slice (lx_text lx) begin_at fin]) lx2))"

definition lex_text_block :: "nat \<Rightarrow> lexer \<Rightarrow> (diagnostic, lexer) result" where
  "lex_text_block start lx =
     (let txt = lx_text lx; opening = span_new start (start + 3); cur = start + 3 in
      case line_break_at txt cur of
        None \<Rightarrow>
          if cur = length txt then Inl (unterminated_text_block opening)
          else
            Inl (with_note (''end the line right after the opening '' @ backquoted triple_quote @
                '', without trailing spaces, and start the text on the next line; a one-line string is written '' @
                backquoted ([CHR 0x22] @ ''...'' @ [CHR 0x22]))
              (diagnostic_new ''K0004''
                (''a text block's opening '' @ backquoted triple_quote @ '' must end its line'') opening))
      | Some break_length \<Rightarrow>
          (case block_lines txt opening [] (cur + break_length) of
             Inl d \<Rightarrow> Inl d
           | Inr (lines, indentation, close_start) \<Rightarrow>
               (case block_content start indentation None lines parts_default [] lx of
                  Inl d \<Rightarrow> Inl d
                | Inr (pb, raw_lines, lx2) \<Rightarrow>
                    Inr (push_token
                      (TTemplate \<lparr>tpl_parts = parts_finish pb, text_block_lines = Some raw_lines\<rparr>) start
                      (lx2\<lparr>cursor := close_start + 3\<rparr>)))))"

lemma str_slice_prefix_length:
  "prefix p (drop k (str_slice t a b)) \<Longrightarrow> p \<noteq> [] \<Longrightarrow> a + k + length p \<le> length t"
  by (drule prefix_length_le) (cases p; auto simp: str_slice_def min_def split: if_splits)

lemma str_slice_prefix_nth:
  assumes "prefix p (drop k (str_slice t a b))" "j < length p"
  shows "t ! (a + k + j) = p ! j"
proof -
  obtain r where r: "drop k (drop a (take b t)) = p @ r" using assms(1) by (auto simp: prefix_def str_slice_def)
  have "p ! j = drop (a + k) (take b t) ! j"
    using arg_cong [OF r, of "\<lambda>l. l ! j"] assms(2) by (simp add: nth_append add.commute)
  moreover have "a + k + j < length (take b t)"
    using arg_cong [OF r, of length] assms(2) by (simp del: length_take add: add.commute)
  ultimately show ?thesis by simp
qed

lemma block_lines_close:
  "block_lines t op_span lines n = Inr (lines', i, close) \<Longrightarrow>
     n \<le> close \<and> close + 3 \<le> length t \<and> t ! (close + 2) = CHR 0x22"
proof (induction t op_span lines n rule: block_lines.induct)
  case (1 t op_span lines n)
  show ?case
  proof (cases "prefix triple_quote
      (drop (length (takeWhile is_blank (str_slice t n (line_end t n)))) (str_slice t n (line_end t n)))")
    case True
    then show ?thesis
      using 1(2) str_slice_prefix_length [OF True] str_slice_prefix_nth [OF True, of 2]
      by (subst (asm) block_lines.simps) (auto simp: Let_def triple_quote_def)
  next
    case False
    then show ?thesis
      using 1(2) line_end_ge [of n t]
      by (subst (asm) block_lines.simps)
         (auto simp: Let_def split: option.splits dest!: 1(1) [OF refl refl refl _ refl])
  qed
qed

text \<open>In a text block the cursor also moves back to the start of a line.\<close>

definition same_but_cursor :: "lexer \<Rightarrow> lexer \<Rightarrow> bool" where
  "same_but_cursor lx lx' \<longleftrightarrow>
     lx_text lx' = lx_text lx \<and> lx_tokens lx' = lx_tokens lx \<and> lx_comments lx' = lx_comments lx"

lemma block_line_chars_same: "block_line_chars start fin pb lx = Inr (pb', lx') \<Longrightarrow> same_but_cursor lx lx'"
  by (rule block_line_chars_inv [where I = "\<lambda>_. same_but_cursor lx"])
     (auto simp: same_but_cursor_def moved_def dest!: lex_hole_moved lex_escape_moved)

lemma block_content_same:
  "block_content start indentation previous lines pb raw lx = Inr (pb', raw', lx') \<Longrightarrow>
     same_but_cursor lx lx'"
proof (induction lines arbitrary: previous pb raw lx)
  case (Cons l lines)
  from Cons.prems show ?case
    by (cases l)
       (auto simp: Let_def split: if_splits option.splits sum.splits
         simp: same_but_cursor_def dest!: Cons.IH block_line_chars_same)
qed (simp add: same_but_cursor_def)

lemma lex_text_block_emits:
  assumes "lex_text_block start lx = Inr lx'" "cursor lx \<le> start + 3"
  shows "emits start lx lx'"
proof -
  obtain k op_span n lines i close pb raw lx2 where
    b: "block_lines (lx_text lx) op_span [] (start + 3 + n) = Inr (lines, i, close)"
      "block_content start i None lines parts_default [] lx = Inr (pb, raw, lx2)"
      "lx' = push_token k start (lx2\<lparr>cursor := close + 3\<rparr>)" "k \<noteq> TEof"
    using assms(1) by (auto simp: lex_text_block_def Let_def split: option.splits sum.splits if_splits)
  have "boundary (lx_text lx) (close + 3)" if "boundary (lx_text lx) (cursor lx)"
    using that block_lines_close [OF b(1)] boundary_after_ascii [of _ "close + 2"]
    by (auto simp: boundary_def [of _ "cursor lx"] eval_nat_numeral)
  then have "moved lx (lx2\<lparr>cursor := close + 3\<rparr>)"
    using block_lines_close [OF b(1)] block_content_same [OF b(2)] assms(2)
    by (auto simp: moved_def same_but_cursor_def)
  then show ?thesis using b(3,4) by (auto intro: emitsI)
qed

section \<open>Scanning\<close>

definition punctuation :: "str \<Rightarrow> token_kind option" where
  "punctuation c = map_of
     [(''('', TLeftParen), ('')'', TRightParen), (''{'', TLeftBrace), (''}'', TRightBrace),
      (''['', TLeftBracket), ('']'', TRightBracket), ('','', TComma), ('':'', TColon), ('';'', TSemicolon),
      (''?'', TQuestion), (''+'', TPlus), (''*'', TStar), (''%'', TPercent), (''/'', TSlash)] c"

text \<open>
  The arms with a guard \<open>if self.consume(...)\<close>: the first character, the second, the kind with it.
\<close>

definition operator_pairs :: "((str \<times> str) \<times> token_kind) list" where
  "operator_pairs =
     [((''-'', ''>''), TThinArrow), ((''='', ''=''), TEqualEqual), ((''='', ''>''), TFatArrow),
      ((''!'', ''=''), TBangEqual), ((''<'', ''=''), TLessEqual), ((''>'', ''=''), TGreaterEqual),
      ((''&'', ''&''), TAndAnd), ((''|'', ''|''), TOrOr), ((''.'', ''.''), TDotDot)]"

text \<open>The kind of the first character alone, where there is one.\<close>

definition operator_single :: "str \<Rightarrow> token_kind option" where
  "operator_single c = map_of
     [(''-'', TMinus), (''='', TEqual), (''!'', TBang), (''<'', TLess), (''>'', TGreater), (''.'', TDot)] c"

definition lex_operator :: "str \<Rightarrow> nat \<Rightarrow> lexer \<Rightarrow> (diagnostic, lexer) result" where
  "lex_operator c start lx =
     (case Option.bind (peek lx) (\<lambda>d. map_of operator_pairs (c, d)) of
        Some k \<Rightarrow> Inr (push_token k start (bump lx))
      | None \<Rightarrow>
          (case operator_single c of
             Some k \<Rightarrow> Inr (push_token k start lx)
           | None \<Rightarrow>
               Inl (diagnostic_new ''K0001'' (''invalid source character '' @ backquoted c)
                 (span_new start (cursor lx)))))"

definition lex_token :: "str \<Rightarrow> nat \<Rightarrow> lexer \<Rightarrow> (diagnostic, lexer) result" where
  "lex_token c start lx =
     (if is_alphabetic_char c \<or> c = ''_'' then Inr (lex_identifier start lx)
      else if is_digit_char c then lex_integer start lx
      else if c = [CHR 0x22] then
        if prefix [CHR 0x22, CHR 0x22] (drop (cursor lx) (lx_text lx)) then lex_text_block start lx
        else string_chars start parts_default lx
      else case punctuation c of
        Some k \<Rightarrow> Inr (push_token k start lx)
      | None \<Rightarrow> lex_operator c start lx)"

lemma punctuation_not_Eof:
  "punctuation c \<noteq> Some TEof" "operator_single c \<noteq> Some TEof" "map_of operator_pairs p \<noteq> Some TEof"
  by (auto simp: punctuation_def operator_single_def operator_pairs_def dest!: map_of_SomeD)

lemma lex_operator_emits: "lex_operator c start lx = Inr lx' \<Longrightarrow> emits start lx lx'"
  using punctuation_not_Eof
  by (auto simp: lex_operator_def bind_eq_Some_conv split: option.splits intro!: emitsI)

lemma lex_token_emits:
  assumes "peek lx = Some c" "lex_token c (cursor lx) (bump lx) = Inr lx'"
  shows "emits (cursor lx) (bump lx) lx'"
proof (cases "c = [CHR 0x22]")
  case True
  then have "cursor (bump lx) \<le> cursor lx + 3" using bump_cursor [OF assms(1)] by simp
  then show ?thesis
    using True assms(2) lex_text_block_emits string_chars_emits lex_identifier_emits lex_integer_emits
    by (auto simp: lex_token_def split: if_splits)
next
  case False
  then show ?thesis
    using assms(2) lex_identifier_emits lex_integer_emits lex_operator_emits punctuation_not_Eof
    by (auto simp: lex_token_def split: if_splits option.splits intro!: emitsI)
qed

lemma emits_left: "emits start lx lx' \<Longrightarrow> left lx' \<le> left lx"
  using moved_left by (fastforce simp: emits_def push_token_def left_def)

lemma lex_token_left:
  "peek lx = Some c \<Longrightarrow> lex_token c (cursor lx) (bump lx) = Inr lx' \<Longrightarrow> left lx' < left lx"
  using lex_token_emits [of lx c lx'] emits_left left_bump [of lx c] by fastforce

record lexed_source =
  ls_tokens :: "token list"
  ls_comments :: "comment list"

definition scan_end :: "lexer \<Rightarrow> lexed_source" where
  "scan_end lx =
     \<lparr>ls_tokens = lx_tokens lx @
        [token_new TEof (span_new (length (lx_text lx)) (length (lx_text lx)))],
      ls_comments = lx_comments lx\<rparr>"

text \<open>The main loop; \<open>advance\<close> cannot fail where it is called, since the cursor is before the end.\<close>

function scan :: "lexer \<Rightarrow> (diagnostic, lexed_source) result" where
  "scan lx =
     (if cursor lx < length (lx_text lx) then
        let lx0 = skip_trivia lx in
        case peek lx0 of
          None \<Rightarrow> Inr (scan_end lx0)
        | Some c \<Rightarrow>
            (case lex_token c (cursor lx0) (bump lx0) of
               Inl d \<Rightarrow> Inl d
             | Inr lx1 \<Rightarrow> scan lx1)
      else Inr (scan_end lx))"
  by pat_completeness auto
termination
proof (relation "measure left")
  fix lx lx0 c lx1
  assume "lx0 = skip_trivia lx" "peek lx0 = Some c" "lex_token c (cursor lx0) (bump lx0) = Inr lx1"
  then show "(lx1, lx) \<in> measure left"
    using lex_token_left [of lx0 c lx1] skipped_left [OF skip_trivia_skipped [of lx]] by simp
qed simp

declare scan.simps [simp del]

definition lex_with_comments :: "source \<Rightarrow> (diagnostic, lexed_source) result" where
  "lex_with_comments src = scan (lexer_new (source_text src))"

definition lex :: "source \<Rightarrow> (diagnostic, token list) result" where
  "lex src = map_sum id ls_tokens (lex_with_comments src)"

end
