(* ===== verification/Canonical_Tokens.thy ===== *)
theory Canonical_Tokens
  imports Lexer
begin

text \<open>
  The canonical spelling of tokens and the classes of token kinds the formatter lays out by
  (\<open>krit/src/formatter.rs\<close>).
\<close>

section \<open>Spelling\<close>

text \<open>\<open>{:x}\<close>: lowercase hexadecimal digits.\<close>

definition hex_char :: "nat \<Rightarrow> char" where
  "hex_char d = ''0123456789abcdef'' ! d"

fun to_hex :: "nat \<Rightarrow> str" where
  "to_hex n = (if n < 16 then [hex_char n] else to_hex (n div 16) @ [hex_char (n mod 16)])"

declare to_hex.simps [simp del]

definition canonical_char :: "str \<Rightarrow> str" where
  "canonical_char c =
     (if c = [CHR 0x22] then [CHR 0x5C, CHR 0x22]
      else if c = [CHR 0x5C] then [CHR 0x5C, CHR 0x5C]
      else if c = [CHR 0x0A] then [CHR 0x5C, CHR ''n'']
      else if c = [CHR 0x0D] then [CHR 0x5C, CHR ''r'']
      else if c = [CHR 0x09] then [CHR 0x5C, CHR ''t'']
      else if c = [CHR 0x00] then [CHR 0x5C, CHR ''0'']
      else case c of
        [b] \<Rightarrow> if of_char b < (0x20 :: nat) then CHR 0x5C # ''u{'' @ to_hex (of_char b) @ ''}'' else c
      | _ \<Rightarrow> c)"

definition push_canonical_text :: "str \<Rightarrow> str \<Rightarrow> str" where
  "push_canonical_text output v = output @ concat (map canonical_char (chars v))"

definition canonical_string :: "str \<Rightarrow> str" where
  "canonical_string v = push_canonical_text [CHR 0x22] v @ [CHR 0x22]"

fun push_canonical_parts :: "str \<Rightarrow> template_part list \<Rightarrow> str" where
  "push_canonical_parts output [] = output"
| "push_canonical_parts output (TextPart v _ # ps) = push_canonical_parts (push_canonical_text output v) ps"
| "push_canonical_parts output (HolePart p _ # ps) =
     push_canonical_parts (output @ [CHR 0x5C, CHR ''(''] @ join ''.'' (map fst p) @ '')'') ps"

definition canonical_template :: "template_part list \<Rightarrow> str" where
  "canonical_template parts = push_canonical_parts [CHR 0x22] parts @ [CHR 0x22]"

definition canonical_kind_text :: "token_kind \<Rightarrow> str" where
  "canonical_kind_text k =
     (case k of
        TIdentifier v \<Rightarrow> v | TInteger v \<Rightarrow> v | TString v \<Rightarrow> canonical_string v
      | TTemplate t \<Rightarrow> (if text_block_lines t \<noteq> None then triple_quote else canonical_template (tpl_parts t))
      | TLet \<Rightarrow> ''let'' | TFn \<Rightarrow> ''fn'' | TWebhook \<Rightarrow> ''webhook'' | TIf \<Rightarrow> ''if'' | TElse \<Rightarrow> ''else''
      | TMatch \<Rightarrow> ''match'' | TRecord \<Rightarrow> ''record'' | TTrue \<Rightarrow> ''true'' | TFalse \<Rightarrow> ''false''
      | TLeftParen \<Rightarrow> ''('' | TRightParen \<Rightarrow> '')'' | TLeftBrace \<Rightarrow> ''{'' | TRightBrace \<Rightarrow> ''}''
      | TLeftBracket \<Rightarrow> ''['' | TRightBracket \<Rightarrow> '']'' | TComma \<Rightarrow> '','' | TColon \<Rightarrow> '':''
      | TSemicolon \<Rightarrow> '';'' | TQuestion \<Rightarrow> ''?'' | TDot \<Rightarrow> ''.'' | TEqual \<Rightarrow> ''='' | TEqualEqual \<Rightarrow> ''==''
      | TBang \<Rightarrow> ''!'' | TBangEqual \<Rightarrow> ''!='' | TLess \<Rightarrow> ''<'' | TLessEqual \<Rightarrow> ''<='' | TGreater \<Rightarrow> ''>''
      | TGreaterEqual \<Rightarrow> ''>='' | TPlus \<Rightarrow> ''+'' | TMinus \<Rightarrow> ''-'' | TStar \<Rightarrow> ''*'' | TSlash \<Rightarrow> ''/''
      | TPercent \<Rightarrow> ''%'' | TAndAnd \<Rightarrow> ''&&'' | TOrOr \<Rightarrow> ''||'' | TDotDot \<Rightarrow> ''..'' | TFatArrow \<Rightarrow> ''=>''
      | TThinArrow \<Rightarrow> ''->'' | TEof \<Rightarrow> [])"

text \<open>An integer keeps the spelling the source has at its span.\<close>

definition canonical_token_text :: "token \<Rightarrow> str \<Rightarrow> str" where
  "canonical_token_text t txt =
     (case tok_kind t of
        TInteger _ \<Rightarrow> str_slice txt (span_start (tok_span t)) (span_end (tok_span t))
      | k \<Rightarrow> canonical_kind_text k)"

section \<open>Classes of kinds\<close>

definition is_word :: "token_kind \<Rightarrow> bool" where
  "is_word k =
     (case k of TIdentifier _ \<Rightarrow> True | TInteger _ \<Rightarrow> True | TString _ \<Rightarrow> True | TTemplate _ \<Rightarrow> True
      | _ \<Rightarrow> k \<in> {TLet, TFn, TWebhook, TIf, TElse, TMatch, TRecord, TTrue, TFalse})"

definition is_operator :: "token_kind \<Rightarrow> bool" where
  "is_operator k \<longleftrightarrow>
     k \<in> {TEqual, TEqualEqual, TBang, TBangEqual, TLess, TLessEqual, TGreater, TGreaterEqual, TPlus, TMinus,
          TStar, TSlash, TPercent, TAndAnd, TOrOr, TFatArrow, TThinArrow}"

definition can_end_expression :: "token_kind \<Rightarrow> bool" where
  "can_end_expression k =
     (case k of TIdentifier _ \<Rightarrow> True | TInteger _ \<Rightarrow> True | TString _ \<Rightarrow> True | TTemplate _ \<Rightarrow> True
      | _ \<Rightarrow> k \<in> {TTrue, TFalse, TRightParen, TRightBracket, TRightBrace, TQuestion})"

definition is_unary :: "token list \<Rightarrow> nat \<Rightarrow> bool" where
  "is_unary ts i =
     (case tok_kind (ts ! i) of
        TBang \<Rightarrow> True
      | TMinus \<Rightarrow> (case i of 0 \<Rightarrow> True | Suc j \<Rightarrow> \<not> can_end_expression (tok_kind (ts ! j)))
      | _ \<Rightarrow> False)"

definition is_open_delimiter :: "token_kind \<Rightarrow> bool" where
  "is_open_delimiter k \<longleftrightarrow> k \<in> {TLeftParen, TLeftBrace, TLeftBracket}"

definition is_close_delimiter :: "token_kind \<Rightarrow> bool" where
  "is_close_delimiter k \<longleftrightarrow> k \<in> {TRightParen, TRightBrace, TRightBracket}"

definition delimiters_match :: "token_kind \<Rightarrow> token_kind \<Rightarrow> bool" where
  "delimiters_match op cl \<longleftrightarrow>
     (op, cl) \<in> {(TLeftParen, TRightParen), (TLeftBrace, TRightBrace), (TLeftBracket, TRightBracket)}"

end
