(* ===== verification/Lexer_Laws.thy ===== *)
theory Lexer_Laws
  imports Canonical_Tokens
begin

text \<open>
  What the lexer guarantees: its tokens lie in order in the source and each is the spelling found at
  its span.
\<close>

section \<open>Runs of the main loop\<close>

text \<open>The invariant rule of \<open>scan\<close>.\<close>

lemma scan_inv:
  assumes "scan lx = Inr ls" "I lx"
    and trivia: "\<And>lx. I lx \<Longrightarrow> I (skip_trivia lx)"
    and token: "\<And>lx c lx'. I lx \<Longrightarrow> peek lx = Some c \<Longrightarrow> lex_token c (cursor lx) (bump lx) = Inr lx' \<Longrightarrow> I lx'"
  shows "\<exists>lx'. I lx' \<and> length (lx_text lx') \<le> cursor lx' \<and> ls = scan_end lx'"
  using assms(1,2)
proof (induction "left lx" arbitrary: lx rule: less_induct)
  case less
  show ?case
  proof (cases "cursor lx < length (lx_text lx)")
    case True
    show ?thesis
    proof (cases "peek (skip_trivia lx)")
      case None
      then have "ls = scan_end (skip_trivia lx)" using less.prems(1) True by (subst (asm) scan.simps) simp
      then show ?thesis using trivia [OF less.prems(2)] None by (auto simp: peek_None)
    next
      case (Some c)
      then obtain lx' where l: "lex_token c (cursor (skip_trivia lx)) (bump (skip_trivia lx)) = Inr lx'"
        "scan lx' = Inr ls"
        using less.prems(1) [unfolded scan.simps [of lx]] True by (auto simp: Let_def split: sum.splits)
      have "left lx' < left lx"
        using lex_token_left [OF Some l(1)] skipped_left [OF skip_trivia_skipped [of lx]] by simp
      then show ?thesis
        using less.hyps l(2) token [OF trivia [OF less.prems(2)] Some l(1)] by blast
    qed
  next
    case False
    then have "ls = scan_end lx" using less.prems(1) by (subst (asm) scan.simps) simp
    then show ?thesis using less.prems(2) False by (auto intro: exI [of _ lx])
  qed
qed

section \<open>Spans\<close>

definition follows :: "token \<Rightarrow> token \<Rightarrow> bool" where
  "follows a b \<longleftrightarrow> span_end (tok_span a) \<le> span_start (tok_span b)"

definition laid_out :: "lexer \<Rightarrow> bool" where
  "laid_out lx \<longleftrightarrow>
     sorted_wrt follows (lx_tokens lx) \<and>
     (\<forall>t \<in> set (lx_tokens lx).
        tok_kind t \<noteq> TEof \<and> span_start (tok_span t) < span_end (tok_span t) \<and>
        span_end (tok_span t) \<le> cursor lx \<and> span_end (tok_span t) \<le> length (lx_text lx))"

lemma skip_trivia_same [simp]:
  "lx_text (skip_trivia lx) = lx_text lx" "lx_tokens (skip_trivia lx) = lx_tokens lx"
  using skip_trivia_skipped [of lx] by (auto simp: skipped_def moved_def)

lemma lex_token_pushes:
  assumes "peek lx = Some c" "lex_token c (cursor lx) (bump lx) = Inr lx'"
  shows "\<exists>k. k \<noteq> TEof \<and> lx_text lx' = lx_text lx \<and> cursor lx < cursor lx' \<and> cursor lx' \<le> length (lx_text lx) \<and>
    lx_tokens lx' = lx_tokens lx @ [token_new k (span_new (cursor lx) (cursor lx'))] \<and>
    (boundary (lx_text lx) (cursor lx) \<longrightarrow> boundary (lx_text lx) (cursor lx'))"
proof -
  have c: "0 < length c" "cursor lx + length c \<le> length (lx_text lx)" "cursor (bump lx) = cursor lx + length c"
    using peek_length [OF assms(1)] bump_cursor [OF assms(1)] by simp_all
  obtain k lx1 where k: "k \<noteq> TEof" and m: "moved (bump lx) lx1" and p: "lx' = push_token k (cursor lx) lx1"
    using lex_token_emits [OF assms] by (auto simp: emits_def)
  have "lx_text lx1 = lx_text lx" "lx_tokens lx1 = lx_tokens lx" "cursor lx < cursor lx1"
    "cursor lx1 \<le> length (lx_text lx)"
    using m c unfolding moved_def bump_text by linarith+
  moreover have "boundary (lx_text lx) (cursor lx1)" if "boundary (lx_text lx) (cursor lx)"
    using that moved_trans [OF moved_bump m] by (simp add: moved_def)
  ultimately show ?thesis using k p by (intro exI [of _ k]) (simp add: push_token_def)
qed

lemma laid_out_skip: "laid_out lx \<Longrightarrow> laid_out (skip_trivia lx)"
  using skip_trivia_skipped [of lx] by (fastforce simp: laid_out_def skipped_def moved_def)

lemma laid_out_token:
  assumes "laid_out lx" "peek lx = Some c" "lex_token c (cursor lx) (bump lx) = Inr lx'"
  shows "laid_out lx'"
  using lex_token_pushes [OF assms(2,3)] assms(1)
  by (fastforce simp: laid_out_def token_new_def span_new_def follows_def sorted_wrt_append)

lemma scan_laid_out:
  assumes "lex_with_comments src = Inr ls"
  shows "\<exists>lx. laid_out lx \<and> lx_text lx = source_text src \<and> ls = scan_end lx"
proof -
  have "\<exists>lx. (laid_out lx \<and> lx_text lx = source_text src) \<and> length (lx_text lx) \<le> cursor lx \<and> ls = scan_end lx"
  proof (rule scan_inv [OF assms [unfolded lex_with_comments_def]])
    show "laid_out (lexer_new (source_text src)) \<and> lx_text (lexer_new (source_text src)) = source_text src"
      by (simp add: laid_out_def lexer_new_def)
  qed (use laid_out_token lex_token_pushes in \<open>fastforce simp: laid_out_skip\<close>)+
  then show ?thesis by auto
qed

text \<open>C36: The tokens of a source lie in it in order without overlapping, each over at least one byte, and
  end with one end-of-file token at the end of the text.\<close>

theorem lex_tokens_in_order:
  assumes "lex src = Inr ts"
  shows "\<exists>front. ts = front @ [token_new TEof (span_new (length (source_text src)) (length (source_text src)))] \<and>
    sorted_wrt follows ts \<and>
    (\<forall>t \<in> set front. tok_kind t \<noteq> TEof \<and> span_start (tok_span t) < span_end (tok_span t) \<and>
       span_end (tok_span t) \<le> length (source_text src))"
proof -
  obtain ls where ls: "lex_with_comments src = Inr ls" "ts = ls_tokens ls"
    using assms by (auto simp: lex_def map_sum_def split: sum.splits)
  from scan_laid_out [OF ls(1)] obtain lx where "laid_out lx" "lx_text lx = source_text src" "ls = scan_end lx"
    by blast
  then show ?thesis
    by (auto simp: ls(2) scan_end_def laid_out_def sorted_wrt_append follows_def token_new_def span_new_def)
qed

lemma plus_lexed:
  "lex (source_new ''a'' ''+'') = Inr [token_new TPlus (span_new 0 1), token_new TEof (span_new 1 1)]"
  by (simp add: lex_def lex_with_comments_def source_new_def lexer_new_def scan.simps skip_trivia.simps
      advance_while.simps peek_def next_char_def char_len_def is_whitespace_def white_space_def utf8_char_def
      char_of_def bit_0 lex_token_def is_alphabetic_char_def is_alphabetic_byte_def is_digit_char_def ascii_nat
      punctuation_def push_token_def bump_def scan_end_def Let_def)

theorem lex_tokens_in_order_witness:
  "\<exists>front. [token_new TPlus (span_new 0 1), token_new TEof (span_new 1 1)] =
     front @ [token_new TEof (span_new (length ''+'') (length ''+''))]"
  using lex_tokens_in_order [OF plus_lexed] by (auto simp: source_new_def)

section \<open>Spelling\<close>

definition token_slice :: "str \<Rightarrow> token \<Rightarrow> str" where
  "token_slice txt t = str_slice txt (span_start (tok_span t)) (span_end (tok_span t))"





lemma str_slice_empty [simp]: "str_slice t a a = []"
  by (simp add: str_slice_def)







lemma token_slice_new [simp]: "token_slice t (token_new k (span_new a b)) = str_slice t a b"
  by (simp add: token_slice_def token_new_def span_new_def)









end
