(* ===== verification/Lexer_Roundtrip.thy ===== *)
theory Lexer_Roundtrip
  imports Canonical_Tokens Lexer_Laws
begin

text \<open>
  Lexing the canonical spelling of tokens gives the tokens back: the formatter's spelling and the
  lexer agree on every kind.
\<close>

section \<open>The rest of the text\<close>

definition rest_of :: "lexer \<Rightarrow> str" where
  "rest_of lx = drop (cursor lx) (lx_text lx)"

definition skip :: "nat \<Rightarrow> lexer \<Rightarrow> lexer" where
  "skip n lx = lx\<lparr>cursor := cursor lx + n\<rparr>"



lemma skip_simps [simp]:
  "rest_of (skip n lx) = drop n (rest_of lx)" "lx_text (skip n lx) = lx_text lx"
  "lx_tokens (skip n lx) = lx_tokens lx" "lx_comments (skip n lx) = lx_comments lx"
  "cursor (skip n lx) = cursor lx + n" "skip n (skip m lx) = skip (m + n) lx" "skip 0 lx = lx"
  by (simp_all add: rest_of_def skip_def add.commute add.assoc)

lemma rest_push [simp]: "rest_of (push_token k start lx) = rest_of lx"
  by (simp add: rest_of_def push_token_def)





text \<open>A text that is empty or goes on with a space.\<close>

definition spaced :: "str \<Rightarrow> bool" where
  "spaced r \<longleftrightarrow> (case r of [] \<Rightarrow> True | b # _ \<Rightarrow> b = CHR '' '')"



section \<open>Words and integers\<close>






section \<open>Escapes\<close>









section \<open>Strings\<close>








section \<open>Tokens\<close>















section \<open>Sequences of tokens\<close>



definition spaced_texts :: "token_kind list \<Rightarrow> str" where
  "spaced_texts ks = concat (map (\<lambda>k. CHR '' '' # canonical_kind_text k) ks)"

lemma spaced_spaced_texts [simp]: "spaced (spaced_texts ks)"
  by (cases ks) (simp_all add: spaced_texts_def spaced_def)







end
