(* ===== verification/Diagnostics.thy ===== *)
theory Diagnostics
  imports Source_Text Values
begin

text \<open>
  The renderings of a diagnostic (\<open>krit/src/diagnostic.rs\<close>) and the correctness of positions
  (\<open>krit/src/source.rs\<close>).
\<close>

section \<open>Rendering\<close>

definition render_human :: "diagnostic \<Rightarrow> source \<Rightarrow> str option" where
  "render_human d src =
     map_option (\<lambda>p.
      source_name src @ '':'' @ show_nat (pos_line p) @ '':'' @ show_nat (pos_column p) @ '': '' @
      severity_as_str (severity d) @ ''['' @ code d @ '']: '' @ message d @
      concat (map (\<lambda>note. CHR 0x0A # ''help: '' @ note) (diag_notes d)))
     (position_of src (span_start (diag_span d)))"

text \<open>\<open>{:04x}\<close> of a control character.\<close>

definition hex4 :: "nat \<Rightarrow> str" where
  "hex4 n = map (\<lambda>d. ''0123456789abcdef'' ! (n div 16 ^ d mod 16)) [3, 2, 1, 0]"

definition escape_json_char :: "str \<Rightarrow> str" where
  "escape_json_char c =
     (if c = [CHR 0x22] then [CHR 0x5C, CHR 0x22]
      else if c = [CHR 0x5C] then [CHR 0x5C, CHR 0x5C]
      else if c = [CHR 0x0A] then [CHR 0x5C, CHR ''n'']
      else if c = [CHR 0x0D] then [CHR 0x5C, CHR ''r'']
      else if c = [CHR 0x09] then [CHR 0x5C, CHR ''t'']
      else if c = [CHR 0x08] then [CHR 0x5C, CHR ''b'']
      else if c = [CHR 0x0C] then [CHR 0x5C, CHR ''f'']
      else case c of
        [b] \<Rightarrow> if of_char b < (0x20 :: nat) then CHR 0x5C # CHR ''u'' # hex4 (of_char b) else c
      | _ \<Rightarrow> c)"

definition escape_json :: "str \<Rightarrow> str" where
  "escape_json v = concat (map escape_json_char (chars v))"

definition json_quoted :: "str \<Rightarrow> str" where
  "json_quoted s = CHR 0x22 # s @ [CHR 0x22]"

text \<open>A member of a JSON object: the quoted key, a colon and the value.\<close>

definition json_member :: "str \<Rightarrow> str \<Rightarrow> str" where
  "json_member key v = json_quoted key @ '':'' @ v"

definition json_position :: "position \<Rightarrow> str" where
  "json_position p =
     ''{'' @ json_member ''line'' (show_nat (pos_line p)) @ '','' @
     json_member ''column'' (show_nat (pos_column p)) @ '','' @
     json_member ''byte'' (show_nat (pos_byte p)) @ ''}''"

definition render_json :: "diagnostic \<Rightarrow> source \<Rightarrow> str option" where
  "render_json d src =
     (case (position_of src (span_start (diag_span d)), position_of src (span_end (diag_span d))) of
        (Some start, Some finish) \<Rightarrow> Some (
     ''{'' @ join '',''
       [json_member ''schema'' ''1'',
        json_member ''severity'' (json_quoted (severity_as_str (severity d))),
        json_member ''code'' (json_quoted (code d)),
        json_member ''message'' (json_quoted (escape_json (message d))),
        json_member ''file'' (json_quoted (escape_json (source_name src))),
        json_member ''span''
          (''{'' @ json_member ''start'' (json_position start) @ '','' @
           json_member ''end'' (json_position finish) @ ''}''),
        json_member ''labels'' ''[]'',
        json_member ''notes''
          (''['' @ join '','' (map (\<lambda>note. json_quoted (escape_json note)) (diag_notes d)) @ '']'')] @ ''}'')
      | _ \<Rightarrow> None)"

section \<open>Positions\<close>

definition starts_of :: "str \<Rightarrow> nat list" where
  "starts_of s = 0 # map Suc (filter (\<lambda>i. s ! i = CHR 0x0A) [0..<length s])"

lemma starts_of_snoc:
  "starts_of (s @ [b]) = (if b = CHR 0x0A then starts_of s @ [Suc (length s)] else starts_of s)"
  by (auto simp: starts_of_def nth_append intro!: filter_cong)

lemma starts_of_append: "\<exists>ls. starts_of (s @ r) = starts_of s @ ls \<and> (\<forall>l \<in> set ls. length s < l)"
proof (induction r rule: rev_induct)
  case (snoc b r)
  then obtain ls where ls: "starts_of (s @ r) = starts_of s @ ls" "\<forall>l \<in> set ls. length s < l" by blast
  then show ?case
    using starts_of_snoc [of "s @ r" b]
    by (intro exI [of _ "if b = CHR 0x0A then ls @ [Suc (length (s @ r))] else ls"]) auto
qed simp

lemma starts_of_le: "l \<in> set (starts_of s) \<Longrightarrow> l \<le> length s"
  by (auto simp: starts_of_def)

lemma starts_of_count: "length (starts_of s) = Suc (count_list s (CHR 0x0A))"
proof (induction s rule: rev_induct)
  case (snoc b s)
  then show ?case by (simp add: starts_of_snoc)
qed (simp add: starts_of_def)

lemma starts_of_last: "last (starts_of s) = length s - length (takeWhile (\<lambda>b. b \<noteq> CHR 0x0A) (rev s))"
proof (induction s rule: rev_induct)
  case (snoc b s)
  then show ?case by (simp add: starts_of_snoc)
qed (simp add: starts_of_def)

lemma takeWhile_starts:
  "takeWhile (\<lambda>l. l \<le> length s) (starts_of (s @ r)) = starts_of s"
proof -
  obtain ls where ls: "starts_of (s @ r) = starts_of s @ ls" "\<forall>l \<in> set ls. length s < l"
    using starts_of_append by blast
  have "takeWhile (\<lambda>l. l \<le> length s) ls = []" using ls(2) by (cases ls) auto
  then show ?thesis using ls(1) starts_of_le by (simp add: takeWhile_append2)
qed

lemma starts_of_not_Nil: "starts_of s \<noteq> []" by (simp add: starts_of_def)

lemma position_bytes:
  assumes "is_char_boundary t (min n (length t))"
  shows "position_of (source_new name t) n =
     (let before = take n t in
      Some \<lparr>pos_line = Suc (count_list before (CHR 0x0A)),
       pos_column = Suc (length (chars (rev (takeWhile (\<lambda>b. b \<noteq> CHR 0x0A) (rev before))))),
       pos_byte = length before\<rparr>)"
proof -
  let ?s = "take n t"
  have starts: "line_starts (source_new name t) = starts_of (?s @ drop n t)"
    by (simp add: source_new_def starts_of_def)
  have b: "min n (length t) = length ?s" by (simp add: min.commute)
  have w: "takeWhile (\<lambda>l. l \<le> length ?s) (line_starts (source_new name t)) = starts_of ?s"
    unfolding starts by (rule takeWhile_starts)
  have i: "length (starts_of ?s) - 1 < length (starts_of ?s)" by (simp add: starts_of_count)
  have "line_starts (source_new name t) ! (length (starts_of ?s) - 1) = last (starts_of ?s)"
    using starts_of_append [of ?s "drop n t"] i
    by (auto simp: starts nth_append last_conv_nth [OF starts_of_not_Nil])
  moreover have "drop (length ?s - length (takeWhile (\<lambda>b. b \<noteq> CHR 0x0A) (rev ?s))) ?s =
      rev (takeWhile (\<lambda>b. b \<noteq> CHR 0x0A) (rev ?s))"
    using takeWhile_dropWhile_id [of "\<lambda>b. b \<noteq> CHR 0x0A" "rev ?s"]
    by (metis append_eq_conv_conj length_rev rev_append rev_rev_ident rev_take takeWhile_eq_take)
  moreover have "source_text (source_new name t) = t" by (simp add: source_new_def)
  moreover have "take (length ?s) t = ?s" by (metis append_eq_conv_conj append_take_drop_id)
  ultimately show ?thesis
    unfolding position_of_def Let_def
    using assms by (simp only: b w) (simp add: starts_of_count starts_of_last)
qed

lemma utf8_char_bytes:
  assumes "is_scalar n" "0x80 \<le> n"
  shows "list_all (\<lambda>b. 0x80 \<le> (of_char b :: nat)) (utf8_char n)"
proof -
  have n: "n < 0x110000" using assms(1) by (auto simp: is_scalar_def)
  have "n < 0x800 \<Longrightarrow> n div 64 < 32" "n < 0x10000 \<Longrightarrow> n div 4096 < 16" "n div 262144 < 5"
    using n by linarith+
  then show ?thesis using assms(2) by (auto simp: utf8_char_def of_char_of)
qed

lemma utf8_char_line_feed: "is_scalar n \<Longrightarrow> CHR 0x0A \<in> set (utf8_char n) \<longleftrightarrow> n = 10"
proof (cases "n < 0x80")
  case True
  then show ?thesis using char_of_eq_iff [of n "CHR 0x0A"] by (auto simp: utf8_char_def take_bit_eq_mod)
next
  case False
  assume "is_scalar n"
  then have "list_all (\<lambda>b. 0x80 \<le> (of_char b :: nat)) (utf8_char n)" using False utf8_char_bytes by simp
  then show ?thesis using False by (auto simp: list_all_iff)
qed

lemma count_utf8: "list_all is_scalar xs \<Longrightarrow> count_list (utf8 xs) (CHR 0x0A) = count_list xs 10"
proof (induction xs)
  case (Cons n xs)
  then show ?case using utf8_char_line_feed [of n]
    by (auto simp: utf8_def count_list_0_iff utf8_char_ascii char_of_def bit_0)
qed (simp add: utf8_def)

lemma last_line_utf8:
  "list_all is_scalar xs \<Longrightarrow> rev (takeWhile (\<lambda>b. b \<noteq> CHR 0x0A) (rev (utf8 xs))) = utf8 (rev (takeWhile (\<lambda>c. c \<noteq> 10) (rev xs)))"
proof (induction xs rule: rev_induct)
  case (snoc n xs)
  have u: "utf8 (xs @ [n]) = utf8 xs @ utf8_char n" by (simp add: utf8_def)
  show ?case
  proof (cases "n = 10")
    case True
    moreover have "utf8_char 10 = [CHR 0x0A]" by (simp add: utf8_char_def char_of_def bit_0)
    ultimately show ?thesis by (simp add: u) (simp add: utf8_def)
  next
    case False
    then have "\<And>b. b \<in> set (rev (utf8_char n)) \<Longrightarrow> b \<noteq> CHR 0x0A" using snoc(2) utf8_char_line_feed [of n] by auto
    then have "takeWhile (\<lambda>b. b \<noteq> CHR 0x0A) (rev (utf8_char n) @ rev (utf8 xs)) =
        rev (utf8_char n) @ takeWhile (\<lambda>b. b \<noteq> CHR 0x0A) (rev (utf8 xs))"
      by (rule takeWhile_append2)
    then show ?thesis
      using snoc False by (simp add: u) (simp add: utf8_def)
  qed
qed (simp add: utf8_def)

lemma boundary_utf8:
  assumes "list_all is_scalar ys"
  shows "is_char_boundary (utf8 (xs @ ys)) (length (utf8 xs))"
proof (cases ys)
  case (Cons n zs)
  then have "hd (utf8_char n) = utf8 (xs @ ys) ! length (utf8 xs)"
    by (simp add: utf8_def nth_append hd_conv_nth)
  moreover have "of_char (hd (utf8_char n)) < (0x80 :: nat) \<or> 0xC0 \<le> (of_char (hd (utf8_char n)) :: nat)"
  proof -
    have n: "n < 0x110000" using assms Cons by (auto simp: is_scalar_def)
    have "n < 0x800 \<Longrightarrow> n div 64 < 32" "n < 0x10000 \<Longrightarrow> n div 4096 < 16" "n div 262144 < 5"
      using n by linarith+
    then show ?thesis by (auto simp: utf8_char_def of_char_of)
  qed
  ultimately show ?thesis using Cons by (auto simp: is_char_boundary_def utf8_def Let_def)
qed (simp add: is_char_boundary_def)

text \<open>C38: At the start of any character of a source, and past its end, a position is the line, counting line
  feeds before it, and the column, counting the characters after the last line feed before it, both
  from one; the byte is cut to the end of the text.\<close>

theorem position_counts:
  assumes "list_all is_scalar (xs @ ys)" "min n (length (utf8 (xs @ ys))) = length (utf8 xs)"
  shows "position_of (source_new name (utf8 (xs @ ys))) n =
     Some \<lparr>pos_line = Suc (count_list xs 10),
           pos_column = Suc (length (takeWhile (\<lambda>c. c \<noteq> 10) (rev xs))),
           pos_byte = length (utf8 xs)\<rparr>"
proof -
  have t: "take n (utf8 (xs @ ys)) = utf8 xs"
    using assms(2) by (auto simp: utf8_def min_def split: if_splits)
  have s: "list_all is_scalar xs" "list_all is_scalar ys" using assms(1) by simp_all
  then have "list_all is_scalar (rev (takeWhile (\<lambda>c. c \<noteq> 10) (rev xs)))"
    by (auto simp: list_all_iff dest: set_takeWhileD)
  then show ?thesis
    using position_bytes [of "utf8 (xs @ ys)" n name] boundary_utf8 [OF s(2), of xs] assms(2)
    by (simp add: t last_line_utf8 [OF s(1)] count_utf8 [OF s(1)] chars_utf8)
qed

theorem position_counts_witness:
  "position_of (source_new [] (utf8 ([0x61, 10, 0xE9] @ [0x62]))) 4 =
     Some \<lparr>pos_line = 2, pos_column = 2, pos_byte = 4\<rparr>"
  using position_counts [of "[0x61, 10, 0xE9]" "[0x62]" 4 "[]"] by (simp add: utf8_eval)

section \<open>JSON strings\<close>

text \<open>
  The contents of a JSON string as a reader takes them (RFC 8259): escapes are decoded, and a raw
  quote or control byte is an error.  Only the escapes of one code unit are needed here.
\<close>

definition hex_digit_of :: "char \<Rightarrow> nat option" where
  "hex_digit_of b =
     (let n = of_char b in
      if 0x30 \<le> n \<and> n \<le> 0x39 then Some (n - 0x30)
      else if 0x61 \<le> n \<and> n \<le> 0x66 then Some (n - 0x61 + 10)
      else if 0x41 \<le> n \<and> n \<le> 0x46 then Some (n - 0x41 + 10)
      else None)"

definition json_escape_of :: "char \<Rightarrow> char option" where
  "json_escape_of b = map_of
     [(CHR 0x22, CHR 0x22), (CHR 0x5C, CHR 0x5C), (CHR ''/'', CHR ''/''), (CHR ''n'', CHR 0x0A), (CHR ''r'', CHR 0x0D),
      (CHR ''t'', CHR 0x09), (CHR ''b'', CHR 0x08), (CHR ''f'', CHR 0x0C)] b"

fun json_unescape :: "str \<Rightarrow> str option" where
  "json_unescape [] = Some []"
| "json_unescape [b] =
     (if b = CHR 0x22 \<or> b = CHR 0x5C \<or> of_char b < (0x20 :: nat) then None else Some [b])"
| "json_unescape (b # e # s) =
     (if b = CHR 0x5C then
        if e = CHR ''u'' then
          (case map hex_digit_of (take 4 s) of
             [Some w, Some x, Some y, Some z] \<Rightarrow>
               let n = ((w * 16 + x) * 16 + y) * 16 + z in
               if is_scalar n then map_option (append (utf8_char n)) (json_unescape (drop 4 s)) else None
           | _ \<Rightarrow> None)
        else case json_escape_of e of
          Some c \<Rightarrow> map_option (Cons c) (json_unescape s)
        | None \<Rightarrow> None
      else if b = CHR 0x22 \<or> of_char b < (0x20 :: nat) then None
      else map_option (Cons b) (json_unescape (e # s)))"

lemma json_unescape_plain:
  "b \<noteq> CHR 0x22 \<Longrightarrow> b \<noteq> CHR 0x5C \<Longrightarrow> \<not> of_char b < (0x20 :: nat) \<Longrightarrow>
     json_unescape (b # s) = map_option (Cons b) (json_unescape s)"
  by (cases s) simp_all

lemma json_unescape_bytes:
  "list_all (\<lambda>b. b \<noteq> CHR 0x22 \<and> b \<noteq> CHR 0x5C \<and> \<not> of_char b < (0x20 :: nat)) w \<Longrightarrow>
     json_unescape (w @ s) = map_option (append w) (json_unescape s)"
  by (induction w; cases "json_unescape s") (auto simp: json_unescape_plain)

lemma hex4_control: "n < 0x20 \<Longrightarrow> map hex_digit_of (hex4 n) = [Some 0, Some 0, Some (n div 16), Some (n mod 16)]"
proof -
  have d: "\<forall>d \<in> {..<16}. hex_digit_of (''0123456789abcdef'' ! d) = Some d"
    by (simp add: hex_digit_of_def lessThan_Suc numeral_nat Let_def)
  assume "n < 0x20"
  then have "n div 4096 = 0" "n div 256 = 0" "n div 16 < 16" by simp_all
  then show ?thesis using d by (simp add: hex4_def hex_digit_of_def)
qed

lemma json_unescape_char:
  assumes "is_scalar n"
  shows "json_unescape (escape_json_char (utf8_char n) @ s) = map_option (append (utf8_char n)) (json_unescape s)"
proof (cases "utf8_char n \<in> {[CHR 0x22], [CHR 0x5C], [CHR 0x0A], [CHR 0x0D], [CHR 0x09], [CHR 0x08], [CHR 0x0C]}")
  case True
  then show ?thesis by (elim insertE) (simp_all add: escape_json_char_def json_escape_of_def append_Cons [abs_def])
next
  case False
  consider "n < 0x20" | "0x20 \<le> n" "n < 0x80" | "0x80 \<le> n" by linarith
  then show ?thesis
  proof cases
    case 1
    then have "utf8_char n = [char_of n]" "of_char (char_of n :: char) = n" by (simp_all add: utf8_char_def of_char_of)
    then have "escape_json_char (utf8_char n) = CHR 0x5C # CHR ''u'' # hex4 n"
      using 1 False by (auto simp: escape_json_char_def)
    moreover have "take 4 (hex4 n @ s) = hex4 n" "drop 4 (hex4 n @ s) = s" by (simp_all add: hex4_def)
    moreover have "n div 16 * 16 + n mod 16 = n" by simp
    ultimately show ?thesis using hex4_control [OF 1] assms by (simp add: Let_def)
  next
    case 2
    then have u: "utf8_char n = [char_of n]" "of_char (char_of n :: char) = n" by (simp_all add: utf8_char_def of_char_of)
    then have "escape_json_char (utf8_char n) = utf8_char n" using 2 False by (auto simp: escape_json_char_def)
    then show ?thesis using u 2 False json_unescape_bytes [of "utf8_char n" s] by auto
  next
    case 3
    note b = utf8_char_bytes [OF assms 3]
    then have "escape_json_char (utf8_char n) = utf8_char n"
      using False by (auto simp: escape_json_char_def split: list.splits)
    moreover have "list_all (\<lambda>b. b \<noteq> CHR 0x22 \<and> b \<noteq> CHR 0x5C \<and> \<not> of_char b < (0x20 :: nat)) (utf8_char n)"
      using b by (auto simp: list_all_iff)
    ultimately show ?thesis using json_unescape_bytes by simp
  qed
qed

text \<open>C39: The escaped text of every message, file name and note is the contents of a JSON string that
  decodes to exactly that text.\<close>

theorem escape_json_roundtrip:
  assumes "list_all is_scalar cs"
  shows "json_unescape (escape_json (utf8 cs)) = Some (utf8 cs)"
  unfolding escape_json_def chars_utf8 [OF assms]
  using assms
  by (induction cs) (simp_all add: json_unescape_char utf8_def)

theorem escape_json_roundtrip_witness:
  "json_unescape (escape_json (utf8 [0x22, 0x07, 0x1F916])) = Some (utf8 [0x22, 0x07, 0x1F916])"
  using escape_json_roundtrip [of "[0x22, 0x07, 0x1F916]"] by (simp add: is_scalar_def)

end
