(* ===== verification/Habits.thy ===== *)
theory Habits
  imports Suggestions
begin

text \<open>
  Constructs carried over from other languages (\<open>krit/src/habits.rs\<close>): the words that introduce them, their
  codes and fixes, the note of an undefined name and the fix of a method call.  Edit distance and
  did-you-mean names are in \<open>Suggestions\<close>.
\<close>

section \<open>Habits\<close>

datatype habit =
    ReturnHabit | LoopHabit | Mutation | TypeDeclaration | Import | Async | Exception | Indexing
  | ArrowFunction | Ternary | Switch | ElseReturn

definition habit_words :: "(str list \<times> habit) list" where
  "habit_words =
     [([''return''], ReturnHabit),
      ([''for'', ''while'', ''loop'', ''do''], LoopHabit),
      ([''mut'', ''var'', ''const''], Mutation),
      ([''struct'', ''class'', ''impl'', ''trait'', ''interface''], TypeDeclaration),
      ([''import'', ''use'', ''require'', ''from''], Import),
      ([''async'', ''await''], Async),
      ([''try'', ''catch'', ''throw'', ''raise'', ''except'', ''finally''], Exception),
      ([''switch'', ''case'', ''default''], Switch)]"

definition of_word :: "str \<Rightarrow> habit option" where
  "of_word word = map_option snd (find (\<lambda>(ws, _). word \<in> set ws) habit_words)"

definition of_undefined_name :: "str \<Rightarrow> habit option" where
  "of_undefined_name name =
     (if name \<in> set [''return'', ''await'', ''throw'', ''raise'', ''require'', ''import''] then of_word name else None)"

definition habit_code :: "habit \<Rightarrow> str" where
  "habit_code h =
     (case h of
        ReturnHabit \<Rightarrow> ''K1101'' | LoopHabit \<Rightarrow> ''K1102'' | Mutation \<Rightarrow> ''K1103'' | TypeDeclaration \<Rightarrow> ''K1104''
      | Import \<Rightarrow> ''K1105'' | Async \<Rightarrow> ''K1106'' | Exception \<Rightarrow> ''K1107'' | Indexing \<Rightarrow> ''K1108''
      | ArrowFunction \<Rightarrow> ''K1109'' | Ternary \<Rightarrow> ''K1110'' | Switch \<Rightarrow> ''K1111'' | ElseReturn \<Rightarrow> ''K1112'')"

definition hint :: "habit \<Rightarrow> str" where
  "hint h =
     (case h of
        ReturnHabit \<Rightarrow>
          ''a block's value is its final expression, written without '' @ backquoted ''return'' @ '' or '' @
          backquoted '';'' @ ''; for early exit, use postfix '' @ backquoted ''?'' @ '' on a '' @ backquoted ''Result'' @
          '' or '' @ backquoted ''Option'' @ '', or let-else: '' @
          backquoted ''let Some(x) = value else None => fallback;''
      | LoopHabit \<Rightarrow>
          ''Krit has no loops; write a recursive function that matches '' @ backquoted ''[]'' @ '' and '' @
          backquoted ''[head, ..tail]'' @ '' (list functions arrive in Krit 0.4)''
      | Mutation \<Rightarrow>
          ''Krit values are immutable; bind each new value with '' @ backquoted ''let'' @ '' under a new name''
      | TypeDeclaration \<Rightarrow>
          ''Krit has no classes, methods, or traits; use a '' @ backquoted ''record { field: value }'' @
          '' value and plain functions''
      | Import \<Rightarrow>
          ''modules are not available yet; a Krit program is one file, and built-in functions need no import''
      | Async \<Rightarrow>
          ''Krit has no async functions; host calls such as '' @ backquoted ''http_request'' @
          '' finish before they return, so call them directly''
      | Exception \<Rightarrow>
          ''Krit has no exceptions; return '' @ backquoted ''Ok(value)'' @ '' or '' @ backquoted ''Err(error)'' @
          '', then handle the '' @ backquoted ''Result'' @ '' with '' @ backquoted ''match'' @
          '' or pass its error on with postfix '' @ backquoted ''?''
      | Indexing \<Rightarrow>
          ''match the list with '' @ backquoted ''[]'' @ '' and '' @ backquoted ''[head, ..tail]'' @
          '' patterns ('' @ backquoted ''list_get'' @ '' arrives in Krit 0.4)''
      | ArrowFunction \<Rightarrow> ''write an anonymous function as '' @ backquoted ''fn(x) { e }''
      | Ternary \<Rightarrow>
          backquoted ''if'' @ '' is an expression: write '' @ backquoted ''if condition { a } else { b }''
      | Switch \<Rightarrow>
          ''use '' @ backquoted ''match'' @ '' for '' @ backquoted ''Option'' @ '', '' @ backquoted ''Result'' @
          '', and list values, or an '' @ backquoted ''if ... else if ... else'' @ '' chain''
      | ElseReturn \<Rightarrow>
          ''to exit early, use let-else, whose arm names the other variant: '' @
          backquoted ''let Some(x) = value else None => fallback;'')"

definition habit_diagnostic :: "habit \<Rightarrow> str \<Rightarrow> span \<Rightarrow> diagnostic" where
  "habit_diagnostic h m s = with_note (hint h) (diagnostic_new (habit_code h) m s)"

definition word_diagnostic :: "habit \<Rightarrow> str \<Rightarrow> span \<Rightarrow> diagnostic" where
  "word_diagnostic h word s = habit_diagnostic h (backquoted word @ '' is not Krit syntax'') s"

section \<open>Notes\<close>

definition undefined_name_note :: "str \<Rightarrow> str list \<Rightarrow> str option" where
  "undefined_name_note name candidates =
     (if name \<in> set [''null'', ''NULL'', ''Null'', ''nil'', ''Nil'', ''NIL'', ''undefined'', ''nullptr''] then
        Some (''Krit has no '' @ backquoted name @ ''; write '' @ backquoted ''None'' @ '' for an absent '' @
          backquoted ''Option'' @ '' value'')
      else case of_undefined_name name of
        Some h \<Rightarrow> Some (hint h)
      | None \<Rightarrow> map_option (\<lambda>c. ''did you mean '' @ backquoted c @ ''?'') (closest_name name candidates))"

datatype method_receiver = StringReceiver | IntReceiver | ListReceiver | VariantReceiver | OtherReceiver

definition call_hint :: "str \<Rightarrow> str" where
  "call_hint c = ''call '' @ backquoted c @ '' instead''"

definition string_method_hint :: "str \<Rightarrow> str \<Rightarrow> str" where
  "string_method_hint meth v =
     (if meth \<in> set [''len'', ''length'', ''size'', ''count'', ''byte_len''] then
        call_hint (''string_byte_len('' @ v @ '')'') @ ''; it counts UTF-8 bytes''
      else if meth \<in> set [''is_empty'', ''isEmpty'', ''empty''] then call_hint (''string_is_empty('' @ v @ '')'')
      else if meth \<in> set [''contains'', ''includes''] then call_hint (''string_contains('' @ v @ '', part)'')
      else if meth \<in> set [''starts_with'', ''startsWith'', ''startswith'', ''hasPrefix''] then
        call_hint (''string_starts_with('' @ v @ '', prefix)'')
      else if meth \<in> set [''ends_with'', ''endsWith'', ''endswith'', ''hasSuffix''] then
        call_hint (''string_ends_with('' @ v @ '', suffix)'')
      else
        ''pass the string to a function instead; the string functions are '' @ backquoted ''string_byte_len'' @
        '', '' @ backquoted ''string_is_empty'' @ '', '' @ backquoted ''string_contains'' @ '', '' @
        backquoted ''string_starts_with'' @ '', and '' @ backquoted ''string_ends_with'')"

definition method_hint :: "method_receiver \<Rightarrow> str \<Rightarrow> str \<Rightarrow> str" where
  "method_hint receiver meth v =
     (case receiver of
        StringReceiver \<Rightarrow> string_method_hint meth v
      | IntReceiver \<Rightarrow>
          if meth \<in> set [''to_string'', ''toString'', ''string'', ''str''] then
            call_hint (''int_to_string('' @ v @ '')'')
          else ''pass the integer to a function instead, as in '' @ backquoted (''f('' @ v @ '')'')
      | ListReceiver \<Rightarrow>
          ''match the list with '' @ backquoted ''[]'' @ '' and '' @ backquoted ''[head, ..tail]'' @
          '' patterns instead (list functions arrive in Krit 0.4)''
      | VariantReceiver \<Rightarrow>
          ''handle both outcomes with '' @ backquoted ''match'' @ '' instead, pass the failure on with postfix '' @
          backquoted ''?'' @ '', or bind the success with let-else''
      | OtherReceiver \<Rightarrow> ''pass the value to a function instead, as in '' @ backquoted (''f('' @ v @ '')''))"

end
