(* ===== verification/Parser.thy ===== *)
theory Parser
  imports Lexer Habits
begin

text \<open>
  The recursive-descent parser (\<open>krit/src/parser.rs\<close>, with the limits of \<open>krit/src/limits.rs\<close>).

  A parsing function takes the parser and returns its result with the parser moved on, or why it stopped:
  a diagnostic, a panic of the source (an index out of range or a subtraction below zero), or the model
  running out of fuel.  Each loop has as fuel the number of tokens, and the nesting of expressions and
  blocks the number of levels the source allows; \<open>Parser_Safety\<close> shows that fuel never runs out and that
  nothing panics on the tokens of the lexer.
\<close>

section \<open>The parser\<close>

definition MAX_NESTING_DEPTH :: nat where "MAX_NESTING_DEPTH = 256"

definition MAX_STRUCTURAL_DEPTH :: nat where "MAX_STRUCTURAL_DEPTH = 4096"

definition MAX_TREE_DEPTH :: nat where
  "MAX_TREE_DEPTH = MAX_STRUCTURAL_DEPTH + 2 * MAX_NESTING_DEPTH + 2"

definition nesting_error :: "span \<Rightarrow> diagnostic" where
  "nesting_error s =
     diagnostic_new ''K1005'' ''nesting depth limit exceeded: constructs may nest at most 256 levels'' s"

definition structural_error :: "span \<Rightarrow> diagnostic" where
  "structural_error s =
     diagnostic_new ''K1005''
       (''nesting depth limit exceeded: nesting plus the '' @ backquoted ''else if'' @
        '' continuations, operators, and call, field-access, or '' @ backquoted ''?'' @
        '' links above any point may reach at most 4096 levels'') s"

datatype stop = Diag diagnostic | Panic | OutOfFuel

record parser =
  pr_text :: str
  pr_tokens :: "token list"
  pr_cursor :: nat
  pr_depth :: nat
  pr_chain_depth :: nat
  pr_peak :: nat
  pr_speculations :: nat
  pr_ternary_colons :: "nat \<rightharpoonup> span \<times> span"
  construction_allowed :: bool

type_synonym 'a parsing = "parser \<Rightarrow> (stop, 'a \<times> parser) result"

definition pret :: "'a \<Rightarrow> 'a parsing" where
  "pret x p = Inr (x, p)"

definition pstop :: "stop \<Rightarrow> 'a parsing" where
  "pstop e p = Inl e"

definition pfail :: "diagnostic \<Rightarrow> 'a parsing" where
  "pfail d = pstop (Diag d)"

definition pbind :: "'a parsing \<Rightarrow> ('a \<Rightarrow> 'b parsing) \<Rightarrow> 'b parsing" where
  "pbind m f p = (case m p of Inl e \<Rightarrow> Inl e | Inr (x, p') \<Rightarrow> f x p')"

text \<open>Reading the parser, updating it, and failing with a diagnostic when there is one.\<close>

definition pget :: "(parser \<Rightarrow> 'a) \<Rightarrow> 'a parsing" where
  "pget f p = Inr (f p, p)"

definition pput :: "(parser \<Rightarrow> parser) \<Rightarrow> unit parsing" where
  "pput f p = Inr ((), f p)"

definition pguard :: "diagnostic option \<Rightarrow> unit parsing" where
  "pguard d = (case d of None \<Rightarrow> pret () | Some e \<Rightarrow> pfail e)"

text \<open>\<open>tokens[i]\<close>, which panics out of range, and \<open>tokens.get(i)\<close>.\<close>

definition token_at :: "nat \<Rightarrow> token parsing" where
  "token_at i p = (if i < length (pr_tokens p) then Inr (pr_tokens p ! i, p) else Inl Panic)"

definition token_get :: "parser \<Rightarrow> nat \<Rightarrow> token option" where
  "token_get p i = (if i < length (pr_tokens p) then Some (pr_tokens p ! i) else None)"

definition kind_get :: "parser \<Rightarrow> nat \<Rightarrow> token_kind option" where
  "kind_get p i = map_option tok_kind (token_get p i)"

definition is_identifier_kind :: "token_kind option \<Rightarrow> bool" where
  "is_identifier_kind k \<longleftrightarrow> (case k of Some (TIdentifier _) \<Rightarrow> True | _ \<Rightarrow> False)"

definition current :: "token parsing" where
  "current = pbind (pget pr_cursor) token_at"

definition previous :: "token parsing" where
  "previous = pbind (pget pr_cursor) (\<lambda>c. if c = 0 then pstop Panic else token_at (c - 1))"

definition next_token :: "token parsing" where
  "next_token = pbind current (\<lambda>t.
     pbind (if tok_kind t = TEof then pret () else pput (\<lambda>p. p\<lparr>pr_cursor := pr_cursor p + 1\<rparr>)) (\<lambda>_.
     pret t))"

definition check :: "token_kind \<Rightarrow> bool parsing" where
  "check k = pbind current (\<lambda>t. pret (tok_kind t = k))"

definition expected :: "str \<Rightarrow> 'a parsing" where
  "expected what = pbind current (\<lambda>t.
     pfail (diagnostic_new ''K1002''
       (''expected '' @ what @ '', found '' @ description (tok_kind t)) (tok_span t)))"

definition expect :: "token_kind \<Rightarrow> token parsing" where
  "expect k = pbind (check k) (\<lambda>b. if b then next_token else expected (description k))"

definition consume_kind :: "token_kind \<Rightarrow> bool parsing" where
  "consume_kind k = pbind (check k) (\<lambda>b. if b then pbind next_token (\<lambda>_. pret True) else pret False)"

definition consume_span :: "token_kind \<Rightarrow> span option parsing" where
  "consume_span k =
     pbind (check k) (\<lambda>b. if b then pbind next_token (\<lambda>t. pret (Some (tok_span t))) else pret None)"

definition structural_depth :: "parser \<Rightarrow> nat" where
  "structural_depth p = pr_depth p + pr_chain_depth p"

definition reach :: "nat \<Rightarrow> span \<Rightarrow> unit parsing" where
  "reach depth s =
     (if depth > MAX_STRUCTURAL_DEPTH then pfail (structural_error s)
      else pput (\<lambda>p. p\<lparr>pr_peak := max (pr_peak p) depth\<rparr>))"

definition enter :: "span \<Rightarrow> unit parsing" where
  "enter s =
     pbind (pput (\<lambda>p. p\<lparr>pr_depth := pr_depth p + 1\<rparr>)) (\<lambda>_.
     pbind (pget pr_depth) (\<lambda>d.
     if d > MAX_NESTING_DEPTH then pfail (nesting_error s)
     else pbind (pget structural_depth) (\<lambda>n. reach n s)))"

definition enter_chain_link :: "span \<Rightarrow> unit parsing" where
  "enter_chain_link s =
     pbind (pput (\<lambda>p. p\<lparr>pr_chain_depth := pr_chain_depth p + 1\<rparr>)) (\<lambda>_.
     pbind (pget structural_depth) (\<lambda>n. reach n s))"

text \<open>
  The source also restores the depth and the flag when the inner parse fails; a failed parse is only ever
  resumed by \<open>ternary_after\<close>, which goes back to the parser it started from.
\<close>

definition leave :: "nat \<Rightarrow> unit parsing" where
  "leave levels = pput (\<lambda>p. p\<lparr>pr_depth := pr_depth p - levels\<rparr>)"

definition nested :: "span \<Rightarrow> 'a parsing \<Rightarrow> 'a parsing" where
  "nested s parse =
     pbind (enter s) (\<lambda>_. pbind parse (\<lambda>x. pbind (leave 1) (\<lambda>_. pret x)))"

fun enter_levels :: "nat \<Rightarrow> span \<Rightarrow> unit parsing" where
  "enter_levels 0 s = pret ()"
| "enter_levels (Suc levels) s = pbind (enter s) (\<lambda>_. enter_levels levels s)"

definition nested_levels :: "nat \<Rightarrow> span \<Rightarrow> 'a parsing \<Rightarrow> 'a parsing" where
  "nested_levels levels s parse =
     pbind (enter_levels levels s) (\<lambda>_. pbind parse (\<lambda>x. pbind (leave levels) (\<lambda>_. pret x)))"

definition with_construction :: "bool \<Rightarrow> 'a parsing \<Rightarrow> 'a parsing" where
  "with_construction allowed parse =
     pbind (pget construction_allowed) (\<lambda>outer.
     pbind (pput (\<lambda>p. p\<lparr>construction_allowed := allowed\<rparr>)) (\<lambda>_.
     pbind parse (\<lambda>x.
     pbind (pput (\<lambda>p. p\<lparr>construction_allowed := outer\<rparr>)) (\<lambda>_. pret x))))"

text \<open>\<open>later f n\<close> is \<open>f n\<close>, unfolded only when the parser is given: how a level refers to the next one.\<close>

definition later :: "(nat \<Rightarrow> 'a parsing) \<Rightarrow> nat \<Rightarrow> 'a parsing" where
  "later f n p = f n p"

lemma later_cong [fundef_cong]: "n = m \<Longrightarrow> f m = g m \<Longrightarrow> later f n = later g m"
  by (simp add: later_def fun_eq_iff)

text \<open>
  A loop over comma-separated items up to, but not including, the closing token: nothing when it closes at
  once, otherwise items until one is not followed by a comma or a comma by the closing token.  \<open>item\<close> gets
  what the loop has collected so far.
\<close>

fun items_loop :: "nat \<Rightarrow> token_kind \<Rightarrow> ('s \<Rightarrow> 's parsing) \<Rightarrow> 's \<Rightarrow> 's parsing" where
  "items_loop 0 close item acc = pstop OutOfFuel"
| "items_loop (Suc k) close item acc =
     pbind (item acc) (\<lambda>acc'.
     pbind (consume_kind TComma) (\<lambda>comma.
     if \<not> comma then pret acc'
     else pbind (check close) (\<lambda>closed. if closed then pret acc' else items_loop k close item acc')))"

definition items :: "token_kind \<Rightarrow> ('s \<Rightarrow> 's parsing) \<Rightarrow> 's \<Rightarrow> 's parsing" where
  "items close item acc =
     pbind (check close) (\<lambda>closed.
     if closed then pret acc
     else pbind (pget (length \<circ> pr_tokens)) (\<lambda>k. items_loop k close item acc))"

section \<open>Tokens that start an expression\<close>

definition starts_operand_only :: "token_kind \<Rightarrow> bool" where
  "starts_operand_only k \<longleftrightarrow>
     (case k of
        TIdentifier _ \<Rightarrow> True | TInteger _ \<Rightarrow> True | TString _ \<Rightarrow> True | TTemplate _ \<Rightarrow> True
      | TTrue \<Rightarrow> True | TFalse \<Rightarrow> True | TRecord \<Rightarrow> True | TIf \<Rightarrow> True | TMatch \<Rightarrow> True
      | TFn \<Rightarrow> True | TBang \<Rightarrow> True | _ \<Rightarrow> False)"

definition starts_expression :: "token_kind \<Rightarrow> bool" where
  "starts_expression k \<longleftrightarrow>
     starts_operand_only k \<or> k = TLeftParen \<or> k = TLeftBracket \<or> k = TLeftBrace \<or> k = TMinus"

text \<open>\<open>ternary_colons\<close>: one level per open bracket, innermost first.\<close>

record bracket_level =
  questions :: "nat list"
  level_list :: bool
  entry_key :: bool

definition level_default :: bracket_level where
  "level_default = \<lparr>questions = [], level_list = False, entry_key = False\<rparr>"

definition colon_found ::
  "token list \<Rightarrow> span \<Rightarrow> nat list \<Rightarrow> (nat \<rightharpoonup> span \<times> span) \<Rightarrow> (nat \<rightharpoonup> span \<times> span)" where
  "colon_found ts colon pending colons =
     (case find (\<lambda>q. q + 1 < length ts \<and> starts_expression (tok_kind (ts ! (q + 1)))) (rev pending) of
        None \<Rightarrow> colons
      | Some innermost \<Rightarrow> foldl (\<lambda>m q. m(q \<mapsto> (tok_span (ts ! innermost), colon))) colons pending)"

definition close_level :: "bracket_level \<Rightarrow> bracket_level list \<Rightarrow> bracket_level \<times> bracket_level list" where
  "close_level level outer =
     (case outer of [] \<Rightarrow> (level\<lparr>questions := []\<rparr>, []) | l # ls \<Rightarrow> (l, ls))"

definition scan_token ::
  "token list \<Rightarrow> nat \<Rightarrow> token \<Rightarrow> (bracket_level \<times> bracket_level list) \<times> (nat \<rightharpoonup> span \<times> span)
     \<Rightarrow> (bracket_level \<times> bracket_level list) \<times> (nat \<rightharpoonup> span \<times> span)" where
  "scan_token ts index t state =
     (case state of ((level, outer), colons) \<Rightarrow>
      case tok_kind t of
        TQuestion \<Rightarrow> ((level\<lparr>questions := questions level @ [index]\<rparr>, outer), colons)
      | TLeftParen \<Rightarrow> ((level_default, level # outer), colons)
      | TLeftBrace \<Rightarrow> ((level_default, level # outer), colons)
      | TLeftBracket \<Rightarrow> ((\<lparr>questions = [], level_list = True, entry_key = True\<rparr>, level # outer), colons)
      | TRightParen \<Rightarrow> (close_level level outer, colons)
      | TRightBracket \<Rightarrow> (close_level level outer, colons)
      | TRightBrace \<Rightarrow> (close_level level outer, colons)
      | TColon \<Rightarrow>
          ((level\<lparr>questions := [], entry_key := False\<rparr>, outer),
           if entry_key level then colons else colon_found ts (tok_span t) (questions level) colons)
      | TComma \<Rightarrow> ((level\<lparr>questions := [], entry_key := level_list level\<rparr>, outer), colons)
      | TSemicolon \<Rightarrow> ((level\<lparr>questions := []\<rparr>, outer), colons)
      | TLet \<Rightarrow> ((level\<lparr>questions := []\<rparr>, outer), colons)
      | _ \<Rightarrow> state)"

fun ternary_scan ::
  "token list \<Rightarrow> nat \<Rightarrow> (bracket_level \<times> bracket_level list) \<times> (nat \<rightharpoonup> span \<times> span) \<Rightarrow> token list \<Rightarrow> (nat \<rightharpoonup> span \<times> span)" where
  "ternary_scan ts index state [] = snd state"
| "ternary_scan ts index state (t # rest) =
     (if tok_kind t = TEof then snd state else ternary_scan ts (index + 1) (scan_token ts index t state) rest)"

definition ternary_colons :: "token list \<Rightarrow> (nat \<rightharpoonup> span \<times> span)" where
  "ternary_colons ts = ternary_scan ts 0 ((level_default, []), Map.empty) ts"

definition parser_new :: "str \<Rightarrow> token list \<Rightarrow> parser" where
  "parser_new t ts =
     \<lparr>pr_text = t, pr_tokens = ts, pr_cursor = 0, pr_depth = 0, pr_chain_depth = 0, pr_peak = 0,
      pr_speculations = 0, pr_ternary_colons = ternary_colons ts, construction_allowed = True\<rparr>"

section \<open>Names\<close>

definition reserved_names :: "str list" where
  "reserved_names =
     [''print'', ''println'', ''ai_invoke'', ''Some'', ''None'', ''Ok'', ''Err'', ''json_encode'', ''json_decode'',
      ''config_string'', ''http_request'', ''log_info'', ''log_error'', ''secret'']"

definition parse_identifier :: "(str \<times> span) parsing" where
  "parse_identifier = pbind next_token (\<lambda>t.
     case tok_kind t of
       TIdentifier name \<Rightarrow> pret (name, tok_span t)
     | k \<Rightarrow> pfail (diagnostic_new ''K1002'' (''expected identifier, found '' @ description k) (tok_span t)))"

definition binding_name :: "(str \<times> span) parsing" where
  "binding_name = pbind parse_identifier (\<lambda>(name, s).
     pbind current (\<lambda>t.
     if name = ''mut'' \<and> is_identifier_kind (Some (tok_kind t)) then pfail (word_diagnostic Mutation name s)
     else if name \<in> set reserved_names then
       pfail (diagnostic_new ''K2002'' (backquoted name @ '' is a reserved built-in name'') s)
     else pret (name, s)))"

section \<open>Types\<close>

definition simple_types :: "(str \<times> type_kind) list" where
  "simple_types =
     [(''Int'', IntType), (''Bool'', BoolType), (''String'', StringType), (''Unit'', UnitType),
      (''HttpHeader'', HttpHeaderType), (''HttpRequest'', HttpRequestType), (''HttpResponse'', HttpResponseType),
      (''LogField'', LogFieldType), (''QueueJob'', QueueJobType), (''ScheduleEvent'', ScheduleEventType),
      (''DatabaseTransaction'', DatabaseTransactionType), (''Secret'', SecretType)]"

definition duplicate_error :: "str \<Rightarrow> str \<Rightarrow> span \<Rightarrow> diagnostic" where
  "duplicate_error what name s = diagnostic_new ''K2002'' (''duplicate '' @ what @ '' '' @ backquoted name) s"

text \<open>The field lists keep the fields read so far; the names seen are theirs.\<close>

definition record_type_field ::
  "type_annotation parsing \<Rightarrow> (str \<times> type_annotation \<times> span) list \<Rightarrow> (str \<times> type_annotation \<times> span) list parsing" where
  "record_type_field ty fs =
     pbind parse_identifier (\<lambda>(name, name_span).
     if name \<in> fst ` set fs then pfail (duplicate_error ''record type field'' name name_span)
     else
       pbind (expect TColon) (\<lambda>_.
       pbind ty (\<lambda>annotation.
       pret (fs @ [(name, annotation, span_join name_span (ty_span annotation))]))))"

definition record_type_field_list :: "type_annotation parsing \<Rightarrow> (str \<times> type_annotation \<times> span) list parsing" where
  "record_type_field_list ty =
     pbind (items TRightBrace (record_type_field ty) []) (\<lambda>fs.
     pbind (expect TRightBrace) (\<lambda>_. pret fs))"

definition record_type_fields :: "type_annotation parsing \<Rightarrow> (str \<times> type_annotation \<times> span) list parsing" where
  "record_type_fields ty =
     pbind (expect TLeftBrace) (\<lambda>open_token. nested (tok_span open_token) (record_type_field_list ty))"

definition type_argument :: "'a parsing \<Rightarrow> 'a parsing" where
  "type_argument argument =
     pbind (expect TLess) (\<lambda>open_token.
     pbind (nested (tok_span open_token) argument) (\<lambda>x.
     pbind (expect TGreater) (\<lambda>_. pret x)))"

definition type_arguments :: "type_annotation parsing \<Rightarrow> (type_annotation \<times> type_annotation) parsing" where
  "type_arguments ty =
     type_argument (pbind ty (\<lambda>v. pbind (expect TComma) (\<lambda>_. pbind ty (\<lambda>e. pret (v, e)))))"

definition parse_type_kind :: "type_annotation parsing \<Rightarrow> str \<Rightarrow> span \<Rightarrow> type_kind parsing" where
  "parse_type_kind ty name s =
     (case map_of simple_types name of
        Some k \<Rightarrow> pret k
      | None \<Rightarrow>
          if name = ''List'' then pbind (type_argument ty) (\<lambda>t. pret (ListType t))
          else if name = ''Option'' then pbind (type_argument ty) (\<lambda>t. pret (OptionType t))
          else if name = ''Result'' then pbind (type_arguments ty) (\<lambda>(v, e). pret (ResultType v e))
          else if name = ''Record'' then pbind (record_type_fields ty) (\<lambda>fs. pret (RecordType fs))
          else pfail (diagnostic_new ''K1002'' (''unknown built-in type '' @ backquoted name) s))"

definition type_with :: "type_annotation parsing \<Rightarrow> type_annotation parsing" where
  "type_with ty =
     pbind next_token (\<lambda>t.
     case tok_kind t of
       TIdentifier name \<Rightarrow>
         pbind (parse_type_kind ty name (tok_span t)) (\<lambda>k.
         pbind previous (\<lambda>last_token.
         pret (TypeAnnotation k (span_join (tok_span t) (tok_span last_token)))))
     | k \<Rightarrow>
         (let error = diagnostic_new ''K1002'' (''expected built-in type, found '' @ description k) (tok_span t) in
          if k = TLeftParen then
            pbind (check TRightParen) (\<lambda>b.
              pfail (if b then with_note (''the unit type is spelled '' @ backquoted ''Unit'' @ ''; '' @
                  backquoted ''()'' @ '' is the unit value'') error else error))
          else pfail error))"

fun type_at :: "nat \<Rightarrow> type_annotation parsing" where
  "type_at 0 = pstop OutOfFuel"
| "type_at (Suc n) = type_with (later type_at n)"

definition parse_type :: "type_annotation parsing" where
  "parse_type = type_at (Suc MAX_NESTING_DEPTH)"

definition optional_type :: "token_kind \<Rightarrow> type_annotation option parsing" where
  "optional_type k =
     pbind (consume_kind k) (\<lambda>b. if b then pbind parse_type (\<lambda>t. pret (Some t)) else pret None)"

section \<open>Patterns\<close>

definition variant_of :: "str \<Rightarrow> variant_name option" where
  "variant_of name =
     (if name = ''Some'' then Some VSome else if name = ''None'' then Some VNone
      else if name = ''Ok'' then Some VOk else if name = ''Err'' then Some VErr else None)"

definition list_pattern_part :: "pattern parsing" where
  "list_pattern_part =
     pbind current (\<lambda>t.
     let error = (\<lambda>found. pfail (diagnostic_new ''K1003''
       (''the head and tail of a list pattern are names or '' @ backquoted ''_'' @ '', found '' @ found) (tok_span t))) in
     case tok_kind t of
       TIdentifier name \<Rightarrow>
         if name = ''_'' then pbind next_token (\<lambda>_. pret (Pattern Wildcard (tok_span t)))
         else if variant_of name = None then pbind binding_name (\<lambda>(b, s). pret (Pattern (Binder b) s))
         else error (backquoted name)
     | k \<Rightarrow> error (description k))"

definition list_shape_error :: "span \<Rightarrow> 'a parsing" where
  "list_shape_error start = pbind current (\<lambda>t.
     pfail (diagnostic_new ''K1003''
       (''a list pattern is '' @ backquoted ''[]'' @ '' or '' @ backquoted ''[head, ..tail]'')
       (span_join start (tok_span t))))"

definition same_binder :: "pattern \<Rightarrow> pattern \<Rightarrow> str option" where
  "same_binder head tail =
     (case (pat_kind head, pat_kind tail) of
        (Binder h, Binder t) \<Rightarrow> if h = t then Some t else None
      | _ \<Rightarrow> None)"

definition list_pattern :: "pattern parsing" where
  "list_pattern =
     pbind (expect TLeftBracket) (\<lambda>open_token.
     let start = tok_span open_token in
     pbind (consume_span TRightBracket) (\<lambda>closed.
     case closed of
       Some end_span \<Rightarrow> pret (Pattern EmptyListPattern (span_join start end_span))
     | None \<Rightarrow>
         pbind list_pattern_part (\<lambda>head.
         pbind (consume_kind TComma) (\<lambda>comma.
         pbind (if comma then consume_kind TDotDot else pret False) (\<lambda>dots.
         if \<not> dots then list_shape_error start
         else
           pbind list_pattern_part (\<lambda>tail.
           case same_binder head tail of
             Some name \<Rightarrow> pfail (duplicate_error ''match binding'' name (span_join (pat_span head) (pat_span tail)))
           | None \<Rightarrow>
               pbind (check TRightBracket) (\<lambda>b.
               if \<not> b then list_shape_error start
               else pbind next_token (\<lambda>e.
                 pret (Pattern (ConsPattern head tail) (span_join start (tok_span e)))))))))))"

definition pattern_expected :: "token \<Rightarrow> diagnostic" where
  "pattern_expected t =
     with_note (''a pattern is a name, '' @ backquoted ''_'' @ '', '' @ backquoted ''Some(p)'' @ '', '' @
         backquoted ''None'' @ '', '' @ backquoted ''Ok(p)'' @ '', '' @ backquoted ''Err(p)'' @ '', '' @
         backquoted ''[]'' @ '', or '' @ backquoted ''[head, ..tail]'' @ ''; to compare values, use '' @
         backquoted ''if'' @ '' and '' @ backquoted ''=='')
       (diagnostic_new ''K1003'' (''expected a match pattern, found '' @ description (tok_kind t)) (tok_span t))"

definition must_bind_error :: "variant_name \<Rightarrow> span \<Rightarrow> diagnostic" where
  "must_bind_error v s =
     diagnostic_new ''K1003'' (backquoted (variant_as_str v) @ '' must bind one value'') s"

definition none_binds_error :: "span \<Rightarrow> diagnostic" where
  "none_binds_error s = diagnostic_new ''K1003'' (backquoted ''None'' @ '' does not bind a value'') s"

definition unknown_variant :: "str \<Rightarrow> span \<Rightarrow> diagnostic" where
  "unknown_variant name s = diagnostic_new ''K1003'' (''unknown match variant '' @ backquoted name) s"

text \<open>A variant pattern after its name has been read.\<close>

definition variant_payload :: "pattern parsing \<Rightarrow> variant_name \<Rightarrow> span \<Rightarrow> pattern parsing" where
  "variant_payload sub v s =
     pbind (check TLeftParen) (\<lambda>paren.
     if v = VNone then
       if paren then pbind current (\<lambda>t. pfail (none_binds_error (tok_span t)))
       else pret (Pattern (Variant v None) s)
     else if \<not> paren then pbind current (\<lambda>t. pfail (must_bind_error v (span_join s (tok_span t))))
     else
       pbind next_token (\<lambda>open_token.
       pbind (nested (tok_span open_token) sub) (\<lambda>payload.
       pbind (expect TRightParen) (\<lambda>e.
       pret (Pattern (Variant v (Some payload)) (span_join s (tok_span e)))))))"

definition pattern_with :: "pattern parsing \<Rightarrow> pattern parsing" where
  "pattern_with sub =
     pbind current (\<lambda>t.
     case tok_kind t of
       TLeftBracket \<Rightarrow> list_pattern
     | TIdentifier name \<Rightarrow>
         pbind (pget (\<lambda>p. kind_get p (pr_cursor p + 1) = Some TLeftParen)) (\<lambda>follows_paren.
         case variant_of name of
           Some v \<Rightarrow> pbind next_token (\<lambda>_. variant_payload sub v (tok_span t))
         | None \<Rightarrow>
             if name = ''_'' then pbind next_token (\<lambda>_. pret (Pattern Wildcard (tok_span t)))
             else if follows_paren then pfail (unknown_variant name (tok_span t))
             else pbind binding_name (\<lambda>(b, s). pret (Pattern (Binder b) s)))
     | _ \<Rightarrow> pfail (pattern_expected t))"

fun pattern_at :: "nat \<Rightarrow> pattern parsing" where
  "pattern_at 0 = pstop OutOfFuel"
| "pattern_at (Suc n) = pattern_with (later pattern_at n)"

definition parse_pattern :: "pattern parsing" where
  "parse_pattern = pattern_at (Suc MAX_NESTING_DEPTH)"

definition at_variant_pattern :: "bool parsing" where
  "at_variant_pattern =
     pbind current (\<lambda>t.
     pget (\<lambda>p.
       case tok_kind t of
         TIdentifier name \<Rightarrow>
           name = ''None'' \<or>
           (name = ''Some'' \<or> name = ''Ok'' \<or> name = ''Err'') \<and> kind_get p (pr_cursor p + 1) = Some TLeftParen
       | _ \<Rightarrow> False))"

definition parse_variant_name :: "(variant_name \<times> span) parsing" where
  "parse_variant_name =
     pbind next_token (\<lambda>t.
     case tok_kind t of
       TIdentifier name \<Rightarrow>
         (case variant_of name of
            Some v \<Rightarrow> pret (v, tok_span t)
          | None \<Rightarrow> pfail (unknown_variant name (tok_span t)))
     | _ \<Rightarrow> pfail (diagnostic_new ''K1003''
         (''expected '' @ backquoted ''Some(name)'' @ '', '' @ backquoted ''None'' @ '', '' @ backquoted ''Ok(name)'' @
          '', or '' @ backquoted ''Err(name)'') (tok_span t)))"

definition nested_let_else :: "variant_name \<Rightarrow> span \<Rightarrow> diagnostic" where
  "nested_let_else v s =
     with_note (''bind the payload with this let-else, then decide it with another let-else or a '' @
         backquoted ''match'' @ '', whose patterns nest'')
       (diagnostic_new ''K3014'' (''let-else patterns do not nest: '' @
         backquoted (variant_as_str v @ ''(...)'') @ '' binds its payload to a name or '' @ backquoted ''_'') s)"

definition variant_binding :: "variant_name \<Rightarrow> span \<Rightarrow> str option parsing" where
  "variant_binding v name_span =
     (if v = VNone then
        pbind (check TLeftParen) (\<lambda>paren.
        if paren then pbind current (\<lambda>t. pfail (none_binds_error (tok_span t))) else pret None)
      else
        pbind (consume_kind TLeftParen) (\<lambda>paren.
        if \<not> paren then pbind current (\<lambda>t. pfail (must_bind_error v (span_join name_span (tok_span t))))
        else
          pbind at_variant_pattern (\<lambda>variant.
          pbind (check TLeftBracket) (\<lambda>bracket.
          if variant \<or> bracket then pbind current (\<lambda>t. pfail (nested_let_else v (tok_span t)))
          else
            pbind binding_name (\<lambda>(b, _).
            pbind (expect TRightParen) (\<lambda>_. pret (Some b)))))))"

definition parse_variant_pattern :: "variant_pattern parsing" where
  "parse_variant_pattern =
     pbind parse_variant_name (\<lambda>(v, name_span).
     pbind (variant_binding v name_span) (\<lambda>b.
     pbind previous (\<lambda>t.
     pret \<lparr>vp_variant = v, vp_binding = b, vp_span = span_join name_span (tok_span t)\<rparr>)))"

section \<open>Doc comments\<close>

text \<open>\<open>&text[a..b]\<close> panics and \<open>text.get(a..b)\<close> is \<open>None\<close> unless the range lies in the text between characters.\<close>

definition range_ok :: "str \<Rightarrow> nat \<Rightarrow> nat \<Rightarrow> bool" where
  "range_ok t a b \<longleftrightarrow> a \<le> b \<and> b \<le> length t \<and> is_char_boundary t a \<and> is_char_boundary t b"

definition trim_start :: "str \<Rightarrow> str" where
  "trim_start s = concat (dropWhile is_whitespace (chars s))"

definition trim_end :: "str \<Rightarrow> str" where
  "trim_end s = concat (rev (dropWhile is_whitespace (rev (chars s))))"

definition strip_prefix :: "str \<Rightarrow> str \<Rightarrow> str option" where
  "strip_prefix pre s = (if take (length pre) s = pre then Some (drop (length pre) s) else None)"

definition doc_line_text :: "str \<Rightarrow> str option" where
  "doc_line_text c =
     (case strip_prefix ''///'' c of
        None \<Rightarrow> None
      | Some rest \<Rightarrow>
          if take 1 rest = ''/'' then None
          else Some (case strip_prefix '' '' rest of Some r \<Rightarrow> r | None \<Rightarrow> rest))"

text \<open>The lines of the trivia that a line break ends, with their starts; \<open>line\<close> is what the current line has.\<close>

fun broken_lines :: "nat \<Rightarrow> str \<Rightarrow> str \<Rightarrow> (nat \<times> str) list" where
  "broken_lines start line [] = []"
| "broken_lines start line (b # s) =
     (if is_line_break b then (start, line) # broken_lines (start + length line + 1) [] s
      else broken_lines start (line @ [b]) s)"

text \<open>The loop over the lines above the item, nearest first.\<close>

fun doc_lines :: "(nat \<times> str) list \<Rightarrow> (span \<times> str) list" where
  "doc_lines [] = []"
| "doc_lines ((start, line) # lines) =
     (let c = trim_start line in
      if c = [] then doc_lines lines
      else case doc_line_text c of
        None \<Rightarrow> []
      | Some line_text \<Rightarrow>
          let comment_start = start + (length line - length c) in
          (span_new comment_start (comment_start + length (trim_end c)), trim_end line_text) # doc_lines lines)"

definition doc_comment_before :: "str \<Rightarrow> nat \<Rightarrow> nat \<Rightarrow> bool \<Rightarrow> doc_comment option" where
  "doc_comment_before t trivia_start item_start after_token =
     (let ls = broken_lines trivia_start [] (str_slice t trivia_start item_start) in
      if after_token \<and> ls = [] then None
      else
        case doc_lines (rev (if after_token then tl ls else ls)) of
          [] \<Rightarrow> None
        | d # ds \<Rightarrow>
            Some \<lparr>doc_text = join [CHR 0x0A] (rev (map snd (d # ds))),
                  doc_span = span_join (fst (last (d # ds))) (fst d)\<rparr>)"

definition parse_doc_comment :: "doc_comment option parsing" where
  "parse_doc_comment =
     pbind (pget pr_cursor) (\<lambda>c.
     pbind (if c = 0 then pret None else pbind previous (\<lambda>t. pret (Some (tok_span t)))) (\<lambda>prev.
     pbind current (\<lambda>t.
     pbind (pget pr_text) (\<lambda>whole.
     let trivia_start = (case prev of None \<Rightarrow> 0 | Some s \<Rightarrow> span_end s); item_start = span_start (tok_span t) in
     if range_ok whole trivia_start item_start
     then pret (doc_comment_before whole trivia_start item_start (prev \<noteq> None))
     else pstop Panic))))"

section \<open>Constructs of other languages\<close>

definition arrow_function :: "span \<Rightarrow> diagnostic" where
  "arrow_function s = habit_diagnostic ArrowFunction ''arrow functions are not Krit syntax'' s"

definition ternary :: "span \<Rightarrow> diagnostic" where
  "ternary s = habit_diagnostic Ternary
     (''the conditional operator '' @ backquoted ''? :'' @ '' is not Krit syntax'') s"

definition is_settled :: "diagnostic \<Rightarrow> bool" where
  "is_settled d \<longleftrightarrow> code d = ''K1005'' \<or> take 3 (code d) = ''K11''"

definition same_line :: "parser \<Rightarrow> span \<Rightarrow> span \<Rightarrow> bool" where
  "same_line p prior after \<longleftrightarrow>
     range_ok (pr_text p) (span_end prior) (span_start after) \<and>
     \<not> list_ex is_line_break (str_slice (pr_text p) (span_end prior) (span_start after))"

definition follows_as_operand :: "parser \<Rightarrow> span \<Rightarrow> token \<Rightarrow> bool" where
  "follows_as_operand p word follower \<longleftrightarrow>
     same_line p word (tok_span follower) \<and>
     (starts_operand_only (tok_kind follower) \<or>
      tok_kind follower = TLeftBracket \<and> span_start (tok_span follower) > span_end word)"

fun matching_from :: "(token_kind \<Rightarrow> bool) \<Rightarrow> nat \<Rightarrow> nat \<Rightarrow> token list \<Rightarrow> nat option" where
  "matching_from halt index depth [] = None"
| "matching_from halt index depth (t # ts) =
     (case tok_kind t of
        TLeftParen \<Rightarrow> matching_from halt (index + 1) (depth + 1) ts
      | TRightParen \<Rightarrow>
          if depth = 0 then None
          else if depth = 1 then Some index
          else matching_from halt (index + 1) (depth - 1) ts
      | TEof \<Rightarrow> None
      | k \<Rightarrow> if halt k then None else matching_from halt (index + 1) depth ts)"

definition matching_paren :: "parser \<Rightarrow> nat \<Rightarrow> (token_kind \<Rightarrow> bool) \<Rightarrow> nat option" where
  "matching_paren p open_index halt = matching_from halt open_index 0 (drop open_index (pr_tokens p))"

definition arrow_after_group :: "parser \<Rightarrow> nat \<Rightarrow> diagnostic option" where
  "arrow_after_group p open_index =
     (case matching_paren p open_index (\<lambda>k. k = TSemicolon) of
        None \<Rightarrow> None
      | Some close \<Rightarrow>
          (case token_get p (close + 1) of
             None \<Rightarrow> None
           | Some arrow \<Rightarrow>
               if tok_kind arrow = TFatArrow
               then Some (arrow_function (span_join (tok_span (pr_tokens p ! open_index)) (tok_span arrow)))
               else None))"

definition word_habit :: "str \<Rightarrow> span \<Rightarrow> diagnostic option parsing" where
  "word_habit word s =
     (case of_word word of
        None \<Rightarrow> pret None
      | Some h \<Rightarrow>
          pbind current (\<lambda>follower.
          pget (\<lambda>p.
            if follows_as_operand p s follower \<or>
               tok_kind follower = TLeftParen \<and> arrow_after_group p (pr_cursor p) \<noteq> None
            then Some (word_diagnostic h word s) else None)))"

definition statement_habit :: "diagnostic option parsing" where
  "statement_habit =
     pbind current (\<lambda>word.
     case tok_kind word of
       TIdentifier name \<Rightarrow>
         (case of_word name of
            None \<Rightarrow> pret None
          | Some h \<Rightarrow>
              pget (\<lambda>p.
                case kind_get p (pr_cursor p + 1) of
                  None \<Rightarrow> None
                | Some k \<Rightarrow>
                    if k = TLeftBrace \<or> k = TColon \<or>
                       k = TLeftParen \<and>
                       (case matching_paren p (pr_cursor p + 1) (\<lambda>k. k = TLeftBrace \<or> k = TRightBrace) of
                          None \<Rightarrow> False
                        | Some close \<Rightarrow> kind_get p (close + 1) = Some TLeftBrace)
                    then Some (word_diagnostic h name (tok_span word)) else None))
     | _ \<Rightarrow> pret None)"

definition assignment_after :: "expression \<Rightarrow> diagnostic option parsing" where
  "assignment_after target =
     pbind current (\<lambda>t.
     pret (if tok_kind t = TEqual
       then Some (habit_diagnostic Mutation ''assignment is not Krit syntax'' (span_join (ex_span target) (tok_span t)))
       else None))"

definition compound_assignment :: "token_kind \<Rightarrow> token_kind \<Rightarrow> str option" where
  "compound_assignment prior unexpected =
     (if prior = TPlus \<and> unexpected = TEqual then Some ''+=''
      else if prior = TMinus \<and> unexpected = TEqual then Some ''-=''
      else if prior = TStar \<and> unexpected = TEqual then Some ''*=''
      else if prior = TSlash \<and> unexpected = TEqual then Some ''/=''
      else if prior = TPercent \<and> unexpected = TEqual then Some ''%=''
      else if prior = TPlus \<and> unexpected = TPlus then Some ''++''
      else None)"

definition mutation_error :: "str \<Rightarrow> token \<Rightarrow> token \<Rightarrow> diagnostic option" where
  "mutation_error operator first second =
     (if span_end (tok_span first) = span_start (tok_span second)
      then Some (habit_diagnostic Mutation (backquoted operator @ '' is not Krit syntax'')
        (span_join (tok_span first) (tok_span second)))
      else None)"

definition mutation_operator :: "token \<Rightarrow> diagnostic option parsing" where
  "mutation_operator unexpected =
     pbind (pget pr_cursor) (\<lambda>c.
     pbind (if tok_kind unexpected = TEof then pret c
            else if c = 0 then pstop Panic else pret (c - 1)) (\<lambda>index.
     if index = 0 then pret None
     else
       pbind (token_at (index - 1)) (\<lambda>prior.
       case compound_assignment (tok_kind prior) (tok_kind unexpected) of
         Some operator \<Rightarrow> pret (mutation_error operator prior unexpected)
       | None \<Rightarrow>
           if tok_kind prior = TMinus then
             if index < 2 then pret None
             else pbind (token_at (index - 2)) (\<lambda>first.
               pret (if tok_kind first = TMinus then mutation_error ''--'' first prior else None))
           else pret None)))"

definition else_return :: "span \<Rightarrow> diagnostic option parsing" where
  "else_return else_span =
     pbind (check TLeftBrace) (\<lambda>brace.
     pget (\<lambda>p.
       let i = pr_cursor p + (if brace then 1 else 0) in
       case (token_get p i, token_get p (i + 1)) of
         (Some word, Some follower) \<Rightarrow>
           if tok_kind word = TIdentifier ''return'' \<and> follows_as_operand p (tok_span word) follower
           then Some (habit_diagnostic ElseReturn
             (backquoted ''return'' @ '' in an '' @ backquoted ''else'' @ '' block is not Krit syntax'')
             (span_join else_span (tok_span word)))
           else None
       | _ \<Rightarrow> None))"

text \<open>
  The first branch of a conditional operator is parsed speculatively, and the parser continues where it was.
\<close>

definition ternary_after :: "expression parsing \<Rightarrow> span \<Rightarrow> diagnostic option parsing" where
  "ternary_after e question p =
     (if pr_cursor p = 0 then Inl Panic
      else
        case nested question e (p\<lparr>pr_speculations := pr_speculations p + 1\<rparr>) of
          Inl (Diag d) \<Rightarrow>
            Inr (if code d = ''K1005'' \<or> code d = habit_code Ternary then Some d
                 else if pr_speculations p = 0 then
                   map_option (\<lambda>(_, colon). ternary (span_join question colon))
                     (pr_ternary_colons p (pr_cursor p - 1))
                 else None, p)
        | Inl Panic \<Rightarrow> Inl Panic
        | Inl OutOfFuel \<Rightarrow> Inl OutOfFuel
        | Inr (_, p1) \<Rightarrow>
            (case current p1 of
               Inl stopped \<Rightarrow> Inl stopped
             | Inr (t, _) \<Rightarrow>
                 Inr (if tok_kind t = TColon then Some (ternary (span_join question (tok_span t))) else None,
                   p1\<lparr>pr_cursor := pr_cursor p, pr_depth := pr_depth p, pr_chain_depth := pr_chain_depth p,
                      pr_peak := pr_peak p, pr_speculations := pr_speculations p1 - 1\<rparr>)))"

definition question_misuse :: "expression parsing \<Rightarrow> span \<Rightarrow> diagnostic option parsing" where
  "question_misuse e question =
     pbind current (\<lambda>follower.
     if \<not> starts_expression (tok_kind follower) then pret None
     else if \<not> starts_operand_only (tok_kind follower) then
       pbind (pget pr_cursor) (\<lambda>c.
       if c = 0 then pstop Panic
       else pget (\<lambda>p. map_option (\<lambda>(innermost, colon). ternary (span_join innermost colon))
              (pr_ternary_colons p (c - 1))))
     else
       pbind (ternary_after e question) (\<lambda>found.
       case found of
         Some d \<Rightarrow> pret (Some d)
       | None \<Rightarrow>
           pget (\<lambda>p.
             if same_line p question (tok_span follower)
             then Some (with_note
               (''postfix '' @ backquoted ''?'' @ '' takes no operand after it; to choose between two values, write '' @
                backquoted ''if condition { a } else { b }'')
               (diagnostic_new ''K1001'' (''unexpected '' @ backquoted ''?'') question))
             else None)))"

section \<open>Operator and postfix chains\<close>

text \<open>\<open>self.peak - base\<close>, which panics below zero, and the measured part of a chain.\<close>

definition height_above :: "nat \<Rightarrow> nat parsing" where
  "height_above base = pbind (pget pr_peak) (\<lambda>peak. if peak < base then pstop Panic else pret (peak - base))"

definition set_peak :: "nat \<Rightarrow> unit parsing" where
  "set_peak n = pput (\<lambda>p. p\<lparr>pr_peak := n\<rparr>)"

definition raise_peak :: "nat \<Rightarrow> unit parsing" where
  "raise_peak n = pput (\<lambda>p. p\<lparr>pr_peak := max (pr_peak p) n\<rparr>)"

definition binary :: "expression \<Rightarrow> binary_operator \<Rightarrow> expression \<Rightarrow> expression" where
  "binary l operator r = Expression (Binary l operator r) (span_join (ex_span l) (ex_span r))"

fun chain_loop ::
  "nat \<Rightarrow> expression parsing \<Rightarrow> (token_kind \<Rightarrow> binary_operator option) \<Rightarrow> nat \<Rightarrow> expression \<Rightarrow> nat \<Rightarrow> expression parsing" where
  "chain_loop 0 operand operator base l height = pstop OutOfFuel"
| "chain_loop (Suc k) operand operator base l height =
     pbind current (\<lambda>t.
     case operator (tok_kind t) of
       None \<Rightarrow> pret l
     | Some operation \<Rightarrow>
         pbind next_token (\<lambda>_.
         pbind (set_peak base) (\<lambda>_.
         pbind operand (\<lambda>r.
         pbind (height_above base) (\<lambda>h.
         let height' = 1 + max height h in
         pbind (reach (base + height') (tok_span t)) (\<lambda>_.
         chain_loop k operand operator base (binary l operation r) height'))))))"

definition parse_chain ::
  "expression parsing \<Rightarrow> (token_kind \<Rightarrow> binary_operator option) \<Rightarrow> expression parsing" where
  "parse_chain operand operator =
     pbind (pget structural_depth) (\<lambda>base.
     pbind (pget pr_peak) (\<lambda>outer_peak.
     pbind (set_peak base) (\<lambda>_.
     pbind operand (\<lambda>l.
     pbind (height_above base) (\<lambda>height.
     pbind (pget (length \<circ> pr_tokens)) (\<lambda>k.
     pbind (chain_loop k operand operator base l height) (\<lambda>result.
     pbind (raise_peak outer_peak) (\<lambda>_.
     pret result))))))))"

definition or_operator :: "token_kind \<Rightarrow> binary_operator option" where
  "or_operator k = (case k of TOrOr \<Rightarrow> Some Or | _ \<Rightarrow> None)"

definition and_operator :: "token_kind \<Rightarrow> binary_operator option" where
  "and_operator k = (case k of TAndAnd \<Rightarrow> Some And | _ \<Rightarrow> None)"

definition equality_operator :: "token_kind \<Rightarrow> binary_operator option" where
  "equality_operator k = (case k of TEqualEqual \<Rightarrow> Some Equal | TBangEqual \<Rightarrow> Some NotEqual | _ \<Rightarrow> None)"

definition comparison_operator :: "token_kind \<Rightarrow> binary_operator option" where
  "comparison_operator k =
     (case k of TLess \<Rightarrow> Some Less | TLessEqual \<Rightarrow> Some LessEqual | TGreater \<Rightarrow> Some Greater
      | TGreaterEqual \<Rightarrow> Some GreaterEqual | _ \<Rightarrow> None)"

definition term_operator :: "token_kind \<Rightarrow> binary_operator option" where
  "term_operator k = (case k of TPlus \<Rightarrow> Some Add | TMinus \<Rightarrow> Some Subtract | _ \<Rightarrow> None)"

definition factor_operator :: "token_kind \<Rightarrow> binary_operator option" where
  "factor_operator k =
     (case k of TStar \<Rightarrow> Some Multiply | TSlash \<Rightarrow> Some Divide | TPercent \<Rightarrow> Some Remainder | _ \<Rightarrow> None)"

text \<open>The precedence levels over the parser \<open>u\<close> of unary expressions, loosest last.\<close>

definition factor :: "expression parsing \<Rightarrow> expression parsing" where
  "factor u = parse_chain u factor_operator"

definition term_chain :: "expression parsing \<Rightarrow> expression parsing" where
  "term_chain u = parse_chain (factor u) term_operator"

definition comparison :: "expression parsing \<Rightarrow> expression parsing" where
  "comparison u = parse_chain (term_chain u) comparison_operator"

definition equality :: "expression parsing \<Rightarrow> expression parsing" where
  "equality u = parse_chain (comparison u) equality_operator"

definition logical_and :: "expression parsing \<Rightarrow> expression parsing" where
  "logical_and u = parse_chain (equality u) and_operator"

definition logical_or :: "expression parsing \<Rightarrow> expression parsing" where
  "logical_or u = parse_chain (logical_and u) or_operator"

definition arguments :: "expression parsing \<Rightarrow> expression list parsing" where
  "arguments e = items TRightParen (\<lambda>xs. pbind e (\<lambda>x. pret (xs @ [x]))) []"

text \<open>One link of a postfix chain: the expression and its height, or \<open>None\<close> when the chain ends.\<close>

definition call_link ::
  "expression parsing \<Rightarrow> nat \<Rightarrow> expression \<Rightarrow> nat \<Rightarrow> (expression \<times> nat) parsing" where
  "call_link e base callee height =
     pbind next_token (\<lambda>open_token.
     pbind (enter (tok_span open_token)) (\<lambda>_.
     pbind (pget structural_depth) (\<lambda>arguments_depth.
     pbind (pget pr_peak) (\<lambda>callee_peak.
     pbind (set_peak arguments_depth) (\<lambda>_.
     pbind (with_construction True (arguments e)) (\<lambda>args.
     pbind (height_above arguments_depth) (\<lambda>h.
     let height' = 1 + max height h in
     pbind (raise_peak callee_peak) (\<lambda>_.
     pbind (reach (base + height') (tok_span open_token)) (\<lambda>_.
     pbind (expect TRightParen) (\<lambda>close.
     pret (Expression (Call callee args) (span_join (ex_span callee) (tok_span close)), height')))))))))))"

definition field_link :: "nat \<Rightarrow> expression \<Rightarrow> nat \<Rightarrow> (expression \<times> nat) parsing" where
  "field_link base v height =
     pbind next_token (\<lambda>dot.
     pbind (enter (tok_span dot)) (\<lambda>_.
     pbind (reach (base + (height + 1)) (tok_span dot)) (\<lambda>_.
     pbind parse_identifier (\<lambda>(field, field_span).
     pret (Expression (FieldAccess v field) (span_join (ex_span v) field_span), height + 1)))))"

definition question_link ::
  "expression parsing \<Rightarrow> nat \<Rightarrow> expression \<Rightarrow> nat \<Rightarrow> (expression \<times> nat) parsing" where
  "question_link e base operand height =
     pbind next_token (\<lambda>question.
     pbind (question_misuse e (tok_span question)) (\<lambda>misuse.
     pbind (pguard misuse) (\<lambda>_.
     pbind (enter (tok_span question)) (\<lambda>_.
     pbind (reach (base + (height + 1)) (tok_span question)) (\<lambda>_.
     pret (Expression (Propagate operand (tok_span question)) (span_join (ex_span operand) (tok_span question)),
       height + 1))))))"

fun call_loop :: "nat \<Rightarrow> expression parsing \<Rightarrow> nat \<Rightarrow> expression \<times> nat \<Rightarrow> expression parsing" where
  "call_loop 0 e base acc = pstop OutOfFuel"
| "call_loop (Suc k) e base (x, height) =
     pbind current (\<lambda>t.
     if tok_kind t = TLeftParen then pbind (call_link e base x height) (call_loop k e base)
     else if tok_kind t = TDot then pbind (field_link base x height) (call_loop k e base)
     else
       pbind (if tok_kind t = TLeftBracket then previous else pret t) (\<lambda>prior.
       if tok_kind t = TLeftBracket \<and> span_end (tok_span prior) = span_start (tok_span t) then
         pfail (habit_diagnostic Indexing (''indexing with '' @ backquoted ''[...]'' @ '' is not Krit syntax'')
           (span_join (ex_span x) (tok_span t)))
       else if tok_kind t = TQuestion then pbind (question_link e base x height) (call_loop k e base)
       else pret x))"

definition parse_call :: "expression parsing \<Rightarrow> expression parsing \<Rightarrow> expression parsing" where
  "parse_call prim e =
     pbind (pget structural_depth) (\<lambda>base.
     pbind (pget pr_peak) (\<lambda>outer_peak.
     pbind (set_peak base) (\<lambda>_.
     pbind prim (\<lambda>x.
     pbind (height_above base) (\<lambda>height.
     pbind (pget pr_depth) (\<lambda>depth.
     pbind (pget (length \<circ> pr_tokens)) (\<lambda>k.
     pbind (call_loop k e base (x, height)) (\<lambda>result.
     pbind (pput (\<lambda>p. p\<lparr>pr_depth := depth\<rparr>)) (\<lambda>_.
     pbind (raise_peak outer_peak) (\<lambda>_.
     pret result))))))))))"

section \<open>Primary expressions\<close>

text \<open>\<open>str::parse::<i128>\<close>.\<close>

definition digits_value :: "str \<Rightarrow> int option" where
  "digits_value s =
     (if s \<noteq> [] \<and> list_all is_ascii_digit s
      then Some (foldl (\<lambda>n b. 10 * n + (of_char b - 48)) 0 s) else None)"

definition parse_i128 :: "str \<Rightarrow> int option" where
  "parse_i128 s =
     (let v = (case s of
          [] \<Rightarrow> None
        | b # rest \<Rightarrow>
            if b = CHR ''-'' then map_option uminus (digits_value rest)
            else if b = CHR ''+'' then digits_value rest
            else digits_value s) in
      case v of
        None \<Rightarrow> None
      | Some n \<Rightarrow> if - (2 ^ 127) \<le> n \<and> n < 2 ^ 127 then Some n else None)"

fun hole_fields :: "nat \<Rightarrow> nat \<Rightarrow> expression \<Rightarrow> (str \<times> span) list \<Rightarrow> expression parsing" where
  "hole_fields base height x [] = pret x"
| "hole_fields base height x ((field, field_span) # rest) =
     (let dot = span_new (span_start field_span - 1) (span_start field_span) in
      pbind (enter dot) (\<lambda>_.
      pbind (reach (base + height + 1) dot) (\<lambda>_.
      hole_fields base (height + 1)
        (Expression (FieldAccess x field) (span_join (ex_span x) field_span)) rest)))"

definition hole_value :: "(str \<times> span) list \<Rightarrow> span \<Rightarrow> expression parsing" where
  "hole_value path hole =
     pbind (pget structural_depth) (\<lambda>base.
     pbind (pget pr_depth) (\<lambda>depth.
     case path of
       [] \<Rightarrow>
         pfail (with_note (''write the name of a '' @ backquoted ''String'' @ '' value between '' @
             backquoted (CHR 0x5C # ''('') @ '' and '' @ backquoted '')'')
           (diagnostic_new ''K3015'' ''interpolation hole is empty'' hole))
     | (name, name_span) # segments \<Rightarrow>
         pbind (hole_fields base 0 (Expression (Variable name) name_span) segments) (\<lambda>x.
         pbind (pput (\<lambda>p. p\<lparr>pr_depth := depth\<rparr>)) (\<lambda>_. pret x))))"

fun string_parts :: "template_part list \<Rightarrow> expression string_part list parsing" where
  "string_parts [] = pret []"
| "string_parts (TextPart v s # parts) = pbind (string_parts parts) (\<lambda>ps. pret (Text v s # ps))"
| "string_parts (HolePart path s # parts) =
     pbind (hole_value path s) (\<lambda>x. pbind (string_parts parts) (\<lambda>ps. pret (Hole x s # ps)))"

definition parse_interpolation :: "template \<Rightarrow> span \<Rightarrow> expression parsing" where
  "parse_interpolation t s =
     pbind (nested s (string_parts (tpl_parts t))) (\<lambda>parts. pret (Expression (Interpolation parts) s))"

text \<open>
  \<open>( expression )\<close> and \<open>()\<close>.  A failed inner parse is reported as an arrow function when the group that opens at
  token \<open>open_index\<close> is followed by \<open>=>\<close>.
\<close>

definition or_arrow :: "nat \<Rightarrow> 'a parsing \<Rightarrow> 'a parsing" where
  "or_arrow open_index parse p =
     (case parse p of
        Inl (Diag d) \<Rightarrow>
          Inl (Diag (if is_settled d then d
            else case arrow_after_group p open_index of Some a \<Rightarrow> a | None \<Rightarrow> d))
      | r \<Rightarrow> r)"

definition not_arrow :: "span \<Rightarrow> expression \<Rightarrow> expression parsing" where
  "not_arrow open_span x =
     pbind current (\<lambda>t.
     if tok_kind t = TFatArrow then pfail (arrow_function (span_join open_span (tok_span t))) else pret x)"

definition close_group :: "nat \<Rightarrow> span \<Rightarrow> expression \<Rightarrow> expression parsing" where
  "close_group open_index open_span x =
     pbind (check TRightParen) (\<lambda>paren.
     if \<not> paren then
       pbind (pget (\<lambda>p. arrow_after_group p open_index)) (\<lambda>arrow.
       case arrow of Some a \<Rightarrow> pfail a | None \<Rightarrow> expected (description TRightParen))
     else
       pbind next_token (\<lambda>close.
       not_arrow open_span (Expression (ex_kind x) (span_join open_span (tok_span close)))))"

definition parenthesized :: "expression parsing \<Rightarrow> span \<Rightarrow> expression parsing" where
  "parenthesized e open_span =
     pbind (pget pr_cursor) (\<lambda>c.
     if c = 0 then pstop Panic
     else
       pbind (check TRightParen) (\<lambda>closed.
       if closed then
         pbind next_token (\<lambda>close.
         not_arrow open_span (Expression UnitExpr (span_join open_span (tok_span close))))
       else
         pbind (or_arrow (c - 1) (nested open_span (with_construction True e))) (close_group (c - 1) open_span)))"

definition mixed_list :: "span \<Rightarrow> diagnostic" where
  "mixed_list s =
     with_note (''write every element as '' @ backquoted ''key: value'' @ '' for a list of '' @
         backquoted ''record { name, value }'' @ '' entries, or write none that way'')
       (diagnostic_new ''K1001''
         (''a list literal cannot mix '' @ backquoted ''key: value'' @ '' entries and plain elements'') s)"

definition list_element ::
  "expression parsing \<Rightarrow> expression list \<times> expression list_entry list
     \<Rightarrow> (expression list \<times> expression list_entry list) parsing" where
  "list_element e acc =
     (case acc of (elements, entries) \<Rightarrow>
      pbind e (\<lambda>element.
      pbind current (\<lambda>t.
      if tok_kind t = TColon then
        if elements \<noteq> [] then pfail (mixed_list (span_join (ex_span element) (tok_span t)))
        else
          pbind next_token (\<lambda>_.
          pbind e (\<lambda>v.
          pret (elements, entries @ [ListEntry element v (span_join (ex_span element) (ex_span v))])))
      else if entries \<noteq> [] then pfail (mixed_list (ex_span element))
      else pret (elements @ [element], entries))))"

definition empty_entries_error :: "span \<Rightarrow> diagnostic" where
  "empty_entries_error s =
     with_note (''the empty list is '' @ backquoted ''[]'' @ '', for entry lists too'')
       (diagnostic_new ''K1001'' (backquoted ''[:]'' @ '' is not Krit syntax'') s)"

definition list_elements :: "expression parsing \<Rightarrow> span \<Rightarrow> expression parsing" where
  "list_elements e start =
     pbind (check TColon) (\<lambda>colon.
     pbind (pget (\<lambda>p. token_get p (pr_cursor p + 1))) (\<lambda>after.
     pbind (pguard (if colon then
         (case after of
            Some t \<Rightarrow> if tok_kind t = TRightBracket then Some (empty_entries_error (span_join start (tok_span t))) else None
          | None \<Rightarrow> None) else None)) (\<lambda>_.
     pbind (items TRightBracket (list_element e) ([], [])) (\<lambda>(elements, entries).
     pbind (expect TRightBracket) (\<lambda>close.
     pret (Expression (if entries = [] then ListExpr elements else EntryList entries)
       (span_join start (tok_span close))))))))"

definition list_literal :: "expression parsing \<Rightarrow> span \<Rightarrow> expression parsing" where
  "list_literal e start = nested start (with_construction True (list_elements e start))"

definition parse_record_field ::
  "expression parsing \<Rightarrow> expression record_field list \<Rightarrow> expression record_field list parsing" where
  "parse_record_field e fs =
     pbind parse_identifier (\<lambda>(name, name_span).
     if name \<in> rf_name ` set fs then pfail (duplicate_error ''record field'' name name_span)
     else
       pbind (expect TColon) (\<lambda>_.
       pbind e (\<lambda>v.
       pret (fs @ [RecordField name v (span_join name_span (ex_span v))]))))"

definition record_fields :: "expression parsing \<Rightarrow> span \<Rightarrow> expression parsing" where
  "record_fields e start =
     pbind (expect TLeftBrace) (\<lambda>_.
     pbind (items TRightBrace (parse_record_field e) []) (\<lambda>fs.
     pbind (expect TRightBrace) (\<lambda>close.
     pret (Expression (RecordExpr fs) (span_join start (tok_span close))))))"

definition record_literal :: "expression parsing \<Rightarrow> span \<Rightarrow> expression parsing" where
  "record_literal e start = nested start (with_construction True (record_fields e start))"

definition parse_construct_field ::
  "expression parsing \<Rightarrow> expression construct_field list \<Rightarrow> expression construct_field list parsing" where
  "parse_construct_field e fs =
     pbind parse_identifier (\<lambda>(name, name_span).
     pbind (consume_kind TColon) (\<lambda>colon.
     pbind (if colon then e
            else
              pbind current (\<lambda>t.
              if tok_kind t = TComma \<or> tok_kind t = TRightBrace then pret (Expression (Variable name) name_span)
              else expected (backquoted '':'' @ '', '' @ backquoted '','' @ '', or '' @ backquoted ''}''))) (\<lambda>v.
     pret (fs @ [ConstructField name name_span v (span_join name_span (ex_span v))]))))"

definition construction_fields :: "expression parsing \<Rightarrow> contract_record \<Rightarrow> span \<Rightarrow> expression parsing" where
  "construction_fields e contract start =
     pbind (items TRightBrace (parse_construct_field e) []) (\<lambda>fs.
     pbind (expect TRightBrace) (\<lambda>close.
     pret (Expression (Construct contract start fs) (span_join start (tok_span close)))))"

definition parse_construction :: "expression parsing \<Rightarrow> contract_record \<Rightarrow> span \<Rightarrow> expression parsing" where
  "parse_construction e contract start =
     pbind (expect TLeftBrace) (\<lambda>_.
     nested start (with_construction True (construction_fields e contract start)))"

definition restricted_construction :: "contract_record \<Rightarrow> span \<Rightarrow> diagnostic option parsing" where
  "restricted_construction contract name =
     pbind current (\<lambda>t.
     pget (\<lambda>p.
       let after = kind_get p (pr_cursor p + 2);
           written = contract_name contract @ '' { ... }'' in
       if is_identifier_kind (kind_get p (pr_cursor p + 1)) \<and> (after = Some TColon \<or> after = Some TComma)
       then Some (with_note (''wrap the construction in parentheses: '' @ backquoted (''('' @ written @ '')''))
         (diagnostic_new ''K1001'' (backquoted written @ '' cannot be written directly as an '' @ backquoted ''if'' @
            '' condition or a '' @ backquoted ''match'' @ '' subject'') (span_join name (tok_span t))))
       else None))"

text \<open>The links of an \<open>else if\<close> chain in order, and its last \<open>else\<close> block.\<close>

fun if_loop ::
  "nat \<Rightarrow> expression parsing \<Rightarrow> block parsing \<Rightarrow> span \<Rightarrow> (span \<times> expression \<times> block) list
     \<Rightarrow> ((span \<times> expression \<times> block) list \<times> expression) parsing" where
  "if_loop 0 e blk link_start links = pstop OutOfFuel"
| "if_loop (Suc k) e blk link_start links =
     pbind (nested link_start (with_construction False e)) (\<lambda>condition.
     pbind blk (\<lambda>consequent.
     pbind (expect TElse) (\<lambda>else_token.
     pbind (else_return (tok_span else_token)) (\<lambda>habit.
     pbind (pguard habit) (\<lambda>_.
     let links' = links @ [(link_start, condition, consequent)] in
     pbind current (\<lambda>t.
     if tok_kind t = TIf then
       pbind next_token (\<lambda>if_token.
       pbind (enter_chain_link (tok_span if_token)) (\<lambda>_.
       if_loop k e blk (tok_span if_token) links'))
     else if tok_kind t = TLeftBrace then
       pbind blk (\<lambda>b. pret (links', Expression (BlockExpr b) (bl_span b)))
     else expected (backquoted ''if'' @ '' or '' @ backquoted ''{'')))))))"

definition if_link :: "span \<times> expression \<times> block \<Rightarrow> expression \<Rightarrow> expression" where
  "if_link l alternative =
     (case l of (start, condition, consequent) \<Rightarrow>
        Expression (If condition consequent alternative) (span_join start (ex_span alternative)))"

definition if_expression :: "expression parsing \<Rightarrow> block parsing \<Rightarrow> span \<Rightarrow> expression parsing" where
  "if_expression e blk start =
     pbind (pget pr_chain_depth) (\<lambda>chain.
     pbind (pget (length \<circ> pr_tokens)) (\<lambda>k.
     pbind (if_loop k e blk start []) (\<lambda>(links, alternative).
     pbind (pput (\<lambda>p. p\<lparr>pr_chain_depth := chain\<rparr>)) (\<lambda>_.
     pret (foldr if_link links alternative)))))"

definition parse_parameter :: "parameter list \<Rightarrow> parameter list parsing" where
  "parse_parameter ps =
     pbind binding_name (\<lambda>(name, s).
     if name \<noteq> ''_'' \<and> name \<in> param_name ` set ps then pfail (duplicate_error ''parameter'' name s)
     else
       pbind (optional_type TColon) (\<lambda>annotation.
       pret (ps @ [\<lparr>param_name = name, param_annotation = annotation, param_span = s\<rparr>])))"

definition parameters :: "parameter list parsing" where
  "parameters =
     pbind (expect TLeftParen) (\<lambda>_.
     pbind (items TRightParen parse_parameter []) (\<lambda>ps.
     pbind (expect TRightParen) (\<lambda>_. pret ps)))"

definition function_expression :: "block parsing \<Rightarrow> span \<Rightarrow> expression parsing" where
  "function_expression blk start =
     pbind (check TLeftParen) (\<lambda>paren.
     if \<not> paren then expected (backquoted ''('' @ '' after '' @ backquoted ''fn'')
     else
       pbind parameters (\<lambda>ps.
       pbind (optional_type TThinArrow) (\<lambda>return_type.
       pbind blk (\<lambda>body.
       pret (Expression (FunctionExpr ps return_type body) (span_join start (bl_span body)))))))"

fun arms_loop :: "nat \<Rightarrow> expression parsing \<Rightarrow> expression match_arm list \<Rightarrow> expression match_arm list parsing" where
  "arms_loop 0 e arms = pstop OutOfFuel"
| "arms_loop (Suc k) e arms =
     pbind current (\<lambda>t.
     if tok_kind t = TRightBrace then pret arms
     else if tok_kind t = TEof then expected (''match arm or '' @ backquoted ''}'')
     else
       pbind parse_pattern (\<lambda>pat.
       pbind (expect TFatArrow) (\<lambda>_.
       pbind (nested_levels (constructor_depth pat - 1) (pat_span pat) e) (\<lambda>v.
       pbind (consume_kind TComma) (\<lambda>comma.
       pbind (if comma then pret True else check TRightBrace) (\<lambda>continues.
       if continues then
         arms_loop k e (arms @ [MatchArm pat v (span_join (pat_span pat) (ex_span v))])
       else expected (backquoted '','' @ '' or '' @ backquoted ''}'')))))))"

definition match_arms :: "expression parsing \<Rightarrow> expression match_arm list parsing" where
  "match_arms e =
     pbind (pget (length \<circ> pr_tokens)) (\<lambda>k.
     pbind (arms_loop k e []) (\<lambda>arms.
     if arms = [] then
       pbind current (\<lambda>t. pfail (diagnostic_new ''K1003''
         (''a '' @ backquoted ''match'' @ '' needs an arm for each outcome, found '' @ backquoted ''}'') (tok_span t)))
     else pret arms))"

definition parse_match :: "expression parsing \<Rightarrow> span \<Rightarrow> expression parsing" where
  "parse_match e start =
     pbind (nested start (with_construction False e)) (\<lambda>subject.
     pbind (expect TLeftBrace) (\<lambda>open_token.
     pbind (nested (tok_span open_token) (with_construction True (match_arms e))) (\<lambda>arms.
     pbind (expect TRightBrace) (\<lambda>close.
     pret (Expression (Match subject arms) (span_join start (tok_span close)))))))"

definition parse_name :: "expression parsing \<Rightarrow> str \<Rightarrow> span \<Rightarrow> expression parsing" where
  "parse_name e name s =
     pbind current (\<lambda>t.
     if tok_kind t = TFatArrow then pfail (arrow_function (span_join s (tok_span t)))
     else
       pbind (word_habit name s) (\<lambda>habit.
       pbind (pguard habit) (\<lambda>_.
       pbind (pget construction_allowed) (\<lambda>allowed.
       case contract_from_name name of
         Some contract \<Rightarrow>
           if tok_kind t \<noteq> TLeftBrace then pret (Expression (Variable name) s)
           else if allowed then parse_construction e contract s
           else
             pbind (restricted_construction contract s) (\<lambda>error.
             pbind (pguard error) (\<lambda>_. pret (Expression (Variable name) s)))
       | None \<Rightarrow> pret (Expression (Variable name) s)))))"

definition unexpected_token :: "token \<Rightarrow> expression parsing" where
  "unexpected_token t =
     pbind (mutation_operator t) (\<lambda>m.
     pfail (case m of
       Some d \<Rightarrow> d
     | None \<Rightarrow> diagnostic_new ''K1001'' (''unexpected '' @ description (tok_kind t)) (tok_span t)))"

definition primary :: "expression parsing \<Rightarrow> block parsing \<Rightarrow> expression parsing" where
  "primary e blk =
     pbind next_token (\<lambda>t.
     let s = tok_span t in
     case tok_kind t of
       TInteger v \<Rightarrow>
         (case parse_i128 v of
            Some n \<Rightarrow> pret (Expression (Literal (IntegerLit n)) s)
          | None \<Rightarrow> pfail (diagnostic_new ''K4005'' ''integer literal is out of range'' s))
     | TString v \<Rightarrow> pret (Expression (Literal (StringLit v)) s)
     | TTemplate tpl \<Rightarrow> parse_interpolation tpl s
     | TTrue \<Rightarrow> pret (Expression (Literal (BooleanLit True)) s)
     | TFalse \<Rightarrow> pret (Expression (Literal (BooleanLit False)) s)
     | TIdentifier name \<Rightarrow> parse_name e name s
     | TLeftParen \<Rightarrow> parenthesized e s
     | TLeftBracket \<Rightarrow> list_literal e s
     | TRecord \<Rightarrow> record_literal e s
     | TLeftBrace \<Rightarrow>
         pbind (pget pr_cursor) (\<lambda>c.
         if c = 0 then pstop Panic
         else
           pbind (pput (\<lambda>p. p\<lparr>pr_cursor := c - 1\<rparr>)) (\<lambda>_.
           pbind blk (\<lambda>b. pret (Expression (BlockExpr b) (bl_span b)))))
     | TIf \<Rightarrow> if_expression e blk s
     | TMatch \<Rightarrow> parse_match e s
     | TFn \<Rightarrow> function_expression blk s
     | _ \<Rightarrow> unexpected_token t)"

definition unary_operator_of :: "token_kind \<Rightarrow> unary_operator option" where
  "unary_operator_of k = (case k of TBang \<Rightarrow> Some Not | TMinus \<Rightarrow> Some Negate | _ \<Rightarrow> None)"

text \<open>
  \<open>u\<close> parses the operand of a unary operator and \<open>e\<close> an expression, both one nesting level deeper;
  \<open>blk\<close> parses a block at this level.
\<close>

definition unary_with :: "expression parsing \<Rightarrow> expression parsing \<Rightarrow> block parsing \<Rightarrow> expression parsing" where
  "unary_with u e blk =
     pbind current (\<lambda>t.
     case unary_operator_of (tok_kind t) of
       None \<Rightarrow> parse_call (primary e blk) e
     | Some operator \<Rightarrow>
         pbind next_token (\<lambda>start.
         pbind (nested (tok_span start) u) (\<lambda>operand.
         pret (Expression (Unary operator operand) (span_join (tok_span start) (ex_span operand))))))"

section \<open>Statements and blocks\<close>

definition else_expected :: "variant_pattern \<Rightarrow> token \<Rightarrow> diagnostic" where
  "else_expected pat t =
     (let written = (case vp_binding pat of
            Some b \<Rightarrow> variant_as_str (vp_variant pat) @ ''('' @ b @ '')''
          | None \<Rightarrow> variant_as_str (vp_variant pat)) in
      with_note (''a '' @ backquoted ''let'' @ '' with a variant pattern names what happens otherwise: '' @
          backquoted (''let '' @ written @ '' = value else '' @ example_pattern (variant_complement (vp_variant pat)) @
            '' => fallback;''))
        (diagnostic_new ''K1002'' (''expected '' @ backquoted ''else'' @ '' after the value of '' @
          backquoted (''let '' @ written) @ '', found '' @ description (tok_kind t)) (tok_span t)))"

definition brace_before_else :: "span \<Rightarrow> diagnostic" where
  "brace_before_else s =
     with_note (''bind the value with '' @ backquoted ''let'' @ '' first and use its name here, or wrap the value in '' @
         ''parentheses, so its '' @ backquoted ''}'' @ '' cannot be read as part of the '' @ backquoted ''else'')
       (diagnostic_new ''K3014'' (''the value of a let-else cannot end in '' @ backquoted ''}'') s)"

definition else_block_error :: "variant_name \<Rightarrow> span \<Rightarrow> diagnostic" where
  "else_block_error v s =
     with_note (''a let-else names its other variant like a '' @ backquoted ''match'' @ '' arm: '' @
         backquoted (''else '' @ example_pattern (variant_complement v) @ '' => fallback;''))
       (diagnostic_new ''K1003'' (''expected a let-else arm after '' @ backquoted ''else'' @ '', found '' @ backquoted ''{'') s)"

definition let_else_arm :: "expression parsing \<Rightarrow> expression variant_arm parsing" where
  "let_else_arm e =
     pbind parse_variant_pattern (\<lambda>pat.
     pbind (expect TFatArrow) (\<lambda>_.
     pbind e (\<lambda>v.
     pret (VariantArm (vp_variant pat) (vp_binding pat) v (span_join (vp_span pat) (ex_span v))))))"

definition no_assignment :: "expression \<Rightarrow> unit parsing" where
  "no_assignment x = pbind (assignment_after x) pguard"

definition parse_let_else :: "expression parsing \<Rightarrow> span \<Rightarrow> statement parsing" where
  "parse_let_else e start =
     pbind parse_variant_pattern (\<lambda>pat.
     pbind (optional_type TColon) (\<lambda>annotation.
     pbind (expect TEqual) (\<lambda>_.
     pbind e (\<lambda>v.
     pbind (no_assignment v) (\<lambda>_.
     pbind current (\<lambda>t.
     if tok_kind t \<noteq> TElse then pfail (else_expected pat t)
     else
       pbind previous (\<lambda>prior.
       if tok_kind prior = TRightBrace then pfail (brace_before_else (ex_span v))
       else
         pbind next_token (\<lambda>else_token.
         pbind (else_return (tok_span else_token)) (\<lambda>habit.
         pbind (pguard habit) (\<lambda>_.
         pbind current (\<lambda>t.
         if tok_kind t = TLeftBrace then pfail (else_block_error (vp_variant pat) (tok_span t))
         else
           pbind (nested (tok_span else_token) (let_else_arm e)) (\<lambda>arm.
           pbind (expect TSemicolon) (\<lambda>end_token.
           pret (Statement (LetElse pat annotation v (tok_span else_token) arm)
             (span_join start (tok_span end_token))))))))))))))))"

definition let_declaration :: "expression parsing \<Rightarrow> statement parsing" where
  "let_declaration e =
     pbind (expect TLet) (\<lambda>let_token.
     let start = tok_span let_token in
     pbind at_variant_pattern (\<lambda>variant.
     if variant then parse_let_else e start
     else
       pbind binding_name (\<lambda>(name, _).
       pbind (optional_type TColon) (\<lambda>annotation.
       pbind (expect TEqual) (\<lambda>_.
       pbind e (\<lambda>v.
       pbind (no_assignment v) (\<lambda>_.
       pbind (expect TSemicolon) (\<lambda>end_token.
       pret (Statement (Let name annotation v) (span_join start (tok_span end_token)))))))))))"

text \<open>What every declaration of a function has after its leading tokens; \<open>build\<close> builds the statement.\<close>

definition function_rest ::
  "block parsing \<Rightarrow> span \<Rightarrow> (str \<Rightarrow> parameter list \<Rightarrow> type_annotation option \<Rightarrow> block \<Rightarrow> (expression, block) statement_kind)
     \<Rightarrow> statement parsing" where
  "function_rest blk start build =
     pbind binding_name (\<lambda>(name, _).
     pbind parameters (\<lambda>ps.
     pbind (optional_type TThinArrow) (\<lambda>return_type.
     pbind blk (\<lambda>body.
     pret (Statement (build name ps return_type body) (span_join start (bl_span body)))))))"

definition function_declaration :: "block parsing \<Rightarrow> statement parsing" where
  "function_declaration blk =
     pbind parse_doc_comment (\<lambda>doc.
     pbind (expect TFn) (\<lambda>fn_token.
     function_rest blk (tok_span fn_token) (\<lambda>name ps rt body. Function name ps rt body doc)))"

definition webhook_declaration :: "block parsing \<Rightarrow> statement parsing" where
  "webhook_declaration blk =
     pbind parse_doc_comment (\<lambda>doc.
     pbind (expect TWebhook) (\<lambda>webhook_token.
     pbind (expect TFn) (\<lambda>_.
     function_rest blk (tok_span webhook_token) (\<lambda>name ps rt body. Webhook name ps rt body doc))))"

definition entrypoint_keyword :: "str option parsing" where
  "entrypoint_keyword =
     pbind current (\<lambda>t.
     pget (\<lambda>p.
       case tok_kind t of
         TIdentifier name \<Rightarrow>
           if (name = ''queue'' \<or> name = ''schedule'') \<and>
              (case kind_get p (pr_cursor p + 1) of
                 Some (TString _) \<Rightarrow> True | Some (TTemplate _) \<Rightarrow> True | _ \<Rightarrow> False) \<and>
              kind_get p (pr_cursor p + 2) = Some TFn
           then Some name else None
       | _ \<Rightarrow> None))"

definition resource_entrypoint_declaration :: "block parsing \<Rightarrow> statement parsing" where
  "resource_entrypoint_declaration blk =
     pbind entrypoint_keyword (\<lambda>found.
     case found of
       None \<Rightarrow> expected (backquoted ''queue'' @ '' or '' @ backquoted ''schedule'')
     | Some word \<Rightarrow>
         pbind parse_doc_comment (\<lambda>doc.
         pbind next_token (\<lambda>start.
         pbind next_token (\<lambda>t.
         case tok_kind t of
           TString resource \<Rightarrow>
             pbind (expect TFn) (\<lambda>_.
             function_rest blk (tok_span start) (\<lambda>name ps rt body.
               if word = ''queue'' then QueueConsumer resource (tok_span t) name ps rt body doc
               else ScheduleHandler resource (tok_span t) name ps rt body doc))
         | _ \<Rightarrow>
             pfail (diagnostic_new ''K1002'' (backquoted word @ '' declarations require a direct canonical '' @
               backquoted word @ '' name literal'') (tok_span t))))))"

definition nested_entrypoint_keyword :: "str option parsing" where
  "nested_entrypoint_keyword =
     pbind (check TWebhook) (\<lambda>b. if b then pret (Some ''webhook'') else entrypoint_keyword)"

definition no_nested_entrypoint :: "unit parsing" where
  "no_nested_entrypoint =
     pbind nested_entrypoint_keyword (\<lambda>found.
     case found of
       None \<Rightarrow> pret ()
     | Some word \<Rightarrow>
         pbind current (\<lambda>t. pfail (diagnostic_new ''K1004''
           (backquoted word @ '' declarations are only allowed at the top level'') (tok_span t))))"

definition at_function :: "bool parsing" where
  "at_function =
     pbind current (\<lambda>t.
     pget (\<lambda>p. tok_kind t = TFn \<and> is_identifier_kind (kind_get p (pr_cursor p + 1))))"

definition bare_expression :: "expression parsing \<Rightarrow> expression parsing" where
  "bare_expression e =
     pbind statement_habit (\<lambda>habit.
     pbind (pguard habit) (\<lambda>_.
     pbind e (\<lambda>x.
     pbind (no_assignment x) (\<lambda>_. pret x))))"

definition parse_statement :: "expression parsing \<Rightarrow> block parsing \<Rightarrow> statement parsing" where
  "parse_statement e blk =
     pbind no_nested_entrypoint (\<lambda>_.
     pbind (check TLet) (\<lambda>is_let.
     if is_let then let_declaration e
     else
       pbind at_function (\<lambda>is_function.
       if is_function then function_declaration blk
       else
         pbind (bare_expression e) (\<lambda>x.
         pbind (expect TSemicolon) (\<lambda>semicolon.
         pret (Statement (ExpressionStmt x) (span_join (ex_span x) (tok_span semicolon))))))))"

fun block_loop ::
  "nat \<Rightarrow> expression parsing \<Rightarrow> block parsing \<Rightarrow> statement list \<Rightarrow> (statement list \<times> expression option) parsing" where
  "block_loop 0 e blk statements = pstop OutOfFuel"
| "block_loop (Suc k) e blk statements =
     pbind current (\<lambda>t.
     if tok_kind t = TRightBrace then pret (statements, None)
     else if tok_kind t = TEof then expected (backquoted ''}'')
     else
       pbind no_nested_entrypoint (\<lambda>_.
       pbind at_function (\<lambda>is_function.
       if tok_kind t = TLet \<or> is_function then
         pbind (parse_statement e blk) (\<lambda>st. block_loop k e blk (statements @ [st]))
       else
         pbind (bare_expression e) (\<lambda>x.
         pbind (consume_kind TSemicolon) (\<lambda>semicolon.
         if semicolon then
           pbind previous (\<lambda>end_token.
           block_loop k e blk
             (statements @ [Statement (ExpressionStmt x) (span_join (ex_span x) (tok_span end_token))]))
         else
           pbind (check TRightBrace) (\<lambda>close.
           if close then pret (statements, Some x)
           else expected (backquoted '';'' @ '' or '' @ backquoted ''}'')))))))"

definition parse_block_contents :: "expression parsing \<Rightarrow> block parsing \<Rightarrow> span \<Rightarrow> block parsing" where
  "parse_block_contents e blk start =
     pbind (pget (length \<circ> pr_tokens)) (\<lambda>k.
     pbind (block_loop k e blk []) (\<lambda>(statements, tail).
     pbind (expect TRightBrace) (\<lambda>close.
     pret (Block statements tail (span_join start (tok_span close))))))"

text \<open>\<open>e\<close> and \<open>blk\<close> parse the expressions and the function bodies inside the block.\<close>

definition block_with :: "expression parsing \<Rightarrow> block parsing \<Rightarrow> block parsing" where
  "block_with e blk =
     pbind (expect TLeftBrace) (\<lambda>open_token.
     nested (tok_span open_token)
       (with_construction True (parse_block_contents e blk (tok_span open_token))))"

fun unary_at :: "nat \<Rightarrow> expression parsing" and block_at :: "nat \<Rightarrow> block parsing" where
  "unary_at 0 = pstop OutOfFuel"
| "unary_at (Suc n) =
     unary_with (later unary_at n) (logical_or (later unary_at n))
       (block_with (logical_or (later unary_at n)) (later block_at n))"
| "block_at 0 = pstop OutOfFuel"
| "block_at (Suc n) = block_with (logical_or (later unary_at n)) (later block_at n)"

definition parse_expression :: "expression parsing" where
  "parse_expression = logical_or (unary_at (Suc MAX_NESTING_DEPTH))"

definition parse_block :: "block parsing" where
  "parse_block = block_at (Suc MAX_NESTING_DEPTH)"

section \<open>Programs\<close>

definition is_entrypoint :: "statement \<Rightarrow> bool" where
  "is_entrypoint st \<longleftrightarrow>
     (case st_kind st of
        Webhook _ _ _ _ _ \<Rightarrow> True | QueueConsumer _ _ _ _ _ _ _ \<Rightarrow> True | ScheduleHandler _ _ _ _ _ _ _ \<Rightarrow> True
      | _ \<Rightarrow> False)"

definition top_statement :: "statement parsing" where
  "top_statement =
     pbind (check TWebhook) (\<lambda>webhook.
     if webhook then webhook_declaration parse_block
     else
       pbind entrypoint_keyword (\<lambda>found.
       if found \<noteq> None then resource_entrypoint_declaration parse_block
       else parse_statement parse_expression parse_block))"

fun program_loop :: "nat \<Rightarrow> span option \<Rightarrow> statement list \<Rightarrow> program parsing" where
  "program_loop 0 entrypoint statements = pstop OutOfFuel"
| "program_loop (Suc k) entrypoint statements =
     pbind (check TEof) (\<lambda>at_end.
     if at_end then pret statements
     else
       pbind top_statement (\<lambda>st.
       if is_entrypoint st \<and> entrypoint \<noteq> None then
         pfail (diagnostic_new ''K2002'' (''a source module may declare at most one '' @ backquoted ''webhook'' @ '', '' @
           backquoted ''queue'' @ '', or '' @ backquoted ''schedule'' @ '' entrypoint'') (st_span st))
       else
         program_loop k (if is_entrypoint st then Some (st_span st) else entrypoint) (statements @ [st])))"

definition parse_program :: "program parsing" where
  "parse_program = pbind (pget (length \<circ> pr_tokens)) (\<lambda>k. program_loop k None [])"

definition parse :: "source \<Rightarrow> token list \<Rightarrow> (stop, program) result" where
  "parse src ts = map_sum id fst (parse_program (parser_new (source_text src) ts))"

end
