(* ===== verification/Parser_Rules.thy ===== *)
theory Parser_Rules
  imports Parser
begin

text \<open>
  Weakest preconditions for parsing functions.  \<open>pwp m Q p\<close> says that \<open>m\<close>, started on the parser \<open>p\<close>, does not
  panic, does not run out of fuel, reports only parse errors, and establishes \<open>Q\<close> when it succeeds.  The
  rules below reduce it to the frame \<open>went\<close> (the tokens stay, the cursor moves forward) and \<open>go\<close> (the levels
  are also restored and the peak only grows).
\<close>

section \<open>Errors of the parser\<close>

definition parse_codes :: "str list" where
  "parse_codes =
     [''K1001'', ''K1002'', ''K1003'', ''K1004'', ''K1005'', ''K1101'', ''K1102'', ''K1103'', ''K1104'', ''K1105'', ''K1106'',
      ''K1107'', ''K1108'', ''K1109'', ''K1110'', ''K1111'', ''K1112'', ''K2002'', ''K3014'', ''K3015'', ''K4005'']"

definition parse_error :: "diagnostic \<Rightarrow> bool" where
  "parse_error d \<longleftrightarrow> severity d = Error \<and> code d \<in> set parse_codes"

lemma parse_error_new [simp]: "parse_error (diagnostic_new c m s) \<longleftrightarrow> c \<in> set parse_codes"
  by (simp add: parse_error_def diagnostic_new_def)

lemma parse_error_note [simp]: "parse_error (with_note n d) \<longleftrightarrow> parse_error d"
  by (simp add: parse_error_def with_note_def)

lemma habit_code_parse [simp]: "habit_code h \<in> set parse_codes"
  by (cases h) (simp_all add: habit_code_def parse_codes_def)

lemma parse_code_mem [simp]:
  "''K1001'' \<in> set parse_codes" "''K1002'' \<in> set parse_codes" "''K1003'' \<in> set parse_codes"
  "''K1004'' \<in> set parse_codes" "''K1005'' \<in> set parse_codes" "''K2002'' \<in> set parse_codes"
  "''K3014'' \<in> set parse_codes" "''K3015'' \<in> set parse_codes" "''K4005'' \<in> set parse_codes"
  by (simp_all add: parse_codes_def)

lemma parse_error_habit [simp]: "parse_error (habit_diagnostic h m s)" "parse_error (word_diagnostic h w s)"
  by (simp_all add: habit_diagnostic_def word_diagnostic_def)

lemma parse_error_sites [simp]:
  "parse_error (nesting_error s)" "parse_error (structural_error s)" "parse_error (duplicate_error w n s)"
  "parse_error (pattern_expected t)" "parse_error (must_bind_error v s)" "parse_error (none_binds_error s)"
  "parse_error (unknown_variant n s)" "parse_error (nested_let_else v s)" "parse_error (arrow_function s)"
  "parse_error (ternary s)" "parse_error (mixed_list s)" "parse_error (empty_entries_error s)"
  "parse_error (else_expected pat t)" "parse_error (brace_before_else s)" "parse_error (else_block_error v s)"
  by (simp_all add: nesting_error_def structural_error_def duplicate_error_def pattern_expected_def
      must_bind_error_def none_binds_error_def unknown_variant_def nested_let_else_def arrow_function_def
      ternary_def mixed_list_def empty_entries_error_def else_expected_def brace_before_else_def
      else_block_error_def Let_def)

section \<open>Weakest preconditions\<close>

definition pwp :: "'a parsing \<Rightarrow> ('a \<Rightarrow> parser \<Rightarrow> bool) \<Rightarrow> parser \<Rightarrow> bool" where
  "pwp m Q p =
     (case m p of Inl (Diag d) \<Rightarrow> parse_error d | Inl Panic \<Rightarrow> False | Inl OutOfFuel \<Rightarrow> False | Inr (x, p') \<Rightarrow> Q x p')"

lemma pwp_mono: "pwp m Q p \<Longrightarrow> (\<And>x p'. Q x p' \<Longrightarrow> Q' x p') \<Longrightarrow> pwp m Q' p"
  by (auto simp: pwp_def split: sum.splits stop.splits)

lemma pwp_simps [simp]:
  "pwp (pret x) Q = Q x"
  "pwp (pfail d) Q = (\<lambda>p. parse_error d)"
  "pwp (pbind m f) Q = pwp m (\<lambda>x. pwp (f x) Q)"
  "pwp (pget g) Q = (\<lambda>p. Q (g p) p)"
  "pwp (pstop Panic) Q = (\<lambda>p. False)"
  "pwp (pstop OutOfFuel) Q = (\<lambda>p. False)"
  by (simp_all add: fun_eq_iff pwp_def pret_def pfail_def pstop_def pbind_def pget_def
      split: sum.splits stop.splits)

lemma pwp_pput [simp]: "pwp (pput u) R = (\<lambda>p. R () (u p))"
  by (simp add: fun_eq_iff pwp_def pput_def)

lemma pwp_pguard [simp]: "pwp (pguard d) Q p \<longleftrightarrow> (case d of None \<Rightarrow> Q () p | Some e \<Rightarrow> parse_error e)"
  by (simp add: pguard_def split: option.splits)

lemma pwp_later [simp]: "pwp (later f n) = pwp (f n)"
  by (simp add: fun_eq_iff pwp_def later_def)

section \<open>Token streams and frames\<close>

definition token_stream :: "str \<Rightarrow> token list \<Rightarrow> bool" where
  "token_stream t ts \<longleftrightarrow>
     ts \<noteq> [] \<and> tok_kind (last ts) = TEof \<and> range_ok t 0 (span_start (tok_span (hd ts))) \<and>
     successively (\<lambda>a b. range_ok t (span_end (tok_span a)) (span_start (tok_span b))) ts"

definition ok :: "parser \<Rightarrow> bool" where
  "ok p \<longleftrightarrow>
     token_stream (pr_text p) (pr_tokens p) \<and> pr_cursor p < length (pr_tokens p) \<and>
     pr_depth p \<le> MAX_NESTING_DEPTH \<and> structural_depth p \<le> pr_peak p \<and> pr_peak p \<le> MAX_STRUCTURAL_DEPTH"

definition went :: "parser \<Rightarrow> parser \<Rightarrow> bool" where
  "went p p' \<longleftrightarrow>
     ok p' \<and> pr_text p' = pr_text p \<and> pr_tokens p' = pr_tokens p \<and> pr_ternary_colons p' = pr_ternary_colons p \<and>
     pr_speculations p' = pr_speculations p \<and> construction_allowed p' = construction_allowed p \<and>
     pr_cursor p \<le> pr_cursor p' \<and> pr_depth p \<le> pr_depth p' \<and> pr_chain_depth p \<le> pr_chain_depth p'"

definition go :: "parser \<Rightarrow> parser \<Rightarrow> bool" where
  "go p p' \<longleftrightarrow>
     went p p' \<and> pr_depth p' = pr_depth p \<and> pr_chain_depth p' = pr_chain_depth p \<and> pr_peak p \<le> pr_peak p'"

definition cur :: "parser \<Rightarrow> token" where
  "cur p = pr_tokens p ! pr_cursor p"

lemma go_ok: "go p p' \<Longrightarrow> ok p'" by (simp add: go_def went_def)
lemma went_ok: "went p p' \<Longrightarrow> ok p'" by (simp add: went_def)
lemma go_refl [simp]: "ok p \<Longrightarrow> go p p" by (simp add: go_def went_def)
lemma went_refl [simp]: "ok p \<Longrightarrow> went p p" by (simp add: went_def)
lemma go_went: "go p p' \<Longrightarrow> went p p'" by (simp add: go_def)
lemma went_trans: "went p q \<Longrightarrow> went q r \<Longrightarrow> went p r" by (auto simp: went_def)
lemma go_trans: "go p q \<Longrightarrow> go q r \<Longrightarrow> go p r" by (auto simp: go_def intro: went_trans)

lemma go_depth: "go p p' \<Longrightarrow> structural_depth p' = structural_depth p"
  by (simp add: go_def structural_depth_def)

lemma cur_not_last:
  assumes "ok p" "tok_kind (cur p) \<noteq> TEof"
  shows "Suc (pr_cursor p) < length (pr_tokens p)"
proof (rule ccontr)
  assume "\<not> ?thesis"
  then have "cur p = last (pr_tokens p)"
    using assms(1) by (auto simp: ok_def token_stream_def cur_def last_conv_nth not_less_eq less_Suc_eq)
  then show False using assms by (simp add: ok_def token_stream_def)
qed

lemma ok_advanced:
  assumes "ok p" "tok_kind (cur p) \<noteq> TEof"
  shows "ok (p\<lparr>pr_cursor := Suc (pr_cursor p)\<rparr>)"
  using assms cur_not_last [OF assms] by (simp add: ok_def structural_depth_def)

lemma pwp_token_at [simp]: "ok p \<Longrightarrow> i \<le> pr_cursor p \<Longrightarrow> pwp (token_at i) Q p \<longleftrightarrow> Q (pr_tokens p ! i) p"
  by (simp add: pwp_def token_at_def ok_def)

lemma pwp_current [simp]: "ok p \<Longrightarrow> pwp current Q p \<longleftrightarrow> Q (cur p) p"
  by (simp add: current_def cur_def)

lemma pwp_previous [simp]:
  "ok p \<Longrightarrow> 0 < pr_cursor p \<Longrightarrow> pwp previous Q p \<longleftrightarrow> Q (pr_tokens p ! (pr_cursor p - 1)) p"
  by (simp add: previous_def)

lemma pwp_check [simp]: "ok p \<Longrightarrow> pwp (check k) Q p \<longleftrightarrow> Q (tok_kind (cur p) = k) p"
  by (simp add: check_def)

lemma pwp_expected [simp]: "ok p \<Longrightarrow> pwp (expected w) Q p"
  by (simp add: expected_def)

text \<open>\<open>next p p'\<close>: the current token is not the last and was consumed.\<close>

definition ate :: "parser \<Rightarrow> parser \<Rightarrow> bool" where
  "ate p p' \<longleftrightarrow> tok_kind (cur p) \<noteq> TEof \<and> p' = p\<lparr>pr_cursor := Suc (pr_cursor p)\<rparr>"

lemma ate_go: "ok p \<Longrightarrow> ate p p' \<Longrightarrow> go p p'"
  using ok_advanced [of p] by (auto simp: ate_def go_def went_def)

lemma ate_cursor: "ate p p' \<Longrightarrow> pr_cursor p' = Suc (pr_cursor p)"
  by (simp add: ate_def)

lemma ate_peak: "ate p p' \<Longrightarrow> pr_peak p' = pr_peak p"
  by (simp add: ate_def)

lemma ate_previous: "ate p p' \<Longrightarrow> pr_tokens p' ! (pr_cursor p' - 1) = cur p"
  by (simp add: ate_def cur_def)

lemma pwp_next_token:
  assumes "ok p" "\<And>p'. ate p p' \<Longrightarrow> go p p' \<Longrightarrow> ok p' \<Longrightarrow> Q (cur p) p'" "tok_kind (cur p) = TEof \<Longrightarrow> Q (cur p) p"
  shows "pwp next_token Q p"
  using assms(1) assms(2) [OF _ ate_go [OF assms(1)] go_ok [OF ate_go [OF assms(1)]]] assms(3)
  by (cases "tok_kind (cur p) = TEof") (auto simp: next_token_def ate_def)

lemma pwp_expect:
  assumes "ok p" "k \<noteq> TEof" "\<And>p'. ate p p' \<Longrightarrow> go p p' \<Longrightarrow> ok p' \<Longrightarrow> tok_kind (cur p) = k \<Longrightarrow> Q (cur p) p'"
  shows "pwp (expect k) Q p"
  using assms by (auto simp: expect_def intro: pwp_next_token)

lemma pwp_consume_kind:
  assumes "ok p" "k \<noteq> TEof" "\<And>p'. ate p p' \<Longrightarrow> go p p' \<Longrightarrow> ok p' \<Longrightarrow> tok_kind (cur p) = k \<Longrightarrow> Q True p'"
    "tok_kind (cur p) \<noteq> k \<Longrightarrow> Q False p"
  shows "pwp (consume_kind k) Q p"
  using assms by (auto simp: consume_kind_def intro: pwp_next_token)

lemma pwp_consume_span:
  assumes "ok p" "k \<noteq> TEof" "\<And>p'. ate p p' \<Longrightarrow> go p p' \<Longrightarrow> ok p' \<Longrightarrow> tok_kind (cur p) = k \<Longrightarrow> Q (Some (tok_span (cur p))) p'"
    "tok_kind (cur p) \<noteq> k \<Longrightarrow> Q None p"
  shows "pwp (consume_span k) Q p"
  using assms by (auto simp: consume_span_def intro: pwp_next_token)

section \<open>Levels\<close>

lemma pwp_reach:
  "(n \<le> MAX_STRUCTURAL_DEPTH \<Longrightarrow> Q () (p\<lparr>pr_peak := max (pr_peak p) n\<rparr>)) \<Longrightarrow> pwp (reach n s) Q p"
  by (simp add: reach_def)

text \<open>The parser after entering one nesting level.\<close>

definition entered :: "parser \<Rightarrow> parser" where
  "entered p = p\<lparr>pr_depth := Suc (pr_depth p), pr_peak := max (pr_peak p) (Suc (structural_depth p))\<rparr>"

lemma entered_simps [simp]:
  "pr_depth (entered p) = Suc (pr_depth p)" "pr_chain_depth (entered p) = pr_chain_depth p"
  "pr_peak (entered p) = max (pr_peak p) (Suc (structural_depth p))" "pr_cursor (entered p) = pr_cursor p"
  "pr_tokens (entered p) = pr_tokens p" "structural_depth (entered p) = Suc (structural_depth p)"
  by (simp_all add: entered_def structural_depth_def)

lemma pwp_enter:
  assumes "ok p" "ok (entered p) \<Longrightarrow> went p (entered p) \<Longrightarrow> Q () (entered p)"
  shows "pwp (enter s) Q p"
proof -
  have "pwp (reach (Suc (structural_depth p)) s) Q (p\<lparr>pr_depth := Suc (pr_depth p)\<rparr>)" if "pr_depth p < MAX_NESTING_DEPTH"
  proof (rule pwp_reach)
    assume "Suc (structural_depth p) \<le> MAX_STRUCTURAL_DEPTH"
    then have "ok (entered p)" "went p (entered p)"
      using assms(1) that by (simp_all add: ok_def went_def structural_depth_def entered_def)
    then show "Q () (p\<lparr>pr_depth := Suc (pr_depth p), pr_peak := max (pr_peak (p\<lparr>pr_depth := Suc (pr_depth p)\<rparr>))
        (Suc (structural_depth p))\<rparr>)"
      using assms(2) by (simp add: entered_def)
  qed
  then show ?thesis by (simp add: enter_def structural_depth_def not_less Suc_le_eq)
qed

lemma pwp_nested:
  assumes "ok p" "ok (entered p) \<Longrightarrow>
    pwp m (\<lambda>x q. go (entered p) q \<and>
      (go p (q\<lparr>pr_depth := pr_depth p\<rparr>) \<longrightarrow> Q x (q\<lparr>pr_depth := pr_depth p\<rparr>))) (entered p)"
  shows "pwp (nested s m) Q p"
proof -
  have restored: "go p (q\<lparr>pr_depth := pr_depth p\<rparr>)" if "go (entered p) q" for q
    using that assms(1) by (auto simp: go_def went_def ok_def structural_depth_def entered_def)
  have "q\<lparr>pr_depth := pr_depth q - Suc 0\<rparr> = q\<lparr>pr_depth := pr_depth p\<rparr>" if "go (entered p) q" for q
    using that by (simp add: go_def)
  then show ?thesis
    unfolding nested_def leave_def pwp_simps
    by (intro pwp_enter [OF assms(1)]) (auto intro: pwp_mono [OF assms(2)] simp: restored)
qed

text \<open>How far the tree may still reach below a parser, and parsers that build trees within that room.\<close>

definition room :: "parser \<Rightarrow> parser \<Rightarrow> nat" where
  "room p p' = (pr_peak p' - structural_depth p) + 2 * (MAX_NESTING_DEPTH - pr_depth p)"

definition parses :: "nat \<Rightarrow> (nat \<Rightarrow> 'a \<Rightarrow> bool) \<Rightarrow> 'a parsing \<Rightarrow> bool" where
  "parses n W m \<longleftrightarrow>
     (\<forall>p. ok p \<longrightarrow> MAX_NESTING_DEPTH < n + pr_depth p \<longrightarrow>
        pwp m (\<lambda>x p'. go p p' \<and> pr_cursor p < pr_cursor p' \<and> structural_depth p \<le> pr_peak p' \<and>
          W (room p p') x) p)"

definition eats :: "nat \<Rightarrow> 'a parsing \<Rightarrow> bool" where
  "eats n m \<longleftrightarrow>
     (\<forall>p. ok p \<longrightarrow> MAX_NESTING_DEPTH < n + pr_depth p \<longrightarrow>
        pwp m (\<lambda>x p'. go p p' \<and> pr_cursor p < pr_cursor p') p)"

lemma parsesI:
  "(\<And>p. ok p \<Longrightarrow> MAX_NESTING_DEPTH < n + pr_depth p \<Longrightarrow>
     pwp m (\<lambda>x p'. go p p' \<and> pr_cursor p < pr_cursor p' \<and> structural_depth p \<le> pr_peak p' \<and> W (room p p') x) p) \<Longrightarrow>
   parses n W m"
  by (simp add: parses_def)

lemma parsesE:
  assumes "parses n W m" "ok p" "MAX_NESTING_DEPTH < n + pr_depth p"
    "\<And>x p'. go p p' \<Longrightarrow> ok p' \<Longrightarrow> pr_cursor p < pr_cursor p' \<Longrightarrow> structural_depth p \<le> pr_peak p' \<Longrightarrow> W (room p p') x \<Longrightarrow> Q x p'"
  shows "pwp m Q p"
  using assms(1-3) unfolding parses_def by (blast intro: pwp_mono assms(4) go_ok)

lemma eatsI:
  "(\<And>p. ok p \<Longrightarrow> MAX_NESTING_DEPTH < n + pr_depth p \<Longrightarrow>
     pwp m (\<lambda>x p'. go p p' \<and> pr_cursor p < pr_cursor p') p) \<Longrightarrow> eats n m"
  by (simp add: eats_def)

lemma eatsE:
  assumes "eats n m" "ok p" "MAX_NESTING_DEPTH < n + pr_depth p"
    "\<And>x p'. go p p' \<Longrightarrow> ok p' \<Longrightarrow> pr_cursor p < pr_cursor p' \<Longrightarrow> Q x p'"
  shows "pwp m Q p"
  using assms(1-3) unfolding eats_def by (blast intro: pwp_mono assms(4) go_ok)

lemma pwp_nested_eats:
  assumes "eats n m" "ok p" "MAX_NESTING_DEPTH < Suc n + pr_depth p"
    "\<And>x p'. go p p' \<Longrightarrow> ok p' \<Longrightarrow> pr_cursor p < pr_cursor p' \<Longrightarrow> Q x p'"
  shows "pwp (nested s m) Q p"
  using assms(3)
  by (intro pwp_nested [OF assms(2)] eatsE [OF assms(1)]) (auto intro: assms(4) go_ok)

lemma pwp_nested_parses:
  assumes "parses n W m" "ok p" "MAX_NESTING_DEPTH < Suc n + pr_depth p"
    "\<And>x p' r. go p p' \<Longrightarrow> ok p' \<Longrightarrow> pr_cursor p < pr_cursor p' \<Longrightarrow> structural_depth p < pr_peak p' \<Longrightarrow>
       room p p' = r + 3 \<Longrightarrow> W r x \<Longrightarrow> Q x p'"
  shows "pwp (nested s m) Q p"
proof (rule pwp_nested [OF assms(2)])
  assume ok: "ok (entered p)"
  show "pwp m (\<lambda>x q. go (entered p) q \<and>
      (go p (q\<lparr>pr_depth := pr_depth p\<rparr>) \<longrightarrow> Q x (q\<lparr>pr_depth := pr_depth p\<rparr>))) (entered p)"
  proof (rule parsesE [OF assms(1) ok])
    fix x q
    assume q: "go (entered p) q" "pr_cursor (entered p) < pr_cursor q"
      "structural_depth (entered p) \<le> pr_peak q" "W (room (entered p) q) x"
    have "Suc (pr_depth p) \<le> MAX_NESTING_DEPTH" using ok by (simp add: ok_def)
    then have "room p (q\<lparr>pr_depth := pr_depth p\<rparr>) = room (entered p) q + 3"
      using q(3) by (simp add: room_def)
    then show "go (entered p) q \<and> (go p (q\<lparr>pr_depth := pr_depth p\<rparr>) \<longrightarrow> Q x (q\<lparr>pr_depth := pr_depth p\<rparr>))"
      using q by (auto intro: assms(4) go_ok)
  qed (use assms(3) in simp)
qed

lemma room_go: "go p q \<Longrightarrow> room q r = room p r"
  by (simp add: room_def go_depth) (simp add: go_def)

lemma room_mono: "go q r \<Longrightarrow> room p q \<le> room p r"
  by (simp add: room_def go_def diff_le_mono)

lemma parses_construction:
  assumes "parses n W m"
  shows "parses n W (with_construction b m)"
proof (rule parsesI)
  fix p
  assume p: "ok p" "MAX_NESTING_DEPTH < n + pr_depth p"
  let ?p = "p\<lparr>construction_allowed := b\<rparr>"
  have "pwp m (\<lambda>x p'. go p (p'\<lparr>construction_allowed := construction_allowed p\<rparr>) \<and> pr_cursor p < pr_cursor p' \<and>
      structural_depth p \<le> pr_peak p' \<and> W (room p p') x) ?p"
    by (rule parsesE [OF assms]) (use p in \<open>auto simp: ok_def structural_depth_def go_def went_def room_def\<close>)
  then show "pwp (with_construction b m) (\<lambda>x p'. go p p' \<and> pr_cursor p < pr_cursor p' \<and>
      structural_depth p \<le> pr_peak p' \<and> W (room p p') x) p"
    by (simp add: with_construction_def room_def)
qed

section \<open>Comma-separated items\<close>

lemma pwp_items_loop:
  assumes step: "\<And>acc q. go p q \<Longrightarrow> ok q \<Longrightarrow> I acc q \<Longrightarrow>
      pwp (item acc) (\<lambda>acc' q'. go q q' \<and> pr_cursor q < pr_cursor q' \<and> I acc' q') q"
    and stable: "\<And>acc q q'. I acc q \<Longrightarrow> ate q q' \<Longrightarrow> I acc q'"
    and fin: "\<And>acc q. go p q \<Longrightarrow> ok q \<Longrightarrow> I acc q \<Longrightarrow> pr_cursor p < pr_cursor q \<Longrightarrow> Q acc q"
  shows "go p q \<Longrightarrow> I acc q \<Longrightarrow> length (pr_tokens q) \<le> k + pr_cursor q \<Longrightarrow> pwp (items_loop k close item acc) Q q"
proof (induction k arbitrary: acc q)
  case 0
  then show ?case using go_ok [OF 0(1)] by (simp add: ok_def)
next
  case (Suc k)
  show ?case
    unfolding items_loop.simps pwp_simps
  proof (rule pwp_mono [OF step [OF Suc(2) go_ok [OF Suc(2)] Suc(3)]])
    fix acc' q'
    assume a: "go q q' \<and> pr_cursor q < pr_cursor q' \<and> I acc' q'"
    then have g: "go p q'" "pr_cursor p < pr_cursor q'"
      using Suc(2) go_trans [of p q q'] by (auto simp: go_def went_def)
    show "pwp (consume_kind TComma) (\<lambda>comma. pwp (if \<not> comma then pret acc'
        else pbind (check close) (\<lambda>closed. if closed then pret acc' else items_loop k close item acc')) Q) q'"
    proof (rule pwp_consume_kind [OF go_ok [OF g(1)]])
      fix r
      assume r: "ate q' r" "go q' r"
      then have "go p r" "pr_cursor p < pr_cursor r" "I acc' r" "length (pr_tokens r) \<le> k + pr_cursor r"
        using g a Suc(4) go_trans [OF g(1) r(2)] stable [OF _ r(1)] by (auto simp: ate_def go_def went_def)
      then show "pwp (if \<not> True then pret acc'
        else pbind (check close) (\<lambda>closed. if closed then pret acc' else items_loop k close item acc')) Q r"
        using go_ok [of p r] Suc.IH [of r acc'] fin [of r acc'] by simp
    qed (use g a fin go_ok [OF g(1)] in simp_all)
  qed
qed

lemma pwp_items:
  assumes "ok p" "I acc p"
    and step: "\<And>acc q. go p q \<Longrightarrow> ok q \<Longrightarrow> I acc q \<Longrightarrow>
      pwp (item acc) (\<lambda>acc' q'. go q q' \<and> pr_cursor q < pr_cursor q' \<and> I acc' q') q"
    and stable: "\<And>acc q q'. I acc q \<Longrightarrow> ate q q' \<Longrightarrow> I acc q'"
    and fin: "\<And>acc q. go p q \<Longrightarrow> ok q \<Longrightarrow> I acc q \<Longrightarrow> Q acc q"
  shows "pwp (items close item acc) Q p"
  using assms(1,2)
  by (auto simp: items_def intro!: pwp_items_loop [of p I item Q, OF step stable fin] fin)

end
