(* ===== verification/Parser_Safety.thy ===== *)
theory Parser_Safety
  imports Parser_Rules
begin

text \<open>
  The parser never panics and never runs out of fuel, reports only its own errors, and builds trees whose
  height its limits bound.
\<close>

section \<open>Names and types\<close>

lemmas go_defs = go_def went_def ate_def

lemma pwp_identifier:
  assumes "ok p" "\<And>name p'. ate p p' \<Longrightarrow> go p p' \<Longrightarrow> ok p' \<Longrightarrow> tok_kind (cur p) = TIdentifier name \<Longrightarrow>
    Q (name, tok_span (cur p)) p'"
  shows "pwp parse_identifier Q p"
  unfolding parse_identifier_def pwp_simps
  by (rule pwp_next_token [OF assms(1)]) (auto split: token_kind.splits intro: assms(2))

lemma pwp_binding_name:
  assumes "ok p" "\<And>x p'. ate p p' \<Longrightarrow> go p p' \<Longrightarrow> ok p' \<Longrightarrow> Q x p'"
  shows "pwp binding_name Q p"
  unfolding binding_name_def pwp_simps
  by (rule pwp_identifier [OF assms(1)]) (auto intro: assms(2))

lemma eats_type_argument: "eats n m \<Longrightarrow> eats (Suc n) (type_argument m)"
  unfolding type_argument_def
  by (rule eatsI) (auto simp: go_defs intro!: pwp_expect pwp_nested_eats [where n = n and m = m])

lemma eats_type_arguments: "eats n ty \<Longrightarrow> eats (Suc n) (type_arguments ty)"
  unfolding type_arguments_def
  by (intro eats_type_argument eatsI) (auto simp: go_defs intro!: pwp_expect eatsE [where n = n and m = ty])

lemma eats_record_type_field: "eats n ty \<Longrightarrow> eats n (record_type_field ty fs)"
  unfolding record_type_field_def
  by (rule eatsI) (auto simp: go_defs intro!: pwp_identifier pwp_expect eatsE [where n = n and m = ty])

lemma eats_items:
  assumes "ok p" "MAX_NESTING_DEPTH < n + pr_depth p" "\<And>acc. eats n (item acc)"
    "\<And>acc p'. go p p' \<Longrightarrow> ok p' \<Longrightarrow> Q acc p'"
  shows "pwp (items close item acc) Q p"
  by (rule pwp_items [OF assms(1), where I = "\<lambda>_ _. True"])
     (use assms(2) in \<open>auto intro!: eatsE [OF assms(3)] assms(4) simp: go_defs\<close>)

lemma eats_record_type_fields: "eats n ty \<Longrightarrow> eats (Suc n) (record_type_fields ty)"
  unfolding record_type_fields_def record_type_field_list_def
  apply (rule eatsI)
  apply simp
  apply (rule pwp_expect, assumption, simp)
  apply (rule pwp_nested_eats [where n = n])
     apply (rule eatsI)
     apply simp
     apply (rule eats_items, assumption, assumption, erule eats_record_type_field)
     apply (rule pwp_expect, assumption, simp)
     apply (auto simp: go_defs)
  done

lemma pwp_type_kind:
  assumes "eats n ty" "ok p" "MAX_NESTING_DEPTH < Suc n + pr_depth p" "\<And>x p'. go p p' \<Longrightarrow> ok p' \<Longrightarrow> Q x p'"
  shows "pwp (parse_type_kind ty name s) Q p"
proof (cases "map_of simple_types name")
  case None
  have "pwp (type_argument ty) (\<lambda>x. R x) p" "pwp (type_arguments ty) R' p" "pwp (record_type_fields ty) R'' p"
    if "\<And>x p'. go p p' \<Longrightarrow> ok p' \<Longrightarrow> R x p'" "\<And>x p'. go p p' \<Longrightarrow> ok p' \<Longrightarrow> R' x p'"
       "\<And>x p'. go p p' \<Longrightarrow> ok p' \<Longrightarrow> R'' x p'" for R R' R''
    using assms(2,3) that
    by (blast intro: eatsE [OF eats_type_argument [OF assms(1)]]
      eatsE [OF eats_type_arguments [OF assms(1)]] eatsE [OF eats_record_type_fields [OF assms(1)]])+
  then show ?thesis using assms(4) None by (simp add: parse_type_kind_def case_prod_beta)
next
  case (Some k)
  then show ?thesis using assms(2,4) by (simp add: parse_type_kind_def)
qed

lemma eats_type_with:
  assumes "eats n ty"
  shows "eats (Suc n) (type_with ty)"
  unfolding type_with_def Let_def
proof (rule eatsI, simp, rule pwp_next_token, assumption, goal_cases)
  case (1 p p')
  then show ?case
    by (cases "tok_kind (cur p)") (auto intro!: pwp_type_kind [OF assms] simp: go_defs)
qed simp

lemma eats_type_at: "eats n (type_at n)"
proof (induction n)
  case 0
  then show ?case by (auto simp: eats_def ok_def)
next
  case (Suc n)
  have "eats n (later type_at n)" using Suc by (simp add: eats_def)
  then show ?case by (simp add: eats_type_with)
qed

lemma pwp_parse_type:
  assumes "ok p" "\<And>x p'. go p p' \<Longrightarrow> ok p' \<Longrightarrow> pr_cursor p < pr_cursor p' \<Longrightarrow> Q x p'"
  shows "pwp parse_type Q p"
  unfolding parse_type_def by (rule eatsE [OF eats_type_at assms(1)]) (auto intro: assms(2))

lemma pwp_optional_type:
  assumes "ok p" "k \<noteq> TEof" "\<And>x p'. go p p' \<Longrightarrow> ok p' \<Longrightarrow> Q x p'"
  shows "pwp (optional_type k) Q p"
  unfolding optional_type_def pwp_simps
  by (rule pwp_consume_kind [OF assms(1,2)]) (auto intro!: pwp_parse_type assms simp: go_defs)

section \<open>Patterns\<close>

lemma pwp_list_pattern_part:
  assumes "ok p" "\<And>x p'. go p p' \<Longrightarrow> ok p' \<Longrightarrow> pr_cursor p < pr_cursor p' \<Longrightarrow> Q x p'"
  shows "pwp list_pattern_part Q p"
  using assms(1) unfolding list_pattern_part_def Let_def
  by (cases "tok_kind (cur p)") (auto intro!: pwp_next_token pwp_binding_name assms(2) simp: ate_cursor)

lemma pwp_list_shape_error [simp]: "ok p \<Longrightarrow> pwp (list_shape_error s) Q p"
  by (simp add: list_shape_error_def)

lemma pwp_list_pattern:
  assumes "ok p" "\<And>x p'. go p p' \<Longrightarrow> ok p' \<Longrightarrow> pr_cursor p < pr_cursor p' \<Longrightarrow> Q x p'"
  shows "pwp list_pattern Q p"
  unfolding list_pattern_def Let_def pwp_simps
  by (rule pwp_expect [OF assms(1)])
     (auto intro!: pwp_consume_span pwp_list_pattern_part pwp_consume_kind pwp_next_token assms(2)
       split: option.split simp: go_defs)

lemma pwp_variant_payload:
  assumes "eats n sub" "ok p" "MAX_NESTING_DEPTH < Suc n + pr_depth p" "\<And>x p'. go p p' \<Longrightarrow> ok p' \<Longrightarrow> Q x p'"
  shows "pwp (variant_payload sub v s) Q p"
  using assms(2-4) unfolding variant_payload_def
  by (auto intro!: pwp_next_token pwp_nested_eats [OF assms(1)] pwp_expect simp: go_defs)

lemma eats_pattern_with:
  assumes "eats n sub"
  shows "eats (Suc n) (pattern_with sub)"
  unfolding pattern_with_def
proof (rule eatsI, simp, goal_cases)
  case (1 p)
  then show ?case
    by (cases "tok_kind (cur p)")
       (auto intro!: pwp_list_pattern pwp_next_token pwp_variant_payload [OF assms] pwp_binding_name
         split: option.split simp: go_defs)
qed

lemma eats_pattern_at: "eats n (pattern_at n)"
proof (induction n)
  case 0
  then show ?case by (auto simp: eats_def ok_def)
next
  case (Suc n)
  have "eats n (later pattern_at n)" using Suc by (simp add: eats_def)
  then show ?case by (simp add: eats_pattern_with)
qed

lemma pwp_parse_pattern:
  assumes "ok p" "\<And>x p'. go p p' \<Longrightarrow> ok p' \<Longrightarrow> pr_cursor p < pr_cursor p' \<Longrightarrow> Q x p'"
  shows "pwp parse_pattern Q p"
  unfolding parse_pattern_def by (rule eatsE [OF eats_pattern_at assms(1)]) (auto intro: assms(2))

lemma pwp_at_variant_pattern:
  "ok p \<Longrightarrow> (\<And>b. Q b p) \<Longrightarrow> pwp at_variant_pattern Q p"
  by (simp add: at_variant_pattern_def)

lemma pwp_variant_binding:
  assumes "ok p" "\<And>x p'. go p p' \<Longrightarrow> ok p' \<Longrightarrow> Q x p'"
  shows "pwp (variant_binding v s) Q p"
  using assms unfolding variant_binding_def
  by (auto intro!: pwp_consume_kind pwp_at_variant_pattern pwp_binding_name pwp_expect simp: go_defs)

lemma pwp_variant_name:
  assumes "ok p" "\<And>x p'. go p p' \<Longrightarrow> ok p' \<Longrightarrow> pr_cursor p < pr_cursor p' \<Longrightarrow> Q x p'"
  shows "pwp parse_variant_name Q p"
  unfolding parse_variant_name_def pwp_simps
proof (rule pwp_next_token [OF assms(1)])
  fix p'
  assume "ate p p'" "go p p'" "ok p'"
  then show "pwp (case tok_kind (cur p) of
      TIdentifier name \<Rightarrow> (case variant_of name of Some v \<Rightarrow> pret (v, tok_span (cur p))
         | None \<Rightarrow> pfail (unknown_variant name (tok_span (cur p))))
    | _ \<Rightarrow> pfail (diagnostic_new ''K1003''
         (''expected '' @ backquoted ''Some(name)'' @ '', '' @ backquoted ''None'' @ '', '' @ backquoted ''Ok(name)'' @
          '', or '' @ backquoted ''Err(name)'') (tok_span (cur p)))) Q p'"
    by (cases "tok_kind (cur p)") (auto split: option.split intro!: assms(2) simp: ate_cursor)
qed simp

lemma pwp_variant_pattern:
  assumes "ok p" "\<And>x p'. go p p' \<Longrightarrow> ok p' \<Longrightarrow> pr_cursor p < pr_cursor p' \<Longrightarrow> Q x p'"
  shows "pwp parse_variant_pattern Q p"
  unfolding parse_variant_pattern_def pwp_simps
  by (rule pwp_variant_name [OF assms(1)]) (auto intro!: pwp_variant_binding assms(2) simp: go_defs)

section \<open>Doc comments and constructs of other languages\<close>

lemma stream_range:
  assumes "ok p"
  shows "pr_cursor p = 0 \<Longrightarrow> range_ok (pr_text p) 0 (span_start (tok_span (cur p)))"
    "0 < pr_cursor p \<Longrightarrow>
      range_ok (pr_text p) (span_end (tok_span (pr_tokens p ! (pr_cursor p - 1)))) (span_start (tok_span (cur p)))"
  using assms successively_nth [of _ "pr_tokens p" "pr_cursor p - 1"]
  by (auto simp: ok_def token_stream_def cur_def hd_conv_nth)

lemma pwp_doc_comment:
  assumes "ok p" "\<And>d. Q d p"
  shows "pwp parse_doc_comment Q p"
  using assms stream_range [OF assms(1)] unfolding parse_doc_comment_def
  by (cases "pr_cursor p = 0") (simp_all add: Let_def)

definition harmless :: "diagnostic option \<Rightarrow> bool" where
  "harmless d \<longleftrightarrow> (case d of None \<Rightarrow> True | Some e \<Rightarrow> parse_error e)"

lemma harmless_simps [simp]: "harmless None" "harmless (Some e) \<longleftrightarrow> parse_error e"
  by (simp_all add: harmless_def)

lemma harmless_guard: "harmless d \<Longrightarrow> Q () p \<Longrightarrow> pwp (pguard d) Q p"
  by (simp add: harmless_def split: option.splits)

lemma harmless_ternary [simp]: "harmless (map_option (\<lambda>(a, colon). ternary (f a colon)) z)"
  by (cases z) auto

lemma harmless_arrow: "harmless (arrow_after_group p i)"
  by (simp add: arrow_after_group_def split: option.split)

lemma pwp_word_habit:
  assumes "ok p" "\<And>d. harmless d \<Longrightarrow> Q d p"
  shows "pwp (word_habit w s) Q p"
  using assms by (auto simp: word_habit_def split: option.split)

lemma pwp_statement_habit:
  assumes "ok p" "\<And>d. harmless d \<Longrightarrow> Q d p"
  shows "pwp statement_habit Q p"
  using assms unfolding statement_habit_def
  by (cases "tok_kind (cur p)") (auto split: option.split)

lemma pwp_else_return:
  assumes "ok p" "\<And>d. harmless d \<Longrightarrow> Q d p"
  shows "pwp (else_return s) Q p"
  using assms by (simp add: else_return_def Let_def split: option.split)

lemma pwp_no_assignment:
  assumes "ok p" "Q () p"
  shows "pwp (no_assignment x) Q p"
  using assms by (simp add: no_assignment_def assignment_after_def)

lemma harmless_mutation: "harmless (mutation_error w a b)"
  by (simp add: mutation_error_def)

lemma pwp_mutation_operator:
  assumes "ok p" "tok_kind t = TEof \<or> 0 < pr_cursor p" "\<And>d. harmless d \<Longrightarrow> Q d p"
  shows "pwp (mutation_operator t) Q p"
  using assms unfolding mutation_operator_def
  by (auto split: option.split simp: harmless_mutation)

lemma pwp_unexpected_token:
  assumes "ok p" "tok_kind t = TEof \<or> 0 < pr_cursor p"
  shows "pwp (unexpected_token t) Q p"
  unfolding unexpected_token_def pwp_simps
  by (rule pwp_mutation_operator [OF assms]) (simp add: harmless_def split: option.splits)

lemma pwp_restricted_construction:
  assumes "ok p" "\<And>d. harmless d \<Longrightarrow> Q d p"
  shows "pwp (restricted_construction c s) Q p"
  using assms by (simp add: restricted_construction_def Let_def)

lemma pwp_ternary_after:
  assumes "parses n W e" "ok p" "MAX_NESTING_DEPTH < Suc n + pr_depth p" "0 < pr_cursor p" "\<And>d. harmless d \<Longrightarrow> Q d p"
  shows "pwp (ternary_after e question) Q p"
proof -
  let ?p = "p\<lparr>pr_speculations := pr_speculations p + 1\<rparr>"
  have "ok ?p" using assms(2) by (simp add: ok_def structural_depth_def)
  then have r: "pwp (nested question e) (\<lambda>x p1. go ?p p1) ?p"
    using assms(3) by (auto intro!: pwp_nested_parses [OF assms(1)])
  show ?thesis
  proof (cases "nested question e ?p")
    case (Inl stopped)
    then show ?thesis
      using r assms(4,5) by (cases stopped) (auto simp: pwp_def ternary_after_def split: option.split prod.split)
  next
    case (Inr xp)
    then obtain x p1 where xp: "xp = (x, p1)" "go ?p p1" using r by (cases xp) (auto simp: pwp_def)
    then have c: "current p1 = Inr (cur p1, p1)"
      using go_ok [OF xp(2)] by (simp add: current_def pbind_def pget_def token_at_def cur_def ok_def)
    have back_to_p: "p1\<lparr>pr_cursor := pr_cursor p, pr_depth := pr_depth p, pr_chain_depth := pr_chain_depth p,
        pr_peak := pr_peak p, pr_speculations := pr_speculations p1 - Suc 0\<rparr> = p"
      using xp(2) by (simp add: go_def went_def)
    show ?thesis
      using Inr xp(1) assms(4,5) back_to_p by (auto simp: pwp_def ternary_after_def c)
  qed
qed

lemma pwp_question_misuse:
  assumes "parses n W e" "ok p" "MAX_NESTING_DEPTH < Suc n + pr_depth p" "0 < pr_cursor p" "\<And>d. harmless d \<Longrightarrow> Q d p"
  shows "pwp (question_misuse e question) Q p"
  using assms(2-5) unfolding question_misuse_def
  by (auto intro!: pwp_ternary_after [OF assms(1)] simp: harmless_def split: option.split)

section \<open>Heights of trees\<close>

text \<open>
  \<open>within_e n x\<close>: the expression nests at most \<open>n\<close> levels, counting one for each expression and one for each
  block, as analysis and lowering count them (\<open>limits.rs\<close>).
\<close>

definition part_all :: "('e \<Rightarrow> bool) \<Rightarrow> 'e string_part \<Rightarrow> bool" where
  "part_all E q \<longleftrightarrow> (case q of Text _ _ \<Rightarrow> True | Hole x _ \<Rightarrow> E x)"

definition kind_all :: "(expression \<Rightarrow> bool) \<Rightarrow> (block \<Rightarrow> bool) \<Rightarrow> expression_kind \<Rightarrow> bool" where
  "kind_all E B k \<longleftrightarrow>
     (case k of
        Literal _ \<Rightarrow> True
      | Interpolation parts \<Rightarrow> list_all (part_all E) parts
      | UnitExpr \<Rightarrow> True
      | Variable _ \<Rightarrow> True
      | ListExpr xs \<Rightarrow> list_all E xs
      | EntryList es \<Rightarrow> list_all (\<lambda>e. E (le_key e) \<and> E (le_value e)) es
      | RecordExpr fs \<Rightarrow> list_all (\<lambda>f. E (rf_value f)) fs
      | Construct _ _ fs \<Rightarrow> list_all (\<lambda>f. E (cf_value f)) fs
      | FieldAccess x _ \<Rightarrow> E x
      | BlockExpr b \<Rightarrow> B b
      | If c b a \<Rightarrow> E c \<and> B b \<and> E a
      | FunctionExpr _ _ b \<Rightarrow> B b
      | Call f xs \<Rightarrow> E f \<and> list_all E xs
      | Propagate x _ \<Rightarrow> E x
      | Match x arms \<Rightarrow> E x \<and> list_all (\<lambda>a. E (ma_value a)) arms
      | Unary _ x \<Rightarrow> E x
      | Binary l _ r \<Rightarrow> E l \<and> E r)"

definition statement_all :: "(expression \<Rightarrow> bool) \<Rightarrow> (block \<Rightarrow> bool) \<Rightarrow> statement \<Rightarrow> bool" where
  "statement_all E B st \<longleftrightarrow>
     (case st_kind st of
        Let _ _ v \<Rightarrow> E v
      | LetElse _ _ v _ arm \<Rightarrow> E v \<and> E (va_value arm)
      | Function _ _ _ b _ \<Rightarrow> B b
      | Webhook _ _ _ b _ \<Rightarrow> B b
      | QueueConsumer _ _ _ _ _ b _ \<Rightarrow> B b
      | ScheduleHandler _ _ _ _ _ b _ \<Rightarrow> B b
      | ExpressionStmt x \<Rightarrow> E x)"

definition block_all :: "(expression \<Rightarrow> bool) \<Rightarrow> (block \<Rightarrow> bool) \<Rightarrow> block \<Rightarrow> bool" where
  "block_all E B b \<longleftrightarrow>
     list_all (statement_all E B) (bl_statements b) \<and> (case bl_tail b of None \<Rightarrow> True | Some x \<Rightarrow> E x)"

fun within_e :: "nat \<Rightarrow> expression \<Rightarrow> bool" and within_b :: "nat \<Rightarrow> block \<Rightarrow> bool" where
  "within_e 0 x = False"
| "within_e (Suc n) x = kind_all (\<lambda>y. within_e n y) (\<lambda>b. within_b n b) (ex_kind x)"
| "within_b 0 b = False"
| "within_b (Suc n) b = block_all (\<lambda>y. within_e n y) (\<lambda>c. within_b n c) b"

definition within_s :: "nat \<Rightarrow> statement \<Rightarrow> bool" where
  "within_s n = statement_all (within_e n) (within_b n)"

lemma part_all_mono: "part_all E q \<Longrightarrow> (\<And>x. E x \<Longrightarrow> E' x) \<Longrightarrow> part_all E' q"
  by (simp add: part_all_def split: string_part.splits)

lemma kind_all_mono:
  "kind_all E B k \<Longrightarrow> (\<And>x. E x \<Longrightarrow> E' x) \<Longrightarrow> (\<And>b. B b \<Longrightarrow> B' b) \<Longrightarrow> kind_all E' B' k"
  by (cases k) (auto simp: kind_all_def list_all_iff intro: part_all_mono)

lemma statement_all_mono:
  "statement_all E B st \<Longrightarrow> (\<And>x. E x \<Longrightarrow> E' x) \<Longrightarrow> (\<And>b. B b \<Longrightarrow> B' b) \<Longrightarrow> statement_all E' B' st"
  by (cases "st_kind st") (auto simp: statement_all_def)

lemma block_all_mono:
  "block_all E B b \<Longrightarrow> (\<And>x. E x \<Longrightarrow> E' x) \<Longrightarrow> (\<And>b. B b \<Longrightarrow> B' b) \<Longrightarrow> block_all E' B' b"
  by (auto simp: block_all_def list_all_iff intro: statement_all_mono split: option.splits)

lemma within_Suc: "(within_e n x \<longrightarrow> within_e (Suc n) x) \<and> (within_b n b \<longrightarrow> within_b (Suc n) b)"
proof (induction n arbitrary: x b)
  case (Suc n)
  show ?case
    using kind_all_mono [of "within_e n" "within_b n" "ex_kind x" "within_e (Suc n)" "within_b (Suc n)"]
      block_all_mono [of "within_e n" "within_b n" b "within_e (Suc n)" "within_b (Suc n)"] Suc.IH
    by (simp only: within_e.simps within_b.simps) blast
qed simp

lemma within_e_mono: "within_e n x \<Longrightarrow> n \<le> m \<Longrightarrow> within_e m x"
  by (induction m) (auto simp: le_Suc_eq simp del: within_e.simps within_b.simps dest: within_Suc [THEN conjunct1, rule_format])

lemma within_b_mono: "within_b n b \<Longrightarrow> n \<le> m \<Longrightarrow> within_b m b"
  by (induction m) (auto simp: le_Suc_eq simp del: within_e.simps within_b.simps dest: within_Suc [THEN conjunct2, rule_format])

lemma within_s_mono: "within_s n st \<Longrightarrow> n \<le> m \<Longrightarrow> within_s m st"
  unfolding within_s_def by (erule statement_all_mono) (auto intro: within_e_mono within_b_mono)

lemma within_e_kind: "within_e (Suc n) (Expression k s) = kind_all (within_e n) (within_b n) k"
  by simp

text \<open>What the parsers of expressions and blocks promise of their trees.\<close>

definition fits :: "nat \<Rightarrow> expression \<Rightarrow> bool" where
  "fits r x = within_e (Suc r) x"

definition fits_block :: "nat \<Rightarrow> block \<Rightarrow> bool" where
  "fits_block r b \<longleftrightarrow> (\<exists>q. r = Suc q \<and> within_b q b)"

lemma fits_mono: "fits r x \<Longrightarrow> r \<le> r' \<Longrightarrow> fits r' x"
  unfolding fits_def by (erule within_e_mono) simp

lemma fits_node: "kind_all (fits r) (within_b (Suc r)) k \<Longrightarrow> r < r' \<Longrightarrow> fits r' (Expression k s)"
  unfolding fits_def within_e_kind
  by (erule kind_all_mono) (auto elim: within_e_mono within_b_mono simp del: within_e.simps within_b.simps)

lemma part_all_simps [simp]: "part_all E (Text v s)" "part_all E (Hole x s) \<longleftrightarrow> E x"
  by (simp_all add: part_all_def)

lemma fits_all_mono: "list_all (fits r) xs \<Longrightarrow> r \<le> r' \<Longrightarrow> list_all (fits r') xs"
  by (auto simp: list_all_iff elim: fits_mono)

lemma room_allowed [simp]:
  "room (p\<lparr>construction_allowed := b\<rparr>) q = room p q" "room p (q\<lparr>construction_allowed := b\<rparr>) = room p q"
  by (simp_all add: room_def structural_depth_def)

lemma fits_block_mono: "fits_block r b \<Longrightarrow> r \<le> r' \<Longrightarrow> fits_block r' b"
  by (auto simp: fits_block_def le_Suc_eq intro: within_b_mono dest: Suc_le_D)

section \<open>Operator chains\<close>

definition stays :: "parser \<Rightarrow> parser \<Rightarrow> bool" where
  "stays p q \<longleftrightarrow> went p q \<and> pr_depth q = pr_depth p \<and> pr_chain_depth q = pr_chain_depth p"

lemma stays_ok: "stays p q \<Longrightarrow> ok q" by (simp add: stays_def went_def)

lemma stays_depth: "stays p q \<Longrightarrow> structural_depth q = structural_depth p"
  by (simp add: stays_def structural_depth_def)

lemma stays_go: "stays p q \<Longrightarrow> go q r \<Longrightarrow> stays p r"
  unfolding stays_def go_def using went_trans [of p q r] by auto

lemma go_iff_stays: "go p q \<longleftrightarrow> stays p q \<and> pr_peak p \<le> pr_peak q"
  by (auto simp: go_def stays_def)

lemma stays_peak: "stays p q \<Longrightarrow> structural_depth p \<le> n \<Longrightarrow> n \<le> MAX_STRUCTURAL_DEPTH \<Longrightarrow> stays p (q\<lparr>pr_peak := n\<rparr>)"
  by (auto simp: stays_def went_def ok_def structural_depth_def)

lemma stays_max_peak:
  "stays p q \<Longrightarrow> n \<le> MAX_STRUCTURAL_DEPTH \<Longrightarrow> stays p (q\<lparr>pr_peak := max (pr_peak q) n\<rparr>)"
  by (rule stays_peak) (auto simp: stays_def went_def ok_def structural_depth_def)

lemma pwp_height_above: "base \<le> pr_peak p \<Longrightarrow> pwp (height_above base) Q p \<longleftrightarrow> Q (pr_peak p - base) p"
  by (simp add: height_above_def)

lemma ok_base: "ok p \<Longrightarrow> structural_depth p \<le> MAX_STRUCTURAL_DEPTH"
  by (simp add: ok_def)

text \<open>The room of a tree of height \<open>h\<close> below \<open>p\<close>.\<close>

abbreviation slack :: "parser \<Rightarrow> nat" where
  "slack p \<equiv> 2 * (MAX_NESTING_DEPTH - pr_depth p)"

lemma fits_binary:
  "fits (h + K) l \<Longrightarrow> fits (h' + K) r \<Longrightarrow> fits (1 + max h h' + K) (binary l operation r)"
  unfolding binary_def fits_def within_e_kind
  by (auto simp: kind_all_def intro: within_e_mono simp del: within_e.simps)

lemma pwp_chain_loop:
  assumes e: "parses n fits operand" and n: "MAX_NESTING_DEPTH < n + pr_depth p"
    and operator: "operator TEof = None"
    and fin: "\<And>x q. stays p q \<Longrightarrow> pr_cursor p < pr_cursor q \<Longrightarrow> structural_depth p \<le> pr_peak q \<Longrightarrow> fits (room p q) x \<Longrightarrow> Q x q"
  shows "stays p q \<Longrightarrow> pr_cursor p < pr_cursor q \<Longrightarrow> structural_depth p + height \<le> pr_peak q \<Longrightarrow> fits (height + slack p) l \<Longrightarrow>
    length (pr_tokens q) \<le> k + pr_cursor q \<Longrightarrow>
    pwp (chain_loop k operand operator (structural_depth p) l height) Q q"
proof (induction k arbitrary: q l height)
  case 0
  then show ?case using stays_ok [OF 0(1)] by (simp add: ok_def)
next
  case (Suc k)
  let ?base = "structural_depth p"
  have ok: "ok q" using Suc(2) by (rule stays_ok)
  show ?case
  proof (cases "operator (tok_kind (cur q))")
    case None
    have "fits (room p q) l" using Suc(4,5) by (auto simp: room_def elim: fits_mono)
    then show ?thesis using ok None Suc(2-4) by (auto intro: fin)
  next
    case (Some operation)
    have "pwp (pbind next_token (\<lambda>_. pbind (set_peak ?base) (\<lambda>_. pbind operand (\<lambda>r. pbind (height_above ?base) (\<lambda>h.
        let height' = 1 + max height h in pbind (reach (?base + height') (tok_span (cur q))) (\<lambda>_.
          chain_loop k operand operator ?base (binary l operation r) height')))))) Q q"
      unfolding pwp_simps Let_def
    proof (rule pwp_next_token [OF ok])
      fix q1
      assume q1: "ate q q1" "go q q1" "ok q1"
      let ?q2 = "q1\<lparr>pr_peak := ?base\<rparr>"
      have s2: "stays p ?q2"
        using stays_peak [OF stays_go [OF Suc(2) q1(2)]] ok_base [OF ok] stays_depth [OF Suc(2)] by simp
      have d2: "structural_depth ?q2 = ?base" "pr_depth ?q2 = pr_depth p"
        using stays_depth [OF s2] s2 by (simp_all add: stays_def)
      have "pwp operand (\<lambda>r. pwp (height_above ?base) (\<lambda>h. pwp (reach (?base + (1 + max height h)) (tok_span (cur q)))
          (\<lambda>_. pwp (chain_loop k operand operator ?base (binary l operation r) (1 + max height h)) Q))) ?q2"
      proof (rule parsesE [OF e stays_ok [OF s2]])
        fix r q3
        assume q3: "go ?q2 q3" "ok q3" "pr_cursor ?q2 < pr_cursor q3" "structural_depth ?q2 \<le> pr_peak q3"
          "fits (room ?q2 q3) r"
        let ?h = "pr_peak q3 - ?base"
        have r: "fits (?h + slack p) r" using q3(5) d2 by (simp add: room_def)
        have s3: "stays p q3" using s2 q3(1) by (rule stays_go)
        have "pwp (reach (?base + (1 + max height ?h)) (tok_span (cur q)))
          (\<lambda>_. pwp (chain_loop k operand operator ?base (binary l operation r) (1 + max height ?h)) Q) q3"
        proof (rule pwp_reach, rule Suc.IH [OF stays_max_peak [OF s3]])
          show "length (pr_tokens (q3\<lparr>pr_peak := max (pr_peak q3) (?base + (1 + max height ?h))\<rparr>))
              \<le> k + pr_cursor (q3\<lparr>pr_peak := max (pr_peak q3) (?base + (1 + max height ?h))\<rparr>)"
            using Suc(6) q1(1) q3(1,3) by (auto simp: ate_def go_def went_def)
        qed (use Suc(3,5) r q1(1) q3(3) fits_binary in \<open>auto simp: ate_def\<close>)
        then show "pwp (height_above ?base) (\<lambda>h. pwp (reach (?base + (1 + max height h)) (tok_span (cur q)))
          (\<lambda>_. pwp (chain_loop k operand operator ?base (binary l operation r) (1 + max height h)) Q)) q3"
          using q3(4) d2(1) by (simp add: pwp_height_above)
      qed (use n d2 in simp)
      then show "pwp (set_peak ?base) (\<lambda>_. pwp operand (\<lambda>r. pwp (height_above ?base)
          (\<lambda>h. pwp (reach (?base + (1 + max height h)) (tok_span (cur q)))
          (\<lambda>_. pwp (chain_loop k operand operator ?base (binary l operation r) (1 + max height h)) Q)))) q1"
        by (simp add: set_peak_def)
    qed (use Some operator in simp)
    then show ?thesis using ok Some by simp
  qed
qed

lemma parses_chain:
  assumes e: "parses n fits operand" and operator: "operator TEof = None"
  shows "parses n fits (parse_chain operand operator)"
proof (rule parsesI)
  fix p
  assume p: "ok p" "MAX_NESTING_DEPTH < n + pr_depth p"
  let ?base = "structural_depth p" and ?p = "p\<lparr>pr_peak := structural_depth p\<rparr>"
  let ?Q = "\<lambda>x p'. go p p' \<and> pr_cursor p < pr_cursor p' \<and> ?base \<le> pr_peak p' \<and> fits (room p p') x"
  let ?R = "\<lambda>x q. ?Q x (q\<lparr>pr_peak := max (pr_peak q) (pr_peak p)\<rparr>)"
  have s: "stays p ?p" using p(1) by (intro stays_peak) (simp_all add: stays_def ok_base)
  have fin: "?R x q" if "stays p q" "pr_cursor p < pr_cursor q" "?base \<le> pr_peak q" "fits (room p q) x" for x q
  proof -
    have "pr_peak p \<le> MAX_STRUCTURAL_DEPTH" using p(1) by (simp add: ok_def)
    then have "stays p (q\<lparr>pr_peak := max (pr_peak q) (pr_peak p)\<rparr>)" using that(1) by (rule stays_max_peak [rotated])
    moreover have "fits (room p (q\<lparr>pr_peak := max (pr_peak q) (pr_peak p)\<rparr>)) x"
      using that(4) by (rule fits_mono) (simp add: room_def diff_le_mono)
    ultimately show ?thesis using that(2,3) by (auto simp: go_iff_stays)
  qed
  have "pwp operand (\<lambda>l. pwp (height_above ?base) (\<lambda>height q.
      pwp (chain_loop (length (pr_tokens q)) operand operator ?base l height) ?R q)) ?p"
  proof (rule parsesE [OF e stays_ok [OF s]])
    fix l q
    assume q: "go ?p q" "ok q" "pr_cursor ?p < pr_cursor q" "structural_depth ?p \<le> pr_peak q" "fits (room ?p q) l"
    have b: "?base \<le> pr_peak q" using q(4) by (simp add: structural_depth_def)
    have "pwp (chain_loop (length (pr_tokens q)) operand operator ?base l (pr_peak q - ?base)) ?R q"
      by (rule pwp_chain_loop [where p = p and n = n and Q = ?R], rule e, rule p(2), rule operator,
          erule (3) fin, rule stays_go [OF s q(1)])
         (use q(3,5) b in \<open>auto simp: room_def structural_depth_def\<close>)
    then show "pwp (height_above ?base) (\<lambda>height q.
      pwp (chain_loop (length (pr_tokens q)) operand operator ?base l height) ?R q) q"
      using b by (simp add: pwp_height_above)
  qed (use p in simp)
  then show "pwp (parse_chain operand operator) ?Q p"
    by (simp add: parse_chain_def set_peak_def raise_peak_def)
qed

lemmas operator_defs = factor_operator_def term_operator_def comparison_operator_def
  equality_operator_def and_operator_def or_operator_def

lemma parses_logical_or: "parses n fits u \<Longrightarrow> parses n fits (logical_or u)"
  unfolding logical_or_def logical_and_def equality_def comparison_def term_chain_def factor_def
  by (intro parses_chain) (simp_all add: operator_defs)

section \<open>Lists of items\<close>

lemma pwp_with_construction:
  assumes "ok p"
    "pwp m (\<lambda>x q. go (p\<lparr>construction_allowed := b\<rparr>) q \<and>
       (go p (q\<lparr>construction_allowed := construction_allowed p\<rparr>) \<longrightarrow>
        Q x (q\<lparr>construction_allowed := construction_allowed p\<rparr>))) (p\<lparr>construction_allowed := b\<rparr>)"
  shows "pwp (with_construction b m) Q p"
proof -
  have "go p (q\<lparr>construction_allowed := construction_allowed p\<rparr>)" if "go (p\<lparr>construction_allowed := b\<rparr>) q" for q
    using that by (auto simp: go_def went_def ok_def structural_depth_def)
  then show ?thesis using assms(2) by (auto simp: with_construction_def elim!: pwp_mono)
qed

lemma pwp_items_fits:
  assumes "ok p" "C (room p p) acc"
    and step: "\<And>acc q. go p q \<Longrightarrow> ok q \<Longrightarrow> C (room p q) acc \<Longrightarrow>
      pwp (item acc) (\<lambda>acc' q'. go q q' \<and> pr_cursor q < pr_cursor q' \<and> C (room p q') acc') q"
    and fin: "\<And>acc q. go p q \<Longrightarrow> ok q \<Longrightarrow> C (room p q) acc \<Longrightarrow> Q acc q"
  shows "pwp (items close item acc) Q p"
  by (rule pwp_items [where I = "\<lambda>acc q. C (room p q) acc", OF assms(1,2) step])
     (auto intro: fin simp: ate_def room_def)

text \<open>What an expression parsed after \<open>q\<close>, inside the list that starts at \<open>p\<close>, satisfies.\<close>

lemma pwp_element:
  assumes "parses n fits e" "go p q" "MAX_NESTING_DEPTH < n + pr_depth p"
    "\<And>x q'. go q q' \<Longrightarrow> ok q' \<Longrightarrow> pr_cursor q < pr_cursor q' \<Longrightarrow> room p q \<le> room p q' \<Longrightarrow>
      fits (room p q') x \<Longrightarrow> Q x q'"
  shows "pwp e Q q"
  by (rule parsesE [OF assms(1) go_ok [OF assms(2)]])
     (use assms(2,3) in \<open>auto intro!: assms(4) room_mono simp: room_go [OF assms(2)] go_def\<close>)

lemma pwp_arguments:
  assumes "parses n fits e" "ok p" "MAX_NESTING_DEPTH < n + pr_depth p"
    "\<And>xs p'. go p p' \<Longrightarrow> ok p' \<Longrightarrow> list_all (fits (room p p')) xs \<Longrightarrow> Q xs p'"
  shows "pwp (with_construction True (arguments e)) Q p"
proof (rule pwp_with_construction [OF assms(2)])
  let ?p = "p\<lparr>construction_allowed := True\<rparr>"
  have p: "ok ?p" "MAX_NESTING_DEPTH < n + pr_depth ?p" using assms(2,3) by (simp_all add: ok_def structural_depth_def)
  show "pwp (arguments e) (\<lambda>x q. go ?p q \<and> (go p (q\<lparr>construction_allowed := construction_allowed p\<rparr>) \<longrightarrow>
        Q x (q\<lparr>construction_allowed := construction_allowed p\<rparr>))) ?p"
    unfolding arguments_def
    by (rule pwp_items_fits [where C = "\<lambda>r. list_all (fits r)", OF p(1)])
       (auto intro!: pwp_element [OF assms(1) _ p(2)] assms(4) elim: fits_all_mono dest: go_ok)
qed

section \<open>Postfix chains\<close>

text \<open>Inside a postfix chain that starts at \<open>p\<close>: links only open levels, and the tree has the measured height.\<close>

definition hops :: "parser \<Rightarrow> parser \<Rightarrow> bool" where
  "hops p q \<longleftrightarrow> went p q \<and> pr_chain_depth q = pr_chain_depth p"

definition linked :: "parser \<Rightarrow> expression \<times> nat \<Rightarrow> parser \<Rightarrow> bool" where
  "linked p xh q \<longleftrightarrow>
     hops p q \<and> pr_cursor p < pr_cursor q \<and> structural_depth p + snd xh \<le> pr_peak q \<and>
     fits (snd xh + slack p) (fst xh)"

lemma hops_ok: "hops p q \<Longrightarrow> ok q" by (simp add: hops_def went_def)

lemma hops_went: "hops p q \<Longrightarrow> went q r \<Longrightarrow> pr_chain_depth r = pr_chain_depth q \<Longrightarrow> hops p r"
  unfolding hops_def using went_trans [of p q r] by auto

lemma hops_go: "hops p q \<Longrightarrow> go q r \<Longrightarrow> hops p r"
  using hops_went [of p q r] by (simp add: go_def)

lemma hops_peak: "hops p q \<Longrightarrow> structural_depth q \<le> n \<Longrightarrow> n \<le> MAX_STRUCTURAL_DEPTH \<Longrightarrow> hops p (q\<lparr>pr_peak := n\<rparr>)"
  by (auto simp: hops_def went_def ok_def structural_depth_def)

lemma hops_max_peak: "hops p q \<Longrightarrow> n \<le> MAX_STRUCTURAL_DEPTH \<Longrightarrow> hops p (q\<lparr>pr_peak := max (pr_peak q) n\<rparr>)"
  by (rule hops_peak) (auto simp: hops_def went_def ok_def)

lemma hops_entered: "hops p q \<Longrightarrow> ok (entered q) \<Longrightarrow> went q (entered q) \<Longrightarrow> hops p (entered q)"
  by (erule hops_went) simp_all

lemma hops_depth: "hops p q \<Longrightarrow> pr_depth p \<le> pr_depth q" by (simp add: hops_def went_def)

lemma fits_link:
  assumes "fits (h + K) x" "h < h'" "\<And>E B. kind_all E B k \<longleftrightarrow> E x"
  shows "fits (h' + K) (Expression k s)"
  using assms(1,2) unfolding fits_def within_e_kind assms(3) by - (erule within_e_mono, simp)

text \<open>Opening the level of a link and recording its height.\<close>

lemma pwp_enter_reach:
  assumes "hops p q" "\<And>q'. hops p q' \<Longrightarrow> pr_cursor q' = pr_cursor q \<Longrightarrow> pr_tokens q' = pr_tokens q \<Longrightarrow> n \<le> pr_peak q' \<Longrightarrow>
      pr_peak q \<le> pr_peak q' \<Longrightarrow> Q () q'"
  shows "pwp (enter s) (\<lambda>_. pwp (reach n s') Q) q"
proof (rule pwp_enter [OF hops_ok [OF assms(1)]], rule pwp_reach)
  let ?q = "(entered q)\<lparr>pr_peak := max (pr_peak (entered q)) n\<rparr>"
  assume e: "ok (entered q)" "went q (entered q)" "n \<le> MAX_STRUCTURAL_DEPTH"
  then have "hops p ?q"
    using hops_max_peak [OF hops_entered [OF assms(1) e(1,2)] e(3)] by simp
  then show "Q () ?q" by (rule assms(2)) simp_all
qed

lemma linkedD:
  assumes "linked p (x, h) q"
  shows "hops p q" "ok q" "pr_cursor p < pr_cursor q" "fits (h + slack p) x" "structural_depth p + h \<le> pr_peak q"
  using assms by (auto simp: linked_def intro: hops_ok)

lemma pwp_field_link:
  assumes l: "linked p (x, h) q" and t: "tok_kind (cur q) = TDot"
    and fin: "\<And>xh q'. linked p xh q' \<Longrightarrow> pr_cursor q < pr_cursor q' \<Longrightarrow> pr_tokens q' = pr_tokens q \<Longrightarrow> Q xh q'"
  shows "pwp (field_link (structural_depth p) x h) Q q"
  unfolding field_link_def pwp_simps
proof (rule pwp_next_token [OF linkedD(2) [OF l]])
  fix q1
  assume q1: "ate q q1" "go q q1"
  show "pwp (enter (tok_span (cur q))) (\<lambda>_. pwp (reach (structural_depth p + (h + 1)) (tok_span (cur q)))
      (\<lambda>_. pwp parse_identifier (\<lambda>y. pwp (case y of (field, field_span) \<Rightarrow>
         pret (Expression (FieldAccess x field) (span_join (ex_span x) field_span), h + 1)) Q))) q1"
  proof (rule pwp_enter_reach [OF hops_go [OF linkedD(1) [OF l] q1(2)]], rule pwp_identifier, erule hops_ok)
    fix q2 name q3
    assume q2: "hops p q2" "pr_cursor q2 = pr_cursor q1" "pr_tokens q2 = pr_tokens q1"
      "structural_depth p + (h + 1) \<le> pr_peak q2" and q3: "ate q2 q3" "go q2 q3"
    have "linked p (Expression (FieldAccess x name) s, h + 1) q3" for s
      using hops_go [OF q2(1) q3(2)] linkedD(3,4) [OF l] q1(1) q2 q3(1) fits_link [of h "slack p" x "h + 1"]
      by (auto simp: linked_def ate_def kind_all_def)
    then show "pwp (case (name, tok_span (cur q2)) of (field, field_span) \<Rightarrow>
       pret (Expression (FieldAccess x field) (span_join (ex_span x) field_span), h + 1)) Q q3"
      using q1(1) q2 q3(1) by (auto intro!: fin simp: ate_def)
  qed
qed (use t in simp)

lemma pwp_question_link:
  assumes e: "parses n fits e" "MAX_NESTING_DEPTH < Suc n + pr_depth p" and l: "linked p (x, h) q"
    and t: "tok_kind (cur q) = TQuestion"
    and fin: "\<And>xh q'. linked p xh q' \<Longrightarrow> pr_cursor q < pr_cursor q' \<Longrightarrow> pr_tokens q' = pr_tokens q \<Longrightarrow> Q xh q'"
  shows "pwp (question_link e (structural_depth p) x h) Q q"
  unfolding question_link_def pwp_simps
proof (rule pwp_next_token [OF linkedD(2) [OF l]])
  fix q1
  assume q1: "ate q q1" "go q q1" "ok q1"
  let ?n = "structural_depth p + (h + 1)"
  let ?x = "Expression (Propagate x (tok_span (cur q))) (span_join (ex_span x) (tok_span (cur q)))"
  have "pwp (enter (tok_span (cur q))) (\<lambda>_. pwp (reach ?n (tok_span (cur q))) (\<lambda>_. Q (?x, h + 1))) q1"
  proof (rule pwp_enter_reach [OF hops_go [OF linkedD(1) [OF l] q1(2)]])
    fix q2
    assume q2: "hops p q2" "pr_cursor q2 = pr_cursor q1" "pr_tokens q2 = pr_tokens q1" "?n \<le> pr_peak q2"
    then have "linked p (?x, h + 1) q2"
      using linkedD(3,4) [OF l] q1(1) fits_link [of h "slack p" x "h + 1"] by (auto simp: linked_def ate_def kind_all_def)
    then show "Q (?x, h + 1) q2" using q1(1) q2 by (auto intro!: fin simp: ate_def)
  qed
  moreover have "MAX_NESTING_DEPTH < Suc n + pr_depth q1" "0 < pr_cursor q1"
    using e(2) hops_depth [OF linkedD(1) [OF l]] q1(1) by (simp_all add: ate_def)
  ultimately show "pwp (question_misuse e (tok_span (cur q))) (\<lambda>misuse. pwp (pguard misuse) (\<lambda>_.
      pwp (enter (tok_span (cur q))) (\<lambda>_. pwp (reach ?n (tok_span (cur q))) (\<lambda>_. Q (?x, h + 1))))) q1"
    by (auto intro!: pwp_question_misuse [OF e(1) q1(3)] harmless_guard simp del: pwp_pguard)
qed (use t in simp)

lemma fits_call:
  assumes "fits (h + K) f" "list_all (fits (h' + K')) xs" "K' \<le> K"
  shows "fits (1 + max h h' + K) (Expression (Call f xs) s)"
  using assms unfolding fits_def within_e_kind
  by (auto simp: kind_all_def list_all_iff elim!: within_e_mono simp del: within_e.simps)

lemma pwp_close_link:
  assumes "hops p q" "c \<le> MAX_STRUCTURAL_DEPTH"
    and fin: "\<And>t q'. hops p q' \<Longrightarrow> pr_cursor q < pr_cursor q' \<Longrightarrow> pr_tokens q' = pr_tokens q \<Longrightarrow> n \<le> pr_peak q' \<Longrightarrow> R t q'"
  shows "pwp (raise_peak c) (\<lambda>_. pwp (reach n s) (\<lambda>_. pwp (expect TRightParen) R)) q"
  unfolding raise_peak_def pwp_pput
proof (rule pwp_reach)
  let ?q1 = "q\<lparr>pr_peak := max (pr_peak q) c\<rparr>"
  let ?q2 = "?q1\<lparr>pr_peak := max (pr_peak ?q1) n\<rparr>"
  assume n: "n \<le> MAX_STRUCTURAL_DEPTH"
  have h: "hops p ?q2" using hops_max_peak [OF hops_max_peak [OF assms(1,2)] n] .
  show "pwp (expect TRightParen) R ?q2"
  proof (rule pwp_expect [OF hops_ok [OF h]])
    fix q3
    assume "ate ?q2 q3" "go ?q2 q3"
    then show "R (cur ?q2) q3" using hops_go [OF h] by (auto intro!: fin simp: ate_def)
  qed simp
qed

lemma pwp_call_link:
  assumes e: "parses n fits e" "MAX_NESTING_DEPTH < Suc n + pr_depth p" and l: "linked p (x, h) q"
    and t: "tok_kind (cur q) = TLeftParen"
    and fin: "\<And>xh q'. linked p xh q' \<Longrightarrow> pr_cursor q < pr_cursor q' \<Longrightarrow> pr_tokens q' = pr_tokens q \<Longrightarrow> Q xh q'"
  shows "pwp (call_link e (structural_depth p) x h) Q q"
  unfolding call_link_def pwp_simps Let_def set_peak_def pwp_pput
proof (rule pwp_next_token [OF linkedD(2) [OF l]], goal_cases)
  case q1: (1 q1)
  show ?case
  proof (rule pwp_enter [OF q1(3)], goal_cases)
    case ent: 1
    let ?d = "structural_depth (entered q1)"
    let ?q2 = "(entered q1)\<lparr>pr_peak := ?d\<rparr>"
    have h2: "hops p ?q2"
      using hops_peak [OF hops_entered [OF hops_go [OF linkedD(1) [OF l] q1(2)] ent], of ?d] ok_base [OF ent(1)] by simp
    have d2: "structural_depth ?q2 = ?d" "pr_depth ?q2 = Suc (pr_depth q1)" "pr_depth p \<le> pr_depth q1"
      using q1(2) hops_depth [OF linkedD(1) [OF l]] by (simp_all add: structural_depth_def go_def)
    show ?case
    proof (rule pwp_arguments [OF e(1) hops_ok [OF h2]], goal_cases)
      case args: (2 xs q3)
      let ?h = "pr_peak q3 - ?d"
      have fit: "list_all (fits (?h + slack ?q2)) xs" using args(3) d2 by (simp add: room_def)
      have d: "?d \<le> pr_peak q3" using args(1) by (simp add: go_def)
      show ?case
        unfolding pwp_height_above [OF d]
      proof (rule pwp_close_link [OF hops_go [OF h2 args(1)]])
        show "pr_peak (entered q1) \<le> MAX_STRUCTURAL_DEPTH" using ent(1) by (simp add: ok_def)
        fix t q4
        assume q4: "hops p q4" "pr_cursor q3 < pr_cursor q4" "pr_tokens q4 = pr_tokens q3"
          "structural_depth p + (1 + max h ?h) \<le> pr_peak q4"
        have "linked p (Expression (Call x xs) s, 1 + max h ?h) q4" for s
          using q4 linkedD(3) [OF l] fits_call [OF linkedD(4) [OF l] fit] d2 q1(1) args(1)
          by (auto simp: linked_def ate_def go_def went_def)
        then show "Q (Expression (Call x xs) (span_join (ex_span x) (tok_span t)), 1 + max h ?h) q4"
          using q4 q1(1) args(1) by (auto intro!: fin simp: ate_def go_def went_def)
      qed
    qed (use e(2) d2 in simp)
  qed
qed (use t in simp)

lemma linked_room: "linked p (x, h) q \<Longrightarrow> fits (room p q) x"
  using linkedD(4,5) [of p x h q] by (auto simp: room_def elim: fits_mono)

lemma pwp_call_loop:
  assumes e: "parses n fits e" "MAX_NESTING_DEPTH < Suc n + pr_depth p"
    and fin: "\<And>x h q. linked p (x, h) q \<Longrightarrow> Q x q"
  shows "linked p xh q \<Longrightarrow> length (pr_tokens q) \<le> k + pr_cursor q \<Longrightarrow>
    pwp (call_loop k e (structural_depth p) xh) Q q"
proof (induction k arbitrary: xh q)
  case 0
  then show ?case using linkedD(2) [of p "fst xh" "snd xh" q] by (simp add: ok_def)
next
  case (Suc k)
  obtain x h where xh: "xh = (x, h)" by (cases xh)
  note l = Suc(2) [unfolded xh]
  have loop: "pwp (call_loop k e (structural_depth p) xh') Q q'"
    if "linked p xh' q'" "pr_cursor q < pr_cursor q'" "pr_tokens q' = pr_tokens q" for xh' q'
    using that Suc(1) [of xh' q'] Suc(3) by simp
  have c: "ok q" "0 < pr_cursor q" using linkedD(2,3) [OF l] by simp_all
  consider "tok_kind (cur q) = TLeftParen" | "tok_kind (cur q) = TDot" | "tok_kind (cur q) = TQuestion"
    | "tok_kind (cur q) \<noteq> TLeftParen" "tok_kind (cur q) \<noteq> TDot" "tok_kind (cur q) \<noteq> TQuestion" by blast
  then show ?case
  proof cases
    case 1
    then show ?thesis using c by (auto simp: xh intro!: pwp_call_link [OF e l] loop)
  next
    case 2
    then show ?thesis using c by (auto simp: xh intro!: pwp_field_link [OF l] loop)
  next
    case 3
    then show ?thesis using c by (auto simp: xh intro!: pwp_question_link [OF e l] loop)
  next
    case 4
    then show ?thesis using c fin [OF l] by (simp add: xh)
  qed
qed

lemma parses_call:
  assumes prim: "parses (Suc n) fits prim" and e: "parses n fits e"
  shows "parses (Suc n) fits (parse_call prim e)"
proof (rule parsesI)
  fix p
  assume p: "ok p" "MAX_NESTING_DEPTH < Suc n + pr_depth p"
  let ?base = "structural_depth p" and ?p = "p\<lparr>pr_peak := structural_depth p\<rparr>"
  let ?Q = "\<lambda>x p'. go p p' \<and> pr_cursor p < pr_cursor p' \<and> ?base \<le> pr_peak p' \<and> fits (room p p') x"
  let ?fin = "\<lambda>q. q\<lparr>pr_depth := pr_depth p, pr_peak := max (pr_peak q) (pr_peak p)\<rparr>"
  have s: "stays p ?p" using p(1) by (intro stays_peak) (simp_all add: stays_def ok_base)
  have fin: "?Q x (?fin q)" if l: "linked p (x, h) q" for x h q
  proof -
    have "fits (room p (?fin q)) x"
      using linked_room [OF l] by (rule fits_mono) (simp add: room_def diff_le_mono)
    then show ?thesis
      using l p(1) linkedD(5) [OF l] by (auto simp: linked_def hops_def go_def went_def ok_def structural_depth_def)
  qed
  have "pwp prim (\<lambda>x. pwp (height_above ?base) (\<lambda>height q.
      pwp (call_loop (length (pr_tokens q)) e ?base (x, height)) (\<lambda>x q'. ?Q x (q'\<lparr>pr_depth := pr_depth q,
        pr_peak := max (pr_peak q') (pr_peak p)\<rparr>)) q)) ?p"
  proof (rule parsesE [OF prim stays_ok [OF s]])
    fix x q
    assume q: "go ?p q" "ok q" "pr_cursor ?p < pr_cursor q" "structural_depth ?p \<le> pr_peak q" "fits (room ?p q) x"
    have b: "?base \<le> pr_peak q" using q(4) by (simp add: structural_depth_def)
    have d: "pr_depth q = pr_depth p" using q(1) by (simp add: go_def)
    have "linked p (x, pr_peak q - ?base) q"
      using stays_go [OF s q(1)] q(3,5) b by (simp add: linked_def hops_def stays_def room_def structural_depth_def)
    then have "pwp (call_loop (length (pr_tokens q)) e ?base (x, pr_peak q - ?base)) (\<lambda>x q'. ?Q x (?fin q')) q"
    proof (rule pwp_call_loop [where p = p and n = n, OF e p(2), rotated])
      fix x h q
      assume "linked p (x, h) q"
      then show "?Q x (?fin q)" by (rule fin)
    qed simp
    then show "pwp (height_above ?base) (\<lambda>height q.
      pwp (call_loop (length (pr_tokens q)) e ?base (x, height)) (\<lambda>x q'. ?Q x (q'\<lparr>pr_depth := pr_depth q,
        pr_peak := max (pr_peak q') (pr_peak p)\<rparr>)) q) q"
      using b by (simp add: pwp_height_above d)
  qed (use p in simp)
  then show "pwp (parse_call prim e) ?Q p"
    by (simp add: parse_call_def set_peak_def raise_peak_def)
qed

end
