(* ===== verification/Parser_Trees.thy ===== *)
theory Parser_Trees
  imports Parser_Safety
begin

text \<open>
  Every handler of the grammar, by the rules of \<open>Parser_Safety\<close>: on any state the parser reaches it neither
  panics nor runs out of fuel, and the tree it builds fits the room that its levels leave.
\<close>

section \<open>Handlers that have consumed a token\<close>

definition yields :: "nat \<Rightarrow> (nat \<Rightarrow> 'a \<Rightarrow> bool) \<Rightarrow> 'a parsing \<Rightarrow> bool" where
  "yields n W m \<longleftrightarrow>
     (\<forall>p. ok p \<longrightarrow> MAX_NESTING_DEPTH < n + pr_depth p \<longrightarrow> 0 < pr_cursor p \<longrightarrow>
        pwp m (\<lambda>x p'. go p p' \<and> W (room p p') x) p)"

lemma yieldsI:
  "(\<And>p. ok p \<Longrightarrow> MAX_NESTING_DEPTH < n + pr_depth p \<Longrightarrow> 0 < pr_cursor p \<Longrightarrow>
     pwp m (\<lambda>x p'. go p p' \<and> W (room p p') x) p) \<Longrightarrow> yields n W m"
  by (simp add: yields_def)

lemma yieldsE:
  assumes "yields n W m" "ok p" "MAX_NESTING_DEPTH < n + pr_depth p" "0 < pr_cursor p"
    "\<And>x p'. go p p' \<Longrightarrow> ok p' \<Longrightarrow> W (room p p') x \<Longrightarrow> Q x p'"
  shows "pwp m Q p"
  using assms(1-4) unfolding yields_def by (blast intro: pwp_mono assms(5) go_ok)

lemma parses_yields: "parses n W m \<Longrightarrow> yields n W m"
  unfolding parses_def yields_def by (blast intro: pwp_mono)

lemma pwp_after:
  assumes "yields n W m" "go p q" "0 < pr_cursor q" "MAX_NESTING_DEPTH < n + pr_depth p"
    "\<And>x p'. go p p' \<Longrightarrow> ok p' \<Longrightarrow> pr_cursor q \<le> pr_cursor p' \<Longrightarrow> W (room p p') x \<Longrightarrow> Q x p'"
  shows "pwp m Q q"
proof (rule yieldsE [OF assms(1) go_ok [OF assms(2)]])
  show "MAX_NESTING_DEPTH < n + pr_depth q" using assms(2,4) by (simp add: go_def)
  fix x p'
  assume a: "go q p'" "ok p'" "W (room q p') x"
  have "pr_cursor q \<le> pr_cursor p'" using a(1) by (simp add: go_def went_def)
  then show "Q x p'" using go_trans [OF assms(2) a(1)] a(2,3) room_go [OF assms(2)] by (intro assms(5)) simp_all
qed (rule assms(3))

lemma room_entered:
  assumes "ok (entered p)" "go (entered p) q"
  shows "room p (q\<lparr>pr_depth := pr_depth p\<rparr>) = room (entered p) q + 3"
proof -
  have "Suc (pr_depth p) \<le> MAX_NESTING_DEPTH" using assms(1) by (simp add: ok_def)
  moreover have "Suc (structural_depth p) \<le> pr_peak q" using assms(2) by (simp add: go_def)
  ultimately show ?thesis by (simp add: room_def)
qed

lemma pwp_nested_yields:
  assumes "yields n W m" "ok p" "MAX_NESTING_DEPTH < Suc n + pr_depth p" "0 < pr_cursor p"
    "\<And>x p' r. go p p' \<Longrightarrow> ok p' \<Longrightarrow> room p p' = r + 3 \<Longrightarrow> W r x \<Longrightarrow> Q x p'"
  shows "pwp (nested s m) Q p"
  using assms(3,4)
  by (intro pwp_nested [OF assms(2)] yieldsE [OF assms(1)]) (auto intro!: assms(5) room_entered go_ok)

lemma yields_construction:
  assumes "yields n W m"
  shows "yields n W (with_construction b m)"
proof (rule yieldsI, rule pwp_with_construction)
  fix p
  assume "ok p" "MAX_NESTING_DEPTH < n + pr_depth p" "0 < pr_cursor p"
  then show "pwp m (\<lambda>x q. go (p\<lparr>construction_allowed := b\<rparr>) q \<and>
       (go p (q\<lparr>construction_allowed := construction_allowed p\<rparr>) \<longrightarrow>
        go p (q\<lparr>construction_allowed := construction_allowed p\<rparr>) \<and>
        W (room p (q\<lparr>construction_allowed := construction_allowed p\<rparr>)) x)) (p\<lparr>construction_allowed := b\<rparr>)"
    by (intro yieldsE [OF assms]) (auto simp: ok_def structural_depth_def)
qed

text \<open>A nested group whose contents build one node above their parts.\<close>

abbreviation node :: "nat \<Rightarrow> expression \<Rightarrow> bool" where
  "node r x \<equiv> fits (Suc r) x"

lemma yields_group:
  assumes "yields n node m"
  shows "yields (Suc n) fits (nested s (with_construction b m))"
  by (rule yieldsI, rule pwp_nested_yields [OF yields_construction [OF assms]])
     (auto elim: fits_mono)

lemma yields_paren:
  assumes "yields n fits m"
  shows "yields (Suc n) fits (nested s (with_construction b m))"
  by (rule yieldsI, rule pwp_nested_yields [OF yields_construction [OF assms]])
     (auto elim: fits_mono)

section \<open>Interpolated strings\<close>

lemma pwp_hole_fields:
  assumes fin: "\<And>x h q. hops p q \<Longrightarrow> pr_cursor q = pr_cursor p \<Longrightarrow> structural_depth p + h \<le> pr_peak q \<Longrightarrow>
      pr_peak p \<le> pr_peak q \<Longrightarrow> fits (h + slack p) x \<Longrightarrow> Q x q"
  shows "hops p q \<Longrightarrow> pr_cursor q = pr_cursor p \<Longrightarrow> structural_depth p + h \<le> pr_peak q \<Longrightarrow> pr_peak p \<le> pr_peak q \<Longrightarrow>
    fits (h + slack p) x \<Longrightarrow> pwp (hole_fields (structural_depth p) h x path) Q q"
proof (induction path arbitrary: h x q)
  case Nil
  then show ?case by (simp add: fin)
next
  case (Cons fs path)
  obtain field s where fs: "fs = (field, s)" by (cases fs)
  show ?case
    unfolding fs hole_fields.simps Let_def pwp_simps
  proof (rule pwp_enter_reach [OF Cons(2)])
    fix q'
    assume q': "hops p q'" "pr_cursor q' = pr_cursor q" "structural_depth p + h + 1 \<le> pr_peak q'" "pr_peak q \<le> pr_peak q'"
    show "pwp (hole_fields (structural_depth p) (h + 1) (Expression (FieldAccess x field) (span_join (ex_span x) s)) path) Q q'"
      using q' Cons(3,5,6) fits_node [of "h + slack p" "FieldAccess x field" "h + 1 + slack p"]
      by (intro Cons.IH) (auto simp: kind_all_def)
  qed
qed

lemma fits_variable [simp]: "fits r (Expression (Variable name) s)"
  by (simp add: fits_def kind_all_def)

lemma pwp_hole_value:
  assumes "ok p" "\<And>x p'. go p p' \<Longrightarrow> fits (room p p') x \<Longrightarrow> Q x p'"
  shows "pwp (hole_value path hole) Q p"
proof (cases path)
  case Nil
  then show ?thesis by (simp add: hole_value_def)
next
  case (Cons fs segments)
  obtain name s where fs: "fs = (name, s)" by (cases fs)
  have "pwp (hole_fields (structural_depth p) 0 (Expression (Variable name) s) segments)
      (\<lambda>x q. Q x (q\<lparr>pr_depth := pr_depth p\<rparr>)) p"
  proof (rule pwp_hole_fields [where p = p])
    fix x h q
    assume q: "hops p q" "structural_depth p + h \<le> pr_peak q" "pr_peak p \<le> pr_peak q" "fits (h + slack p) x"
    have "go p (q\<lparr>pr_depth := pr_depth p\<rparr>)"
      using q(1,3) assms(1) by (auto simp: hops_def go_def went_def ok_def structural_depth_def)
    moreover have "fits (room p (q\<lparr>pr_depth := pr_depth p\<rparr>)) x"
      using q(4) by (rule fits_mono) (use q(2) in \<open>simp add: room_def\<close>)
    ultimately show "Q x (q\<lparr>pr_depth := pr_depth p\<rparr>)" by (rule assms(2))
  qed (use assms(1) in \<open>simp_all add: hops_def ok_def\<close>)
  then show ?thesis by (simp add: hole_value_def Cons fs)
qed

lemma part_fits_mono: "list_all (part_all (fits r)) ps \<Longrightarrow> r \<le> r' \<Longrightarrow> list_all (part_all (fits r')) ps"
  by (auto simp: list_all_iff elim!: part_all_mono fits_mono)

lemma pwp_string_parts:
  assumes "ok p" "\<And>x p'. go p p' \<Longrightarrow> list_all (part_all (fits (room p p'))) x \<Longrightarrow> Q x p'"
  shows "pwp (string_parts parts) Q p"
  using assms
proof (induction parts arbitrary: p Q rule: string_parts.induct)
  case (3 path s parts)
  show ?case
    unfolding string_parts.simps pwp_simps
  proof (rule pwp_hole_value [OF 3(2)], rule 3(1))
    fix x p1 xs p2
    assume a: "go p p1" "fits (room p p1) x" "go p1 p2" "list_all (part_all (fits (room p1 p2))) xs"
    have "fits (room p p2) x" using a(2) room_mono [OF a(3)] by (rule fits_mono)
    then show "Q (Hole x s # xs) p2"
      using a(4) go_trans [OF a(1,3)] by (intro 3(3)) (simp_all add: room_go [OF a(1)])
  qed (rule go_ok)
qed auto

lemma yields_interpolation: "yields (Suc n) fits (parse_interpolation t s)"
proof (rule yieldsI)
  fix p
  assume p: "ok p" "MAX_NESTING_DEPTH < Suc n + pr_depth p" "0 < pr_cursor p"
  have "yields n (\<lambda>r. list_all (part_all (fits r))) (string_parts (tpl_parts t))"
    by (rule yieldsI) (auto intro: pwp_string_parts)
  then show "pwp (parse_interpolation t s) (\<lambda>x p'. go p p' \<and> fits (room p p') x) p"
    unfolding parse_interpolation_def pwp_simps
    by (rule pwp_nested_yields [OF _ p])
       (auto intro: fits_node simp: kind_all_def)
qed

section \<open>Groups\<close>

lemma ate_positive: "ate p p' \<Longrightarrow> 0 < pr_cursor p'" by (simp add: ate_def)

lemma pwp_or_arrow: "pwp m Q p \<Longrightarrow> pwp (or_arrow i m) Q p"
  using harmless_arrow [of p i]
  by (auto simp: pwp_def or_arrow_def harmless_def split: sum.splits stop.splits option.splits)

lemma pwp_not_arrow: "ok p \<Longrightarrow> Q x p \<Longrightarrow> pwp (not_arrow s x) Q p"
  by (simp add: not_arrow_def)

lemma pwp_close_group:
  assumes "ok q" "\<And>q' s'. go q q' \<Longrightarrow> Q (Expression (ex_kind x) s') q'"
  shows "pwp (close_group i s x) Q q"
  using assms harmless_arrow [of q i] unfolding close_group_def
  by (auto intro!: pwp_next_token pwp_not_arrow split: option.split simp: harmless_def)

lemma fits_respan: "fits r x \<Longrightarrow> fits r (Expression (ex_kind x) s)"
  by (simp add: fits_def)

lemma yields_parenthesized:
  assumes e: "parses n fits e"
  shows "yields (Suc n) fits (parenthesized e s)"
proof (rule yieldsI)
  fix p
  assume p: "ok p" "MAX_NESTING_DEPTH < Suc n + pr_depth p" "0 < pr_cursor p"
  let ?Q = "\<lambda>x p'. go p p' \<and> fits (room p p') x"
  have "pwp (or_arrow i (nested s (with_construction True e))) (\<lambda>x. pwp (close_group i s x) ?Q) p" for i
    by (rule pwp_or_arrow, rule yieldsE [OF yields_paren [OF parses_yields [OF e]] p], rule pwp_close_group)
       (auto intro: go_trans fits_respan fits_mono [OF _ room_mono])
  moreover have "pwp next_token (\<lambda>close. pwp (not_arrow s (Expression UnitExpr (span_join s (tok_span close)))) ?Q) p"
    using p(1) by (auto intro!: pwp_next_token pwp_not_arrow simp: fits_def kind_all_def)
  ultimately show "pwp (parenthesized e s) ?Q p"
    using p(1,3) by (simp add: parenthesized_def)
qed

text \<open>Lists whose items are checked by \<open>C\<close>, closed by a token.\<close>

lemma yields_items:
  assumes "\<And>r. C r acc" "close \<noteq> TEof"
    and step: "\<And>acc p q. go p q \<Longrightarrow> ok q \<Longrightarrow> MAX_NESTING_DEPTH < n + pr_depth p \<Longrightarrow> C (room p q) acc \<Longrightarrow>
      pwp (item acc) (\<lambda>acc' q'. go q q' \<and> pr_cursor q < pr_cursor q' \<and> C (room p q') acc') q"
    and node: "\<And>acc t r. C r acc \<Longrightarrow> node r (f acc t)"
  shows "yields n node (pbind (items close item acc) (\<lambda>xs. pbind (expect close) (\<lambda>t. pret (f xs t))))"
proof (rule yieldsI)
  fix p
  assume p: "ok p" "MAX_NESTING_DEPTH < n + pr_depth p" "0 < pr_cursor p"
  show "pwp (pbind (items close item acc) (\<lambda>xs. pbind (expect close) (\<lambda>t. pret (f xs t))))
      (\<lambda>x p'. go p p' \<and> node (room p p') x) p"
    unfolding pwp_simps
  proof (rule pwp_items_fits [where C = C, OF p(1) assms(1)])
    fix acc q
    assume q: "go p q" "ok q" "C (room p q) acc"
    show "pwp (item acc) (\<lambda>acc' q'. go q q' \<and> pr_cursor q < pr_cursor q' \<and> C (room p q') acc') q"
      using q p(2) by (rule_tac step)
    show "pwp (expect close) (\<lambda>t p'. go p p' \<and> node (room p p') (f acc t)) q"
      using q(1,2) node [OF q(3)] assms(2)
      by (auto intro!: pwp_expect elim: go_trans) (simp add: ate_def room_def)
  qed
qed

definition element_fits :: "nat \<Rightarrow> expression list \<times> expression list_entry list \<Rightarrow> bool" where
  "element_fits r acc \<longleftrightarrow>
     list_all (fits r) (fst acc) \<and> list_all (\<lambda>e. fits r (le_key e) \<and> fits r (le_value e)) (snd acc)"

lemma element_fits_Nil [simp]: "element_fits r ([], [])" by (simp add: element_fits_def)

lemma element_fits_mono: "element_fits r acc \<Longrightarrow> r \<le> r' \<Longrightarrow> element_fits r' acc"
  by (auto simp: element_fits_def list_all_iff elim: fits_mono)

lemma pwp_list_element:
  assumes "parses n fits e" "go p q" "MAX_NESTING_DEPTH < n + pr_depth p" "element_fits (room p q) acc"
  shows "pwp (list_element e acc) (\<lambda>acc' q'. go q q' \<and> pr_cursor q < pr_cursor q' \<and> element_fits (room p q') acc') q"
proof -
  obtain elements entries where acc: "acc = (elements, entries)" by (cases acc)
  show ?thesis
    unfolding acc list_element_def prod.case pwp_simps
  proof (rule pwp_element [OF assms(1-3)])
    fix x q1
    assume q1: "go q q1" "ok q1" "pr_cursor q < pr_cursor q1" "room p q \<le> room p q1" "fits (room p q1) x"
    have a: "element_fits (room p q1) acc" using assms(4) q1(4) by (rule element_fits_mono)
    have "pwp next_token (\<lambda>_. pwp e (\<lambda>v q'. go q q' \<and> pr_cursor q < pr_cursor q' \<and>
        element_fits (room p q') (elements, entries @ [ListEntry x v s]))) q1" if "tok_kind (cur q1) = TColon" for s
      using q1(2) that
    proof (rule_tac pwp_next_token; simp)
      fix q2
      assume q2: "ate q1 q2" "go q1 q2" "ok q2"
      show "pwp e (\<lambda>v q'. go q q' \<and> pr_cursor q < pr_cursor q' \<and>
        element_fits (room p q') (elements, entries @ [ListEntry x v s])) q2"
      proof (rule pwp_element [OF assms(1) go_trans [OF go_trans [OF assms(2) q1(1)] q2(2)] assms(3)])
        fix v q3
        assume q3: "go q2 q3" "pr_cursor q2 < pr_cursor q3" "room p q2 \<le> room p q3" "fits (room p q3) v"
        have "room p q1 \<le> room p q3" using room_mono [OF q2(2), of p] q3(3) by simp
        then show "go q q3 \<and> pr_cursor q < pr_cursor q3 \<and> element_fits (room p q3) (elements, entries @ [ListEntry x v s])"
          using go_trans [OF go_trans [OF q1(1) q2(2)] q3(1)] q1(3,5) q2(1) q3 element_fits_mono [OF a]
          by (auto simp: acc element_fits_def ate_def elim: fits_mono)
      qed
    qed
    then show "pwp current (\<lambda>t. pwp (if tok_kind t = TColon then
        if elements \<noteq> [] then pfail (mixed_list (span_join (ex_span x) (tok_span t)))
        else pbind next_token (\<lambda>_. pbind e (\<lambda>v.
          pret (elements, entries @ [ListEntry x v (span_join (ex_span x) (ex_span v))])))
      else if entries \<noteq> [] then pfail (mixed_list (ex_span x)) else pret (elements @ [x], entries))
      (\<lambda>acc' q'. go q q' \<and> pr_cursor q < pr_cursor q' \<and> element_fits (room p q') acc')) q1"
      using q1 a by (auto simp: acc element_fits_def)
  qed
qed

lemma yields_list:
  assumes e: "parses n fits e"
  shows "yields (Suc n) fits (list_literal e s)"
  unfolding list_literal_def
proof (rule yields_group)
  let ?f = "\<lambda>acc close. case acc of (elements, entries) \<Rightarrow>
    Expression (if entries = [] then ListExpr elements else EntryList entries) (span_join s (tok_span close))"
  have "yields n node (pbind (items TRightBracket (list_element e) ([], [])) (\<lambda>xs. pbind (expect TRightBracket) (\<lambda>t. pret (?f xs t))))"
  proof (rule yields_items [where C = element_fits])
    show "node r (?f acc t)" if "element_fits r acc" for acc t r
      using that by (auto intro!: fits_node [of r] simp: kind_all_def element_fits_def split: prod.split)
  qed (auto intro: pwp_list_element [OF e])
  then show "yields n node (list_elements e s)"
    unfolding list_elements_def yields_def by (auto simp: case_prod_beta split: option.split)
qed

definition record_fits :: "nat \<Rightarrow> expression record_field list \<Rightarrow> bool" where
  "record_fits r = list_all (\<lambda>f. fits r (rf_value f))"

definition construct_fits :: "nat \<Rightarrow> expression construct_field list \<Rightarrow> bool" where
  "construct_fits r = list_all (\<lambda>f. fits r (cf_value f))"

lemma fields_fit_Nil [simp]: "record_fits r []" "construct_fits r []"
  by (simp_all add: record_fits_def construct_fits_def)

lemma record_fits_mono: "record_fits r fs \<Longrightarrow> r \<le> r' \<Longrightarrow> record_fits r' fs"
  by (auto simp: record_fits_def list_all_iff elim: fits_mono)

lemma construct_fits_mono: "construct_fits r fs \<Longrightarrow> r \<le> r' \<Longrightarrow> construct_fits r' fs"
  by (auto simp: construct_fits_def list_all_iff elim: fits_mono)

text \<open>An expression after tokens of the same item have been consumed.\<close>

lemma pwp_value:
  assumes "parses n fits e" "go p q" "MAX_NESTING_DEPTH < n + pr_depth p" "go q q1" "pr_cursor q < pr_cursor q1"
    "\<And>x q'. go q q' \<Longrightarrow> pr_cursor q < pr_cursor q' \<Longrightarrow> room p q \<le> room p q' \<Longrightarrow> fits (room p q') x \<Longrightarrow> Q x q'"
  shows "pwp e Q q1"
proof (rule pwp_element [OF assms(1) go_trans [OF assms(2,4)] assms(3)])
  fix x q'
  assume "go q1 q'" "pr_cursor q1 < pr_cursor q'" "fits (room p q') x"
  then show "Q x q'"
    using go_trans [OF assms(4)] assms(5) room_mono [of q q' p] by (auto intro!: assms(6))
qed

lemma pwp_record_field:
  assumes "parses n fits e" "go p q" "MAX_NESTING_DEPTH < n + pr_depth p" "record_fits (room p q) fs"
  shows "pwp (parse_record_field e fs) (\<lambda>fs' q'. go q q' \<and> pr_cursor q < pr_cursor q' \<and> record_fits (room p q') fs') q"
  unfolding parse_record_field_def pwp_simps
proof (rule pwp_identifier [OF go_ok [OF assms(2)]], simp, intro impI, rule pwp_expect)
  fix name q1 q2
  assume q: "ate q q1" "go q q1" "ate q1 q2" "go q1 q2"
  show "pwp e (\<lambda>v q'. go q q' \<and> pr_cursor q < pr_cursor q' \<and>
      record_fits (room p q') (fs @ [RecordField name v (span_join (tok_span (cur q)) (ex_span v))])) q2"
    by (rule pwp_value [OF assms(1-3) go_trans [OF q(2,4)]])
       (use q(1,3) assms(4) in \<open>auto simp: ate_def record_fits_def elim!: record_fits_mono [unfolded record_fits_def]\<close>)
qed simp_all

lemma yields_record:
  assumes e: "parses n fits e"
  shows "yields (Suc n) fits (record_literal e s)"
  unfolding record_literal_def
proof (rule yields_group, rule yieldsI)
  fix p
  assume p: "ok p" "MAX_NESTING_DEPTH < n + pr_depth p" "0 < pr_cursor p"
  let ?f = "\<lambda>fs close. Expression (RecordExpr fs) (span_join s (tok_span close))"
  have y: "yields n node (pbind (items TRightBrace (parse_record_field e) []) (\<lambda>xs. pbind (expect TRightBrace) (\<lambda>t. pret (?f xs t))))"
  proof (rule yields_items [where C = record_fits])
    show "node r (?f fs t)" if "record_fits r fs" for fs t r
      using that by (auto intro!: fits_node [of r] simp: kind_all_def record_fits_def)
  qed (auto intro: pwp_record_field [OF e])
  show "pwp (record_fields e s) (\<lambda>x p'. go p p' \<and> node (room p p') x) p"
    unfolding record_fields_def pwp_simps(3) [of "expect TLeftBrace"]
  proof (rule pwp_expect [OF p(1)])
    fix p1
    assume p1: "ate p p1" "go p p1" "ok p1"
    show "pwp (pbind (items TRightBrace (parse_record_field e) []) (\<lambda>xs. pbind (expect TRightBrace) (\<lambda>t. pret (?f xs t))))
        (\<lambda>x p'. go p p' \<and> node (room p p') x) p1"
      by (rule pwp_after [OF y p1(2) ate_positive [OF p1(1)] p(2)]) simp
  qed simp
qed

lemma pwp_construct_field:
  assumes "parses n fits e" "go p q" "MAX_NESTING_DEPTH < n + pr_depth p" "construct_fits (room p q) fs"
  shows "pwp (parse_construct_field e fs) (\<lambda>fs' q'. go q q' \<and> pr_cursor q < pr_cursor q' \<and> construct_fits (room p q') fs') q"
  unfolding parse_construct_field_def pwp_simps
proof (rule pwp_identifier [OF go_ok [OF assms(2)]], simp, rule pwp_consume_kind)
  fix name q1
  assume q1: "ate q q1" "go q q1" "ok q1"
  show "ok q1" by (rule q1(3))
  let ?R = "\<lambda>v q'. go q q' \<and> pr_cursor q < pr_cursor q' \<and>
      construct_fits (room p q') (fs @ [ConstructField name (tok_span (cur q)) v (span_join (tok_span (cur q)) (ex_span v))])"
  have fs: "construct_fits (room p q1) fs" using assms(4) room_mono [OF q1(2)] by (rule construct_fits_mono)
  show "pwp (if False then e else pbind current (\<lambda>t. if tok_kind t = TComma \<or> tok_kind t = TRightBrace
      then pret (Expression (Variable name) (tok_span (cur q)))
      else expected (backquoted '':'' @ '', '' @ backquoted '','' @ '', or '' @ backquoted ''}''))) ?R q1"
    using q1 fs by (auto simp: ate_def construct_fits_def)
  fix q2
  assume q2: "ate q1 q2" "go q1 q2"
  show "pwp (if True then e else pbind current (\<lambda>t. if tok_kind t = TComma \<or> tok_kind t = TRightBrace
      then pret (Expression (Variable name) (tok_span (cur q)))
      else expected (backquoted '':'' @ '', '' @ backquoted '','' @ '', or '' @ backquoted ''}''))) ?R q2"
    unfolding if_True
    by (rule pwp_value [OF assms(1-3) go_trans [OF q1(2) q2(2)]])
       (use q1(1) q2(1) assms(4) in \<open>auto simp: ate_def construct_fits_def elim!: construct_fits_mono [unfolded construct_fits_def]\<close>)
qed simp

lemma yields_construction_literal:
  assumes e: "parses n fits e"
  shows "yields (Suc n) fits (parse_construction e c s)"
proof (rule yieldsI)
  fix p
  assume p: "ok p" "MAX_NESTING_DEPTH < Suc n + pr_depth p" "0 < pr_cursor p"
  let ?f = "\<lambda>fs close. Expression (Construct c s fs) (span_join s (tok_span close))"
  have "yields n node (construction_fields e c s)"
    unfolding construction_fields_def
  proof (rule yields_items [where C = construct_fits])
    show "node r (?f fs t)" if "construct_fits r fs" for fs t r
      using that by (auto intro!: fits_node [of r] simp: kind_all_def construct_fits_def)
  qed (auto intro: pwp_construct_field [OF e])
  then have y: "yields (Suc n) fits (nested s (with_construction True (construction_fields e c s)))"
    by (rule yields_group)
  show "pwp (parse_construction e c s) (\<lambda>x p'. go p p' \<and> fits (room p p') x) p"
    unfolding parse_construction_def pwp_simps
  proof (rule pwp_expect [OF p(1)])
    fix p1
    assume p1: "ate p p1" "go p p1" "ok p1"
    show "pwp (nested s (with_construction True (construction_fields e c s))) (\<lambda>x p'. go p p' \<and> fits (room p p') x) p1"
      by (rule pwp_after [OF y p1(2) ate_positive [OF p1(1)] p(2)]) simp
  qed simp
qed

section \<open>Conditionals, functions and matches\<close>

lemma fits_block_kind: "fits_block r b \<Longrightarrow> r \<le> r' \<Longrightarrow> within_b (r' - 1) b"
  by (auto simp: fits_block_def elim: within_b_mono)

lemma fits_if:
  assumes "fits r c" "r + 3 \<le> R" "fits_block r1 b" "r1 \<le> R" "fits r2 a" "Suc r2 \<le> R"
  shows "fits R (if_link (s, c, b) a)"
proof -
  have "within_b R b" using assms(3,4) by (auto simp: fits_block_def elim: within_b_mono)
  moreover have "within_e R c" "within_e R a"
    using assms(1,2,5,6) by (auto simp: fits_def elim: within_e_mono simp del: within_e.simps)
  ultimately show ?thesis by (simp add: if_link_def fits_def kind_all_def)
qed

lemma fits_block_expression: "fits_block r b \<Longrightarrow> r \<le> R \<Longrightarrow> \<exists>r2. Suc r2 = R \<and> fits r2 (Expression (BlockExpr b) s)"
  by (auto simp: fits_block_def fits_def kind_all_def intro!: exI [of _ "R - 1"] elim: within_b_mono)

text \<open>The frame of an \<open>else if\<close> chain: continuations are only counted in the structural depth.\<close>

definition chains :: "parser \<Rightarrow> parser \<Rightarrow> bool" where
  "chains p q \<longleftrightarrow> went p q \<and> pr_depth q = pr_depth p \<and> pr_peak p \<le> pr_peak q"

lemma chains_trans: "chains p q \<Longrightarrow> chains q r \<Longrightarrow> chains p r"
  unfolding chains_def using went_trans [of p q r] by auto

lemma go_chains: "go p q \<Longrightarrow> chains p q" by (simp add: go_def chains_def)

lemma chains_ok: "chains p q \<Longrightarrow> ok q" by (simp add: chains_def went_def)

lemma chains_room: "chains q r \<Longrightarrow> room p q \<le> room p r" by (simp add: chains_def room_def diff_le_mono)

lemma pwp_enter_chain_link:
  assumes "ok p" "\<And>q. chains p q \<Longrightarrow> pr_chain_depth q = Suc (pr_chain_depth p) \<Longrightarrow> pr_cursor q = pr_cursor p \<Longrightarrow> Q () q"
  shows "pwp (enter_chain_link s) Q p"
  unfolding enter_chain_link_def pwp_simps pwp_pput
proof (rule pwp_reach)
  let ?q = "p\<lparr>pr_chain_depth := pr_chain_depth p + 1\<rparr>"
  assume "structural_depth ?q \<le> MAX_STRUCTURAL_DEPTH"
  then show "Q () (?q\<lparr>pr_peak := max (pr_peak ?q) (structural_depth ?q)\<rparr>)"
    using assms(1) by (intro assms(2)) (simp_all add: chains_def went_def ok_def structural_depth_def)
qed

lemma chains_deeper:
  assumes "chains q q1" "pr_chain_depth q1 = Suc (pr_chain_depth q)" "chains q1 r"
  shows "Suc (room q1 r) = room q r"
proof -
  have "Suc (structural_depth q) \<le> pr_peak r"
    using assms by (auto simp: chains_def went_def ok_def structural_depth_def)
  then show ?thesis using assms by (simp add: room_def chains_def structural_depth_def)
qed

lemma pwp_if_loop:
  assumes e: "parses n fits e" and blk: "parses (Suc n) fits_block blk"
  shows "ok q \<Longrightarrow> MAX_NESTING_DEPTH < Suc n + pr_depth q \<Longrightarrow> 0 < pr_cursor q \<Longrightarrow> length (pr_tokens q) \<le> k + pr_cursor q \<Longrightarrow>
    (\<And>new a q'. chains q q' \<Longrightarrow> fits (room q q') (foldr if_link new a) \<Longrightarrow> Q (links @ new, a) q') \<Longrightarrow>
    pwp (if_loop k e blk s links) Q q"
proof (induction k arbitrary: q s links)
  case 0
  then show ?case by (simp add: ok_def)
next
  case (Suc k)
  show ?case
    unfolding if_loop.simps pwp_simps Let_def
  proof (rule pwp_nested_yields [OF yields_construction [OF parses_yields [OF e]] Suc(2-4)], goal_cases)
    case c: (1 c q1 r)
    have d1: "MAX_NESTING_DEPTH < Suc n + pr_depth q1" using Suc(3) c(1) by (simp add: go_def)
    show ?case
    proof (rule parsesE [OF blk c(2) d1], rule pwp_expect, assumption, simp, goal_cases)
      case b: (1 b q2 q3)
      have g3: "go q q3" using go_trans [OF go_trans [OF c(1) b(1)] b(7)] .
      have bt: "fits_block (room q q2) b" using b(5) by (simp add: room_go [OF c(1)])
      have r3: "room q q1 \<le> room q q3" "room q q2 \<le> room q q3"
        using room_mono [OF go_trans [OF b(1,7)]] room_mono [OF b(7)] by simp_all
      have cur3: "pr_cursor q < pr_cursor q3" "0 < pr_cursor q3"
        using b(3,6) c(1) by (auto simp: ate_def go_def went_def)
      have link: "fits (room q q') (if_link (s, c, b) a)"
        if "go q3 q' \<or> chains q3 q'" "fits r2 a" "Suc r2 \<le> room q q'" for a q' r2
      proof (rule fits_if [OF c(4) _ bt _ that(2,3)])
        have "room q q3 \<le> room q q'" using that(1) go_chains chains_room by blast
        then show "r + 3 \<le> room q q'" "room q q2 \<le> room q q'" using c(3) r3 by simp_all
      qed
      show ?case
      proof (rule pwp_else_return [OF b(8)], rule harmless_guard, assumption, subst pwp_current [OF b(8)], goal_cases)
        case 1
        show ?case
        proof (simp only: pwp_simps if_split [of "\<lambda>m. pwp m _ _"], intro conjI impI, goal_cases)
          case 1
          show ?case
          proof (rule pwp_next_token [OF b(8)], goal_cases)
            case n: (1 q4)
            show ?case
            proof (rule pwp_enter_chain_link [OF n(3)], rule Suc.IH, goal_cases)
              case f: (5 q5 new a q')
              have deeper: "chains q q5" "pr_chain_depth q5 = Suc (pr_chain_depth q)"
                using chains_trans [OF go_chains [OF go_trans [OF g3 n(2)]] f(1)] f(2) g3 n(2) by (simp_all add: go_def)
              have "fits (room q q') (foldr if_link ((s, c, b) # new) a)"
                using link [of q' "room q5 q'" "foldr if_link new a"] f(4,5) chains_deeper [OF deeper f(4)]
                  chains_trans [OF chains_trans [OF go_chains [OF n(2)] f(1)] f(4)] by simp
              then show ?case
                using Suc(6) [of q' "(s, c, b) # new" a] chains_trans [OF deeper(1) f(4)] by simp
            next
              case f: (4 q5)
              then show ?case using Suc(5) n(1) cur3 g3 by (auto simp: ate_def chains_def went_def go_def)
            qed (use Suc(3) n(1) cur3 g3 in \<open>auto simp: ate_def chains_def go_def dest: went_ok\<close>)
          qed (use 1 in simp)
        next
          case 2
          have d3: "MAX_NESTING_DEPTH < Suc n + pr_depth q3" using Suc(3) g3 by (simp add: go_def)
          show ?case
          proof (rule parsesE [OF blk b(8) d3], goal_cases)
            case f: (1 b' q4)
            from fits_block_expression [OF f(5), of "room q q4" "bl_span b'"]
            obtain r2 where r2: "Suc r2 = room q q4" "fits r2 (Expression (BlockExpr b') (bl_span b'))"
              by (auto simp: room_go [OF g3])
            have "fits (room q q4) (if_link (s, c, b) (Expression (BlockExpr b') (bl_span b')))"
              using link [of q4 r2] f(1) r2 by simp
            then show ?case
              using Suc(6) [of q4 "[(s, c, b)]"] go_chains [OF go_trans [OF g3 f(1)]] by simp
          qed
        qed (use b(8) in simp)
      qed
    qed
  qed
qed

lemma yields_if:
  assumes e: "parses n fits e" and blk: "parses (Suc n) fits_block blk"
  shows "yields (Suc n) fits (if_expression e blk s)"
proof (rule yieldsI)
  fix p
  assume p: "ok p" "MAX_NESTING_DEPTH < Suc n + pr_depth p" "0 < pr_cursor p"
  show "pwp (if_expression e blk s) (\<lambda>x p'. go p p' \<and> fits (room p p') x) p"
    unfolding if_expression_def pwp_simps
  proof (rule pwp_if_loop [OF e blk p])
    fix new a q
    assume q: "chains p q" "fits (room p q) (foldr if_link new a)"
    have "go p (q\<lparr>pr_chain_depth := pr_chain_depth p\<rparr>)"
      using q(1) by (auto simp: chains_def go_def went_def ok_def structural_depth_def)
    then show "pwp (case ([] @ new, a) of (links, alternative) \<Rightarrow>
        pbind (pput (\<lambda>q. q\<lparr>pr_chain_depth := pr_chain_depth p\<rparr>)) (\<lambda>_. pret (foldr if_link links alternative)))
        (\<lambda>x p'. go p p' \<and> fits (room p p') x) q"
      using q(2) by (simp add: room_def)
  qed simp
qed

lemma eats_parameter: "eats n (parse_parameter ps)"
  unfolding parse_parameter_def
  by (rule eatsI) (auto simp: go_defs intro!: pwp_binding_name pwp_optional_type)

lemma pwp_parameters:
  assumes "ok p" "\<And>x p'. go p p' \<Longrightarrow> ok p' \<Longrightarrow> pr_cursor p < pr_cursor p' \<Longrightarrow> Q x p'"
  shows "pwp parameters Q p"
  unfolding parameters_def pwp_simps
proof (rule pwp_expect [OF assms(1)])
  fix p1
  assume p1: "ate p p1" "go p p1" "ok p1"
  show "pwp (items TRightParen parse_parameter []) (\<lambda>ps. pwp (expect TRightParen) (\<lambda>_. Q ps)) p1"
    by (rule eats_items [where n = "Suc MAX_NESTING_DEPTH"])
       (use p1 in \<open>auto intro!: eats_parameter pwp_expect assms(2) simp: go_defs\<close>)
qed simp

lemma yields_function:
  assumes blk: "parses (Suc n) fits_block blk"
  shows "yields (Suc n) fits (function_expression blk s)"
proof (rule yieldsI)
  fix p
  assume p: "ok p" "MAX_NESTING_DEPTH < Suc n + pr_depth p" "0 < pr_cursor p"
  let ?Q = "\<lambda>x p'. go p p' \<and> fits (room p p') x"
  have body: "pwp blk (\<lambda>body. ?Q (Expression (FunctionExpr ps rt body) (span_join s (bl_span body)))) q" if "go p q" for q ps rt
  proof (rule pwp_after [OF parses_yields [OF blk] that _ p(2)])
    show "0 < pr_cursor q" using that p(3) by (simp add: go_def went_def)
    show "?Q (Expression (FunctionExpr ps rt body) (span_join s (bl_span body))) p'"
      if "go p p'" "fits_block (room p p') body" for body p'
      using that by (auto simp: fits_block_def fits_def kind_all_def elim: within_b_mono)
  qed
  show "pwp (function_expression blk s) ?Q p"
    using p(1) unfolding function_expression_def
    by (auto intro!: pwp_parameters pwp_optional_type body elim: go_trans)
qed

section \<open>Match arms\<close>

lemma pwp_enter_levels:
  assumes "ok p" "ok ((entered ^^ k) p) \<Longrightarrow> Q () ((entered ^^ k) p)"
  shows "pwp (enter_levels k s) Q p"
  using assms
proof (induction k arbitrary: p)
  case (Suc k)
  show ?case
    unfolding enter_levels.simps pwp_simps
    by (rule pwp_enter [OF Suc(2)], rule Suc.IH) (use Suc(3) in \<open>simp_all add: funpow_swap1\<close>)
qed simp

lemma entered_funpow:
  "pr_depth ((entered ^^ k) p) = pr_depth p + k" "pr_cursor ((entered ^^ k) p) = pr_cursor p"
  "structural_depth ((entered ^^ k) p) = structural_depth p + k" "pr_peak p \<le> pr_peak ((entered ^^ k) p)"
  "ok ((entered ^^ k) p) \<Longrightarrow> go ((entered ^^ k) p) q \<Longrightarrow> ok p \<Longrightarrow> go p (q\<lparr>pr_depth := pr_depth p\<rparr>)"
proof -
  have "\<exists>m. (entered ^^ k) p = p\<lparr>pr_depth := pr_depth p + k, pr_peak := m\<rparr> \<and> pr_peak p \<le> m"
  proof (induction k)
    case (Suc k)
    then obtain m where "(entered ^^ k) p = p\<lparr>pr_depth := pr_depth p + k, pr_peak := m\<rparr>" "pr_peak p \<le> m" by blast
    then show ?case by (intro exI [of _ "max m (Suc (structural_depth ((entered ^^ k) p)))"])
        (simp add: entered_def [of "p\<lparr>pr_depth := pr_depth p + k, pr_peak := m\<rparr>"])
  qed (auto intro: exI [of _ "pr_peak p"])
  then obtain m where m: "(entered ^^ k) p = p\<lparr>pr_depth := pr_depth p + k, pr_peak := m\<rparr>" "pr_peak p \<le> m" by blast
  show "pr_depth ((entered ^^ k) p) = pr_depth p + k" "pr_cursor ((entered ^^ k) p) = pr_cursor p"
    "structural_depth ((entered ^^ k) p) = structural_depth p + k" "pr_peak p \<le> pr_peak ((entered ^^ k) p)"
    using m by (simp_all add: structural_depth_def)
  show "ok ((entered ^^ k) p) \<Longrightarrow> go ((entered ^^ k) p) q \<Longrightarrow> ok p \<Longrightarrow> go p (q\<lparr>pr_depth := pr_depth p\<rparr>)"
    using m by (auto simp: go_def went_def ok_def structural_depth_def)
qed

lemma pwp_nested_levels:
  assumes e: "parses n fits e" and p: "ok p" "MAX_NESTING_DEPTH < n + pr_depth p"
    and fin: "\<And>x p'. go p p' \<Longrightarrow> pr_cursor p < pr_cursor p' \<Longrightarrow> fits (room p p') x \<Longrightarrow> Q x p'"
  shows "pwp (nested_levels k s e) Q p"
  unfolding nested_levels_def pwp_simps
proof (rule pwp_enter_levels [OF p(1)], rule parsesE [OF e], assumption, goal_cases)
  case 1
  then show ?case using p(2) by (simp add: entered_funpow)
next
  case (2 x q)
  have d: "pr_depth q - k = pr_depth p" using 2(2) by (simp add: go_def entered_funpow)
  have "fits (room p (q\<lparr>pr_depth := pr_depth p\<rparr>)) x"
    using 2(6) by (rule fits_mono) (simp add: room_def entered_funpow)
  then show ?case
    using entered_funpow(5) [OF 2(1,2) p(1)] 2(4) by (simp add: leave_def d fin entered_funpow)
qed

definition arm_fits :: "nat \<Rightarrow> expression match_arm list \<Rightarrow> bool" where
  "arm_fits r = list_all (\<lambda>a. fits r (ma_value a))"

lemma arm_fits_mono: "arm_fits r fs \<Longrightarrow> r \<le> r' \<Longrightarrow> arm_fits r' fs"
  by (auto simp: arm_fits_def list_all_iff elim: fits_mono)

lemma pwp_arms_loop:
  assumes e: "parses n fits e" and n: "MAX_NESTING_DEPTH < n + pr_depth p"
    and fin: "\<And>arms q. go p q \<Longrightarrow> ok q \<Longrightarrow> arm_fits (room p q) arms \<Longrightarrow> Q arms q"
  shows "go p q \<Longrightarrow> arm_fits (room p q) arms \<Longrightarrow> length (pr_tokens q) \<le> k + pr_cursor q \<Longrightarrow> pwp (arms_loop k e arms) Q q"
proof (induction k arbitrary: arms q)
  case 0
  then show ?case using go_ok [OF 0(1)] by (simp add: ok_def)
next
  case (Suc k)
  have ok: "ok q" using Suc(2) by (rule go_ok)
  have step: "pwp (pbind parse_pattern (\<lambda>pat. pbind (expect TFatArrow) (\<lambda>_.
       pbind (nested_levels (constructor_depth pat - 1) (pat_span pat) e) (\<lambda>v.
       pbind (consume_kind TComma) (\<lambda>comma. pbind (if comma then pret True else check TRightBrace) (\<lambda>continues.
       if continues then arms_loop k e (arms @ [MatchArm pat v (span_join (pat_span pat) (ex_span v))])
       else expected (backquoted '','' @ '' or '' @ backquoted ''}''))))))) Q q"
    unfolding pwp_simps
  proof (rule pwp_parse_pattern [OF ok], rule pwp_expect, assumption, simp, rule pwp_nested_levels [OF e], assumption, goal_cases)
    case (1 pat q1 q2)
    then show ?case using n Suc(2) by (simp add: go_def)
  next
    case (2 pat q1 q2 v q3)
    have g: "go q q2" "go p q3" using go_trans [OF 2(1,5)] go_trans [OF go_trans [OF Suc(2) go_trans [OF 2(1,5)]] 2(8)] by simp_all
    have c: "pr_cursor q < pr_cursor q3" using 2(3,4,9) by (simp add: ate_def)
    have v: "fits (room p q3) v" using 2(10) room_go [OF go_trans [OF Suc(2) g(1)]] by simp
    have "room p q \<le> room p q3" using room_mono [OF go_trans [OF g(1) 2(8)]] .
    then have a: "arm_fits (room p q3) (arms @ [MatchArm pat v s])" for s
      using arm_fits_mono [OF Suc(3)] v by (simp add: arm_fits_def)
    have loop: "pwp (arms_loop k e (arms @ [MatchArm pat v s])) Q q4" if "go q3 q4" for q4 s
      using Suc.IH [OF go_trans [OF g(2) that] arm_fits_mono [OF a room_mono [OF that]]] Suc(4) c that Suc(2) g(2)
      by (auto simp: go_def went_def)
    show ?case
      by (rule pwp_consume_kind [OF go_ok [OF 2(8)]])
         (use go_ok [OF 2(8)] loop in \<open>auto simp: if_split [of "\<lambda>m. pwp m _ _"]\<close>)
  qed
  show ?case
    using ok step fin [OF Suc(2) ok Suc(3)] by (simp del: pwp_simps(3) add: pwp_simps(3) [of current])
qed

lemma yields_match:
  assumes e: "parses n fits e"
  shows "yields (Suc n) fits (parse_match e s)"
proof (rule yieldsI)
  fix p
  assume p: "ok p" "MAX_NESTING_DEPTH < Suc n + pr_depth p" "0 < pr_cursor p"
  have y: "yields n arm_fits (match_arms e)"
  proof (rule yieldsI)
    fix q
    assume q: "ok q" "MAX_NESTING_DEPTH < n + pr_depth q" "0 < pr_cursor q"
    show "pwp (match_arms e) (\<lambda>x p'. go q p' \<and> arm_fits (room q p') x) q"
      unfolding match_arms_def pwp_simps
      by (rule pwp_arms_loop [OF e q(2)]) (use q(1) in \<open>auto simp: arm_fits_def\<close>)
  qed
  show "pwp (parse_match e s) (\<lambda>x p'. go p p' \<and> fits (room p p') x) p"
    unfolding parse_match_def pwp_simps
  proof (rule pwp_nested_yields [OF yields_construction [OF parses_yields [OF e]] p], rule pwp_expect, assumption, simp,
      rule pwp_nested_yields [OF yields_construction [OF y]], assumption, goal_cases)
    case (3 x p1 r1 p2 arms p3 r2)
    have g: "go p p2" "go p2 p3" using go_trans [OF 3(1,6)] 3(9) by simp_all
    have "room p p1 \<le> room p p3" using room_mono [OF go_trans [OF 3(6,9)]] .
    then have x: "fits (r2 + 2) x" using 3(3,4,11) room_go [OF g(1)] by (auto elim!: fits_mono)
    have "fits (r2 + 3) (Expression (Match x arms) s')" for s'
      by (rule fits_node [of "r2 + 2"]) (use x arm_fits_mono [OF 3(12)] in \<open>auto simp: kind_all_def arm_fits_def\<close>)
    then show ?case
      using 3(10,11) go_trans [OF g] room_go [OF g(1), of p3]
      by (auto intro!: pwp_expect elim: go_trans fits_mono [OF _ eq_refl]) (simp add: ate_def room_def)
  qed (use p(2,3) in \<open>auto simp: go_defs\<close>)
qed

section \<open>Primary and unary expressions\<close>

lemma yields_name:
  assumes e: "parses n fits e"
  shows "yields (Suc n) fits (parse_name e name s)"
proof (rule yieldsI)
  fix p
  assume p: "ok p" "MAX_NESTING_DEPTH < Suc n + pr_depth p" "0 < pr_cursor p"
  show "pwp (parse_name e name s) (\<lambda>x p'. go p p' \<and> fits (room p p') x) p"
    using p(1) unfolding parse_name_def
    by (auto intro!: pwp_word_habit harmless_guard pwp_restricted_construction
        yieldsE [OF yields_construction_literal [OF e] _ p(2,3)] split: option.split simp del: pwp_pguard)
qed

lemma fits_literal [simp]: "fits r (Expression (Literal l) s)"
  by (simp add: fits_def kind_all_def)

lemma fits_block_wrap: "fits_block r b \<Longrightarrow> fits r (Expression (BlockExpr b) s)"
  by (auto simp: fits_block_def fits_def kind_all_def elim: within_b_mono)

lemma parses_primary:
  assumes e: "parses n fits e" and blk: "parses (Suc n) fits_block blk"
  shows "parses (Suc n) fits (primary e blk)"
  unfolding primary_def Let_def
proof (rule parsesI, simp only: pwp_simps, rule pwp_next_token, assumption)
  fix p p1
  assume p: "ok p" "MAX_NESTING_DEPTH < Suc n + pr_depth p" and p1: "ate p p1" "go p p1" "ok p1"
  let ?Q = "\<lambda>x p'. go p p' \<and> pr_cursor p < pr_cursor p' \<and> structural_depth p \<le> pr_peak p' \<and> fits (room p p') x"
  have after: "pwp m ?Q p1" if "yields (Suc n) fits m" for m
    by (rule pwp_after [OF that p1(2) ate_positive [OF p1(1)] p(2)])
       (use p1(1) in \<open>auto simp: ate_def ok_def go_depth [symmetric]\<close>)
  have leaf: "go p p1" "pr_cursor p < pr_cursor p1" "structural_depth p \<le> pr_peak p1"
    using p1 by (auto simp: ate_def ok_def structural_depth_def)
  have group: "pwp blk (\<lambda>b. ?Q (Expression (BlockExpr b) (bl_span b))) (p1\<lparr>pr_cursor := pr_cursor p1 - 1\<rparr>)"
  proof -
    have same: "p1\<lparr>pr_cursor := pr_cursor p1 - 1\<rparr> = p" using p1(1) by (simp add: ate_def)
    show ?thesis
      unfolding same by (auto intro!: parsesE [OF blk p] fits_block_wrap)
  qed
  have unexpected: "pwp (unexpected_token t) ?Q p1" for t
    by (rule pwp_unexpected_token [OF p1(3)]) (simp add: ate_positive [OF p1(1)])
  show "pwp (case tok_kind (cur p) of
       TInteger v \<Rightarrow>
         (case parse_i128 v of
            Some n \<Rightarrow> pret (Expression (Literal (IntegerLit n)) (tok_span (cur p)))
          | None \<Rightarrow> pfail (diagnostic_new ''K4005'' ''integer literal is out of range'' (tok_span (cur p))))
     | TString v \<Rightarrow> pret (Expression (Literal (StringLit v)) (tok_span (cur p)))
     | TTemplate tpl \<Rightarrow> parse_interpolation tpl (tok_span (cur p))
     | TTrue \<Rightarrow> pret (Expression (Literal (BooleanLit True)) (tok_span (cur p)))
     | TFalse \<Rightarrow> pret (Expression (Literal (BooleanLit False)) (tok_span (cur p)))
     | TIdentifier name \<Rightarrow> parse_name e name (tok_span (cur p))
     | TLeftParen \<Rightarrow> parenthesized e (tok_span (cur p))
     | TLeftBracket \<Rightarrow> list_literal e (tok_span (cur p))
     | TRecord \<Rightarrow> record_literal e (tok_span (cur p))
     | TLeftBrace \<Rightarrow>
         pbind (pget pr_cursor) (\<lambda>c.
         if c = 0 then pstop Panic
         else
           pbind (pput (\<lambda>p. p\<lparr>pr_cursor := c - 1\<rparr>)) (\<lambda>_.
           pbind blk (\<lambda>b. pret (Expression (BlockExpr b) (bl_span b)))))
     | TIf \<Rightarrow> if_expression e blk (tok_span (cur p))
     | TMatch \<Rightarrow> parse_match e (tok_span (cur p))
     | TFn \<Rightarrow> function_expression blk (tok_span (cur p))
     | _ \<Rightarrow> unexpected_token (cur p)) ?Q p1"
    using ate_positive [OF p1(1)] group unexpected
    by (cases "tok_kind (cur p)")
       (simp_all add: leaf after yields_interpolation yields_name [OF e] yields_parenthesized [OF e] yields_list [OF e]
         yields_record [OF e] yields_if [OF e blk] yields_match [OF e] yields_function [OF blk] split: option.split)
qed (simp add: pwp_unexpected_token)

lemma parses_unary:
  assumes u: "parses n fits u" and e: "parses n fits e" and blk: "parses (Suc n) fits_block blk"
  shows "parses (Suc n) fits (unary_with u e blk)"
proof (rule parsesI)
  fix p
  assume p: "ok p" "MAX_NESTING_DEPTH < Suc n + pr_depth p"
  let ?Q = "\<lambda>x p'. go p p' \<and> pr_cursor p < pr_cursor p' \<and> structural_depth p \<le> pr_peak p' \<and> fits (room p p') x"
  show "pwp (unary_with u e blk) ?Q p"
  proof (cases "unary_operator_of (tok_kind (cur p))")
    case None
    have "pwp (parse_call (primary e blk) e) ?Q p"
      by (rule parsesE [OF parses_call [OF parses_primary [OF e blk] e] p]) simp
    then show ?thesis using p(1) None by (simp add: unary_with_def)
  next
    case (Some operator)
    have "pwp next_token (\<lambda>start. pwp (nested (tok_span start) u) (\<lambda>operand.
        ?Q (Expression (Unary operator operand) (span_join (tok_span start) (ex_span operand))))) p"
    proof (rule pwp_next_token [OF p(1)], rule pwp_nested_yields [OF parses_yields [OF u]], assumption, goal_cases)
      case (3 p1 x p2 r)
      have "fits (r + 3) (Expression (Unary operator x) s)" for s
        by (rule fits_node [of "r"]) (use 3(7) in \<open>auto simp: kind_all_def\<close>)
      then show ?case
        using 3 go_trans [OF 3(2,4)] room_go [OF 3(2)] by (auto simp: ate_def ok_def go_def went_def structural_depth_def)
    qed (use p(2) Some in \<open>auto simp: unary_operator_of_def go_def ate_def\<close>)
    then show ?thesis using p(1) Some by (simp add: unary_with_def)
  qed
qed

end
