(* ===== verification/Parser_Programs.thy ===== *)
theory Parser_Programs
  imports Parser_Trees
begin

text \<open>
  Statements, blocks and whole programs by the rules of \<open>Parser_Rules\<close>, and the properties of the parser:
  on every stream of tokens it returns, its errors are parse errors, and the trees it builds stay within the
  depth that \<open>limits.rs\<close> promises to every later stage.
\<close>

section \<open>Statements and blocks\<close>

abbreviation statement_fits :: "nat \<Rightarrow> statement \<Rightarrow> bool" where
  "statement_fits r \<equiv> within_s (Suc r)"

lemma statement_fits_I:
  "statement_all (fits r) (fits_block r) st \<Longrightarrow> statement_fits r st"
  unfolding within_s_def
  by (erule statement_all_mono)
     (auto simp: fits_def fits_block_def elim: within_b_mono simp del: within_e.simps within_b.simps)

lemma pwp_after_parses:
  assumes "parses n W m" "go p q" "MAX_NESTING_DEPTH < n + pr_depth p"
    "\<And>x p'. go p p' \<Longrightarrow> ok p' \<Longrightarrow> go q p' \<Longrightarrow> pr_cursor q < pr_cursor p' \<Longrightarrow> W (room p p') x \<Longrightarrow> Q x p'"
  shows "pwp m Q q"
proof (rule parsesE [OF assms(1) go_ok [OF assms(2)]])
  show "MAX_NESTING_DEPTH < n + pr_depth q" using assms(2,3) by (simp add: go_def)
  show "Q x p'" if "go q p'" "ok p'" "pr_cursor q < pr_cursor p'" "W (room q p') x" for x p'
    using that go_trans [OF assms(2) that(1)] room_go [OF assms(2)] by (intro assms(4)) simp_all
qed

lemma fits_grow: "fits (room p q) x \<Longrightarrow> go q r \<Longrightarrow> fits (room p r) x"
  by (erule fits_mono) (rule room_mono)

lemma fits_block_grow: "fits_block (room p q) x \<Longrightarrow> go q r \<Longrightarrow> fits_block (room p r) x"
  by (erule fits_block_mono) (rule room_mono)

lemma go_cursor: "go p q \<Longrightarrow> pr_cursor p \<le> pr_cursor q" by (simp add: go_def went_def)

definition arm_value_fits :: "nat \<Rightarrow> expression variant_arm \<Rightarrow> bool" where
  "arm_value_fits r a = fits r (va_value a)"

lemma yields_let_else_arm:
  assumes e: "parses n fits e"
  shows "yields n arm_value_fits (let_else_arm e)"
proof (rule yieldsI)
  fix p
  assume p: "ok p" "MAX_NESTING_DEPTH < n + pr_depth p"
  show "pwp (let_else_arm e) (\<lambda>x p'. go p p' \<and> arm_value_fits (room p p') x) p"
    unfolding let_else_arm_def pwp_simps
    by (rule pwp_variant_pattern [OF p(1)], rule pwp_expect, assumption, simp, rule pwp_after_parses [OF e go_trans p(2)])
       (auto simp: arm_value_fits_def)
qed

lemma pwp_let_else:
  assumes e: "parses n fits e" and p: "go p q" "MAX_NESTING_DEPTH < n + pr_depth p" "0 < pr_cursor q"
    and fin: "\<And>x p'. go p p' \<Longrightarrow> ok p' \<Longrightarrow> pr_cursor q < pr_cursor p' \<Longrightarrow> statement_fits (room p p') x \<Longrightarrow> Q x p'"
  shows "pwp (parse_let_else e s) Q q"
  unfolding parse_let_else_def pwp_simps
proof (rule pwp_variant_pattern [OF go_ok [OF p(1)]], rule pwp_optional_type, assumption, simp,
    rule pwp_expect, assumption, simp, goal_cases)
  case q3: (1 pat q1 annotation q2 q3)
  have g3: "go p q3" "go q q3" "pr_cursor q < pr_cursor q3"
    using go_trans [OF go_trans [OF go_trans [OF p(1) q3(1)] q3(4)] q3(7)]
      go_trans [OF go_trans [OF q3(1) q3(4)] q3(7)] q3(3) go_cursor [OF go_trans [OF q3(4,7)]] by simp_all
  show ?case
  proof (rule pwp_after_parses [OF e g3(1) p(2)], rule pwp_no_assignment, assumption, goal_cases)
    case v: (1 v q4)
    have arm: "pwp (nested (tok_span t) (let_else_arm e)) (\<lambda>arm. pwp (expect TSemicolon) (\<lambda>end_token.
        Q (Statement (LetElse pat annotation v (tok_span t) arm) (span_join s (tok_span end_token))))) q5"
      if q5: "go q4 q5" for t q5
    proof (rule pwp_nested_yields [OF yields_let_else_arm [OF e] go_ok [OF q5]])
      show "MAX_NESTING_DEPTH < Suc n + pr_depth q5" using go_trans [OF v(1) q5] p(2) by (simp add: go_def)
      show "0 < pr_cursor q5" using g3(3) v(4) go_cursor [OF q5] by simp
      fix arm q6 r
      assume q6: "go q5 q6" "ok q6" "room q5 q6 = r + 3" "arm_value_fits r arm"
      have a6: "fits (room p q6) (va_value arm)"
        using q6(3,4) room_go [OF go_trans [OF v(1) q5]] by (auto simp: arm_value_fits_def elim: fits_mono)
      show "pwp (expect TSemicolon) (\<lambda>end_token.
        Q (Statement (LetElse pat annotation v (tok_span t) arm) (span_join s (tok_span end_token)))) q6"
      proof (rule pwp_expect [OF q6(2)])
        fix q7
        assume q7: "ate q6 q7" "go q6 q7" "ok q7"
        have g: "go q4 q7" "go p q7" using go_trans [OF go_trans [OF q5 q6(1)] q7(2)] go_trans [OF v(1)] by blast+
        show "Q (Statement (LetElse pat annotation v (tok_span t) arm) (span_join s (tok_span (cur q6)))) q7"
          using g(2) q7(3) fits_grow [OF v(5) g(1)] fits_grow [OF a6 q7(2)] g3(3) v(4) go_cursor [OF g(1)]
          by (intro fin statement_fits_I) (simp_all add: statement_all_def)
      qed simp
    qed
    have pos: "0 < pr_cursor q4" using v(4) by simp
    show ?case
      using v(2) pos
      by (auto intro!: pwp_next_token pwp_else_return harmless_guard arm simp del: pwp_pguard elim: go_trans)
  qed
qed


lemma go_peak: "go p q \<Longrightarrow> structural_depth p \<le> pr_peak q"
  using go_depth [of p q] go_ok [of p q] by (simp add: ok_def)

lemma pwp_expect_end:
  assumes "go p q" "statement_fits (room p q) x" "pr_cursor p < pr_cursor q"
    "\<And>p' s. go p p' \<Longrightarrow> ok p' \<Longrightarrow> pr_cursor p < pr_cursor p' \<Longrightarrow> statement_fits (room p p') (Statement (st_kind x) s) \<Longrightarrow>
      Q (Statement (st_kind x) s) p'"
  shows "pwp (expect TSemicolon) (\<lambda>t. Q (Statement (st_kind x) (span_join s (tok_span t)))) q"
proof (rule pwp_expect [OF go_ok [OF assms(1)]])
  fix r
  assume r: "ate q r" "go q r" "ok r"
  have "room p r = room p q" using r(1) by (simp add: ate_def room_def)
  then show "Q (Statement (st_kind x) (span_join s (tok_span (cur q)))) r"
    using assms(2,3) go_trans [OF assms(1) r(2)] r(3) go_cursor [OF r(2)]
    by (intro assms(4)) (simp_all add: within_s_def statement_all_def)
qed simp

lemma parses_let:
  assumes e: "parses n fits e"
  shows "parses n statement_fits (let_declaration e)"
proof (rule parsesI)
  fix p
  assume p: "ok p" "MAX_NESTING_DEPTH < n + pr_depth p"
  let ?Q = "\<lambda>x p'. go p p' \<and> pr_cursor p < pr_cursor p' \<and> structural_depth p \<le> pr_peak p' \<and> statement_fits (room p p') x"
  have fin: "?Q x p'" if "go p p'" "ok p'" "pr_cursor p < pr_cursor p'" "statement_fits (room p p') x" for x p'
    using that go_peak by blast
  show "pwp (let_declaration e) ?Q p"
    unfolding let_declaration_def pwp_simps Let_def
  proof (rule pwp_expect [OF p(1)])
    fix p1
    assume p1: "ate p p1" "go p p1" "ok p1"
    have "pwp (parse_let_else e s) ?Q p1" for s
      using p1(1) by (intro pwp_let_else [OF e p1(2) p(2) ate_positive [OF p1(1)]] fin) (simp_all add: ate_def)
    moreover have "pwp binding_name (\<lambda>(name, _). pwp (optional_type TColon) (\<lambda>annotation. pwp (expect TEqual) (\<lambda>_.
        pwp e (\<lambda>v. pwp (no_assignment v) (\<lambda>_. pwp (expect TSemicolon) (\<lambda>end_token.
        ?Q (Statement (Let name annotation v) (span_join s (tok_span end_token))))))))) p1" for s
    proof (rule pwp_binding_name [OF p1(3)], clarsimp, rule pwp_optional_type, assumption, simp,
        rule pwp_expect, assumption, simp, goal_cases)
      case (1 name p2 annotation p3 p4)
      have g: "go p1 p4" using go_trans [OF go_trans [OF 1(2,4)] 1(7)] .
      show ?case
      proof (rule pwp_after_parses [OF e go_trans [OF p1(2) g] p(2)], rule pwp_no_assignment, assumption, goal_cases)
        case (1 v p5)
        have c: "pr_cursor p < pr_cursor p5" using p1(1) go_cursor [OF g] 1(4) by (simp add: ate_def)
        have "statement_fits (room p p5) (Statement (Let name annotation v) s)"
          by (rule statement_fits_I) (use 1(5) in \<open>simp add: statement_all_def\<close>)
        from pwp_expect_end [OF 1(1) this c, of ?Q s] fin show ?case by simp
      qed
    qed
    ultimately show "pwp at_variant_pattern (\<lambda>variant. pwp (if variant then parse_let_else e (tok_span (cur p)) else
       pbind binding_name (\<lambda>(name, _).
       pbind (optional_type TColon) (\<lambda>annotation.
       pbind (expect TEqual) (\<lambda>_.
       pbind e (\<lambda>v.
       pbind (no_assignment v) (\<lambda>_.
       pbind (expect TSemicolon) (\<lambda>end_token.
       pret (Statement (Let name annotation v) (span_join (tok_span (cur p)) (tok_span end_token)))))))))) ?Q) p1"
      by (auto intro!: pwp_at_variant_pattern simp: p1(3) case_prod_beta')
  qed simp
qed

text \<open>Declarations of functions and entrypoints: \<open>build\<close> puts the body below the statement.\<close>

lemma pwp_function_rest:
  assumes blk: "parses n fits_block blk" and p: "go p q" "MAX_NESTING_DEPTH < n + pr_depth p"
    and build: "\<And>name ps rt b s E B. statement_all E B (Statement (build name ps rt b) s) \<longleftrightarrow> B b"
    and fin: "\<And>x p'. go p p' \<Longrightarrow> ok p' \<Longrightarrow> pr_cursor q < pr_cursor p' \<Longrightarrow> statement_fits (room p p') x \<Longrightarrow> Q x p'"
  shows "pwp (function_rest blk s build) Q q"
  unfolding function_rest_def pwp_simps
proof (rule pwp_binding_name [OF go_ok [OF p(1)]], clarsimp, rule pwp_parameters, assumption,
    rule pwp_optional_type, assumption, simp, goal_cases)
  case (1 name q1 ps q2 rt q3)
  have g: "go q q3" using go_trans [OF go_trans [OF 1(2,4)] 1(7)] .
  show ?case
  proof (rule pwp_after_parses [OF blk go_trans [OF p(1) g] p(2)], rule fin, goal_cases)
    case (4 body p')
    then show ?case by (intro statement_fits_I) (simp add: build)
  qed (use go_cursor [OF g] in auto)
qed

lemma parses_function:
  assumes blk: "parses n fits_block blk"
  shows "parses n statement_fits (function_declaration blk)"
proof (rule parsesI)
  fix p
  assume p: "ok p" "MAX_NESTING_DEPTH < n + pr_depth p"
  show "pwp (function_declaration blk) (\<lambda>x p'. go p p' \<and> pr_cursor p < pr_cursor p' \<and>
      structural_depth p \<le> pr_peak p' \<and> statement_fits (room p p') x) p"
    unfolding function_declaration_def pwp_simps
    by (rule pwp_doc_comment [OF p(1)], rule pwp_expect [OF p(1)], simp,
        rule pwp_function_rest [OF blk _ p(2)], assumption)
       (auto simp: statement_all_def ate_def intro: go_peak)
qed

lemma parses_webhook:
  assumes blk: "parses n fits_block blk"
  shows "parses n statement_fits (webhook_declaration blk)"
proof (rule parsesI)
  fix p
  assume p: "ok p" "MAX_NESTING_DEPTH < n + pr_depth p"
  show "pwp (webhook_declaration blk) (\<lambda>x p'. go p p' \<and> pr_cursor p < pr_cursor p' \<and>
      structural_depth p \<le> pr_peak p' \<and> statement_fits (room p p') x) p"
    unfolding webhook_declaration_def pwp_simps
    by (rule pwp_doc_comment [OF p(1)], rule pwp_expect [OF p(1)], simp, rule pwp_expect, assumption, simp,
        rule pwp_function_rest [OF blk go_trans p(2)])
       (auto simp: statement_all_def ate_def intro: go_peak)
qed

lemma pwp_entrypoint_keyword:
  assumes "ok p" "\<And>w. Q w p"
  shows "pwp entrypoint_keyword Q p"
  using assms by (simp add: entrypoint_keyword_def)

lemma pwp_next_go:
  assumes "go p q" "\<And>q'. go p q' \<Longrightarrow> Q (cur q) q'"
  shows "pwp next_token Q q"
  using assms(1) by (intro pwp_next_token [OF go_ok [OF assms(1)]] assms(2)) (auto elim: go_trans)

lemma parses_resource:
  assumes blk: "parses n fits_block blk"
  shows "parses n statement_fits (resource_entrypoint_declaration blk)"
proof (rule parsesI)
  fix p
  assume p: "ok p" "MAX_NESTING_DEPTH < n + pr_depth p"
  let ?Q = "\<lambda>x p'. go p p' \<and> pr_cursor p < pr_cursor p' \<and> structural_depth p \<le> pr_peak p' \<and> statement_fits (room p p') x"
  have decl: "pwp (expect TFn) (\<lambda>_. pwp (function_rest blk s (\<lambda>name ps rt body.
      if word = ''queue'' then QueueConsumer r rs name ps rt body doc
      else ScheduleHandler r rs name ps rt body doc)) ?Q) q" if q: "go p q" for q s word r rs doc
    by (rule pwp_expect [OF go_ok [OF q]], simp, rule pwp_function_rest [OF blk go_trans [OF q] p(2)])
       (use go_cursor [OF q] in \<open>auto simp: statement_all_def ate_def intro: go_peak\<close>)
  show "pwp (resource_entrypoint_declaration blk) ?Q p"
    unfolding resource_entrypoint_declaration_def pwp_simps
  proof (rule pwp_entrypoint_keyword [OF p(1)])
    fix found
    have "pwp parse_doc_comment (\<lambda>doc. pwp next_token (\<lambda>start. pwp next_token (\<lambda>t. pwp (case tok_kind t of
        TString resource \<Rightarrow> pbind (expect TFn) (\<lambda>_. function_rest blk (tok_span start) (\<lambda>name ps rt body.
               if word = ''queue'' then QueueConsumer resource (tok_span t) name ps rt body doc
               else ScheduleHandler resource (tok_span t) name ps rt body doc))
      | _ \<Rightarrow> pfail (diagnostic_new ''K1002'' (backquoted word @ '' declarations require a direct canonical '' @
               backquoted word @ '' name literal'') (tok_span t))) ?Q))) p" for word
      by (rule pwp_doc_comment [OF p(1)], rule pwp_next_go [OF go_refl [OF p(1)]], rule pwp_next_go, assumption)
         (simp add: decl split: token_kind.split)
    then show "pwp (case found of
       None \<Rightarrow> expected (backquoted ''queue'' @ '' or '' @ backquoted ''schedule'')
     | Some word \<Rightarrow>
         pbind parse_doc_comment (\<lambda>doc. pbind next_token (\<lambda>start. pbind next_token (\<lambda>t.
         case tok_kind t of
           TString resource \<Rightarrow>
             pbind (expect TFn) (\<lambda>_. function_rest blk (tok_span start) (\<lambda>name ps rt body.
               if word = ''queue'' then QueueConsumer resource (tok_span t) name ps rt body doc
               else ScheduleHandler resource (tok_span t) name ps rt body doc))
         | _ \<Rightarrow>
             pfail (diagnostic_new ''K1002'' (backquoted word @ '' declarations require a direct canonical '' @
               backquoted word @ '' name literal'') (tok_span t)))))) ?Q p"
      using p(1) by (cases found) simp_all
  qed
qed

lemma pwp_no_nested_entrypoint:
  assumes "ok p" "Q () p"
  shows "pwp no_nested_entrypoint Q p"
  using assms
  by (auto simp: no_nested_entrypoint_def nested_entrypoint_keyword_def intro!: pwp_entrypoint_keyword split: option.split)

lemma pwp_bare_expression:
  assumes "parses n fits e" "go p q" "MAX_NESTING_DEPTH < n + pr_depth p"
    "\<And>x p'. go p p' \<Longrightarrow> ok p' \<Longrightarrow> go q p' \<Longrightarrow> pr_cursor q < pr_cursor p' \<Longrightarrow> fits (room p p') x \<Longrightarrow> Q x p'"
  shows "pwp (bare_expression e) Q q"
  unfolding bare_expression_def pwp_simps
  by (rule pwp_statement_habit [OF go_ok [OF assms(2)]], rule harmless_guard, assumption,
      rule pwp_after_parses [OF assms(1-3)], rule pwp_no_assignment) (auto intro: assms(4))

lemma parses_statement:
  assumes e: "parses n fits e" and blk: "parses n fits_block blk"
  shows "parses n statement_fits (parse_statement e blk)"
proof (rule parsesI)
  fix p
  assume p: "ok p" "MAX_NESTING_DEPTH < n + pr_depth p"
  let ?Q = "\<lambda>x p'. go p p' \<and> pr_cursor p < pr_cursor p' \<and> structural_depth p \<le> pr_peak p' \<and> statement_fits (room p p') x"
  have "pwp (bare_expression e) (\<lambda>x. pwp (expect TSemicolon) (\<lambda>semicolon.
      ?Q (Statement (ExpressionStmt x) (span_join (ex_span x) (tok_span semicolon))))) p"
  proof (rule pwp_bare_expression [OF e go_refl [OF p(1)] p(2)])
    fix x q
    assume q: "go p q" "pr_cursor p < pr_cursor q" "fits (room p q) x"
    have "statement_fits (room p q) (Statement (ExpressionStmt x) (ex_span x))"
      by (rule statement_fits_I) (use q(3) in \<open>simp add: statement_all_def\<close>)
    from pwp_expect_end [OF q(1) this q(2), of ?Q "ex_span x"] go_peak
    show "pwp (expect TSemicolon) (\<lambda>semicolon.
      ?Q (Statement (ExpressionStmt x) (span_join (ex_span x) (tok_span semicolon)))) q" by simp
  qed
  then show "pwp (parse_statement e blk) ?Q p"
    using parses_let [OF e] parses_function [OF blk] p
    by (auto simp: parse_statement_def at_function_def parses_def intro!: pwp_no_nested_entrypoint)
qed

section \<open>Blocks\<close>

abbreviation parts_fit :: "nat \<Rightarrow> statement list \<times> expression option \<Rightarrow> bool" where
  "parts_fit r b \<equiv> list_all (statement_fits r) (fst b) \<and> pred_option (fits r) (snd b)"

lemma statements_fit_mono: "list_all (statement_fits r) ss \<Longrightarrow> r \<le> r' \<Longrightarrow> list_all (statement_fits r') ss"
  by (auto simp: list_all_iff elim: within_s_mono)

lemma pwp_block_loop:
  assumes e: "parses n fits e" and blk: "parses n fits_block blk" and n: "MAX_NESTING_DEPTH < n + pr_depth p"
    and fin: "\<And>b q. go p q \<Longrightarrow> ok q \<Longrightarrow> parts_fit (room p q) b \<Longrightarrow> Q b q"
  shows "go p q \<Longrightarrow> list_all (statement_fits (room p q)) ss \<Longrightarrow> length (pr_tokens q) \<le> k + pr_cursor q \<Longrightarrow>
    pwp (block_loop k e blk ss) Q q"
proof (induction k arbitrary: ss q)
  case 0
  then show ?case using go_ok [OF 0(1)] by (simp add: ok_def)
next
  case (Suc k)
  have ok: "ok q" using Suc(2) by (rule go_ok)
  have loop: "pwp (block_loop k e blk (ss @ [st])) Q q'"
    if "go q q'" "pr_cursor q < pr_cursor q'" "statement_fits (room p q') st" for st q'
    using that Suc(4) go_trans [OF Suc(2) that(1)] statements_fit_mono [OF Suc(3) room_mono [OF that(1)]]
    by (intro Suc.IH) (auto simp: go_def went_def)
  have statement: "pwp (parse_statement e blk) (\<lambda>st. pwp (block_loop k e blk (ss @ [st])) Q) q"
    by (rule pwp_after_parses [OF parses_statement [OF e blk] Suc(2) n]) (rule loop)
  have expression: "pwp (bare_expression e) (\<lambda>x. pwp (consume_kind TSemicolon) (\<lambda>semicolon. pwp (
       if semicolon then pbind previous (\<lambda>end_token. block_loop k e blk
           (ss @ [Statement (ExpressionStmt x) (span_join (ex_span x) (tok_span end_token))]))
       else pbind (check TRightBrace) (\<lambda>close. if close then pret (ss, Some x)
         else expected (backquoted '';'' @ '' or '' @ backquoted ''}''))) Q)) q"
  proof (rule pwp_bare_expression [OF e Suc(2) n], rule pwp_consume_kind, assumption, simp, goal_cases)
    case (1 x q1 q2)
    have "statement_fits (room p q2) (Statement (ExpressionStmt x) s)" for s
      by (rule statement_fits_I) (use fits_grow [OF 1(5,7)] in \<open>simp add: statement_all_def\<close>)
    then show ?case
      using 1(8) ate_positive [OF 1(6)] loop [OF go_trans [OF 1(3,7)]] 1(4) go_cursor [OF 1(7)] by simp
  next
    case (2 x q1)
    then show ?case
      using statements_fit_mono [OF Suc(3) room_mono [OF 2(3)]] by (auto intro: fin)
  qed
  have "pwp at_function (\<lambda>is_function. pwp (if tok_kind t = TLet \<or> is_function then
         pbind (parse_statement e blk) (\<lambda>st. block_loop k e blk (ss @ [st]))
       else pbind (bare_expression e) (\<lambda>x. pbind (consume_kind TSemicolon) (\<lambda>semicolon.
         if semicolon then pbind previous (\<lambda>end_token. block_loop k e blk
             (ss @ [Statement (ExpressionStmt x) (span_join (ex_span x) (tok_span end_token))]))
         else pbind (check TRightBrace) (\<lambda>close. if close then pret (ss, Some x)
           else expected (backquoted '';'' @ '' or '' @ backquoted ''}'')))) ) Q) q" for t
    using ok statement expression by (simp add: at_function_def)
  then show ?case
    using ok fin [OF Suc(2) ok, of "(ss, None)"] Suc(3) by (auto intro!: pwp_no_nested_entrypoint)
qed

lemma parts_fit_block:
  assumes "parts_fit r (ss, tail)"
  shows "within_b (Suc (Suc r)) (Block ss tail s)"
proof -
  have "list_all (statement_all (within_e (Suc r)) (within_b (Suc r))) ss"
    using assms by (simp add: within_s_def [abs_def])
  then show ?thesis
    using assms unfolding within_b.simps by (auto simp: block_all_def fits_def split: option.split simp del: within_e.simps within_b.simps)
qed

lemma yields_block_contents:
  assumes e: "parses n fits e" and blk: "parses n fits_block blk"
  shows "yields n (\<lambda>r. within_b (Suc (Suc r))) (parse_block_contents e blk s)"
proof (rule yieldsI)
  fix p
  assume p: "ok p" "MAX_NESTING_DEPTH < n + pr_depth p" "0 < pr_cursor p"
  show "pwp (parse_block_contents e blk s) (\<lambda>b p'. go p p' \<and> within_b (Suc (Suc (room p p'))) b) p"
    unfolding parse_block_contents_def pwp_simps
  proof (rule pwp_block_loop [OF e blk p(2) _ go_refl [OF p(1)]],
      clarsimp simp del: within_e.simps within_b.simps, rule pwp_expect, assumption, simp, goal_cases)
    case (1 ss tail q q')
    then show ?case
      using parts_fit_block [of "room p q" ss tail] go_trans [OF 1(1,6)]
      by (simp add: ate_def room_def del: within_e.simps within_b.simps)
  qed simp_all
qed

lemma parses_block_with:
  assumes e: "parses n fits e" and blk: "parses n fits_block blk"
  shows "parses (Suc n) fits_block (block_with e blk)"
proof (rule parsesI)
  fix p
  assume p: "ok p" "MAX_NESTING_DEPTH < Suc n + pr_depth p"
  show "pwp (block_with e blk) (\<lambda>b p'. go p p' \<and> pr_cursor p < pr_cursor p' \<and> structural_depth p \<le> pr_peak p' \<and>
      fits_block (room p p') b) p"
    unfolding block_with_def pwp_simps
  proof (rule pwp_expect [OF p(1)], simp,
      rule pwp_nested_yields [OF yields_construction [OF yields_block_contents [OF e blk]]], assumption, goal_cases)
    case (3 p1 b p2 r)
    have "fits_block (r + 3) b" using 3(8) by (simp add: fits_block_def del: within_e.simps within_b.simps)
    then show ?case
      using 3(1,7) go_trans [OF 3(2,5)] go_cursor [OF 3(5)] room_go [OF 3(2)] go_peak by (simp add: ate_def)
  qed (use p(2) in \<open>auto simp: ate_def\<close>)
qed

text \<open>Fuel: a level of expressions or blocks is a nesting level, so \<open>MAX_NESTING_DEPTH + 1\<close> of them are enough.\<close>

lemma parses_levels: "parses n fits (unary_at n) \<and> parses n fits_block (block_at n)"
proof (induction n)
  case 0
  have "\<not> ok p" if "MAX_NESTING_DEPTH < pr_depth p" for p using that by (simp add: ok_def)
  then show ?case by (auto simp: parses_def)
next
  case (Suc n)
  have u: "parses n fits (later unary_at n)" and b: "parses n fits_block (later block_at n)"
    using Suc by (simp_all add: parses_def)
  note e = parses_logical_or [OF u]
  show ?case
    using parses_unary [OF u e parses_block_with [OF e b]] parses_block_with [OF e b] by simp
qed

lemma parses_expression: "parses (Suc MAX_NESTING_DEPTH) fits parse_expression"
  unfolding parse_expression_def by (rule parses_logical_or) (rule conjunct1 [OF parses_levels])

lemma parses_block: "parses (Suc MAX_NESTING_DEPTH) fits_block parse_block"
  unfolding parse_block_def by (rule conjunct2 [OF parses_levels])

section \<open>Programs\<close>

lemma parses_top_statement: "parses (Suc MAX_NESTING_DEPTH) statement_fits top_statement"
  using parses_webhook [OF parses_block] parses_resource [OF parses_block]
    parses_statement [OF parses_expression parses_block]
  by (auto simp: top_statement_def parses_def intro!: pwp_entrypoint_keyword split: option.split)

lemma pwp_program_loop:
  assumes fin: "\<And>ss q. ok q \<Longrightarrow> go p q \<Longrightarrow> list_all (statement_fits (room p q)) ss \<Longrightarrow>
      tok_kind (cur q) = TEof \<Longrightarrow> Q ss q"
  shows "go p q \<Longrightarrow> list_all (statement_fits (room p q)) ss \<Longrightarrow> length (pr_tokens q) \<le> k + pr_cursor q \<Longrightarrow>
    pwp (program_loop k found ss) Q q"
proof (induction k arbitrary: found ss q)
  case 0
  then show ?case using go_ok [OF 0(1)] by (simp add: ok_def)
next
  case (Suc k)
  have ok: "ok q" using Suc(2) by (rule go_ok)
  have "pwp (program_loop k found' (ss @ [st])) Q q'"
    if "go q q'" "pr_cursor q < pr_cursor q'" "statement_fits (room p q') st" for st q' found'
    using that Suc(4) go_trans [OF Suc(2) that(1)] statements_fit_mono [OF Suc(3) room_mono [OF that(1)]]
    by (intro Suc.IH) (auto simp: go_def went_def)
  then have "pwp top_statement (\<lambda>st. pwp (if is_entrypoint st \<and> found \<noteq> None then
         pfail (diagnostic_new ''K2002'' (''a source module may declare at most one '' @ backquoted ''webhook'' @ '', '' @
           backquoted ''queue'' @ '', or '' @ backquoted ''schedule'' @ '' entrypoint'') (st_span st))
       else program_loop k (if is_entrypoint st then Some (st_span st) else found) (ss @ [st])) Q) q"
    by (intro pwp_after_parses [OF parses_top_statement Suc(2)]) simp_all
  then show ?case using ok fin [OF ok Suc(2,3)] by simp
qed

lemma pwp_parse_program:
  assumes "token_stream t ts"
    and "\<And>ss q. list_all (within_s (MAX_TREE_DEPTH - 1)) ss \<Longrightarrow> Q ss q"
  shows "pwp parse_program Q (parser_new t ts)"
  unfolding parse_program_def pwp_simps
proof (rule pwp_program_loop [where p = "parser_new t ts"])
  have "ok (parser_new t ts)" using assms(1) by (simp add: ok_def parser_new_def structural_depth_def token_stream_def)
  then show "go (parser_new t ts) (parser_new t ts)" by simp
  fix ss q
  assume q: "ok q" "list_all (statement_fits (room (parser_new t ts) q)) ss"
  have "Suc (room (parser_new t ts) q) \<le> MAX_TREE_DEPTH - 1"
    using q(1) by (simp add: ok_def room_def parser_new_def structural_depth_def MAX_TREE_DEPTH_def)
  then show "Q ss q" using q(2) by (intro assms(2)) (auto simp: list_all_iff elim: within_s_mono)
qed simp_all

lemma parse_cases:
  assumes "token_stream (source_text src) ts"
  obtains ss where "parse src ts = Inr ss" "list_all (within_s (MAX_TREE_DEPTH - 1)) ss"
    | d where "parse src ts = Inl (Diag d)" "parse_error d"
proof -
  have "pwp parse_program (\<lambda>ss _. list_all (within_s (MAX_TREE_DEPTH - 1)) ss) (parser_new (source_text src) ts)"
    by (rule pwp_parse_program [OF assms])
  then show thesis
    by (auto simp: pwp_def parse_def split: sum.splits stop.splits intro: that)
qed

end
