(* ===== verification/Frontend.thy ===== *)
theory Frontend
  imports Lexer_Laws Parser_Programs
begin

text \<open>
  The lexer and the parser composed (\<open>krit/src/lib.rs\<close>, \<open>parse_source\<close>): the tokens of any UTF-8 source are a
  stream of the kind the parser relies on, so that parsing a source never panics and always returns.
\<close>

section \<open>The tokens of a source\<close>

definition parse_source :: "source \<Rightarrow> (stop, program) result" where
  "parse_source src = (case lex src of Inl d \<Rightarrow> Inl (Diag d) | Inr ts \<Rightarrow> parse src ts)"

definition on_boundaries :: "lexer \<Rightarrow> bool" where
  "on_boundaries lx \<longleftrightarrow>
     boundary (lx_text lx) (cursor lx) \<and>
     (\<forall>t \<in> set (lx_tokens lx).
        boundary (lx_text lx) (span_start (tok_span t)) \<and> boundary (lx_text lx) (span_end (tok_span t)))"

lemma on_boundaries_skip: "on_boundaries lx \<Longrightarrow> on_boundaries (skip_trivia lx)"
  using skip_trivia_skipped [of lx] by (simp add: on_boundaries_def skipped_def moved_def)

lemma on_boundaries_token:
  assumes "on_boundaries lx" "peek lx = Some c" "lex_token c (cursor lx) (bump lx) = Inr lx'"
  shows "on_boundaries lx'"
  using lex_token_pushes [OF assms(2,3)] assms(1)
  by (auto simp: on_boundaries_def token_new_def span_new_def)

lemma successively_stream:
  assumes "sorted_wrt follows ts" "\<forall>t \<in> set ts. boundary txt (span_start (tok_span t)) \<and> boundary txt (span_end (tok_span t))"
    "\<forall>t \<in> set ts. span_start (tok_span t) \<le> length txt"
  shows "successively (\<lambda>a b. range_ok txt (span_end (tok_span a)) (span_start (tok_span b))) ts"
  using assms
proof (induction ts rule: induct_list012)
  case (3 a b ts)
  then show ?case by (simp add: follows_def range_ok_def boundary_is_char)
qed simp_all

lemma lex_stream:
  assumes "list_all is_scalar cs" "source_text src = utf8 cs" "lex src = Inr ts"
  shows "token_stream (source_text src) ts"
proof -
  let ?t = "source_text src"
  obtain ls where ls: "scan (lexer_new ?t) = Inr ls" "ts = ls_tokens ls"
    using assms(3) by (auto simp: lex_def lex_with_comments_def map_sum_def split: sum.splits)
  have "\<exists>lx. (laid_out lx \<and> on_boundaries lx \<and> lx_text lx = ?t) \<and> length (lx_text lx) \<le> cursor lx \<and> ls = scan_end lx"
  proof (rule scan_inv [OF ls(1)])
    show "laid_out (lexer_new ?t) \<and> on_boundaries (lexer_new ?t) \<and> lx_text (lexer_new ?t) = ?t"
      using boundary_ends(1) [OF assms(1)] by (simp add: laid_out_def on_boundaries_def lexer_new_def assms(2))
  qed (use laid_out_token on_boundaries_token lex_token_pushes in \<open>fastforce simp: laid_out_skip on_boundaries_skip\<close>)+
  then obtain lx where lx: "laid_out lx" "on_boundaries lx" "lx_text lx = ?t" "ls = scan_end lx" by blast
  have e: "boundary ?t 0" "boundary ?t (length ?t)" using boundary_ends [OF assms(1)] assms(2) by simp_all
  have "sorted_wrt follows ts" "\<forall>t \<in> set ts. boundary ?t (span_start (tok_span t)) \<and> boundary ?t (span_end (tok_span t))"
    "\<forall>t \<in> set ts. span_start (tok_span t) \<le> length ?t"
    using lx e by (auto simp: ls(2) scan_end_def laid_out_def on_boundaries_def sorted_wrt_append follows_def
        token_new_def span_new_def)
  moreover have ne: "ts \<noteq> []" "tok_kind (last ts) = TEof"
    by (simp_all add: ls(2) lx(4) scan_end_def token_new_def)
  ultimately show ?thesis
    using e(1) hd_in_set [OF ne(1)] successively_stream [of ts ?t]
    by (simp add: token_stream_def range_ok_def boundary_is_char)
qed

section \<open>Evaluating the parser\<close>

text \<open>
  The definitions of the parser applied to a state, so that the simplifier runs a parsing function only where
  its state is known.
\<close>

lemmas parse_loops =
  enter_levels.simps items_loop.simps type_at.simps pattern_at.simps chain_loop.simps call_loop.simps
  hole_fields.simps string_parts.simps if_loop.simps arms_loop.simps block_loop.simps unary_at.simps
  program_loop.simps

lemmas parse_steps =
  pfail_def [THEN fun_cong] pguard_def [THEN fun_cong] current_def [THEN fun_cong] previous_def [THEN fun_cong]
  next_token_def [THEN fun_cong] check_def [THEN fun_cong] expected_def [THEN fun_cong]
  expect_def [THEN fun_cong] consume_kind_def [THEN fun_cong] consume_span_def [THEN fun_cong]
  reach_def [THEN fun_cong] enter_def [THEN fun_cong] enter_chain_link_def [THEN fun_cong]
  leave_def [THEN fun_cong] nested_def [THEN fun_cong] enter_levels.simps [THEN fun_cong]
  nested_levels_def [THEN fun_cong] with_construction_def [THEN fun_cong] items_loop.simps [THEN fun_cong]
  items_def [THEN fun_cong] parse_identifier_def [THEN fun_cong] binding_name_def [THEN fun_cong]
  record_type_field_def [THEN fun_cong] record_type_field_list_def [THEN fun_cong]
  record_type_fields_def [THEN fun_cong] type_argument_def [THEN fun_cong] type_arguments_def [THEN fun_cong]
  parse_type_kind_def [THEN fun_cong] type_with_def [THEN fun_cong] type_at.simps [THEN fun_cong]
  parse_type_def [THEN fun_cong] optional_type_def [THEN fun_cong] list_pattern_part_def [THEN fun_cong]
  list_shape_error_def [THEN fun_cong] list_pattern_def [THEN fun_cong] variant_payload_def [THEN fun_cong]
  pattern_with_def [THEN fun_cong] pattern_at.simps [THEN fun_cong] parse_pattern_def [THEN fun_cong]
  at_variant_pattern_def [THEN fun_cong] parse_variant_name_def [THEN fun_cong]
  variant_binding_def [THEN fun_cong] parse_variant_pattern_def [THEN fun_cong]
  parse_doc_comment_def [THEN fun_cong] word_habit_def [THEN fun_cong] statement_habit_def [THEN fun_cong]
  assignment_after_def [THEN fun_cong] mutation_operator_def [THEN fun_cong] else_return_def [THEN fun_cong]
  question_misuse_def [THEN fun_cong] height_above_def [THEN fun_cong] raise_peak_def [THEN fun_cong]
  chain_loop.simps [THEN fun_cong] parse_chain_def [THEN fun_cong] factor_def [THEN fun_cong]
  term_chain_def [THEN fun_cong] comparison_def [THEN fun_cong] equality_def [THEN fun_cong]
  logical_and_def [THEN fun_cong] logical_or_def [THEN fun_cong] arguments_def [THEN fun_cong]
  call_link_def [THEN fun_cong] field_link_def [THEN fun_cong] question_link_def [THEN fun_cong]
  call_loop.simps [THEN fun_cong] parse_call_def [THEN fun_cong] hole_fields.simps [THEN fun_cong]
  hole_value_def [THEN fun_cong] string_parts.simps [THEN fun_cong] parse_interpolation_def [THEN fun_cong]
  not_arrow_def [THEN fun_cong] close_group_def [THEN fun_cong] parenthesized_def [THEN fun_cong]
  list_element_def [THEN fun_cong] list_elements_def [THEN fun_cong] list_literal_def [THEN fun_cong]
  parse_record_field_def [THEN fun_cong] record_fields_def [THEN fun_cong] record_literal_def [THEN fun_cong]
  parse_construct_field_def [THEN fun_cong] construction_fields_def [THEN fun_cong]
  parse_construction_def [THEN fun_cong] restricted_construction_def [THEN fun_cong]
  if_loop.simps [THEN fun_cong] if_expression_def [THEN fun_cong] parse_parameter_def [THEN fun_cong]
  parameters_def [THEN fun_cong] function_expression_def [THEN fun_cong] arms_loop.simps [THEN fun_cong]
  match_arms_def [THEN fun_cong] parse_match_def [THEN fun_cong] parse_name_def [THEN fun_cong]
  unexpected_token_def [THEN fun_cong] primary_def [THEN fun_cong] unary_with_def [THEN fun_cong]
  let_else_arm_def [THEN fun_cong] no_assignment_def [THEN fun_cong] parse_let_else_def [THEN fun_cong]
  let_declaration_def [THEN fun_cong] function_rest_def [THEN fun_cong]
  function_declaration_def [THEN fun_cong] webhook_declaration_def [THEN fun_cong]
  entrypoint_keyword_def [THEN fun_cong] resource_entrypoint_declaration_def [THEN fun_cong]
  nested_entrypoint_keyword_def [THEN fun_cong] no_nested_entrypoint_def [THEN fun_cong]
  at_function_def [THEN fun_cong] bare_expression_def [THEN fun_cong] parse_statement_def [THEN fun_cong]
  block_loop.simps [THEN fun_cong] parse_block_contents_def [THEN fun_cong] block_with_def [THEN fun_cong]
  unary_at.simps [THEN fun_cong] parse_expression_def [THEN fun_cong] parse_block_def [THEN fun_cong]
  top_statement_def [THEN fun_cong] program_loop.simps [THEN fun_cong] parse_program_def [THEN fun_cong]

lemmas levels_numeral =
  unary_at.simps(2) [of "pred_numeral k" for k, folded numeral_eq_Suc, THEN fun_cong]
  block_at.simps(2) [of "pred_numeral k" for k, folded numeral_eq_Suc, THEN fun_cong]

lemmas parse_eval =
  parse_steps levels_numeral is_char_boundary_def
  nesting_error_def structural_error_def pret_def pstop_def pbind_def pget_def pput_def token_at_def
  token_get_def kind_get_def is_identifier_kind_def structural_depth_def later_def starts_operand_only_def
  starts_expression_def colon_found_def close_level_def scan_token_def ternary_scan.simps ternary_colons_def
  parser_new_def reserved_names_def simple_types_def duplicate_error_def variant_of_def same_binder_def
  pattern_expected_def must_bind_error_def none_binds_error_def unknown_variant_def nested_let_else_def
  range_ok_def trim_start_def trim_end_def strip_prefix_def doc_line_text_def broken_lines.simps
  doc_lines.simps doc_comment_before_def arrow_function_def ternary_def is_settled_def same_line_def
  follows_as_operand_def matching_from.simps matching_paren_def arrow_after_group_def compound_assignment_def
  mutation_error_def set_peak_def binary_def or_operator_def and_operator_def equality_operator_def
  comparison_operator_def term_operator_def factor_operator_def digits_value_def parse_i128_def mixed_list_def
  empty_entries_error_def if_link_def unary_operator_of_def else_expected_def brace_before_else_def
  else_block_error_def is_entrypoint_def parse_def ternary_after_def or_arrow_def source_new_def token_new_def
  span_new_def span_join_def of_word_def habit_words_def contract_from_name_def MAX_NESTING_DEPTH_def
  MAX_STRUCTURAL_DEPTH_def ascii_nat

lemma x_parsed:
  "parse (source_new ''a'' ''x;'')
     [token_new (TIdentifier ''x'') (span_new 0 1), token_new TSemicolon (span_new 1 2), token_new TEof (span_new 2 2)] =
   Inr [Statement (ExpressionStmt (Expression (Variable ''x'') (span_new 0 1))) (span_new 0 2)]"
  by (simp add: parse_eval del: parse_loops)

lemma webhook_parsed:
  "parse (source_new ''a'' ''webhook fn f() { 1 }'')
     [token_new TWebhook (span_new 0 7), token_new TFn (span_new 8 10), token_new (TIdentifier ''f'') (span_new 11 12),
      token_new TLeftParen (span_new 12 13), token_new TRightParen (span_new 13 14), token_new TLeftBrace (span_new 15 16),
      token_new (TInteger ''1'') (span_new 17 18), token_new TRightBrace (span_new 19 20), token_new TEof (span_new 20 20)] =
   Inr [Statement (Webhook ''f'' [] None
      (Block [] (Some (Expression (Literal (IntegerLit 1)) (span_new 17 18))) (span_new 15 20)) None) (span_new 0 20)]"
  by (simp add: parse_eval del: parse_loops)

section \<open>Properties\<close>



text \<open>C4: Lexing and parsing any UTF-8 text returns a diagnostic or a program, and no expression or block of the
  program lies deeper than the levels that analysis and lowering allow.\<close>

theorem parse_source_bounded:
  assumes "list_all is_scalar cs"
  shows "case parse_source (source_new name (utf8 cs)) of
      Inr prog \<Rightarrow> list_all (within_s (MAX_TREE_DEPTH - 1)) prog
    | Inl (Diag d) \<Rightarrow> True | Inl Panic \<Rightarrow> False | Inl OutOfFuel \<Rightarrow> False"
proof (cases "lex (source_new name (utf8 cs))")
  case (Inr ts)
  have "token_stream (source_text (source_new name (utf8 cs))) ts"
    using lex_stream [OF assms _ Inr] by (simp add: source_new_def)
  then show ?thesis by (rule parse_cases) (simp_all add: parse_source_def Inr)
qed (simp add: parse_source_def)

theorem parse_source_bounded_witness:
  "case parse_source (source_new ''a'' (utf8 [0x66, 0x6E, 0x20, 0xE9])) of
      Inr prog \<Rightarrow> list_all (within_s (MAX_TREE_DEPTH - 1)) prog
    | Inl (Diag d) \<Rightarrow> True | Inl Panic \<Rightarrow> False | Inl OutOfFuel \<Rightarrow> False"
  by (rule parse_source_bounded) (simp add: is_scalar_def)

lemma program_loop_entrypoints:
  assumes "program_loop k found ss p = Inr (prog, p')" "length (filter is_entrypoint ss) \<le> (if found = None then 0 else 1)"
  shows "length (filter is_entrypoint prog) \<le> 1"
  using assms
proof (induction k arbitrary: found ss p)
  case (Suc k)
  then show ?case
    by (auto simp: pbind_def pret_def pfail_def pstop_def split: sum.splits if_splits prod.splits option.splits
        elim!: Suc.IH)
qed (simp add: pstop_def)

text \<open>C40: A program that parses declares at most one entrypoint, whatever its kind.\<close>

theorem parse_one_entrypoint:
  assumes "parse src ts = Inr prog"
  shows "length (filter is_entrypoint prog) \<le> 1"
proof -
  obtain p' where "parse_program (parser_new (source_text src) ts) = Inr (prog, p')"
    using assms by (auto simp: parse_def map_sum_def split: sum.splits)
  then show ?thesis
    using program_loop_entrypoints [of _ None "[]"] by (simp add: parse_program_def pbind_def pget_def)
qed

theorem parse_one_entrypoint_witness:
  "length (filter is_entrypoint [Statement (Webhook ''f'' [] None
      (Block [] (Some (Expression (Literal (IntegerLit 1)) (span_new 17 18))) (span_new 15 20)) None) (span_new 0 20)]) \<le> 1"
  by (rule parse_one_entrypoint [OF webhook_parsed])

end
