(* ===== verification/Inference.thy ===== *)
theory Inference
  imports Parser Values
begin

text \<open>
  The type solver of the analysis (\<open>krit/src/analysis.rs\<close>): inferred types with type and effect variables,
  unification with open records and built-in contract types, the cached heights that bound inferred types,
  effect sets and the printing of types.

  A solver function returns its outcome with the solver as it left it, since what a failed unification
  changed stays changed.  \<open>Panics\<close> is an index out of range or an \<open>unreachable!\<close>, \<open>Diverges\<close> the model running
  out of fuel.
\<close>

section \<open>Effects\<close>

datatype effect =
    AiInvoke | CacheRead | CacheWrite | ConfigRead | DatabaseRead | DatabaseWrite | HttpRequestEffect | IoStdout
  | ObjectRead | ObjectWrite | ObserveLog | QueueConsume | QueuePublish | ScheduleTrigger | SearchQuery
  | SearchVector | SecretRead | StateTransaction

fun effect_as_str :: "effect \<Rightarrow> str" where
  "effect_as_str AiInvoke = ''ai.invoke''"
| "effect_as_str CacheRead = ''cache.read''"
| "effect_as_str CacheWrite = ''cache.write''"
| "effect_as_str ConfigRead = ''config.read''"
| "effect_as_str DatabaseRead = ''database.read''"
| "effect_as_str DatabaseWrite = ''database.write''"
| "effect_as_str HttpRequestEffect = ''http.request''"
| "effect_as_str IoStdout = ''io.stdout''"
| "effect_as_str ObjectRead = ''object.read''"
| "effect_as_str ObjectWrite = ''object.write''"
| "effect_as_str ObserveLog = ''observe.log''"
| "effect_as_str QueueConsume = ''queue.consume''"
| "effect_as_str QueuePublish = ''queue.publish''"
| "effect_as_str ScheduleTrigger = ''schedule.trigger''"
| "effect_as_str SearchQuery = ''search.query''"
| "effect_as_str SearchVector = ''search.vector''"
| "effect_as_str SecretRead = ''secret.read''"
| "effect_as_str StateTransaction = ''state.transaction''"

text \<open>The derived order is the order of declaration, which is that of the names.\<close>

fun effect_rank :: "effect \<Rightarrow> nat" where
  "effect_rank AiInvoke = 0" | "effect_rank CacheRead = 1" | "effect_rank CacheWrite = 2"
| "effect_rank ConfigRead = 3" | "effect_rank DatabaseRead = 4" | "effect_rank DatabaseWrite = 5"
| "effect_rank HttpRequestEffect = 6" | "effect_rank IoStdout = 7" | "effect_rank ObjectRead = 8"
| "effect_rank ObjectWrite = 9" | "effect_rank ObserveLog = 10" | "effect_rank QueueConsume = 11"
| "effect_rank QueuePublish = 12" | "effect_rank ScheduleTrigger = 13" | "effect_rank SearchQuery = 14"
| "effect_rank SearchVector = 15" | "effect_rank SecretRead = 16" | "effect_rank StateTransaction = 17"

lemma effect_rank_inj: "effect_rank a = effect_rank b \<longleftrightarrow> a = b"
  by (cases a; cases b) simp_all

instantiation effect :: linorder
begin

definition less_eq_effect :: "effect \<Rightarrow> effect \<Rightarrow> bool" where
  "less_eq_effect a b \<longleftrightarrow> effect_rank a \<le> effect_rank b"

definition less_effect :: "effect \<Rightarrow> effect \<Rightarrow> bool" where
  "less_effect a b \<longleftrightarrow> effect_rank a < effect_rank b"

instance
  by standard (auto simp: less_eq_effect_def less_effect_def effect_rank_inj)

end

datatype capability_requirement = Requirement (req_capability: effect) (req_resource: str)

instantiation capability_requirement :: linorder
begin

definition less_eq_capability_requirement :: "capability_requirement \<Rightarrow> capability_requirement \<Rightarrow> bool" where
  "less_eq_capability_requirement a b \<longleftrightarrow>
     req_capability a < req_capability b \<or> req_capability a = req_capability b \<and> req_resource a \<le> req_resource b"

definition less_capability_requirement :: "capability_requirement \<Rightarrow> capability_requirement \<Rightarrow> bool" where
  "less_capability_requirement a b \<longleftrightarrow>
     req_capability a < req_capability b \<or> req_capability a = req_capability b \<and> req_resource a < req_resource b"

instance
  by standard
     (auto simp: less_eq_capability_requirement_def less_capability_requirement_def capability_requirement.expand)

end

text \<open>\<open>EffectSet\<close> and \<open>RequirementSet\<close>: the elements of a \<open>BTreeSet\<close> in order.\<close>

definition effect_set :: "effect set \<Rightarrow> effect list" where
  "effect_set es = sorted_list_of_set es"

definition requirement_set :: "capability_requirement set \<Rightarrow> capability_requirement list" where
  "requirement_set rs = sorted_list_of_set rs"

definition set_display :: "('a \<Rightarrow> str) \<Rightarrow> 'a list \<Rightarrow> str" where
  "set_display show_one xs = ''{'' @ join '', '' (map show_one xs) @ ''}''"

text \<open>\<open>dbg\<close> is the \<open>Debug\<close> form of a string.\<close>

definition requirement_display :: "(str \<Rightarrow> str) \<Rightarrow> capability_requirement \<Rightarrow> str" where
  "requirement_display dbg r = effect_as_str (req_capability r) @ ''('' @ dbg (req_resource r) @ '')''"

section \<open>Types\<close>

datatype public_type =
    PInt | PBool | PString | PUnit | PHttpHeader | PHttpRequest | PHttpResponse | PLogField | PQueueJob
  | PScheduleEvent | PDatabaseTransaction | PSecret | PList public_type | PRecord "(str \<times> public_type) list"
  | POption public_type | PResult public_type public_type
  | PFunction "public_type list" public_type "effect list" "capability_requirement list" | PVariable nat

definition type_variable_name :: "nat \<Rightarrow> str" where
  "type_variable_name n =
     (let letter = char_of (97 + n mod 26) in if n < 26 then [letter] else letter # show_nat (n div 26))"

fun public_display :: "(str \<Rightarrow> str) \<Rightarrow> public_type \<Rightarrow> str" where
  "public_display dbg PInt = ''Int''"
| "public_display dbg PBool = ''Bool''"
| "public_display dbg PString = ''String''"
| "public_display dbg PUnit = ''Unit''"
| "public_display dbg PHttpHeader = ''HttpHeader''"
| "public_display dbg PHttpRequest = ''HttpRequest''"
| "public_display dbg PHttpResponse = ''HttpResponse''"
| "public_display dbg PLogField = ''LogField''"
| "public_display dbg PQueueJob = ''QueueJob''"
| "public_display dbg PScheduleEvent = ''ScheduleEvent''"
| "public_display dbg PDatabaseTransaction = ''DatabaseTransaction''"
| "public_display dbg PSecret = ''Secret''"
| "public_display dbg (PList t) = ''List<'' @ public_display dbg t @ ''>''"
| "public_display dbg (PRecord fs) =
     ''Record { '' @ join '', '' (map (\<lambda>(name, t). name @ '': '' @ public_display dbg t) fs) @ '' }''"
| "public_display dbg (POption t) = ''Option<'' @ public_display dbg t @ ''>''"
| "public_display dbg (PResult t e) = ''Result<'' @ public_display dbg t @ '', '' @ public_display dbg e @ ''>''"
| "public_display dbg (PFunction ps r es rs) =
     ''fn('' @ join '', '' (map (public_display dbg) ps) @ '') -> '' @ public_display dbg r @
     '' effects '' @ set_display effect_as_str es @
     (if rs = [] then [] else '' requirements '' @ set_display (requirement_display dbg) rs)"
| "public_display dbg (PVariable n) = CHR 0x27 # type_variable_name n"

datatype infer_type =
    IInt | IBool | IString | IUnit | IHttpHeader | IHttpRequest | IHttpResponse | ILogField | IQueueJob
  | IScheduleEvent | IDatabaseTransaction | ISecret | IList infer_type
  | IRecord "(str \<times> infer_type) list" bool
  | IOption infer_type | IResult infer_type infer_type
  | IFunction "infer_type list" infer_type nat | IVariable nat

record infer_effects =
  direct :: "effect set"
  direct_requirements :: "capability_requirement set"
  dependencies :: "nat set"

definition no_effects :: infer_effects where
  "no_effects = \<lparr>direct = {}, direct_requirements = {}, dependencies = {}\<rparr>"

definition effects_union :: "infer_effects \<Rightarrow> infer_effects \<Rightarrow> infer_effects" where
  "effects_union a b =
     \<lparr>direct = direct a \<union> direct b, direct_requirements = direct_requirements a \<union> direct_requirements b,
      dependencies = dependencies a \<union> dependencies b\<rparr>"

text \<open>The children of a type, in the order every walk visits them.\<close>

fun children :: "infer_type \<Rightarrow> infer_type list" where
  "children (IList t) = [t]"
| "children (IOption t) = [t]"
| "children (IResult t e) = [t, e]"
| "children (IRecord fs _) = map snd fs"
| "children (IFunction ps r _) = ps @ [r]"
| "children _ = []"

definition is_constructed :: "infer_type \<Rightarrow> bool" where
  "is_constructed t \<longleftrightarrow>
     (case t of IList _ \<Rightarrow> True | IOption _ \<Rightarrow> True | IResult _ _ \<Rightarrow> True | IRecord _ _ \<Rightarrow> True | IFunction _ _ _ \<Rightarrow> True
      | _ \<Rightarrow> False)"

section \<open>The solver\<close>

datatype ('e, 'a) outcome = Done 'a | Failed 'e | Panics | Diverges

record solver =
  type_parents :: "nat list"
  substitutions :: "nat \<rightharpoonup> infer_type"
  effect_definitions :: "infer_effects list"
  type_heights :: "nat list"
  type_dependents :: "nat set list"
  type_depth_error :: "diagnostic option"

definition solver_new :: solver where
  "solver_new =
     \<lparr>type_parents = [], substitutions = Map.empty, effect_definitions = [], type_heights = [],
      type_dependents = [], type_depth_error = None\<rparr>"

text \<open>A fresh type variable is the number of variables so far, which is \<open>next_type_variable\<close>.\<close>

definition fresh_type :: "solver \<Rightarrow> infer_type \<times> solver" where
  "fresh_type st =
     (let v = length (type_parents st) in
      (IVariable v,
       st\<lparr>type_parents := type_parents st @ [v], type_heights := type_heights st @ [0],
          type_dependents := type_dependents st @ [{}]\<rparr>))"

definition fresh_effect :: "solver \<Rightarrow> nat \<times> solver" where
  "fresh_effect st =
     (length (effect_definitions st), st\<lparr>effect_definitions := effect_definitions st @ [no_effects]\<rparr>)"

text \<open>
  The loop of \<open>root_variable\<close>.  Each step leaves a variable that is not a root for good, so as many steps as
  there are variables are enough.
\<close>

fun root_from :: "nat \<Rightarrow> nat list \<Rightarrow> nat \<Rightarrow> nat" where
  "root_from 0 ps v = v"
| "root_from (Suc n) ps v = (if ps ! v = v then v else root_from n ps (ps ! v))"

definition root_variable :: "solver \<Rightarrow> nat \<Rightarrow> nat" where
  "root_variable st v = root_from (length (type_parents st)) (type_parents st) v"

definition resolve_head :: "solver \<Rightarrow> infer_type \<Rightarrow> infer_type" where
  "resolve_head st t =
     (case t of
        IVariable v \<Rightarrow>
          let r = root_variable st v in
          (case substitutions st r of Some b \<Rightarrow> b | None \<Rightarrow> IVariable r)
      | _ \<Rightarrow> t)"

definition type_cutoff :: nat where
  "type_cutoff = MAX_NESTING_DEPTH + 1"

function resolved_height :: "solver \<Rightarrow> infer_type \<Rightarrow> nat \<Rightarrow> nat" where
  "resolved_height st t depth =
     (if type_cutoff \<le> depth then type_cutoff
      else case t of
        IVariable v \<Rightarrow> type_heights st ! root_variable st v
      | _ \<Rightarrow>
          if is_constructed t
          then 1 + foldl max 0 (map (\<lambda>c. resolved_height st c (depth + 1)) (children t))
          else 0)"
  by pat_completeness auto
termination
  by (relation "measure (\<lambda>(_, _, depth). type_cutoff - depth)") simp_all

declare resolved_height.simps [simp del]

fun type_variables :: "infer_type \<Rightarrow> nat set" where
  "type_variables (IVariable v) = {v}"
| "type_variables (IList t) = type_variables t"
| "type_variables (IOption t) = type_variables t"
| "type_variables (IResult t e) = type_variables t \<union> type_variables e"
| "type_variables (IRecord fs _) = \<Union> (set (map (\<lambda>(_, t). type_variables t) fs))"
| "type_variables (IFunction ps r _) = \<Union> (set (map type_variables ps)) \<union> type_variables r"
| "type_variables _ = {}"

definition mentioned_roots :: "solver \<Rightarrow> infer_type \<Rightarrow> nat set" where
  "mentioned_roots st t = root_variable st ` type_variables t"

section \<open>Heights\<close>

definition type_depth_diagnostic :: "span \<Rightarrow> diagnostic" where
  "type_depth_diagnostic s =
     diagnostic_new ''K1005'' (''nesting depth limit exceeded: inferred types may nest at most '' @
       show_nat MAX_NESTING_DEPTH @ '' levels'') s"

lemma heights_left_less:
  assumes "i < length hs" "hs ! i < h" "h \<le> (m :: nat)"
  shows "sum_list (map (\<lambda>x. m - x) (hs[i := h])) < sum_list (map (\<lambda>x. m - x) hs)"
  using assms by (induction hs arbitrary: i) (auto simp: nth_Cons split: nat.splits)

text \<open>The pending variables are a stack, its top first; the variables that depend on one are pushed in order.\<close>

function refresh_type_heights :: "span \<Rightarrow> nat list \<Rightarrow> solver \<Rightarrow> (diagnostic, unit) outcome \<times> solver" where
  "refresh_type_heights s [] st = (Done (), st)"
| "refresh_type_heights s (v # pending) st =
     (let root = root_variable st v in
      case substitutions st root of
        None \<Rightarrow> refresh_type_heights s pending st
      | Some b \<Rightarrow>
          if length (type_heights st) \<le> root \<or> length (type_dependents st) \<le> root then (Panics, st)
          else
            let height = resolved_height st b 0 in
            if height \<le> type_heights st ! root then refresh_type_heights s pending st
            else if MAX_NESTING_DEPTH < height then
              (Failed (type_depth_diagnostic s), st\<lparr>type_depth_error := Some (type_depth_diagnostic s)\<rparr>)
            else
              refresh_type_heights s (rev (sorted_list_of_set (type_dependents st ! root)) @ pending)
                (st\<lparr>type_heights := (type_heights st)[root := height]\<rparr>))"
  by pat_completeness auto

termination
proof (relation "inv_image (less_than <*lex*> less_than)
    (\<lambda>(_, pending, st). (sum_list (map (\<lambda>h. MAX_NESTING_DEPTH - h) (type_heights st)), length pending))")
  fix s v pending st root b height
  assume "root = root_variable st v" "substitutions st root = Some b"
    "\<not> (length (type_heights st) \<le> root \<or> length (type_dependents st) \<le> root)"
    "height = resolved_height st b 0" "\<not> height \<le> type_heights st ! root" "\<not> MAX_NESTING_DEPTH < height"
  then show "((s, rev (sorted_list_of_set (type_dependents st ! root)) @ pending,
       st\<lparr>type_heights := (type_heights st)[root := height]\<rparr>), s, v # pending, st)
    \<in> inv_image (less_than <*lex*> less_than)
      (\<lambda>(_, pending, st). (sum_list (map (\<lambda>h. MAX_NESTING_DEPTH - h) (type_heights st)), length pending))"
    using heights_left_less [of root "type_heights st" height MAX_NESTING_DEPTH] by simp
qed auto

declare refresh_type_heights.simps [simp del]

definition add_dependent :: "nat \<Rightarrow> nat set \<Rightarrow> nat set list \<Rightarrow> nat set list" where
  "add_dependent v roots ds = map (\<lambda>i. if i \<in> roots then insert v (ds ! i) else ds ! i) [0..<length ds]"

definition set_binding :: "nat \<Rightarrow> infer_type \<Rightarrow> span \<Rightarrow> solver \<Rightarrow> (diagnostic, unit) outcome \<times> solver" where
  "set_binding v t s st =
     (let roots = mentioned_roots st t in
      if \<exists>r \<in> roots. length (type_dependents st) \<le> r then (Panics, st)
      else
        refresh_type_heights s [v]
          (st\<lparr>type_dependents := add_dependent v roots (type_dependents st),
              substitutions := (substitutions st)(v \<mapsto> t)\<rparr>))"

definition alias_variable :: "nat \<Rightarrow> nat \<Rightarrow> span \<Rightarrow> solver \<Rightarrow> (diagnostic, unit) outcome \<times> solver" where
  "alias_variable alias root s st =
     (let n = length (type_parents st) in
      if n \<le> alias \<or> n \<le> root \<or> length (type_heights st) \<noteq> n \<or> length (type_dependents st) \<noteq> n then (Panics, st)
      else
        let raised = type_heights st ! root < type_heights st ! alias;
            dependents = type_dependents st ! alias;
            above = (if raised then sorted_list_of_set (type_dependents st ! root) else []);
            pending = above @ sorted_list_of_set dependents;
            st' = st\<lparr>type_parents := (type_parents st)[alias := root],
                     type_heights :=
                       (if raised then (type_heights st)[root := type_heights st ! alias] else type_heights st),
                     type_dependents :=
                       (type_dependents st)[alias := {}, root := type_dependents st ! root \<union> dependents]\<rparr> in
        refresh_type_heights s (rev pending) st')"

section \<open>Searching types\<close>

text \<open>\<open>any\<close> with its short circuit; the visited variables pass from one child to the next.\<close>

fun any_walk ::
  "(infer_type \<Rightarrow> nat set \<Rightarrow> (bool \<times> nat set) option) \<Rightarrow> infer_type list \<Rightarrow> nat set \<Rightarrow> (bool \<times> nat set) option" where
  "any_walk f [] visited = Some (False, visited)"
| "any_walk f (t # ts) visited =
     (case f t visited of
        None \<Rightarrow> None
      | Some (True, visited') \<Rightarrow> Some (True, visited')
      | Some (False, visited') \<Rightarrow> any_walk f ts visited')"

lemma any_walk_cong [fundef_cong]:
  "ts = ts' \<Longrightarrow> visited = visited' \<Longrightarrow> (\<And>t vs. t \<in> set ts' \<Longrightarrow> f t vs = g t vs) \<Longrightarrow>
     any_walk f ts visited = any_walk g ts' visited'"
  by (induction ts arbitrary: ts' visited visited') (auto split: option.splits bool.splits)

lemma children_size: "c \<in> set (children t) \<Longrightarrow> size c < size t"
proof (cases t)
  case (IRecord fs open_record)
  assume "c \<in> set (children t)"
  then obtain name where "(name, c) \<in> set fs" using IRecord by auto
  then have "size_prod (\<lambda>_. 0) size (name, c) < Suc (size_list (size_prod (\<lambda>_. 0) size) fs)"
    by (meson le_imp_less_Suc size_list_estimation' order_refl)
  then show ?thesis using IRecord by simp
next
  case (IFunction ps r e)
  assume "c \<in> set (children t)"
  then have "c \<in> set ps \<or> c = r" using IFunction by auto
  moreover have "c \<in> set ps \<Longrightarrow> size c \<le> size_list size ps" by (rule size_list_estimation' [of c]) simp_all
  ultimately show ?thesis using IFunction by auto
qed auto

text \<open>
  One walk over a type: \<open>hit\<close> decides the types found at once, \<open>visit\<close> a variable.
\<close>

function walk_type ::
  "(infer_type \<Rightarrow> bool) \<Rightarrow> (nat \<Rightarrow> nat set \<Rightarrow> (bool \<times> nat set) option) \<Rightarrow> infer_type \<Rightarrow> nat set \<Rightarrow>
     (bool \<times> nat set) option" where
  "walk_type hit visit t visited =
     (if hit t then Some (True, visited)
      else case t of
        IVariable v \<Rightarrow> visit v visited
      | _ \<Rightarrow> any_walk (walk_type hit visit) (children t) visited)"
  by pat_completeness auto
termination
  by (relation "measure (\<lambda>(_, _, t, _). size t)") (simp_all only: wf_measure in_measure prod.case children_size)

declare walk_type.simps [simp del]

text \<open>The walk through the bindings: each variable is visited once, so one level per variable is enough fuel.\<close>

fun search_at ::
  "nat \<Rightarrow> solver \<Rightarrow> (infer_type \<Rightarrow> bool) \<Rightarrow> (nat \<Rightarrow> bool) \<Rightarrow> infer_type \<Rightarrow> nat set \<Rightarrow> (bool \<times> nat set) option" where
  "search_at 0 st hit target t visited = None"
| "search_at (Suc n) st hit target t visited =
     walk_type hit
       (\<lambda>v visited.
          let r = root_variable st v in
          if target r then Some (True, visited)
          else if r \<in> visited then Some (False, visited)
          else
            (case substitutions st r of
               None \<Rightarrow> Some (False, insert r visited)
             | Some b \<Rightarrow> search_at n st hit target b (insert r visited)))
       t visited"

definition search :: "solver \<Rightarrow> (infer_type \<Rightarrow> bool) \<Rightarrow> (nat \<Rightarrow> bool) \<Rightarrow> infer_type \<Rightarrow> bool option" where
  "search st hit target t = map_option fst (search_at (Suc (length (type_parents st))) st hit target t {})"

definition occurs :: "solver \<Rightarrow> nat \<Rightarrow> infer_type \<Rightarrow> bool option" where
  "occurs st v t = search st (\<lambda>_. False) (\<lambda>r. root_variable st v = r) t"

definition contains_secret :: "solver \<Rightarrow> infer_type \<Rightarrow> bool option" where
  "contains_secret st t = search st (\<lambda>t. t = ISecret) (\<lambda>_. False) t"

definition contains_transaction :: "solver \<Rightarrow> infer_type \<Rightarrow> bool option" where
  "contains_transaction st t = search st (\<lambda>t. t = IDatabaseTransaction) (\<lambda>_. False) t"

definition is_function :: "infer_type \<Rightarrow> bool" where
  "is_function t \<longleftrightarrow> (case t of IFunction _ _ _ \<Rightarrow> True | _ \<Rightarrow> False)"

definition contains_no_function :: "solver \<Rightarrow> infer_type \<Rightarrow> bool option" where
  "contains_no_function st t =
     map_option (\<lambda>found. \<not> found)
       (search st (\<lambda>t. is_function t \<or> t = IDatabaseTransaction \<or> t = ISecret) (\<lambda>_. False) t)"

section \<open>Effects of functions\<close>

definition link_effects :: "nat \<Rightarrow> nat \<Rightarrow> solver \<Rightarrow> ('e, unit) outcome \<times> solver" where
  "link_effects l r st =
     (let ds = effect_definitions st in
      if l = r then (Done (), st)
      else if length ds \<le> l \<or> length ds \<le> r then (Panics, st)
      else
        (Done (),
         st\<lparr>effect_definitions :=
              ds[l := (ds ! l)\<lparr>dependencies := insert r (dependencies (ds ! l))\<rparr>,
                 r := (ds ! r)\<lparr>dependencies := insert l (dependencies (ds ! r))\<rparr>]\<rparr>))"

text \<open>What the body of a function or a built-in does is added to the effects of its function type.\<close>

definition record_effects :: "nat \<Rightarrow> infer_effects \<Rightarrow> solver \<Rightarrow> solver" where
  "record_effects e es st =
     st\<lparr>effect_definitions :=
          (effect_definitions st)[e := effects_union (effect_definitions st ! e) es]\<rparr>"

text \<open>One round of the loop of \<open>expanded_effects\<close> and \<open>expanded_requirements\<close>.\<close>

definition expand_round :: "nat set list \<Rightarrow> 'a set list \<Rightarrow> 'a set list" where
  "expand_round deps sets =
     map (\<lambda>i. sets ! i \<union> (\<Union>d \<in> deps ! i. sets ! d)) [0..<length sets]"

fun expand_loop :: "nat \<Rightarrow> nat set list \<Rightarrow> 'a set list \<Rightarrow> 'a set list option" where
  "expand_loop 0 deps sets = None"
| "expand_loop (Suc n) deps sets =
     (let expanded = expand_round deps sets in
      if expanded = sets then Some sets else expand_loop n deps expanded)"

definition expand :: "nat set list \<Rightarrow> 'a set list \<Rightarrow> 'a set list option" where
  "expand deps start = expand_loop (sum_list (map card deps) + 2) deps start"

definition expanded_effects :: "solver \<Rightarrow> effect set list option" where
  "expanded_effects st =
     expand (map dependencies (effect_definitions st)) (map direct (effect_definitions st))"

definition expanded_requirements :: "solver \<Rightarrow> capability_requirement set list option" where
  "expanded_requirements st =
     expand (map dependencies (effect_definitions st)) (map direct_requirements (effect_definitions st))"

definition resolve_effects :: "infer_effects \<Rightarrow> effect set list \<Rightarrow> effect set" where
  "resolve_effects es expanded = direct es \<union> (\<Union>d \<in> dependencies es. expanded ! d)"

definition resolve_requirements ::
  "infer_effects \<Rightarrow> capability_requirement set list \<Rightarrow> capability_requirement set" where
  "resolve_requirements es expanded = direct_requirements es \<union> (\<Union>d \<in> dependencies es. expanded ! d)"

section \<open>Printing inferred types\<close>

record normalizer =
  nz_variables :: "(nat \<times> nat) list"
  nz_normalized :: "nat \<rightharpoonup> public_type"

type_synonym normalizing = "infer_type \<Rightarrow> normalizer \<Rightarrow> (public_type \<times> normalizer) option"

fun normalize_all :: "normalizing \<Rightarrow> infer_type list \<Rightarrow> normalizer \<Rightarrow> (public_type list \<times> normalizer) option" where
  "normalize_all f [] nz = Some ([], nz)"
| "normalize_all f (t # ts) nz =
     (case f t nz of
        None \<Rightarrow> None
      | Some (p, nz') \<Rightarrow> map_option (\<lambda>(ps, nz''). (p # ps, nz'')) (normalize_all f ts nz'))"

fun rebuild :: "infer_type \<Rightarrow> public_type list \<Rightarrow> effect set list \<Rightarrow> capability_requirement set list \<Rightarrow> public_type" where
  "rebuild IInt ps es rs = PInt"
| "rebuild IBool ps es rs = PBool"
| "rebuild IString ps es rs = PString"
| "rebuild IUnit ps es rs = PUnit"
| "rebuild IHttpHeader ps es rs = PHttpHeader"
| "rebuild IHttpRequest ps es rs = PHttpRequest"
| "rebuild IHttpResponse ps es rs = PHttpResponse"
| "rebuild ILogField ps es rs = PLogField"
| "rebuild IQueueJob ps es rs = PQueueJob"
| "rebuild IScheduleEvent ps es rs = PScheduleEvent"
| "rebuild IDatabaseTransaction ps es rs = PDatabaseTransaction"
| "rebuild ISecret ps es rs = PSecret"
| "rebuild (IList _) ps es rs = PList (hd ps)"
| "rebuild (IOption _) ps es rs = POption (hd ps)"
| "rebuild (IResult _ _) ps es rs = PResult (hd ps) (ps ! 1)"
| "rebuild (IRecord fs _) ps es rs = PRecord (zip (map fst fs) ps)"
| "rebuild (IFunction _ _ e) ps es rs =
     PFunction (butlast ps) (last ps) (effect_set (es ! e)) (requirement_set (rs ! e))"
| "rebuild (IVariable v) ps es rs = PVariable v"

definition normalize_variable :: "solver \<Rightarrow> normalizing \<Rightarrow> nat \<Rightarrow> normalizer \<Rightarrow> (public_type \<times> normalizer) option" where
  "normalize_variable st f v nz =
     (let r = root_variable st v in
      case nz_normalized nz r of
        Some p \<Rightarrow> Some (p, nz)
      | None \<Rightarrow>
          (case substitutions st r of
             Some b \<Rightarrow>
               map_option (\<lambda>(p, nz'). (p, nz'\<lparr>nz_normalized := (nz_normalized nz')(r \<mapsto> p)\<rparr>)) (f b nz)
           | None \<Rightarrow>
               let next_id = length (nz_variables nz) in
               (case om_get (nz_variables nz) r of
                  Some n \<Rightarrow> Some (PVariable n, nz)
                | None \<Rightarrow>
                    Some (PVariable next_id, nz\<lparr>nz_variables := om_insert r next_id (nz_variables nz)\<rparr>))))"

fun normalize_at :: "nat \<Rightarrow> solver \<Rightarrow> effect set list \<Rightarrow> capability_requirement set list \<Rightarrow> normalizing" where
  "normalize_at 0 st es rs t nz = None"
| "normalize_at (Suc n) st es rs t nz =
     (case t of
        IVariable v \<Rightarrow> normalize_variable st (normalize_at n st es rs) v nz
      | _ \<Rightarrow>
          map_option (\<lambda>(ps, nz'). (rebuild t ps es rs, nz'))
            (normalize_all (normalize_at n st es rs) (children t) nz))"

text \<open>
  A type of height \<open>h\<close> is printed within \<open>2 * h + 2\<close> nested calls, and its height is at most its own size and
  the height that variables may have.
\<close>

definition normalize :: "solver \<Rightarrow> effect set list \<Rightarrow> capability_requirement set list \<Rightarrow> normalizing" where
  "normalize st es rs t nz = normalize_at (2 * (size t + MAX_NESTING_DEPTH) + 2) st es rs t nz"

definition render_type :: "(str \<Rightarrow> str) \<Rightarrow> solver \<Rightarrow> infer_type \<Rightarrow> str option" where
  "render_type dbg st t =
     (case (expanded_effects st, expanded_requirements st) of
        (Some es, Some rs) \<Rightarrow>
          map_option (public_display dbg \<circ> fst) (normalize st es rs t \<lparr>nz_variables = [], nz_normalized = Map.empty\<rparr>)
      | _ \<Rightarrow> None)"

section \<open>Contract types\<close>

text \<open>The fields of a built-in contract type; \<open>None\<close> where the source is \<open>unreachable!\<close>.\<close>

definition contract_fields :: "infer_type \<Rightarrow> (str \<times> infer_type) list option" where
  "contract_fields t =
     (case t of
        IHttpHeader \<Rightarrow> Some [(''name'', IString), (''value'', IString)]
      | ILogField \<Rightarrow> Some [(''name'', IString), (''value'', IString)]
      | IHttpRequest \<Rightarrow>
          Some [(''body'', IString), (''headers'', IList IHttpHeader), (''method'', IString), (''path'', IString),
                (''query'', IString)]
      | IHttpResponse \<Rightarrow> Some [(''body'', IString), (''headers'', IList IHttpHeader), (''status'', IInt)]
      | IQueueJob \<Rightarrow>
          Some [(''attempt'', IInt), (''body'', IString), (''id'', IString), (''maxAttempts'', IInt), (''queue'', IString)]
      | IScheduleEvent \<Rightarrow>
          Some [(''attempt'', IInt), (''firedAtMillis'', IInt), (''id'', IString), (''maxAttempts'', IInt),
                (''schedule'', IString), (''scheduledAtMillis'', IInt)]
      | _ \<Rightarrow> None)"

definition contract_record :: "infer_type \<Rightarrow> infer_type option" where
  "contract_record t = map_option (\<lambda>fs. IRecord fs False) (contract_fields t)"

fun annotation :: "type_annotation \<Rightarrow> infer_type" and annotation_kind :: "type_kind \<Rightarrow> infer_type" where
  "annotation (TypeAnnotation k _) = annotation_kind k"
| "annotation_kind IntType = IInt"
| "annotation_kind BoolType = IBool"
| "annotation_kind StringType = IString"
| "annotation_kind UnitType = IUnit"
| "annotation_kind HttpHeaderType = IHttpHeader"
| "annotation_kind HttpRequestType = IHttpRequest"
| "annotation_kind HttpResponseType = IHttpResponse"
| "annotation_kind LogFieldType = ILogField"
| "annotation_kind QueueJobType = IQueueJob"
| "annotation_kind ScheduleEventType = IScheduleEvent"
| "annotation_kind DatabaseTransactionType = IDatabaseTransaction"
| "annotation_kind SecretType = ISecret"
| "annotation_kind (ListType t) = IList (annotation t)"
| "annotation_kind (OptionType t) = IOption (annotation t)"
| "annotation_kind (ResultType t e) = IResult (annotation t) (annotation e)"
| "annotation_kind (RecordType fs) =
     IRecord (foldl (\<lambda>m (name, t). om_insert name t m) [] (map (\<lambda>(name, t, _). (name, annotation t)) fs)) False"

section \<open>Unification\<close>

type_synonym ('e, 'a) solving = "solver \<Rightarrow> ('e, 'a) outcome \<times> solver"

definition sret :: "'a \<Rightarrow> ('e, 'a) solving" where
  "sret x st = (Done x, st)"

definition sstop :: "('e, 'a) outcome \<Rightarrow> ('e, 'a) solving" where
  "sstop e st = (e, st)"

definition sbind :: "('e, 'a) solving \<Rightarrow> ('a \<Rightarrow> ('e, 'b) solving) \<Rightarrow> ('e, 'b) solving" where
  "sbind m f st =
     (case m st of
        (Done x, st') \<Rightarrow> f x st'
      | (Failed e, st') \<Rightarrow> (Failed e, st')
      | (Panics, st') \<Rightarrow> (Panics, st')
      | (Diverges, st') \<Rightarrow> (Diverges, st'))"

text \<open>\<open>map_err\<close> with a function of the solver.\<close>

definition smap_err :: "('e \<Rightarrow> solver \<Rightarrow> 'f) \<Rightarrow> ('e, 'a) solving \<Rightarrow> ('f, 'a) solving" where
  "smap_err g m st =
     (case m st of
        (Done x, st') \<Rightarrow> (Done x, st')
      | (Failed e, st') \<Rightarrow> (Failed (g e st'), st')
      | (Panics, st') \<Rightarrow> (Panics, st')
      | (Diverges, st') \<Rightarrow> (Diverges, st'))"

definition stake :: "'a option \<Rightarrow> ('e, 'a) solving" where
  "stake r = (case r of None \<Rightarrow> sstop Diverges | Some x \<Rightarrow> sret x)"

type_synonym unifier = "infer_type \<Rightarrow> infer_type \<Rightarrow> (unit, infer_type) solving"

fun unify_list :: "unifier \<Rightarrow> (infer_type \<times> infer_type) list \<Rightarrow> (unit, infer_type list) solving" where
  "unify_list u [] = sret []"
| "unify_list u ((l, r) # rest) =
     sbind (u l r) (\<lambda>t. sbind (unify_list u rest) (\<lambda>ts. sret (t # ts)))"

text \<open>The loop of \<open>unify_records\<close> over the names of both records.\<close>

fun unify_names ::
  "unifier \<Rightarrow> (str \<times> infer_type) list \<Rightarrow> (str \<times> infer_type) list \<Rightarrow> str list \<Rightarrow> (str \<times> infer_type) list \<Rightarrow>
     (unit, (str \<times> infer_type) list) solving" where
  "unify_names u l r [] found = sret found"
| "unify_names u l r (name # names) found =
     (if om_get found name \<noteq> None then unify_names u l r names found
      else
        sbind
          (case (om_get l name, om_get r name) of
             (Some a, Some b) \<Rightarrow> u a b
           | (Some a, None) \<Rightarrow> sret a
           | (None, Some b) \<Rightarrow> sret b
           | (None, None) \<Rightarrow> sstop Panics)
          (\<lambda>t. unify_names u l r names (om_insert name t found)))"

definition unify_records ::
  "unifier \<Rightarrow> (str \<times> infer_type) list \<Rightarrow> bool \<Rightarrow> (str \<times> infer_type) list \<Rightarrow> bool \<Rightarrow> (unit, infer_type) solving" where
  "unify_records u l l_open r r_open =
     (if (\<not> l_open \<and> \<not> r_open \<and> map fst l \<noteq> map fst r) \<or>
         (\<not> l_open \<and> list_ex (\<lambda>name. om_get l name = None) (map fst r)) \<or>
         (\<not> r_open \<and> list_ex (\<lambda>name. om_get r name = None) (map fst l))
      then sstop (Failed ())
      else
        sbind (unify_names u l r (map fst l @ map fst r) []) (\<lambda>found.
        sret (IRecord found (l_open \<and> r_open))))"

text \<open>Two solved variables: both bindings are detached while they are unified.\<close>

definition rebind :: "nat \<Rightarrow> infer_type \<Rightarrow> nat \<Rightarrow> infer_type \<Rightarrow> solver \<Rightarrow> solver" where
  "rebind l a r b st = st\<lparr>substitutions := (substitutions st)(l \<mapsto> a, r \<mapsto> b)\<rparr>"

definition unify_solved ::
  "unifier \<Rightarrow> span \<Rightarrow> nat \<Rightarrow> infer_type \<Rightarrow> nat \<Rightarrow> infer_type \<Rightarrow> (unit, infer_type) solving" where
  "unify_solved u s l a r b st =
     (case (occurs st l b, occurs st r a) of
        (Some False, Some False) \<Rightarrow>
          (case u a b (st\<lparr>substitutions := (substitutions st)(l := None, r := None)\<rparr>) of
             (Done t, st1) \<Rightarrow>
               (case (occurs st1 l t, occurs st1 r t) of
                  (Some False, Some False) \<Rightarrow>
                    let root = min l r; alias = max l r in
                    sbind (smap_err (\<lambda>_ _. ()) (alias_variable alias root s)) (\<lambda>_.
                    sbind (smap_err (\<lambda>_ _. ()) (set_binding root t s)) (\<lambda>_.
                    sret (IVariable root))) st1
                | (None, _) \<Rightarrow> (Diverges, st1)
                | (Some True, _) \<Rightarrow> (Failed (), rebind l a r b st1)
                | (Some False, None) \<Rightarrow> (Diverges, st1)
                | (Some False, Some True) \<Rightarrow> (Failed (), rebind l a r b st1))
           | (Failed _, st1) \<Rightarrow> (Failed (), rebind l a r b st1)
           | (Panics, st1) \<Rightarrow> (Panics, st1)
           | (Diverges, st1) \<Rightarrow> (Diverges, st1))
      | (None, _) \<Rightarrow> (Diverges, st)
      | (Some True, _) \<Rightarrow> (Failed (), st)
      | (Some False, None) \<Rightarrow> (Diverges, st)
      | (Some False, Some True) \<Rightarrow> (Failed (), st))"

text \<open>An unsolved variable \<open>alias\<close> and a variable \<open>root\<close> solved as \<open>b\<close>.\<close>

definition unify_unsolved :: "span \<Rightarrow> nat \<Rightarrow> nat \<Rightarrow> infer_type \<Rightarrow> (unit, infer_type) solving" where
  "unify_unsolved s alias root b st =
     sbind (stake (occurs st alias b)) (\<lambda>inside.
     if inside then sstop (Failed ())
     else
       sbind (smap_err (\<lambda>_ _. ()) (alias_variable alias root s)) (\<lambda>_. sret (IVariable root))) st"

definition unify_variables :: "unifier \<Rightarrow> span \<Rightarrow> nat \<Rightarrow> nat \<Rightarrow> (unit, infer_type) solving" where
  "unify_variables u s v w st =
     (let l = root_variable st v; r = root_variable st w in
      if l = r then (Done (IVariable l), st)
      else
        case (substitutions st l, substitutions st r) of
          (None, None) \<Rightarrow>
            sbind (smap_err (\<lambda>_ _. ()) (alias_variable (max l r) (min l r) s)) (\<lambda>_. sret (IVariable (min l r))) st
        | (Some a, None) \<Rightarrow> unify_unsolved s r l a st
        | (None, Some b) \<Rightarrow> unify_unsolved s l r b st
        | (Some a, Some b) \<Rightarrow> unify_solved u s l a r b st)"

definition infinite_type :: "str \<Rightarrow> span \<Rightarrow> diagnostic" where
  "infinite_type what s = diagnostic_new ''K3001'' (what @ '' would create an infinite type'') s"

text \<open>An error whose text shows a type: printing it may not end, which is \<open>Diverges\<close>.\<close>

definition fail_with :: "str option \<Rightarrow> (str \<Rightarrow> diagnostic) \<Rightarrow> (diagnostic, 'a) solving" where
  "fail_with shown d = (case shown of None \<Rightarrow> sstop Diverges | Some x \<Rightarrow> sstop (Failed (d x)))"

definition unify_existing :: "(str \<Rightarrow> str) \<Rightarrow> unifier \<Rightarrow> span \<Rightarrow> str \<Rightarrow> infer_type \<Rightarrow> infer_type \<Rightarrow> (diagnostic, infer_type) solving" where
  "unify_existing dbg u s what existing t st =
     (case u existing t st of
        (Done unified, st') \<Rightarrow> (Done unified, st')
      | (Failed _, st') \<Rightarrow>
          (case type_depth_error st' of
             Some e \<Rightarrow> (Failed e, st')
           | None \<Rightarrow>
               fail_with (render_type dbg st' t) (\<lambda>x. diagnostic_new ''K3001''
                 (what @ '' type mismatch: incompatible with '' @ backquoted x) s) st')
      | (Panics, st') \<Rightarrow> (Panics, st')
      | (Diverges, st') \<Rightarrow> (Diverges, st'))"

definition bind_variable ::
  "(str \<Rightarrow> str) \<Rightarrow> unifier \<Rightarrow> span \<Rightarrow> str \<Rightarrow> nat \<Rightarrow> infer_type \<Rightarrow> (diagnostic, infer_type) solving" where
  "bind_variable dbg u s what v t st =
     (let r = root_variable st v in
      case t of
        IVariable w \<Rightarrow>
          smap_err (\<lambda>_ st'. case type_depth_error st' of Some e \<Rightarrow> e | None \<Rightarrow> infinite_type what s)
            (unify_variables u s r w) st
      | _ \<Rightarrow>
          (case substitutions st r of
             Some existing \<Rightarrow>
               sbind (unify_existing dbg u s what existing t) (\<lambda>unified.
               sbind (set_binding r unified s) (\<lambda>_. sret (IVariable r))) st
           | None \<Rightarrow>
               sbind (stake (occurs st r t)) (\<lambda>inside.
               if inside then sstop (Failed (infinite_type what s))
               else sbind (set_binding r t s) (\<lambda>_. sret (IVariable r))) st))"

definition is_contract :: "infer_type \<Rightarrow> bool" where
  "is_contract t \<longleftrightarrow> t = IHttpHeader \<or> t = IHttpRequest \<or> t = IHttpResponse \<or> t = ILogField"

definition is_plain :: "infer_type \<Rightarrow> bool" where
  "is_plain t \<longleftrightarrow>
     t = IInt \<or> t = IBool \<or> t = IString \<or> t = IUnit \<or> is_contract t \<or> t = ISecret \<or> t = IDatabaseTransaction"

definition unify_with :: "(str \<Rightarrow> str) \<Rightarrow> unifier \<Rightarrow> span \<Rightarrow> unifier" where
  "unify_with dbg u s l r =
     (case (l, r) of
        (IVariable v, IVariable w) \<Rightarrow> unify_variables u s v w
      | (IVariable v, _) \<Rightarrow> smap_err (\<lambda>_ _. ()) (bind_variable dbg u s ''type inference'' v r)
      | (_, IVariable w) \<Rightarrow> smap_err (\<lambda>_ _. ()) (bind_variable dbg u s ''type inference'' w l)
      | (IList a, IList b) \<Rightarrow> sbind (u a b) (\<lambda>t. sret (IList t))
      | (IOption a, IOption b) \<Rightarrow> sbind (u a b) (\<lambda>t. sret (IOption t))
      | (IResult a e, IResult b f) \<Rightarrow> sbind (u a b) (\<lambda>t. sbind (u e f) (\<lambda>t'. sret (IResult t t')))
      | (IRecord fs l_open, IRecord gs r_open) \<Rightarrow> unify_records u fs l_open gs r_open
      | (IFunction ps a e, IFunction qs b f) \<Rightarrow>
          if length ps \<noteq> length qs then sstop (Failed ())
          else
            sbind (unify_list u (zip ps qs)) (\<lambda>ts.
            sbind (u a b) (\<lambda>t.
            sbind (link_effects e f) (\<lambda>_. sret (IFunction ts t e))))
      | (_, IRecord _ _) \<Rightarrow>
          if is_contract l then
            (case contract_record l of None \<Rightarrow> sstop Panics | Some c \<Rightarrow> sbind (u c r) (\<lambda>_. sret l))
          else sstop (Failed ())
      | (IRecord _ _, _) \<Rightarrow>
          if is_contract r then
            (case contract_record r of None \<Rightarrow> sstop Panics | Some c \<Rightarrow> sbind (u l c) (\<lambda>_. sret r))
          else sstop (Failed ())
      | _ \<Rightarrow> if l = r \<and> is_plain l then sret l else sstop (Failed ()))"

fun unify_inner :: "nat \<Rightarrow> (str \<Rightarrow> str) \<Rightarrow> span \<Rightarrow> unifier" where
  "unify_inner 0 dbg s l r = sstop Diverges"
| "unify_inner (Suc n) dbg s l r = unify_with dbg (unify_inner n dbg s) s l r"

definition unify ::
  "nat \<Rightarrow> (str \<Rightarrow> str) \<Rightarrow> infer_type \<Rightarrow> infer_type \<Rightarrow> span \<Rightarrow> str \<Rightarrow> (diagnostic, infer_type) solving" where
  "unify n dbg expects actual s what st =
     (case unify_inner n dbg s expects actual st of
        (Done t, st') \<Rightarrow> (Done t, st')
      | (Failed _, st') \<Rightarrow>
          (case type_depth_error st' of
             Some e \<Rightarrow> (Failed e, st'\<lparr>type_depth_error := None\<rparr>)
           | None \<Rightarrow>
               fail_with
                 (case (render_type dbg st' expects, render_type dbg st' actual) of
                    (Some a, Some b) \<Rightarrow> Some (''expected '' @ backquoted a @ '', found '' @ backquoted b)
                  | _ \<Rightarrow> None)
                 (\<lambda>x. diagnostic_new ''K3001'' (what @ '' type mismatch: '' @ x) s) st')
      | (Panics, st') \<Rightarrow> (Panics, st')
      | (Diverges, st') \<Rightarrow> (Diverges, st'))"

section \<open>Fields\<close>

definition no_field :: "str \<Rightarrow> span \<Rightarrow> diagnostic" where
  "no_field field s = diagnostic_new ''K3004'' (''record type has no field '' @ backquoted field) s"

definition not_a_record :: "str \<Rightarrow> span \<Rightarrow> diagnostic" where
  "not_a_record x s = diagnostic_new ''K3004'' (''field access requires a record, found '' @ backquoted x) s"

definition widen_record ::
  "str \<Rightarrow> span \<Rightarrow> (str \<times> infer_type) list \<Rightarrow> bool \<Rightarrow> (diagnostic, infer_type \<times> infer_type) solving" where
  "widen_record field s fs is_open st =
     (case om_get fs field of
        Some t \<Rightarrow> (Done (t, IRecord fs is_open), st)
      | None \<Rightarrow>
          if is_open then
            let (t, st') = fresh_type st in (Done (t, IRecord (om_insert field t fs) is_open), st')
          else (Failed (no_field field s), st))"

fun require_field :: "nat \<Rightarrow> (str \<Rightarrow> str) \<Rightarrow> str \<Rightarrow> span \<Rightarrow> infer_type \<Rightarrow> (diagnostic, infer_type) solving"
and require_field_and_widen ::
  "nat \<Rightarrow> (str \<Rightarrow> str) \<Rightarrow> str \<Rightarrow> span \<Rightarrow> infer_type \<Rightarrow> (diagnostic, infer_type \<times> infer_type) solving" where
  "require_field 0 dbg field s t = sstop Diverges"
| "require_field (Suc n) dbg field s t = (\<lambda>st.
     case t of
       IVariable v \<Rightarrow>
         let r = root_variable st v in
         (case substitutions st r of
            Some existing \<Rightarrow>
              sbind (require_field_and_widen n dbg field s existing) (\<lambda>(field_type, widened).
              sbind (set_binding r widened s) (\<lambda>_. sret field_type)) st
          | None \<Rightarrow>
              let (field_type, st') = fresh_type st in
              sbind (set_binding r (IRecord [(field, field_type)] True) s) (\<lambda>_. sret field_type) st')
     | _ \<Rightarrow> sbind (require_field_and_widen n dbg field s t) (\<lambda>(field_type, _). sret field_type) st)"
| "require_field_and_widen 0 dbg field s t = sstop Diverges"
| "require_field_and_widen (Suc n) dbg field s t = (\<lambda>st.
     case t of
       IVariable v \<Rightarrow>
         let r = root_variable st v in
         sbind (require_field n dbg field s (IVariable r)) (\<lambda>field_type. sret (field_type, IVariable r)) st
     | IRecord fs is_open \<Rightarrow> widen_record field s fs is_open st
     | _ \<Rightarrow>
         if is_contract t \<or> t = IQueueJob \<or> t = IScheduleEvent then
           (case contract_record t of
              None \<Rightarrow> (Panics, st)
            | Some c \<Rightarrow> sbind (require_field_and_widen n dbg field s c) (\<lambda>(field_type, _). sret (field_type, t)) st)
         else fail_with (render_type dbg st t) (\<lambda>x. not_a_record x s) st)"

end
