(* ===== verification/Inference_Heights.thy ===== *)
theory Inference_Heights
  imports Inference
begin

text \<open>
  The roots of type variables and the heights of inferred types: what \<open>set_binding\<close> and \<open>alias_variable\<close> keep.
  The cached heights are a ranking of the bindings: the height of a solved variable is at least that of its
  binding, so no type can contain itself.
\<close>

section \<open>Roots\<close>

definition nonroots :: "nat list \<Rightarrow> nat" where
  "nonroots ps = card {i. i < length ps \<and> ps ! i \<noteq> i}"

definition forest :: "nat list \<Rightarrow> bool" where
  "forest ps \<longleftrightarrow>
     (\<forall>v < length ps. ps ! v < length ps \<and> ps ! root_from (nonroots ps) ps v = root_from (nonroots ps) ps v)"

lemma root_from_root: "ps ! v = v \<Longrightarrow> root_from n ps v = v"
  by (cases n) simp_all

lemma root_from_more:
  "ps ! root_from n ps v = root_from n ps v \<Longrightarrow> n \<le> m \<Longrightarrow> root_from m ps v = root_from n ps v"
proof (induction n arbitrary: v m)
  case 0
  then have "ps ! v = v" by simp
  then show ?case by (simp only: root_from_root)
next
  case (Suc n)
  then obtain k where k: "m = Suc k" by (cases m) simp_all
  show ?case
  proof (cases "ps ! v = v")
    case True
    then show ?thesis by (simp only: root_from_root)
  next
    case False
    then show ?thesis using Suc.IH [of "ps ! v" k] Suc.prems k by simp
  qed
qed

lemma root_from_range: "(\<And>v. v < length ps \<Longrightarrow> ps ! v < length ps) \<Longrightarrow> v < length ps \<Longrightarrow> root_from n ps v < length ps"
  by (induction n arbitrary: v) simp_all

lemma nonroots_le: "nonroots ps \<le> length ps"
  unfolding nonroots_def using card_mono [of "{..<length ps}" "{i. i < length ps \<and> ps ! i \<noteq> i}"] by auto

abbreviation root_of :: "nat list \<Rightarrow> nat \<Rightarrow> nat" where
  "root_of ps \<equiv> root_from (length ps) ps"

lemma root_of_forest:
  assumes "forest ps" "v < length ps"
  shows "root_of ps v = root_from (nonroots ps) ps v" "ps ! root_of ps v = root_of ps v" "root_of ps v < length ps"
proof -
  show 1: "root_of ps v = root_from (nonroots ps) ps v"
    using assms nonroots_le by (intro root_from_more) (simp_all add: forest_def)
  show "ps ! root_of ps v = root_of ps v" using assms unfolding 1 by (simp add: forest_def)
  show "root_of ps v < length ps" using assms by (intro root_from_range) (simp_all add: forest_def)
qed

lemma root_of_parent:
  assumes "forest ps" "v < length ps"
  shows "root_of ps (ps ! v) = root_of ps v"
proof (cases "ps ! v = v")
  case False
  have "root_from (Suc (length ps)) ps v = root_of ps (ps ! v)" using False by simp
  moreover have "root_from (Suc (length ps)) ps v = root_of ps v"
    using root_of_forest(2) [OF assms] by (intro root_from_more) simp_all
  ultimately show ?thesis by simp
qed simp

lemma root_from_alias:
  assumes "ps ! a = a" "ps ! r = r" "a \<noteq> r" "a < length ps" "r < length ps"
  shows "ps ! root_from n ps v = root_from n ps v \<Longrightarrow>
    root_from (Suc n) (ps[a := r]) v = (if root_from n ps v = a then r else root_from n ps v)"
proof (induction n arbitrary: v)
  case 0
  then show ?case using assms by (auto simp: nth_list_update)
next
  case (Suc n)
  show ?case
  proof (cases "ps ! v = v")
    case True
    then have "root_from (Suc m) (ps[a := r]) v = (if v = a then r else v)" for m
      using assms by (cases m) (auto simp: nth_list_update root_from_root)
    then show ?thesis using True by simp
  next
    case False
    then have "v \<noteq> a" using assms(1) by auto
    then show ?thesis using False Suc.IH [of "ps ! v"] Suc.prems by simp
  qed
qed

lemma nonroots_alias:
  assumes "ps ! a = a" "ps ! r = r" "a \<noteq> r" "a < length ps"
  shows "nonroots (ps[a := r]) = Suc (nonroots ps)"
proof -
  have "{i. i < length (ps[a := r]) \<and> ps[a := r] ! i \<noteq> i} = insert a {i. i < length ps \<and> ps ! i \<noteq> i}"
    using assms by (auto simp: nth_list_update)
  then show ?thesis using assms by (simp add: nonroots_def)
qed

lemma forest_alias:
  assumes "forest ps" "ps ! a = a" "ps ! r = r" "a \<noteq> r" "a < length ps" "r < length ps"
  shows "forest (ps[a := r])"
    and "v < length ps \<Longrightarrow> root_of (ps[a := r]) v = (if root_of ps v = a then r else root_of ps v)"
proof -
  have step: "root_from (nonroots (ps[a := r])) (ps[a := r]) v = (if root_of ps v = a then r else root_of ps v)"
    if "v < length ps" for v
    using root_from_alias [OF assms(2-6)] assms(1) that root_of_forest(1) [OF assms(1) that]
    by (simp add: nonroots_alias [OF assms(2-5)] forest_def)
  have root: "ps[a := r] ! x = x" if "x = (if root_of ps v = a then r else root_of ps v)" "v < length ps" for x v
    using that assms root_of_forest(2) [OF assms(1) that(2)] by (auto simp: nth_list_update)
  show f: "forest (ps[a := r])"
    unfolding forest_def
  proof (intro allI impI conjI)
    fix v
    assume v: "v < length (ps[a := r])"
    then show "ps[a := r] ! v < length (ps[a := r])" using assms by (simp add: nth_list_update forest_def)
    show "ps[a := r] ! root_from (nonroots (ps[a := r])) (ps[a := r]) v = root_from (nonroots (ps[a := r])) (ps[a := r]) v"
      using v step [of v] root [OF refl, of v] by simp
  qed
  show "v < length ps \<Longrightarrow> root_of (ps[a := r]) v = (if root_of ps v = a then r else root_of ps v)"
    using root_of_forest(1) [OF f, of v] step [of v] by simp
qed

lemma forest_snoc:
  assumes "forest ps"
  shows "forest (ps @ [length ps])" "v < length ps \<Longrightarrow> root_of (ps @ [length ps]) v = root_of ps v"
    "root_of (ps @ [length ps]) (length ps) = length ps"
proof -
  let ?qs = "ps @ [length ps]"
  have old: "root_from n ?qs v = root_from n ps v" if "v < length ps" for n v
    using that assms by (induction n arbitrary: v) (simp_all add: nth_append forest_def)
  have n: "nonroots ?qs = nonroots ps" unfolding nonroots_def by (rule arg_cong [of _ _ card]) (auto simp: nth_append)
  have lt: "root_from (nonroots ps) ps v < length ps" if "v < length ps" for v
    using that assms by (intro root_from_range) (simp_all add: forest_def)
  show f: "forest ?qs"
    using assms lt by (auto simp: forest_def n old nth_append less_Suc_eq root_from_root)
  show "v < length ps \<Longrightarrow> root_of ?qs v = root_of ps v"
    using root_of_forest(1) [OF f, of v] root_of_forest(1) [OF assms, of v] n old by simp
  show "root_of ?qs (length ps) = length ps" by (simp add: root_from_root nth_append)
qed

section \<open>Heights of types\<close>

lemma children_induct [case_names step]:
  "(\<And>t. (\<And>c. c \<in> set (children t) \<Longrightarrow> P c) \<Longrightarrow> P t) \<Longrightarrow> P t"
  by (rule measure_induct_rule [of size]) (blast intro: children_size)

abbreviation is_variable :: "infer_type \<Rightarrow> bool" where
  "is_variable t \<equiv> (case t of IVariable _ \<Rightarrow> True | _ \<Rightarrow> False)"

fun effect_variables :: "infer_type \<Rightarrow> nat set" where
  "effect_variables (IList t) = effect_variables t"
| "effect_variables (IOption t) = effect_variables t"
| "effect_variables (IResult t e) = effect_variables t \<union> effect_variables e"
| "effect_variables (IRecord fs _) = \<Union> (set (map (\<lambda>(_, t). effect_variables t) fs))"
| "effect_variables (IFunction ps r e) = insert e (\<Union> (set (map effect_variables ps)) \<union> effect_variables r)"
| "effect_variables _ = {}"

lemma type_variables_children: "\<not> is_variable t \<Longrightarrow> type_variables t = \<Union> (type_variables ` set (children t))"
  by (cases t) (auto split: prod.splits)

lemma is_constructed_children: "c \<in> set (children t) \<Longrightarrow> is_constructed t"
  by (cases t) (auto simp: is_constructed_def)

text \<open>The height of a type when variables have the heights \<open>h\<close>, with no cutoff.\<close>

function hgt :: "(nat \<Rightarrow> nat) \<Rightarrow> infer_type \<Rightarrow> nat" where
  "hgt h t =
     (case t of
        IVariable v \<Rightarrow> h v
      | _ \<Rightarrow> if is_constructed t then 1 + foldl max 0 (map (hgt h) (children t)) else 0)"
  by pat_completeness auto
termination
  by (relation "measure (\<lambda>(_, t). size t)") (simp_all only: wf_measure in_measure prod.case children_size)

declare hgt.simps [simp del]

lemma foldl_max_le: "foldl max (a :: nat) xs \<le> k \<longleftrightarrow> a \<le> k \<and> (\<forall>x \<in> set xs. x \<le> k)"
  by (induction xs arbitrary: a) auto

lemma hgt_variable [simp]: "hgt h (IVariable v) = h v"
  by (simp add: hgt.simps)

lemma hgt_built: "\<not> is_variable t \<Longrightarrow>
    hgt h t = (if is_constructed t then 1 + foldl max 0 (map (hgt h) (children t)) else 0)"
  by (subst hgt.simps) (cases t; simp)

lemma hgt_child: "c \<in> set (children t) \<Longrightarrow> hgt h c < hgt h t"
  using is_constructed_children [of c t] foldl_max_le [of 0 "map (hgt h) (children t)" "hgt h t - 1"]
  by (cases "is_variable t") (auto simp: hgt_built split: infer_type.splits)

lemma hgt_mentions: "v \<in> type_variables t \<Longrightarrow> h v \<le> hgt h t"
proof (induction t rule: children_induct)
  case (step t)
  show ?case
  proof (cases "is_variable t")
    case False
    then obtain c where "c \<in> set (children t)" "v \<in> type_variables c"
      using step.prems by (auto simp: type_variables_children)
    then show ?thesis using step.IH [of c] hgt_child [of c t h] by linarith
  qed (use step.prems in \<open>auto split: infer_type.splits\<close>)
qed

lemma hgt_below:
  assumes "v \<in> type_variables t" "\<not> is_variable t"
  shows "h v < hgt h t"
proof -
  obtain c where "c \<in> set (children t)" "v \<in> type_variables c"
    using assms by (auto simp: type_variables_children)
  then show ?thesis using hgt_mentions [of v c h] hgt_child [of c t h] by linarith
qed

lemma hgt_cong: "(\<And>v. v \<in> type_variables t \<Longrightarrow> h v = g v) \<Longrightarrow> hgt h t = hgt g t"
proof (induction t rule: children_induct)
  case (step t)
  show ?case
  proof (cases "is_variable t")
    case False
    then have "map (hgt h) (children t) = map (hgt g) (children t)"
      using step by (auto simp: type_variables_children)
    then show ?thesis by (simp only: hgt_built [OF False])
  qed (use step.prems in \<open>auto split: infer_type.splits\<close>)
qed

text \<open>Below the cutoff the height the source computes is at least the height.\<close>

abbreviation height_of :: "solver \<Rightarrow> nat \<Rightarrow> nat" where
  "height_of st v \<equiv> type_heights st ! root_variable st v"

lemma resolved_height_built: "\<not> is_variable t \<Longrightarrow> depth < type_cutoff \<Longrightarrow>
    resolved_height st t depth =
      (if is_constructed t then 1 + foldl max 0 (map (\<lambda>c. resolved_height st c (depth + 1)) (children t)) else 0)"
  by (subst resolved_height.simps) (cases t; simp)

lemma resolved_height_hgt:
  "resolved_height st t depth < type_cutoff \<Longrightarrow> hgt (height_of st) t \<le> resolved_height st t depth"
proof (induction t arbitrary: depth rule: children_induct)
  case (step t)
  have d: "depth < type_cutoff" using step.prems by (subst (asm) resolved_height.simps) (simp split: if_splits)
  show ?case
  proof (cases "is_variable t")
    case True
    then show ?thesis using d by (subst resolved_height.simps) (simp split: infer_type.splits)
  next
    case False
    let ?k = "resolved_height st t depth - 1"
    show ?thesis
    proof (cases "is_constructed t")
      case True
      then have eq: "resolved_height st t depth =
          1 + foldl max 0 (map (\<lambda>c. resolved_height st c (depth + 1)) (children t))"
        using False d by (simp add: resolved_height_built)
      then have k: "resolved_height st c (depth + 1) \<le> ?k" if "c \<in> set (children t)" for c
        using foldl_max_le [of 0 "map (\<lambda>c. resolved_height st c (depth + 1)) (children t)" ?k] that by auto
      have "hgt (height_of st) c \<le> ?k" if c: "c \<in> set (children t)" for c
        using step.IH [OF c, of "depth + 1"] k [OF c] step.prems by linarith
      then have "foldl max 0 (map (hgt (height_of st)) (children t)) \<le> ?k" by (simp add: foldl_max_le)
      then show ?thesis using eq by (simp add: hgt_built [OF False] True)
    qed (simp add: hgt_built [OF False])
  qed
qed

section \<open>The invariant of the solver\<close>

definition type_in :: "nat set \<Rightarrow> nat \<Rightarrow> infer_type \<Rightarrow> bool" where
  "type_in S m t \<longleftrightarrow> type_variables t \<subseteq> S \<and> effect_variables t \<subseteq> {..<m}"

abbreviation known_type :: "solver \<Rightarrow> infer_type \<Rightarrow> bool" where
  "known_type st \<equiv> type_in {..<length (type_parents st)} (length (effect_definitions st))"

abbreviation is_root :: "solver \<Rightarrow> nat \<Rightarrow> bool" where
  "is_root st r \<equiv> r < length (type_parents st) \<and> type_parents st ! r = r"

text \<open>The tables have one entry per variable and every variable in them exists.\<close>

definition tables_ok :: "solver \<Rightarrow> bool" where
  "tables_ok st \<longleftrightarrow>
     forest (type_parents st) \<and>
     length (type_heights st) = length (type_parents st) \<and>
     length (type_dependents st) = length (type_parents st) \<and>
     (\<forall>h \<in> set (type_heights st). h \<le> MAX_NESTING_DEPTH) \<and>
     (\<forall>ds \<in> set (type_dependents st). ds \<subseteq> {..<length (type_parents st)}) \<and>
     (\<forall>v t. substitutions st v = Some t \<longrightarrow> v < length (type_parents st) \<and> known_type st t \<and> \<not> is_variable t) \<and>
     (\<forall>es \<in> set (effect_definitions st). dependencies es \<subseteq> {..<length (effect_definitions st)})"

text \<open>Every solved variable is a dependent of the variables its binding mentions.\<close>

definition dependents_ok :: "solver \<Rightarrow> bool" where
  "dependents_ok st \<longleftrightarrow>
     (\<forall>r t v. is_root st r \<longrightarrow> substitutions st r = Some t \<longrightarrow> v \<in> type_variables t \<longrightarrow>
        (\<exists>q \<in> type_dependents st ! root_variable st v. root_variable st q = r))"

text \<open>The height of a solved variable bounds that of its binding, unless the variable is yet to be refreshed.\<close>

definition heights_ok :: "solver \<Rightarrow> nat list \<Rightarrow> bool" where
  "heights_ok st pending \<longleftrightarrow>
     (\<forall>r t. is_root st r \<longrightarrow> substitutions st r = Some t \<longrightarrow>
        hgt (height_of st) t \<le> type_heights st ! r \<or> r \<in> root_variable st ` set pending)"

definition solver_ok :: "solver \<Rightarrow> nat list \<Rightarrow> bool" where
  "solver_ok st pending \<longleftrightarrow>
     tables_ok st \<and> dependents_ok st \<and> heights_ok st pending \<and> set pending \<subseteq> {..<length (type_parents st)}"

lemma root_variable_ok:
  assumes "tables_ok st" "v < length (type_parents st)"
  shows "is_root st (root_variable st v)"
  using root_of_forest [of "type_parents st" v] assms by (simp add: tables_ok_def root_variable_def)

lemma root_variable_root: "is_root st r \<Longrightarrow> root_variable st r = r"
  by (simp add: root_variable_def root_from_root)

lemma dependents_range:
  assumes "tables_ok st" "i < length (type_parents st)"
  shows "type_dependents st ! i \<subseteq> {..<length (type_parents st)}" "finite (type_dependents st ! i)"
proof -
  show 1: "type_dependents st ! i \<subseteq> {..<length (type_parents st)}"
    using assms nth_mem [of i "type_dependents st"] by (simp add: tables_ok_def)
  then show "finite (type_dependents st ! i)" by (rule finite_subset) simp
qed

text \<open>Raising the height of a root leaves only its dependents to be refreshed.\<close>

lemma solver_ok_raise:
  assumes ok: "solver_ok st (v # pending)" and root: "root = root_variable st v"
    and b: "substitutions st root = Some b" and h: "hgt (height_of st) b \<le> h" "h \<le> MAX_NESTING_DEPTH"
  shows "solver_ok (st\<lparr>type_heights := (type_heights st)[root := h]\<rparr>)
    (rev (sorted_list_of_set (type_dependents st ! root)) @ pending)" (is "solver_ok ?st ?pending")
proof -
  have t: "tables_ok st" and d: "dependents_ok st" and v: "v < length (type_parents st)" using ok by (simp_all add: solver_ok_def)
  have r: "is_root st root" using root_variable_ok [OF t v] root by simp
  note ds = dependents_range [OF t, of root]
  have len: "length (type_heights st) = length (type_parents st)" using t by (simp add: tables_ok_def)
  have rv: "root_variable ?st = root_variable st" by (rule ext) (simp add: root_variable_def)
  have "tables_ok ?st" using t h r by (auto simp: tables_ok_def dest: subsetD [OF set_update_subset_insert])
  moreover have "dependents_ok ?st" using d by (simp add: dependents_ok_def rv)
  moreover have "heights_ok ?st ?pending"
    unfolding heights_ok_def rv
  proof (intro allI impI)
    fix r' t'
    assume "is_root ?st r'" "substitutions ?st r' = Some t'"
    then have r': "is_root st r'" "substitutions st r' = Some t'" by simp_all
    show "hgt (\<lambda>v. type_heights ?st ! root_variable st v) t' \<le> type_heights ?st ! r' \<or>
        r' \<in> root_variable st ` set ?pending"
    proof (cases "\<exists>x \<in> type_variables t'. root_variable st x = root")
      case True
      then show ?thesis using d r' ds r by (fastforce simp: dependents_ok_def)
    next
      case False
      then have eq: "hgt (\<lambda>v. type_heights ?st ! root_variable st v) t' = hgt (height_of st) t'"
        by (intro hgt_cong) auto
      have "hgt (height_of st) t' \<le> type_heights st ! r' \<or> r' \<in> root_variable st ` set (v # pending)"
        using ok r' by (simp add: solver_ok_def heights_ok_def)
      then show ?thesis
        using h b r' r len root unfolding eq by (cases "r' = root") auto
    qed
  qed
  ultimately show ?thesis using ok ds r by (auto simp: solver_ok_def)
qed

lemma solver_ok_settled:
  assumes ok: "solver_ok st (v # pending)"
    and "\<And>b. substitutions st (root_variable st v) = Some b \<Longrightarrow>
           hgt (height_of st) b \<le> type_heights st ! root_variable st v"
  shows "solver_ok st pending"
  using assms by (fastforce simp: solver_ok_def heights_ok_def)

text \<open>Refreshing ends with every height settled, whatever was pending.\<close>

lemma refresh_ok:
  "solver_ok st pending \<Longrightarrow>
    (\<exists>hs. refresh_type_heights s pending st = (Done (), st\<lparr>type_heights := hs\<rparr>) \<and>
          solver_ok (st\<lparr>type_heights := hs\<rparr>) []) \<or>
    (\<exists>d st'. refresh_type_heights s pending st = (Failed d, st'))"
proof (induction s pending st rule: refresh_type_heights.induct)
  case (1 s st)
  then show ?case by (intro disjI1 exI [of _ "type_heights st"]) (simp add: refresh_type_heights.simps)
next
  case (2 s v pending st)
  define root where "root = root_variable st v"
  have t: "tables_ok st" and v: "v < length (type_parents st)" using "2.prems" by (simp_all add: solver_ok_def)
  have r: "is_root st root" using root_variable_ok [OF t v] by (simp add: root_def)
  have len: "length (type_heights st) = length (type_parents st)" "length (type_dependents st) = length (type_parents st)"
    "type_heights st ! root \<le> MAX_NESTING_DEPTH"
    using t r nth_mem [of root "type_heights st"] by (simp_all add: tables_ok_def)
  show ?case
  proof (cases "substitutions st root")
    case None
    then show ?thesis
      using "2.IH"(1) [OF root_def] solver_ok_settled [OF "2.prems"]
      by (simp add: refresh_type_heights.simps root_def [symmetric])
  next
    case (Some b)
    let ?h = "resolved_height st b 0"
    have le: "hgt (height_of st) b \<le> ?h" if "?h \<le> MAX_NESTING_DEPTH"
      using resolved_height_hgt [of st b 0] that by (simp add: type_cutoff_def)
    have range: "\<not> (length (type_heights st) \<le> root \<or> length (type_dependents st) \<le> root)" using len r by simp
    consider "?h \<le> type_heights st ! root" | "MAX_NESTING_DEPTH < ?h" "\<not> ?h \<le> type_heights st ! root"
      | "\<not> ?h \<le> type_heights st ! root" "\<not> MAX_NESTING_DEPTH < ?h" by linarith
    then show ?thesis
    proof cases
      case 1
      then have "solver_ok st pending"
        using solver_ok_settled [OF "2.prems"] le len Some by (simp add: root_def [symmetric])
      then show ?thesis
        using "2.IH"(2) [OF root_def Some range refl 1] Some range 1
        by (simp add: refresh_type_heights.simps root_def [symmetric])
    next
      case 2
      then show ?thesis using Some range by (simp add: refresh_type_heights.simps root_def [symmetric])
    next
      case 3
      have "solver_ok (st\<lparr>type_heights := (type_heights st)[root := ?h]\<rparr>)
          (rev (sorted_list_of_set (type_dependents st ! root)) @ pending)"
        using solver_ok_raise [OF "2.prems" root_def Some] le 3 by simp
      from "2.IH"(3) [OF root_def Some range refl 3 this]
      show ?thesis using Some range 3 by (simp add: refresh_type_heights.simps root_def [symmetric])
    qed
  qed
qed

section \<open>Binding and aliasing\<close>

lemma add_dependent_nth [simp]:
  "length (add_dependent v roots ds) = length ds"
  "i < length ds \<Longrightarrow> add_dependent v roots ds ! i = (if i \<in> roots then insert v (ds ! i) else ds ! i)"
  by (simp_all add: add_dependent_def)

lemma root_variable_cong: "type_parents st' = type_parents st \<Longrightarrow> root_variable st' = root_variable st"
  by (rule ext) (simp add: root_variable_def)

lemma mentioned_roots_range:
  assumes "tables_ok st" "known_type st t"
  shows "mentioned_roots st t \<subseteq> {..<length (type_parents st)}"
  using root_variable_ok [OF assms(1)] assms(2) by (auto simp: mentioned_roots_def type_in_def)

lemma solver_ok_bind:
  assumes ok: "solver_ok st []" and v: "v < length (type_parents st)" and t: "known_type st t" "\<not> is_variable t"
  shows "solver_ok (st\<lparr>type_dependents := add_dependent v (mentioned_roots st t) (type_dependents st),
      substitutions := (substitutions st)(v \<mapsto> t)\<rparr>) [v]" (is "solver_ok ?st _")
proof -
  have tables: "tables_ok st" using ok by (simp add: solver_ok_def)
  then have len: "length (type_dependents st) = length (type_parents st)" by (simp add: tables_ok_def)
  have rv: "root_variable ?st = root_variable st" by (rule root_variable_cong) simp
  have grow: "q \<in> type_dependents ?st ! root_variable st x"
    if "q \<in> type_dependents st ! root_variable st x" "x < length (type_parents st)" for q x
    using that root_variable_ok [OF tables that(2)] len by simp
  have range: "x < length (type_parents st)" if "substitutions st r = Some b" "x \<in> type_variables b" for r b x
    using tables that by (fastforce simp: tables_ok_def type_in_def)
  have "ds \<subseteq> {..<length (type_parents st)}" if "ds \<in> set (type_dependents ?st)" for ds
    using that v len by (auto simp: in_set_conv_nth split: if_splits dest!: subsetD [OF dependents_range(1) [OF tables], rotated])
  then have "tables_ok ?st" using tables t v by (simp add: tables_ok_def)
  moreover have "dependents_ok ?st"
    unfolding dependents_ok_def rv
  proof (intro allI impI)
    fix r b x
    assume *: "is_root ?st r" "substitutions ?st r = Some b" "x \<in> type_variables b"
    show "\<exists>q \<in> type_dependents ?st ! root_variable st x. root_variable st q = r"
    proof (cases "r = v")
      case True
      then have "x \<in> type_variables t" using * by simp
      moreover have "x < length (type_parents st)" using calculation t by (auto simp: type_in_def)
      ultimately have "v \<in> type_dependents ?st ! root_variable st x"
        using root_variable_ok [OF tables, of x] len by (simp add: mentioned_roots_def)
      then show ?thesis using True * root_variable_root [of v st] by auto
    next
      case False
      then have "\<exists>q \<in> type_dependents st ! root_variable st x. root_variable st q = r"
        using ok * by (simp add: solver_ok_def dependents_ok_def)
      then show ?thesis using grow [of _ x] range [of r b x] * False by auto
    qed
  qed
  moreover have "heights_ok ?st [v]"
    using ok root_variable_root [of v st] by (auto simp: solver_ok_def heights_ok_def rv)
  ultimately show ?thesis using v by (simp add: solver_ok_def)
qed

lemma set_binding_ok:
  assumes "solver_ok st []" "v < length (type_parents st)" "known_type st t" "\<not> is_variable t"
  shows "(\<exists>st'. set_binding v t s st = (Done (), st') \<and> solver_ok st' [] \<and> type_parents st' = type_parents st \<and>
             substitutions st' = (substitutions st)(v \<mapsto> t) \<and> effect_definitions st' = effect_definitions st) \<or>
    (\<exists>d st'. set_binding v t s st = (Failed d, st'))"
proof -
  have "\<not> (\<exists>r \<in> mentioned_roots st t. length (type_dependents st) \<le> r)"
    using mentioned_roots_range assms by (fastforce simp: solver_ok_def tables_ok_def)
  then show ?thesis
    using refresh_ok [OF solver_ok_bind [OF assms], of s] by (auto simp: set_binding_def Let_def)
qed

text \<open>The solver after \<open>alias_variable\<close> and before it is refreshed.\<close>

definition aliased :: "nat \<Rightarrow> nat \<Rightarrow> solver \<Rightarrow> solver" where
  "aliased a r st =
     st\<lparr>type_parents := (type_parents st)[a := r],
        type_heights := (type_heights st)[r := max (type_heights st ! a) (type_heights st ! r)],
        type_dependents := (type_dependents st)[a := {}, r := type_dependents st ! r \<union> type_dependents st ! a]\<rparr>"

definition alias_pending :: "nat \<Rightarrow> nat \<Rightarrow> solver \<Rightarrow> nat list" where
  "alias_pending a r st =
     (if type_heights st ! r < type_heights st ! a then sorted_list_of_set (type_dependents st ! r) else []) @
     sorted_list_of_set (type_dependents st ! a)"

lemma alias_variable_refreshes:
  assumes "tables_ok st" "a < length (type_parents st)" "r < length (type_parents st)"
  shows "alias_variable a r s st = refresh_type_heights s (rev (alias_pending a r st)) (aliased a r st)"
proof -
  have "type_heights st ! a \<le> type_heights st ! r \<Longrightarrow> type_heights st = (type_heights st)[r := max (type_heights st ! a) (type_heights st ! r)]"
    by (simp add: max_def)
  then show ?thesis
    using assms by (auto simp: alias_variable_def Let_def tables_ok_def aliased_def alias_pending_def max_def)
qed

lemma aliased_root:
  assumes "tables_ok st" "is_root st a" "is_root st r" "a \<noteq> r" "v < length (type_parents st)"
  shows "root_variable (aliased a r st) v = (if root_variable st v = a then r else root_variable st v)"
  using forest_alias(2) [of "type_parents st" a r v] assms by (simp add: tables_ok_def aliased_def root_variable_def)

lemma aliased_tables:
  assumes t: "tables_ok st" and "is_root st a" "is_root st r" "a \<noteq> r"
  shows "tables_ok (aliased a r st)"
proof -
  have "forest ((type_parents st)[a := r])" using assms by (intro forest_alias(1)) (simp_all add: tables_ok_def)
  moreover have "h \<le> MAX_NESTING_DEPTH" if "h \<in> set (type_heights (aliased a r st))" for h
    using that assms by (fastforce simp: aliased_def tables_ok_def dest: subsetD [OF set_update_subset_insert])
  moreover have "ds \<subseteq> {..<length (type_parents st)}" if "ds \<in> set (type_dependents (aliased a r st))" for ds
    using that assms dependents_range(1) [OF t]
    by (auto simp: aliased_def tables_ok_def in_set_conv_nth nth_list_update split: if_splits)
  ultimately show ?thesis using t by (simp add: tables_ok_def aliased_def)
qed

lemma aliased_dependents:
  assumes ok: "tables_ok st" "dependents_ok st" and roots: "is_root st a" "is_root st r" "a \<noteq> r"
  shows "dependents_ok (aliased a r st)"
  unfolding dependents_ok_def
proof (intro allI impI)
  fix r' t x
  assume "is_root (aliased a r st) r'" "substitutions (aliased a r st) r' = Some t" and x: "x \<in> type_variables t"
  then have r': "is_root st r'" "r' \<noteq> a" "substitutions st r' = Some t"
    using roots by (auto simp: aliased_def nth_list_update split: if_splits)
  then have xr: "x < length (type_parents st)" using ok x by (fastforce simp: tables_ok_def type_in_def)
  obtain q where q: "q \<in> type_dependents st ! root_variable st x" "root_variable st q = r'"
    using ok(2) r' x by (fastforce simp: dependents_ok_def)
  have "q < length (type_parents st)"
    using dependents_range(1) [OF ok(1)] root_variable_ok [OF ok(1) xr] q(1) by blast
  then have "root_variable (aliased a r st) q = r'" using aliased_root [OF ok(1) roots, of q] q r' by simp
  moreover have "q \<in> type_dependents (aliased a r st) ! root_variable (aliased a r st) x"
    using aliased_root [OF ok(1) roots xr] q(1) roots root_variable_ok [OF ok(1) xr] ok(1)
    by (auto simp: aliased_def tables_ok_def nth_list_update)
  ultimately show "\<exists>q \<in> type_dependents (aliased a r st) ! root_variable (aliased a r st) x.
      root_variable (aliased a r st) q = r'" by blast
qed

lemma aliased_heights:
  assumes ok: "solver_ok st []" and roots: "is_root st a" "is_root st r" "a \<noteq> r"
  shows "heights_ok (aliased a r st) (rev (alias_pending a r st))"
  unfolding heights_ok_def
proof (intro allI impI)
  let ?st = "aliased a r st"
  have t: "tables_ok st" "dependents_ok st" using ok by (simp_all add: solver_ok_def)
  note root' = aliased_root [OF t(1) roots]
  fix r' b
  assume "is_root ?st r'" "substitutions ?st r' = Some b"
  then have r': "is_root st r'" "r' \<noteq> a" "substitutions st r' = Some b"
    using roots by (auto simp: aliased_def nth_list_update split: if_splits)
  have bound: "x < length (type_parents st)" if "x \<in> type_variables b" for x
    using t(1) r' that by (fastforce simp: tables_ok_def type_in_def)
  let ?touched = "\<lambda>x. root_variable st x = a \<or> root_variable st x = r \<and> type_heights st ! r < type_heights st ! a"
  show "hgt (height_of ?st) b \<le> type_heights ?st ! r' \<or> r' \<in> root_variable ?st ` set (rev (alias_pending a r st))"
  proof (cases "\<exists>x \<in> type_variables b. ?touched x")
    case True
    then obtain x where x: "x \<in> type_variables b" "?touched x" by blast
    then obtain q where q: "q \<in> type_dependents st ! root_variable st x" "root_variable st q = r'"
      using t(2) r' by (fastforce simp: dependents_ok_def)
    then have "q \<in> set (alias_pending a r st)"
      using x dependents_range(2) [OF t(1)] roots by (auto simp: alias_pending_def)
    moreover have "q < length (type_parents st)"
      using dependents_range(1) [OF t(1)] root_variable_ok [OF t(1) bound [OF x(1)]] q(1) by blast
    then have "root_variable ?st q = r'" using root' q r' by simp
    ultimately show ?thesis by force
  next
    case False
    then have "height_of ?st x = height_of st x" if "x \<in> type_variables b" for x
      using root' [OF bound [OF that]] that roots t(1)
      by (auto simp: aliased_def tables_ok_def nth_list_update max_def)
    then have "hgt (height_of ?st) b = hgt (height_of st) b" by (rule hgt_cong)
    also have "\<dots> \<le> type_heights st ! r'" using ok r' by (simp add: solver_ok_def heights_ok_def)
    also have "\<dots> \<le> type_heights ?st ! r'"
      using r' t(1) by (cases "r' = r") (simp_all add: aliased_def tables_ok_def)
    finally show ?thesis by blast
  qed
qed

lemma alias_variable_ok:
  assumes ok: "solver_ok st []" and roots: "is_root st a" "is_root st r" "a \<noteq> r"
  shows "(\<exists>st'. alias_variable a r s st = (Done (), st') \<and> solver_ok st' [] \<and>
             type_parents st' = (type_parents st)[a := r] \<and>
             substitutions st' = substitutions st \<and> effect_definitions st' = effect_definitions st) \<or>
    (\<exists>d st'. alias_variable a r s st = (Failed d, st'))"
proof -
  have t: "tables_ok st" "dependents_ok st" using ok by (simp_all add: solver_ok_def)
  have "set (alias_pending a r st) \<subseteq> {..<length (type_parents st)}"
    using dependents_range [OF t(1)] roots by (auto simp: alias_pending_def)
  then have "solver_ok (aliased a r st) (rev (alias_pending a r st))"
    using aliased_tables [OF t(1) roots] aliased_dependents [OF t roots] aliased_heights [OF ok roots]
    by (simp add: solver_ok_def) (simp add: aliased_def)
  from refresh_ok [OF this, of s] show ?thesis
    using alias_variable_refreshes [OF t(1)] roots by (auto simp: aliased_def)
qed

text \<open>A fresh variable is unsolved and mentioned nowhere.\<close>

lemma fresh_type_ok:
  assumes ok: "solver_ok st []" and fresh: "fresh_type st = (t, st')"
  shows "solver_ok st' []" "t = IVariable (length (type_parents st))"
proof -
  let ?n = "length (type_parents st)"
  have t: "tables_ok st" using ok by (simp add: solver_ok_def)
  then have f: "forest (type_parents st)"
    and len: "length (type_heights st) = ?n" "length (type_dependents st) = ?n" by (simp_all add: tables_ok_def)
  have st': "st' = st\<lparr>type_parents := type_parents st @ [?n], type_heights := type_heights st @ [0],
      type_dependents := type_dependents st @ [{}]\<rparr>" and "t = IVariable ?n"
    using fresh by (simp_all add: fresh_type_def Let_def)
  then show "t = IVariable ?n" by simp
  have old: "root_variable st' v = root_variable st v" if "v < ?n" for v
    using forest_snoc(2) [OF f that] by (simp add: st' root_variable_def)
  have bound: "x < ?n" if "substitutions st r = Some b" "x \<in> type_variables b" for r b x
    using t that by (fastforce simp: tables_ok_def type_in_def)
  have root: "is_root st r" if "is_root st' r" "substitutions st' r = Some b" for r b
    using that t by (auto simp: st' nth_append tables_ok_def split: if_splits)
  have "tables_ok st'"
    using t forest_snoc(1) [OF f] by (fastforce simp: st' tables_ok_def type_in_def)
  moreover have "dependents_ok st'"
    unfolding dependents_ok_def
  proof (intro allI impI)
    fix r b x
    assume *: "is_root st' r" "substitutions st' r = Some b" "x \<in> type_variables b"
    then have x: "x < ?n" using bound by (simp add: st')
    obtain q where q: "q \<in> type_dependents st ! root_variable st x" "root_variable st q = r"
      using ok root [OF *(1,2)] * by (fastforce simp: solver_ok_def dependents_ok_def st')
    have "q < ?n" using dependents_range(1) [OF t] root_variable_ok [OF t x] q(1) by blast
    then show "\<exists>q \<in> type_dependents st' ! root_variable st' x. root_variable st' q = r"
      using q root_variable_ok [OF t x] len unfolding old [OF x] by (intro bexI [of _ q]) (simp_all add: old, simp add: st' nth_append)
  qed
  moreover have "heights_ok st' []"
    unfolding heights_ok_def
  proof (intro allI impI)
    fix r b
    assume *: "is_root st' r" "substitutions st' r = Some b"
    have "height_of st' x = height_of st x" if "x \<in> type_variables b" for x
      using bound [of r b x] that * root_variable_ok [OF t, of x] len old [of x] by (simp add: st' nth_append)
    then have "hgt (height_of st') b = hgt (height_of st) b" by (rule hgt_cong)
    then show "hgt (height_of st') b \<le> type_heights st' ! r \<or> r \<in> root_variable st' ` set []"
      using ok root [OF *] * len by (auto simp: solver_ok_def heights_ok_def st' nth_append)
  qed
  ultimately show "solver_ok st' []" by (simp add: solver_ok_def)
qed

end
