(* ===== verification/Inference_Search.thy ===== *)
theory Inference_Search
  imports Inference_Heights
begin

text \<open>
  The searches through inferred types (\<open>occurs\<close>, \<open>contains_secret\<close>, \<open>contains_transaction\<close>,
  \<open>contains_no_function\<close>) decide whether a type of the kind sought is reached through the bindings.
\<close>

section \<open>The parts of a type\<close>

inductive reaches :: "solver \<Rightarrow> infer_type \<Rightarrow> infer_type \<Rightarrow> bool" for st where
  itself: "reaches st t t"
| child: "c \<in> set (children t) \<Longrightarrow> reaches st c u \<Longrightarrow> reaches st t u"
| binding: "substitutions st (root_variable st v) = Some b \<Longrightarrow> reaches st b u \<Longrightarrow> reaches st (IVariable v) u"

lemma reaches_step:
  "reaches st t u \<longleftrightarrow> t = u \<or> (\<exists>c \<in> set (children t). reaches st c u) \<or>
     (\<exists>v b. t = IVariable v \<and> substitutions st (root_variable st v) = Some b \<and> reaches st b u)"
  by (subst reaches.simps) blast

lemma type_variables_reached: "v \<in> type_variables t \<Longrightarrow> reaches st t (IVariable v)"
proof (induction t rule: children_induct)
  case (step t)
  show ?case
  proof (cases "is_variable t")
    case False
    then show ?thesis using step by (auto simp: type_variables_children intro: reaches.child)
  qed (use step.prems in \<open>auto split: infer_type.splits intro: reaches.itself\<close>)
qed

section \<open>Completeness\<close>

text \<open>A type with nothing sought in it whose variables are in \<open>visited\<close>.\<close>

inductive covered :: "solver \<Rightarrow> (infer_type \<Rightarrow> bool) \<Rightarrow> nat set \<Rightarrow> infer_type \<Rightarrow> bool" for st hit visited where
  "\<not> hit t \<Longrightarrow> (\<And>v. t = IVariable v \<Longrightarrow> root_variable st v \<in> visited) \<Longrightarrow>
     (\<And>c. c \<in> set (children t) \<Longrightarrow> covered st hit visited c) \<Longrightarrow> covered st hit visited t"

lemma covered_mono: "covered st hit vs t \<Longrightarrow> vs \<subseteq> vs' \<Longrightarrow> covered st hit vs' t"
  by (induction rule: covered.induct) (blast intro: covered.intros)

definition explored :: "solver \<Rightarrow> (infer_type \<Rightarrow> bool) \<Rightarrow> (nat \<Rightarrow> bool) \<Rightarrow> nat set \<Rightarrow> nat set \<Rightarrow> bool" where
  "explored st hit target vs vs' \<longleftrightarrow>
     vs \<subseteq> vs' \<and>
     (\<forall>r \<in> vs' - vs. \<not> target r \<and> (\<forall>b. substitutions st r = Some b \<longrightarrow> covered st hit vs' b))"

lemma explored_refl: "explored st hit target vs vs"
  by (simp add: explored_def)

lemma explored_trans:
  assumes 1: "explored st hit target vs vs1" and 2: "explored st hit target vs1 vs2"
  shows "explored st hit target vs vs2"
proof -
  have "covered st hit vs2 b" if "r \<in> vs1" "r \<notin> vs" "substitutions st r = Some b" for r b
    using 1 2 that covered_mono [of st hit vs1 b vs2] by (simp add: explored_def)
  then show ?thesis using 1 2 by (auto simp: explored_def)
qed

lemma explored_visit:
  "explored st hit target (insert r vs) vs' \<Longrightarrow> \<not> target r \<Longrightarrow>
     (\<And>b. substitutions st r = Some b \<Longrightarrow> covered st hit vs' b) \<Longrightarrow> explored st hit target vs vs'"
  by (auto simp: explored_def)

lemma any_walk_explored:
  assumes "any_walk f ts vs = Some (False, vs')"
    and "\<And>t vs vs'. t \<in> set ts \<Longrightarrow> f t vs = Some (False, vs') \<Longrightarrow> explored st hit target vs vs' \<and> covered st hit vs' t"
  shows "explored st hit target vs vs' \<and> (\<forall>t \<in> set ts. covered st hit vs' t)"
  using assms
proof (induction ts arbitrary: vs)
  case (Cons t ts)
  then obtain vs1 where 1: "f t vs = Some (False, vs1)" "any_walk f ts vs1 = Some (False, vs')"
    by (auto split: option.splits prod.splits bool.splits)
  have rest: "explored st hit target vs1 vs' \<and> (\<forall>t \<in> set ts. covered st hit vs' t)"
    by (rule Cons.IH [OF 1(2)]) (rule Cons.prems(2), simp_all)
  moreover have "explored st hit target vs vs1 \<and> covered st hit vs1 t" using Cons.prems(2) [OF _ 1(1)] by simp
  ultimately show ?case
    using explored_trans [of st hit target vs vs1 vs'] covered_mono [of st hit vs1 t vs'] by (auto simp: explored_def)
qed (simp add: explored_refl)

lemma walk_type_explored:
  assumes "\<And>v vs vs'. visit v vs = Some (False, vs') \<Longrightarrow> explored st hit target vs vs' \<and> root_variable st v \<in> vs'"
  shows "walk_type hit visit t vs = Some (False, vs') \<Longrightarrow> explored st hit target vs vs' \<and> covered st hit vs' t"
proof (induction t arbitrary: vs vs' rule: children_induct)
  case (step t)
  then have nothit: "\<not> hit t" by (subst (asm) walk_type.simps) (auto split: if_splits)
  show ?case
  proof (cases "is_variable t")
    case True
    then obtain v where v: "t = IVariable v" by (cases t) simp_all
    then have "visit v vs = Some (False, vs')"
      using step.prems nothit by (subst (asm) walk_type.simps) simp
    then have visited: "explored st hit target vs vs' \<and> root_variable st v \<in> vs'" by (rule assms)
    have "covered st hit vs' t" by (rule covered.intros) (use visited nothit in \<open>simp_all add: v\<close>)
    then show ?thesis using visited by blast
  next
    case False
    then have walk: "any_walk (walk_type hit visit) (children t) vs = Some (False, vs')"
      using step.prems nothit by (subst (asm) walk_type.simps) (cases t; simp)
    have "explored st hit target vs vs' \<and> (\<forall>c \<in> set (children t). covered st hit vs' c)"
      by (rule any_walk_explored [OF walk]) (rule step.IH)
    moreover have "t \<noteq> IVariable v" for v using False by auto
    ultimately show ?thesis using nothit by (blast intro: covered.intros)
  qed
qed

lemma search_at_explored:
  "search_at n st hit target t vs = Some (False, vs') \<Longrightarrow> explored st hit target vs vs' \<and> covered st hit vs' t"
proof (induction n arbitrary: t vs vs')
  case (Suc n)
  show ?case
  proof (rule walk_type_explored [OF _ Suc.prems [unfolded search_at.simps]])
    fix v vs vs'
    let ?r = "root_variable st v"
    assume v: "(let r = ?r in
        if target r then Some (True, vs) else if r \<in> vs then Some (False, vs)
        else case substitutions st r of None \<Rightarrow> Some (False, insert r vs)
             | Some b \<Rightarrow> search_at n st hit target b (insert r vs)) = Some (False, vs')"
    then have t: "\<not> target ?r" by (auto simp: Let_def)
    consider "?r \<in> vs" "vs' = vs" | "substitutions st ?r = None" "vs' = insert ?r vs"
      | b where "substitutions st ?r = Some b" "search_at n st hit target b (insert ?r vs) = Some (False, vs')"
      using v t by (auto simp: Let_def split: if_splits option.splits)
    then show "explored st hit target vs vs' \<and> ?r \<in> vs'"
    proof cases
      case 1
      then show ?thesis by (simp add: explored_refl)
    next
      case 2
      then show ?thesis using t by (auto simp: explored_def)
    next
      case 3
      then have "explored st hit target (insert ?r vs) vs' \<and> covered st hit vs' b" by (intro Suc.IH)
      then show ?thesis using 3 t by (auto intro: explored_visit simp: explored_def)
    qed
  qed
qed simp

lemma covered_reaches:
  assumes "reaches st t u" "covered st hit vs t" "explored st hit target {} vs"
  shows "\<not> hit u" "u = IVariable v \<Longrightarrow> \<not> target (root_variable st v)"
proof -
  have "covered st hit vs u"
    using assms
  proof (induction rule: reaches.induct)
    case (binding v b u)
    then have "root_variable st v \<in> vs" by (auto elim: covered.cases)
    then show ?case using binding by (auto simp: explored_def)
  qed (auto elim: covered.cases)
  then show "\<not> hit u" "u = IVariable v \<Longrightarrow> \<not> target (root_variable st v)"
    using assms(3) by (auto elim: covered.cases simp: explored_def)
qed

section \<open>Soundness and termination\<close>

definition finds :: "solver \<Rightarrow> (infer_type \<Rightarrow> bool) \<Rightarrow> (nat \<Rightarrow> bool) \<Rightarrow> infer_type \<Rightarrow> bool" where
  "finds st hit target t \<longleftrightarrow>
     (\<exists>u. reaches st t u \<and> hit u) \<or> (\<exists>v. reaches st t (IVariable v) \<and> target (root_variable st v))"

lemma finds_child: "c \<in> set (children t) \<Longrightarrow> finds st hit target c \<Longrightarrow> finds st hit target t"
  by (auto simp: finds_def intro: reaches.child)

lemma finds_binding:
  "substitutions st (root_variable st v) = Some b \<Longrightarrow> finds st hit target b \<Longrightarrow> finds st hit target (IVariable v)"
  by (auto simp: finds_def intro: reaches.binding)

lemma any_walk_found: "any_walk f ts vs = Some (True, vs') \<Longrightarrow> \<exists>t \<in> set ts. \<exists>vs. f t vs = Some (True, vs')"
  by (induction ts arbitrary: vs) (auto split: option.splits prod.splits bool.splits)

lemma walk_type_built:
  "\<not> hit t \<Longrightarrow> \<not> is_variable t \<Longrightarrow> walk_type hit visit t vs = any_walk (walk_type hit visit) (children t) vs"
  by (subst walk_type.simps) (cases t; simp)

lemma walk_type_variable:
  "\<not> hit (IVariable v) \<Longrightarrow> walk_type hit visit (IVariable v) vs = visit v vs"
  by (subst walk_type.simps) simp

lemma walk_type_found:
  assumes "\<And>v vs vs'. visit v vs = Some (True, vs') \<Longrightarrow> finds st hit target (IVariable v)"
  shows "walk_type hit visit t vs = Some (True, vs') \<Longrightarrow> finds st hit target t"
proof (induction t arbitrary: vs rule: children_induct)
  case (step t)
  show ?case
  proof (cases "hit t")
    case True
    then show ?thesis by (auto simp: finds_def intro: reaches.itself)
  next
    case False
    show ?thesis
    proof (cases "is_variable t")
      case True
      then obtain v where "t = IVariable v" by (cases t) simp_all
      then show ?thesis using assms step.prems False by (simp add: walk_type_variable)
    next
      case False
      then show ?thesis
        using step any_walk_found [of "walk_type hit visit" "children t" vs vs'] \<open>\<not> hit t\<close>
        by (auto simp: walk_type_built intro: finds_child)
    qed
  qed
qed

lemma search_at_found: "search_at n st hit target t vs = Some (True, vs') \<Longrightarrow> finds st hit target t"
proof (induction n arbitrary: t vs vs')
  case (Suc n)
  show ?case
  proof (rule walk_type_found [OF _ Suc.prems [unfolded search_at.simps]])
    fix v vs vs1
    assume v: "(let r = root_variable st v in
        if target r then Some (True, vs) else if r \<in> vs then Some (False, vs)
        else case substitutions st r of None \<Rightarrow> Some (False, insert r vs)
             | Some b \<Rightarrow> search_at n st hit target b (insert r vs)) = Some (True, vs1)"
    show "finds st hit target (IVariable v)"
    proof (cases "target (root_variable st v)")
      case True
      then show ?thesis by (auto simp: finds_def intro: reaches.itself)
    next
      case False
      then obtain b where "substitutions st (root_variable st v) = Some b"
        "search_at n st hit target b (insert (root_variable st v) vs) = Some (True, vs1)"
        using v by (auto simp: Let_def split: if_splits option.splits)
      then show ?thesis by (blast intro: finds_binding Suc.IH)
    qed
  qed
qed simp

text \<open>Every visited variable exists, so the search is no deeper than there are variables.\<close>

definition visits :: "nat set \<Rightarrow> nat set \<Rightarrow> (bool \<times> nat set) option \<Rightarrow> bool" where
  "visits vars vs result \<longleftrightarrow> (\<exists>b vs'. result = Some (b, vs') \<and> vs \<subseteq> vs' \<and> vs' \<subseteq> vars)"

lemma any_walk_total:
  assumes "\<And>t vs. t \<in> set ts \<Longrightarrow> ws \<subseteq> vs \<Longrightarrow> vs \<subseteq> vars \<Longrightarrow> visits vars vs (f t vs)"
  shows "ws \<subseteq> vs \<Longrightarrow> vs \<subseteq> vars \<Longrightarrow> visits vars vs (any_walk f ts vs)"
  using assms
proof (induction ts arbitrary: vs)
  case (Cons t ts)
  have "visits vars vs (f t vs)" using Cons.prems(3) [of t] Cons.prems(1,2) by simp
  then obtain b vs1 where 1: "f t vs = Some (b, vs1)" "vs \<subseteq> vs1" "vs1 \<subseteq> vars" unfolding visits_def by blast
  have "visits vars vs1 (any_walk f ts vs1)"
    by (rule Cons.IH) (use 1 Cons.prems in auto)
  then show ?case using 1 by (cases b) (auto simp: visits_def)
qed (auto simp: visits_def)

lemma walk_type_total:
  "(\<And>v vs. v \<in> type_variables t \<Longrightarrow> ws \<subseteq> vs \<Longrightarrow> vs \<subseteq> vars \<Longrightarrow> visits vars vs (visit v vs)) \<Longrightarrow>
     ws \<subseteq> vs \<Longrightarrow> vs \<subseteq> vars \<Longrightarrow> visits vars vs (walk_type hit visit t vs)"
proof (induction t arbitrary: vs rule: children_induct)
  case (step t)
  consider "hit t" | v where "\<not> hit t" "t = IVariable v" | "\<not> hit t" "\<not> is_variable t" by (cases t) auto
  then show ?case
  proof cases
    case 1
    then show ?thesis using step.prems by (subst walk_type.simps) (auto simp: visits_def)
  next
    case 2
    then show ?thesis using step.prems by (simp add: walk_type_variable)
  next
    case 3
    have "visits vars vs (any_walk (walk_type hit visit) (children t) vs)"
    proof (rule any_walk_total)
      fix c vs1
      assume c: "c \<in> set (children t)" "ws \<subseteq> vs1" "vs1 \<subseteq> vars"
      then have "type_variables c \<subseteq> type_variables t" using 3 by (auto simp: type_variables_children)
      then show "visits vars vs1 (walk_type hit visit c vs1)" using step.IH [OF c(1) _ c(2,3)] step.prems(1) by blast
    qed (use step.prems in simp_all)
    then show ?thesis using 3 by (simp add: walk_type_built)
  qed
qed

lemma search_at_total:
  assumes t: "tables_ok st" and vars: "vars = {..<length (type_parents st)}"
  shows "vs \<subseteq> vars \<Longrightarrow> length (type_parents st) < n + card vs \<Longrightarrow> type_variables ty \<subseteq> vars \<Longrightarrow>
     visits vars vs (search_at n st hit target ty vs)"
proof (induction n arbitrary: ty vs)
  case 0
  then show ?case using card_mono [of vars vs] vars by simp
next
  case (Suc n)
  show ?case
    unfolding search_at.simps
  proof (rule walk_type_total [where ws = vs])
    fix v vs1
    assume v: "v \<in> type_variables ty" "vs \<subseteq> vs1" "vs1 \<subseteq> vars"
    let ?r = "root_variable st v"
    have r: "?r \<in> vars" using root_variable_ok [OF t, of v] v Suc.prems(3) vars by auto
    have fin: "finite vs1" using v(3) by (rule finite_subset) (simp add: vars)
    have deeper: "visits vars (insert ?r vs1) (search_at n st hit target t' (insert ?r vs1))"
      if "?r \<notin> vs1" "substitutions st ?r = Some t'" for t'
    proof (rule Suc.IH)
      show "length (type_parents st) < n + card (insert ?r vs1)"
        using Suc.prems(2) card_mono [OF fin v(2)] that fin by simp
      show "type_variables t' \<subseteq> vars" using t that by (simp add: tables_ok_def type_in_def vars)
    qed (use r v in simp)
    have weaker: "visits vars (insert ?r vs1) result \<Longrightarrow> visits vars vs1 result" for result
      by (auto simp: visits_def)
    show "visits vars vs1 (let r = ?r in
        if target r then Some (True, vs1) else if r \<in> vs1 then Some (False, vs1)
        else case substitutions st r of None \<Rightarrow> Some (False, insert r vs1)
             | Some b \<Rightarrow> search_at n st hit target b (insert r vs1))"
      using v(3) r weaker [OF deeper] by (auto simp: Let_def split: option.splits) (auto simp: visits_def)
  qed (use Suc.prems in simp_all)
qed

lemma search_exact:
  assumes "tables_ok st" "type_variables t \<subseteq> {..<length (type_parents st)}"
  shows "search st hit target t = Some (finds st hit target t)"
proof -
  let ?found = "search_at (Suc (length (type_parents st))) st hit target t {}"
  obtain b vs where s: "?found = Some (b, vs)"
    using search_at_total [OF assms(1) refl, of "{}" "Suc (length (type_parents st))" t hit target] assms(2)
    by (auto simp: visits_def simp del: search_at.simps)
  have "b = finds st hit target t"
  proof (cases b)
    case True
    with s have "?found = Some (True, vs)" by simp
    then show ?thesis using True search_at_found by blast
  next
    case False
    with s have "?found = Some (False, vs)" by simp
    note e = search_at_explored [OF this]
    have "\<not> finds st hit target t"
      using covered_reaches [of st t _ hit vs target] e by (auto simp: finds_def)
    then show ?thesis using False by simp
  qed
  then show ?thesis using s by (simp add: search_def del: search_at.simps)
qed

end
