(* ===== verification/Inference_Finite.thy ===== *)
theory Inference_Finite
  imports Inference_Search
begin

text \<open>
  Unification keeps the invariant of the solver and never indexes out of range, so in every solver that the
  analysis reaches no type contains itself and every type nests at most \<open>MAX_NESTING_DEPTH\<close> constructors.
\<close>

section \<open>Outcomes\<close>

text \<open>The outcome is not a panic, and \<open>Q\<close> holds when there is a result.\<close>

definition swp :: "('e, 'a) solving \<Rightarrow> ('a \<Rightarrow> solver \<Rightarrow> bool) \<Rightarrow> solver \<Rightarrow> bool" where
  "swp m Q st \<longleftrightarrow> (case m st of (Done x, st') \<Rightarrow> Q x st' | (Panics, _) \<Rightarrow> False | _ \<Rightarrow> True)"

named_theorems swp_rules

lemma swp_ret [swp_rules]: "Q x st \<Longrightarrow> swp (sret x) Q st"
  by (simp add: swp_def sret_def)

lemma swp_fail [swp_rules]: "swp (sstop (Failed e)) Q st"
  by (simp add: swp_def sstop_def)

lemma swp_diverges [swp_rules]: "swp (sstop Diverges) Q st"
  by (simp add: swp_def sstop_def)

lemma swp_bind [swp_rules]: "swp m (\<lambda>x. swp (f x) Q) st \<Longrightarrow> swp (sbind m f) Q st"
  by (auto simp: swp_def sbind_def split: prod.splits outcome.splits)

lemma swp_map_err [swp_rules]: "swp m Q st \<Longrightarrow> swp (smap_err g m) Q st"
  by (auto simp: swp_def smap_err_def split: prod.splits outcome.splits)

lemma swp_take [swp_rules]: "(\<And>x. r = Some x \<Longrightarrow> Q x st) \<Longrightarrow> swp (stake r) Q st"
  by (cases r) (simp_all add: stake_def swp_ret swp_diverges)

lemma swp_fail_with [swp_rules]: "swp (fail_with shown d) Q st"
  by (cases shown) (simp_all add: fail_with_def swp_fail swp_diverges)

lemma swp_if [swp_rules]: "(b \<Longrightarrow> swp m Q st) \<Longrightarrow> (\<not> b \<Longrightarrow> swp m' Q st) \<Longrightarrow> swp (if b then m else m') Q st"
  by simp

lemma swp_mono: "swp m Q st \<Longrightarrow> (\<And>x st'. Q x st' \<Longrightarrow> R x st') \<Longrightarrow> swp m R st"
  by (auto simp: swp_def split: prod.splits outcome.splits)

lemma swp_done: "swp m Q st \<Longrightarrow> m st = (Done x, st') \<Longrightarrow> Q x st'"
  by (simp add: swp_def)

lemma swp_at: "swp (\<lambda>st. f st st) Q st \<longleftrightarrow> swp (f st) Q st"
  by (simp add: swp_def)

section \<open>What unification may touch\<close>

text \<open>A set of variables with the parents and the bindings of its members.\<close>

definition closed_vars :: "nat set \<Rightarrow> solver \<Rightarrow> bool" where
  "closed_vars S st \<longleftrightarrow>
     S \<subseteq> {..<length (type_parents st)} \<and>
     (\<forall>v \<in> S. type_parents st ! v \<in> S \<and>
        (\<forall>t. type_parents st ! v = v \<longrightarrow> substitutions st v = Some t \<longrightarrow> type_variables t \<subseteq> S))"

text \<open>\<open>st\<close> comes from \<open>st0\<close> by solving variables of \<open>S\<close>.\<close>

definition solved_in :: "nat set \<Rightarrow> solver \<Rightarrow> solver \<Rightarrow> bool" where
  "solved_in S st0 st \<longleftrightarrow>
     solver_ok st [] \<and> closed_vars S st \<and>
     length (type_parents st) = length (type_parents st0) \<and>
     length (effect_definitions st) = length (effect_definitions st0) \<and>
     (\<forall>v. v \<notin> S \<longrightarrow> type_parents st ! v = type_parents st0 ! v \<and> substitutions st v = substitutions st0 v)"

abbreviation typed_in :: "nat set \<Rightarrow> solver \<Rightarrow> infer_type \<Rightarrow> bool" where
  "typed_in S st0 \<equiv> type_in S (length (effect_definitions st0))"

lemma closed_root:
  assumes "closed_vars S st" "v \<in> S"
  shows "root_variable st v \<in> S"
proof -
  have "root_from n (type_parents st) v \<in> S" for n
    using assms by (induction n arbitrary: v) (simp_all add: closed_vars_def)
  then show ?thesis by (simp add: root_variable_def)
qed

lemma closed_binding: "closed_vars S st \<Longrightarrow> v \<in> S \<Longrightarrow> is_root st v \<Longrightarrow> substitutions st v = Some t \<Longrightarrow> type_variables t \<subseteq> S"
  by (auto simp: closed_vars_def)

lemma closed_Int: "closed_vars S st \<Longrightarrow> closed_vars T st \<Longrightarrow> closed_vars (S \<inter> T) st"
  unfolding closed_vars_def by blast

lemma closed_Un: "closed_vars S st \<Longrightarrow> closed_vars T st \<Longrightarrow> closed_vars (S \<union> T) st"
  unfolding closed_vars_def by blast

lemma solved_in_outside:
  "solved_in S st0 st \<Longrightarrow> v \<notin> S \<Longrightarrow> type_parents st ! v = type_parents st0 ! v \<and> substitutions st v = substitutions st0 v"
  unfolding solved_in_def by blast

lemma solved_in_tables: "solved_in S st0 st \<Longrightarrow> tables_ok st"
  by (simp add: solved_in_def solver_ok_def)

lemma solved_in_root:
  assumes "solved_in S st0 st" "v \<in> S"
  shows "root_variable st v \<in> S" "is_root st (root_variable st v)"
  using assms closed_root [of S st v] root_variable_ok [of st v]
  by (auto simp: solved_in_def solver_ok_def closed_vars_def)

lemma solved_in_binding:
  assumes "solved_in S st0 st" "v \<in> S" "is_root st v" "substitutions st v = Some t"
  shows "typed_in S st0 t" "\<not> is_variable t"
proof -
  have "known_type st t \<and> \<not> is_variable t"
    using solved_in_tables [OF assms(1)] assms(4) by (simp add: tables_ok_def)
  then show "typed_in S st0 t" "\<not> is_variable t"
    using assms closed_binding [of S st v t] by (simp_all add: solved_in_def type_in_def)
qed

lemma solved_in_known:
  assumes "solved_in S st0 st" "typed_in S st0 t"
  shows "known_type st t"
  using assms by (auto simp: solved_in_def closed_vars_def type_in_def)

lemma swp_set_binding:
  assumes s: "solved_in S st0 st" and v: "v \<in> S" and t: "typed_in S st0 t" "\<not> is_variable t"
  shows "swp (set_binding v t s) (\<lambda>_ st'. solved_in S st0 st' \<and> type_parents st' = type_parents st) st"
proof -
  have "v < length (type_parents st)" using s v by (auto simp: solved_in_def closed_vars_def)
  then have "(\<exists>st'. set_binding v t s st = (Done (), st') \<and> solver_ok st' [] \<and> type_parents st' = type_parents st \<and>
             substitutions st' = (substitutions st)(v \<mapsto> t) \<and> effect_definitions st' = effect_definitions st) \<or>
    (\<exists>d st'. set_binding v t s st = (Failed d, st'))"
    using s solved_in_known [OF s t(1)] t by (intro set_binding_ok) (simp_all add: solved_in_def)
  then show ?thesis using s v t by (auto simp: swp_def solved_in_def closed_vars_def type_in_def)
qed

lemma swp_alias_variable:
  assumes s: "solved_in S st0 st" and a: "a \<in> S" "is_root st a" and r: "r \<in> S" "is_root st r" "a \<noteq> r"
  shows "swp (alias_variable a r s) (\<lambda>_ st'. solved_in S st0 st') st"
proof -
  have "(\<exists>st'. alias_variable a r s st = (Done (), st') \<and> solver_ok st' [] \<and>
             type_parents st' = (type_parents st)[a := r] \<and>
             substitutions st' = substitutions st \<and> effect_definitions st' = effect_definitions st) \<or>
    (\<exists>d st'. alias_variable a r s st = (Failed d, st'))"
    using s a r by (intro alias_variable_ok) (simp_all add: solved_in_def)
  then show ?thesis using s a r by (auto simp: swp_def solved_in_def closed_vars_def nth_list_update)
qed

lemma swp_link_effects:
  assumes s: "solved_in S st0 st" and "l < length (effect_definitions st0)" "r < length (effect_definitions st0)"
  shows "swp (link_effects l r) (\<lambda>_ st'. solved_in S st0 st') st"
proof -
  let ?ds = "effect_definitions st"
  let ?es = "?ds[l := (?ds ! l)\<lparr>dependencies := insert r (dependencies (?ds ! l))\<rparr>,
                 r := (?ds ! r)\<lparr>dependencies := insert l (dependencies (?ds ! r))\<rparr>]"
  let ?st = "st\<lparr>effect_definitions := ?es\<rparr>"
  have len: "length ?ds = length (effect_definitions st0)" using s by (simp add: solved_in_def)
  have rv: "root_variable ?st = root_variable st" by (rule root_variable_cong) simp
  have "x < length ?ds" if "i < length ?ds" "x \<in> dependencies (?ds ! i)" for i x
    using solved_in_tables [OF s] that nth_mem [of i ?ds] by (auto simp: tables_ok_def)
  then have "\<forall>e \<in> set ?es. dependencies e \<subseteq> {..<length ?ds}"
    using assms len by (auto simp: in_set_conv_nth nth_list_update split: if_splits)
  then have "tables_ok ?st" using solved_in_tables [OF s] by (simp add: tables_ok_def)
  then have "solver_ok ?st []"
    using s by (simp add: solved_in_def solver_ok_def dependents_ok_def heights_ok_def rv)
  moreover have "closed_vars S st" using s by (simp add: solved_in_def)
  then have "closed_vars S ?st" by (simp add: closed_vars_def)
  ultimately have "solved_in S st0 ?st" using s by (simp add: solved_in_def)
  then show ?thesis using assms len by (simp add: swp_def link_effects_def Let_def)
qed

section \<open>The variables a type reaches\<close>

definition reach_vars :: "solver \<Rightarrow> infer_type \<Rightarrow> nat set" where
  "reach_vars st t =
     {x. x < length (type_parents st) \<and> (\<exists>v. reaches st t (IVariable v) \<and> root_variable st v = root_variable st x)}"

lemma child_variables:
  assumes "c \<in> set (children t)"
  shows "type_variables c \<subseteq> type_variables t" "effect_variables c \<subseteq> effect_variables t"
  using assms by (cases t; force)+

lemma known_children: "type_in S m t \<Longrightarrow> c \<in> set (children t) \<Longrightarrow> type_in S m c"
  using child_variables [of c t] by (auto simp: type_in_def)

lemma reaches_known: "reaches st t u \<Longrightarrow> tables_ok st \<Longrightarrow> known_type st t \<Longrightarrow> known_type st u"
  by (induction rule: reaches.induct) (auto simp: tables_ok_def intro: known_children)

lemma reaches_trans: "reaches st t u \<Longrightarrow> reaches st u w \<Longrightarrow> reaches st t w"
  by (induction rule: reaches.induct) (auto intro: reaches.intros)

lemma reach_vars_mentions: "known_type st t \<Longrightarrow> type_variables t \<subseteq> reach_vars st t"
  by (auto simp: reach_vars_def type_in_def intro: type_variables_reached)

lemma reach_vars_closed:
  assumes t: "tables_ok st"
  shows "closed_vars (reach_vars st t) st"
  unfolding closed_vars_def
proof (intro conjI ballI allI impI)
  fix x
  assume "x \<in> reach_vars st t"
  then obtain v where v: "x < length (type_parents st)" "reaches st t (IVariable v)" "root_variable st v = root_variable st x"
    by (auto simp: reach_vars_def)
  have f: "forest (type_parents st)" using t by (simp add: tables_ok_def)
  then have "type_parents st ! x < length (type_parents st)" using v(1) by (simp add: forest_def)
  then show "type_parents st ! x \<in> reach_vars st t"
    using v root_of_parent [OF f v(1)] by (auto simp: reach_vars_def root_variable_def)
  fix b
  assume b: "type_parents st ! x = x" "substitutions st x = Some b"
  then have "substitutions st (root_variable st v) = Some b" using v root_variable_root [of x st] by simp
  moreover have "y < length (type_parents st)" if "y \<in> type_variables b" for y
    using t b(2) that by (fastforce simp: tables_ok_def type_in_def)
  ultimately show "type_variables b \<subseteq> reach_vars st t"
    using reaches_trans [OF v(2) reaches.binding [OF _ type_variables_reached]] by (auto simp: reach_vars_def)
qed (auto simp: reach_vars_def)

text \<open>What a type reaches is no taller than the type, so no binding reaches its own variable.\<close>

lemma reaches_height:
  assumes "reaches st t u" "solver_ok st []" "known_type st t"
  shows "hgt (height_of st) u \<le> hgt (height_of st) t"
  using assms
proof (induction rule: reaches.induct)
  case (child c t u)
  then show ?case using hgt_child [of c t "height_of st"] known_children [of _ _ t c] by fastforce
next
  case (binding v b u)
  then have "tables_ok st" "is_root st (root_variable st v)" "known_type st b"
    using root_variable_ok [of st v] by (auto simp: solver_ok_def tables_ok_def type_in_def)
  then show ?case using binding by (fastforce simp: solver_ok_def heights_ok_def)
qed simp

lemma binding_not_reached:
  assumes ok: "solver_ok st []" and r: "is_root st r" "substitutions st r = Some b"
  shows "r \<notin> reach_vars st b"
proof
  assume "r \<in> reach_vars st b"
  then obtain v where v: "reaches st b (IVariable v)" "root_variable st v = r"
    using root_variable_root [OF r(1)] by (auto simp: reach_vars_def)
  have b: "known_type st b" "\<not> is_variable b" "hgt (height_of st) b \<le> type_heights st ! r"
    using ok r by (auto simp: solver_ok_def tables_ok_def heights_ok_def)
  then obtain c where c: "c \<in> set (children b)" "reaches st c (IVariable v)"
    using v(1) by (subst (asm) reaches_step) auto
  then show False
    using reaches_height [OF c(2) ok known_children [OF b(1) c(1)]] hgt_child [OF c(1), of "height_of st"] b(3) v(2)
    by simp
qed

lemma occurs_exact:
  assumes "tables_ok st" "known_type st t" "x < length (type_parents st)"
  shows "occurs st x t = Some (x \<in> reach_vars st t)"
  using search_exact [OF assms(1), of t] assms(2,3)
  by (auto simp: occurs_def finds_def reach_vars_def type_in_def)

section \<open>Unification\<close>

text \<open>
  A unifier is good when, on types over a closed set of variables, it keeps the invariant, solves variables of
  that set only and returns a type over it, which is a variable only if one of the two types is.
\<close>

definition good :: "unifier \<Rightarrow> bool" where
  "good u \<longleftrightarrow>
     (\<forall>S st0 st l r. solved_in S st0 st \<longrightarrow> typed_in S st0 l \<longrightarrow> typed_in S st0 r \<longrightarrow>
        swp (u l r) (\<lambda>t st'. solved_in S st0 st' \<and> typed_in S st0 t \<and>
          (\<not> is_variable l \<longrightarrow> \<not> is_variable r \<longrightarrow> \<not> is_variable t)) st)"

lemma goodD:
  assumes "good u" "solved_in S st0 st" "typed_in S st0 l" "typed_in S st0 r"
    and "\<And>t st'. solved_in S st0 st' \<Longrightarrow> typed_in S st0 t \<Longrightarrow>
           (\<not> is_variable l \<Longrightarrow> \<not> is_variable r \<Longrightarrow> \<not> is_variable t) \<Longrightarrow> Q t st'"
  shows "swp (u l r) Q st"
proof (rule swp_mono)
  show "swp (u l r) (\<lambda>t st'. solved_in S st0 st' \<and> typed_in S st0 t \<and>
      (\<not> is_variable l \<longrightarrow> \<not> is_variable r \<longrightarrow> \<not> is_variable t)) st"
    using assms unfolding good_def by blast
qed (use assms(5) in blast)

lemma swp_cong: "m st = m' st \<Longrightarrow> swp m' Q st \<Longrightarrow> swp m Q st"
  by (simp add: swp_def)

abbreviation typed_fields :: "nat set \<Rightarrow> solver \<Rightarrow> (str \<times> infer_type) list \<Rightarrow> bool" where
  "typed_fields S st0 fs \<equiv> \<forall>(name, t) \<in> set fs. typed_in S st0 t"

lemma typed_built [simp]:
  "type_in S m (IVariable v) \<longleftrightarrow> v \<in> S"
  "type_in S m (IList t) \<longleftrightarrow> type_in S m t"
  "type_in S m (IOption t) \<longleftrightarrow> type_in S m t"
  "type_in S m (IResult t e) \<longleftrightarrow> type_in S m t \<and> type_in S m e"
  "type_in S m (IRecord fs is_open) \<longleftrightarrow> (\<forall>(name, t) \<in> set fs. type_in S m t)"
  "type_in S m (IFunction ps t ef) \<longleftrightarrow> (\<forall>p \<in> set ps. type_in S m p) \<and> type_in S m t \<and> ef < m"
  by (auto simp: type_in_def; fastforce)+

lemma typed_leaf [simp]:
  "type_in S m IInt" "type_in S m IBool" "type_in S m IString" "type_in S m IUnit" "type_in S m IHttpHeader"
  "type_in S m IHttpRequest" "type_in S m IHttpResponse" "type_in S m ILogField" "type_in S m IQueueJob"
  "type_in S m IScheduleEvent" "type_in S m IDatabaseTransaction" "type_in S m ISecret"
  by (simp_all add: type_in_def)

lemma typed_contract: "contract_record t = Some c \<Longrightarrow> type_in S m c \<and> \<not> is_variable c"
  by (auto simp: contract_record_def contract_fields_def split: infer_type.splits)

lemma om_get_typed: "typed_fields S st0 fs \<Longrightarrow> om_get fs name = Some t \<Longrightarrow> typed_in S st0 t"
  by (auto simp: om_get_def dest!: map_of_SomeD)

lemma om_insert_typed: "typed_fields S st0 fs \<Longrightarrow> typed_in S st0 t \<Longrightarrow> typed_fields S st0 (om_insert name t fs)"
  by (induction fs) (auto split: if_splits)

lemma swp_unify_list:
  assumes "good u"
  shows "solved_in S st0 st \<Longrightarrow> (\<forall>(l, r) \<in> set ps. typed_in S st0 l \<and> typed_in S st0 r) \<Longrightarrow>
     swp (unify_list u ps) (\<lambda>ts st'. solved_in S st0 st' \<and> (\<forall>t \<in> set ts. typed_in S st0 t)) st"
proof (induction ps arbitrary: st)
  case (Cons p ps)
  obtain l r where p: "p = (l, r)" by (cases p)
  have "swp (unify_list u ps) (\<lambda>ts. swp (sret (t # ts)) (\<lambda>ts st'. solved_in S st0 st' \<and> (\<forall>t \<in> set ts. typed_in S st0 t))) st'"
    if "solved_in S st0 st'" "typed_in S st0 t" for t st'
    by (rule swp_mono [OF Cons.IH [OF that(1)]]) (use Cons.prems that in \<open>auto intro!: swp_ret\<close>)
  then show ?case unfolding p unify_list.simps
    by (intro swp_bind goodD [OF assms Cons.prems(1)]) (use Cons.prems p in auto)
qed (simp add: swp_ret)

lemma swp_unify_names:
  assumes "good u" "typed_fields S st0 l" "typed_fields S st0 r"
  shows "solved_in S st0 st \<Longrightarrow> set names \<subseteq> fst ` set l \<union> fst ` set r \<Longrightarrow> typed_fields S st0 found \<Longrightarrow>
     swp (unify_names u l r names found) (\<lambda>fs st'. solved_in S st0 st' \<and> typed_fields S st0 fs) st"
proof (induction names arbitrary: found st)
  case (Cons name names)
  have next_name: "swp (unify_names u l r names (om_insert name t found))
      (\<lambda>fs st'. solved_in S st0 st' \<and> typed_fields S st0 fs) st'"
    if "solved_in S st0 st'" "typed_in S st0 t" for t st'
    by (rule Cons.IH [OF that(1) _ om_insert_typed]) (use Cons.prems that in simp_all)
  have "om_get l name \<noteq> None \<or> om_get r name \<noteq> None"
    using Cons.prems(2) by (auto simp: om_get_def map_of_eq_None_iff)
  then have "swp (case (om_get l name, om_get r name) of (Some a, Some b) \<Rightarrow> u a b | (Some a, None) \<Rightarrow> sret a
        | (None, Some b) \<Rightarrow> sret b | (None, None) \<Rightarrow> sstop Panics)
      (\<lambda>t. swp (unify_names u l r names (om_insert name t found))
        (\<lambda>fs st'. solved_in S st0 st' \<and> typed_fields S st0 fs)) st"
    using om_get_typed [OF assms(2), of name] om_get_typed [OF assms(3), of name] Cons.prems(1) next_name
    by (auto split: option.splits intro!: swp_ret goodD [OF assms(1)])
  then show ?case using Cons by (auto intro: swp_bind)
qed (simp add: swp_ret)

lemma swp_unify_records:
  assumes "good u" "solved_in S st0 st" "typed_fields S st0 l" "typed_fields S st0 r"
  shows "swp (unify_records u l l_open r r_open)
    (\<lambda>t st'. solved_in S st0 st' \<and> typed_in S st0 t \<and> \<not> is_variable t) st"
  unfolding unify_records_def
  by (intro swp_rules swp_mono [OF swp_unify_names [OF assms(1,3,4,2)]]) auto

text \<open>Detaching two bindings, and unifying over a smaller closed set.\<close>

lemma solved_in_refl: "solver_ok st [] \<Longrightarrow> closed_vars S st \<Longrightarrow> solved_in S st st"
  by (simp add: solved_in_def)

lemma solved_in_detach:
  assumes "solved_in S st0 st" "l \<in> S" "r \<in> S"
  shows "solved_in S st0 (st\<lparr>substitutions := (substitutions st)(l := None, r := None)\<rparr>)" (is "solved_in S st0 ?st")
proof -
  have rv: "root_variable ?st = root_variable st" by (rule root_variable_cong) simp
  have ok: "solver_ok st []" "closed_vars S st" using assms by (simp_all add: solved_in_def)
  from ok(1) have "solver_ok ?st []"
    unfolding solver_ok_def dependents_ok_def heights_ok_def rv by (auto simp: tables_ok_def)
  moreover from ok(2) have "closed_vars S ?st" by (auto simp: closed_vars_def)
  ultimately show ?thesis using assms by (auto simp: solved_in_def)
qed

lemma solved_in_larger:
  assumes small: "solved_in T st1 st2" and large: "solved_in S st0 st1" and sub: "T \<subseteq> S"
  shows "solved_in S st0 st2"
proof -
  have c: "closed_vars T st2" "closed_vars S st1" and len: "length (type_parents st2) = length (type_parents st1)"
    using assms by (simp_all add: solved_in_def)
  have same: "type_parents st2 ! v = type_parents st1 ! v" "substitutions st2 v = substitutions st1 v" if "v \<notin> T" for v
    using small that by (simp_all add: solved_in_def)
  have "closed_vars S st2"
    unfolding closed_vars_def
  proof (intro conjI ballI allI impI)
    show "S \<subseteq> {..<length (type_parents st2)}" using c(2) len by (simp add: closed_vars_def)
    fix v
    assume v: "v \<in> S"
    then show "type_parents st2 ! v \<in> S" using c same sub by (cases "v \<in> T") (auto simp: closed_vars_def)
    fix t
    assume t: "type_parents st2 ! v = v" "substitutions st2 v = Some t"
    have "v < length (type_parents st1)" using c(2) v by (auto simp: closed_vars_def)
    then show "type_variables t \<subseteq> S"
      using closed_binding [OF c(1), of v t] closed_binding [OF c(2) v, of t] same [of v] sub len t by (cases "v \<in> T") auto
  qed
  moreover have "type_parents st2 ! v = type_parents st0 ! v \<and> substitutions st2 v = substitutions st0 v" if "v \<notin> S" for v
    using same [of v] that sub large by (auto simp: solved_in_def)
  ultimately show ?thesis using small large by (simp add: solved_in_def)
qed

lemma unify_detached:
  assumes good: "good u" and s: "solved_in S st0 st" and l: "l \<in> S" "is_root st l" "substitutions st l = Some a"
    and r: "r \<in> S" "is_root st r" "substitutions st r = Some b"
    and apart: "l \<notin> reach_vars st b" "r \<notin> reach_vars st a"
  shows "swp (u a b) (\<lambda>t st'. solved_in S st0 st' \<and> typed_in S st0 t \<and> \<not> is_variable t \<and> is_root st' l \<and> is_root st' r)
    (st\<lparr>substitutions := (substitutions st)(l := None, r := None)\<rparr>)" (is "swp _ ?Q ?st")
proof -
  let ?T = "(reach_vars st a \<union> reach_vars st b) \<inter> S"
  have ok: "solver_ok st []" "tables_ok st" "closed_vars S st" using s by (simp_all add: solved_in_def solver_ok_def)
  have out: "l \<notin> ?T" "r \<notin> ?T"
    using apart binding_not_reached [OF ok(1) l(2,3)] binding_not_reached [OF ok(1) r(2,3)] by blast+
  have "closed_vars ?T st"
    using closed_Int [OF closed_Un [OF reach_vars_closed [OF ok(2)] reach_vars_closed [OF ok(2)]] ok(3)] .
  then have "closed_vars ?T ?st" by (auto simp: closed_vars_def)
  moreover have large: "solved_in S st0 ?st" using solved_in_detach [OF s l(1) r(1)] .
  ultimately have small: "solved_in ?T ?st ?st" by (intro solved_in_refl) (simp_all add: solved_in_def)
  have types: "typed_in S st0 a" "\<not> is_variable a" "typed_in S st0 b" "\<not> is_variable b"
    using solved_in_binding [OF s l] solved_in_binding [OF s r] by simp_all
  have "typed_in ?T ?st a" "typed_in ?T ?st b"
    using types reach_vars_mentions [OF solved_in_known [OF s types(1)]]
      reach_vars_mentions [OF solved_in_known [OF s types(3)]] s by (auto simp: type_in_def solved_in_def)
  then show ?thesis
  proof (rule goodD [OF good small])
    fix t st'
    assume st': "solved_in ?T ?st st'" "typed_in ?T ?st t" "\<not> is_variable a \<Longrightarrow> \<not> is_variable b \<Longrightarrow> \<not> is_variable t"
    have "type_parents st' ! l = l" "type_parents st' ! r = r"
      using conjunct1 [OF solved_in_outside [OF st'(1) out(1)]] conjunct1 [OF solved_in_outside [OF st'(1) out(2)]] l(2) r(2)
      by simp_all
    moreover have "length (type_parents st') = length (type_parents st)" using st'(1) by (simp add: solved_in_def)
    moreover have "typed_in S st0 t" using st'(2) s by (auto simp: type_in_def solved_in_def)
    ultimately show "?Q t st'" using solved_in_larger [OF st'(1) large] st'(3) types l(2) r(2) by simp
  qed
qed

lemma swp_unify_solved:
  assumes good: "good u" and s: "solved_in S st0 st" and l: "l \<in> S" "is_root st l" "substitutions st l = Some a"
    and r: "r \<in> S" "is_root st r" "substitutions st r = Some b" and "l \<noteq> r"
  shows "swp (unify_solved u s' l a r b) (\<lambda>t st'. solved_in S st0 st' \<and> typed_in S st0 t) st"
proof -
  have t: "tables_ok st" using s by (rule solved_in_tables)
  note a = solved_in_binding [OF s l] and b = solved_in_binding [OF s r]
  have ends: "max l r \<in> S" "min l r \<in> S" "max l r \<noteq> min l r" using l r \<open>l \<noteq> r\<close> by (simp_all add: max_def min_def)
  have merge: "swp (sbind (smap_err (\<lambda>_ _. ()) (alias_variable (max l r) (min l r) s')) (\<lambda>_.
                 sbind (smap_err (\<lambda>_ _. ()) (set_binding (min l r) t s')) (\<lambda>_. sret (IVariable (min l r)))))
      (\<lambda>t st'. solved_in S st0 st' \<and> typed_in S st0 t) st'"
    if "solved_in S st0 st'" "typed_in S st0 t" "\<not> is_variable t" "is_root st' l" "is_root st' r" for t st'
  proof -
    have "is_root st' (max l r)" "is_root st' (min l r)" using that(4,5) by (simp_all add: max_def min_def)
    then show ?thesis
      using that ends
      by (auto intro!: swp_rules swp_mono [OF swp_alias_variable [of S st0]] swp_mono [OF swp_set_binding [of S st0]])
  qed
  show ?thesis
  proof (cases "l \<in> reach_vars st b \<or> r \<in> reach_vars st a")
    case True
    then show ?thesis
      using occurs_exact [OF t solved_in_known [OF s b(1)]] occurs_exact [OF t solved_in_known [OF s a(1)]] l r
      by (cases "l \<in> reach_vars st b") (simp_all add: swp_def unify_solved_def)
  next
    case False
    then have "occurs st l b = Some False" "occurs st r a = Some False"
      using occurs_exact [OF t solved_in_known [OF s b(1)]] occurs_exact [OF t solved_in_known [OF s a(1)]] l r by auto
    moreover have "swp (u a b) (\<lambda>t st'. solved_in S st0 st' \<and> typed_in S st0 t \<and> \<not> is_variable t \<and> is_root st' l \<and> is_root st' r)
        (st\<lparr>substitutions := (substitutions st)(l := None, r := None)\<rparr>)"
      using unify_detached [OF good s l r] False by blast
    ultimately show ?thesis
      using merge unfolding unify_solved_def swp_def Let_def
      by (cases "u a b (st\<lparr>substitutions := (substitutions st)(l := None, r := None)\<rparr>)")
         (force split: outcome.splits option.splits bool.splits)
  qed
qed

abbreviation solved_type :: "nat set \<Rightarrow> solver \<Rightarrow> infer_type \<Rightarrow> solver \<Rightarrow> bool" where
  "solved_type S st0 t st' \<equiv> solved_in S st0 st' \<and> typed_in S st0 t"

lemma swp_alias_root:
  assumes "solved_in S st0 st" "a \<in> S" "is_root st a" "r \<in> S" "is_root st r" "a \<noteq> r"
  shows "swp (sbind (smap_err g (alias_variable a r s)) (\<lambda>_. sret (IVariable r))) (solved_type S st0) st"
  by (intro swp_rules swp_mono [OF swp_alias_variable [OF assms]]) (use assms in simp)

lemma swp_unify_unsolved:
  assumes "solved_in S st0 st" "a \<in> S" "is_root st a" "r \<in> S" "is_root st r" "a \<noteq> r"
  shows "swp (unify_unsolved s a r b) (solved_type S st0) st"
proof -
  have "swp (sbind (stake (occurs st a b)) (\<lambda>inside. if inside then sstop (Failed ())
      else sbind (smap_err (\<lambda>_ _. ()) (alias_variable a r s)) (\<lambda>_. sret (IVariable r)))) (solved_type S st0) st"
    by (intro swp_bind swp_take swp_if swp_fail swp_alias_root [OF assms])
  then show ?thesis by (rule swp_cong [rotated]) (simp add: unify_unsolved_def)
qed

lemma swp_unify_variables:
  assumes good: "good u" and s: "solved_in S st0 st" and v: "v \<in> S" and w: "w \<in> S"
  shows "swp (unify_variables u s' v w) (solved_type S st0) st"
proof -
  define l r where "l = root_variable st v" and "r = root_variable st w"
  note roots = solved_in_root [OF s v, folded l_def] solved_in_root [OF s w, folded r_def]
  show ?thesis
  proof (cases "l = r")
    case True
    then show ?thesis using s roots by (simp add: swp_def unify_variables_def l_def r_def)
  next
    case False
    have ends: "max l r \<in> S" "is_root st (max l r)" "min l r \<in> S" "is_root st (min l r)" "max l r \<noteq> min l r"
      using roots False by (simp_all add: max_def min_def)
    have eq: "unify_variables u s' v w st =
        (case (substitutions st l, substitutions st r) of
           (None, None) \<Rightarrow>
             sbind (smap_err (\<lambda>_ _. ()) (alias_variable (max l r) (min l r) s')) (\<lambda>_. sret (IVariable (min l r)))
         | (Some a, None) \<Rightarrow> unify_unsolved s' r l a
         | (None, Some b) \<Rightarrow> unify_unsolved s' l r b
         | (Some a, Some b) \<Rightarrow> unify_solved u s' l a r b) st"
      using False by (simp add: unify_variables_def l_def r_def Let_def split: option.splits)
    show ?thesis
      by (rule swp_cong, rule eq)
         (auto split: option.splits intro: swp_alias_root swp_unify_unsolved swp_unify_solved
           simp: s ends roots False False [symmetric] good)
  qed
qed

lemma swp_unify_existing:
  assumes "good u" "solved_in S st0 st" "typed_in S st0 e" "typed_in S st0 t" "\<not> is_variable e" "\<not> is_variable t"
  shows "swp (unify_existing dbg u s what e t) (\<lambda>t st'. solved_type S st0 t st' \<and> \<not> is_variable t) st"
proof -
  have "swp (u e t) (\<lambda>t st'. solved_type S st0 t st' \<and> \<not> is_variable t) st"
    by (rule goodD [OF assms(1-4)]) (use assms in simp)
  then show ?thesis
    by (auto simp: swp_def unify_existing_def fail_with_def sstop_def split: outcome.splits prod.splits option.splits)
qed

lemma swp_bind_root:
  assumes "solved_in S st0 st" "r \<in> S" "typed_in S st0 t" "\<not> is_variable t"
  shows "swp (sbind (set_binding r t s) (\<lambda>_. sret (IVariable r))) (solved_type S st0) st"
  by (intro swp_rules swp_mono [OF swp_set_binding [OF assms]]) (use assms in simp)

lemma swp_bind_variable:
  assumes good: "good u" and s: "solved_in S st0 st" and v: "v \<in> S" and t: "typed_in S st0 t"
  shows "swp (bind_variable dbg u s' what v t) (solved_type S st0) st"
proof -
  define r where "r = root_variable st v"
  note root = solved_in_root [OF s v, folded r_def]
  show ?thesis
  proof (cases "is_variable t")
    case True
    then obtain w where w: "t = IVariable w" by (cases t) simp_all
    let ?m = "smap_err (\<lambda>_ st'. case type_depth_error st' of Some e \<Rightarrow> e | None \<Rightarrow> infinite_type what s') (unify_variables u s' r w)"
    have "swp ?m (solved_type S st0) st"
      using t w root by (intro swp_map_err swp_unify_variables [OF good s]) simp_all
    then show ?thesis by (rule swp_cong [rotated]) (simp add: bind_variable_def r_def w)
  next
    case False
    show ?thesis
    proof (cases "substitutions st r")
      case None
      let ?m = "sbind (stake (occurs st r t)) (\<lambda>inside. if inside then sstop (Failed (infinite_type what s'))
          else sbind (set_binding r t s') (\<lambda>_. sret (IVariable r)))"
      have "swp ?m (solved_type S st0) st"
        by (intro swp_bind swp_take swp_if swp_fail swp_bind_root [OF s root(1) t False])
      then show ?thesis
        by (rule swp_cong [rotated]) (use None False in \<open>cases t; simp add: bind_variable_def r_def [symmetric] Let_def cong: if_cong\<close>)
    next
      case (Some e)
      note e = solved_in_binding [OF s root Some]
      let ?m = "sbind (unify_existing dbg u s' what e t) (\<lambda>unified. sbind (set_binding r unified s') (\<lambda>_. sret (IVariable r)))"
      have "swp ?m (solved_type S st0) st"
        using root(1) by (intro swp_bind swp_mono [OF swp_unify_existing [OF good s e(1) t e(2) False]]
            swp_bind_root [of S st0]) blast+
      then show ?thesis
        by (rule swp_cong [rotated]) (use Some False in \<open>cases t; simp add: bind_variable_def r_def [symmetric] Let_def cong: if_cong\<close>)
    qed
  qed
qed

lemma swp_unify_functions:
  assumes good: "good u" and s: "solved_in S st0 st"
    and l: "typed_in S st0 (IFunction ps a e)" and r: "typed_in S st0 (IFunction qs b f)"
  shows "swp (sbind (unify_list u (zip ps qs)) (\<lambda>ts. sbind (u a b) (\<lambda>t. sbind (link_effects e f) (\<lambda>_. sret (IFunction ts t e)))))
    (\<lambda>t st'. solved_type S st0 t st' \<and> \<not> is_variable t) st"
proof -
  have pairs: "\<forall>(x, y) \<in> set (zip ps qs). typed_in S st0 x \<and> typed_in S st0 y"
    using l r by (auto dest: set_zip_leftD set_zip_rightD)
  have linked: "swp (link_effects e f) (\<lambda>_. swp (sret (IFunction ts t e)) (\<lambda>t st'. solved_type S st0 t st' \<and> \<not> is_variable t)) st'"
    if "solved_in S st0 st'" "typed_in S st0 t" "\<forall>t \<in> set ts. typed_in S st0 t" for ts t st'
    by (rule swp_mono [OF swp_link_effects [OF that(1)]]) (use that l r in \<open>auto intro!: swp_ret\<close>)
  show ?thesis
    by (intro swp_bind swp_mono [OF swp_unify_list [OF good s pairs]] goodD [OF good])
       (use l r linked in \<open>auto\<close>)
qed

lemma swp_unify_contract:
  assumes "good u" "solved_in S st0 st" "is_contract c" "typed_in S st0 t"
  shows "swp (case contract_record c of None \<Rightarrow> sstop Panics | Some r \<Rightarrow> sbind (u r t) (\<lambda>_. sret c)) (\<lambda>t st'. solved_type S st0 t st' \<and> \<not> is_variable t) st"
    and "swp (case contract_record c of None \<Rightarrow> sstop Panics | Some r \<Rightarrow> sbind (u t r) (\<lambda>_. sret c)) (\<lambda>t st'. solved_type S st0 t st' \<and> \<not> is_variable t) st"
proof -
  obtain r where r: "contract_record c = Some r"
    using assms(3) by (auto simp: is_contract_def contract_record_def contract_fields_def)
  have c: "type_in T m c" "\<not> is_variable c" for T m using assms(3) by (auto simp: is_contract_def)
  show "swp (case contract_record c of None \<Rightarrow> sstop Panics | Some r \<Rightarrow> sbind (u r t) (\<lambda>_. sret c)) (\<lambda>t st'. solved_type S st0 t st' \<and> \<not> is_variable t) st"
    "swp (case contract_record c of None \<Rightarrow> sstop Panics | Some r \<Rightarrow> sbind (u t r) (\<lambda>_. sret c)) (\<lambda>t st'. solved_type S st0 t st' \<and> \<not> is_variable t) st"
    unfolding r option.case using typed_contract [OF r] assms c
    by (auto intro!: swp_rules goodD [OF assms(1,2)])
qed

lemma unify_with_leaf:
  "\<not> is_constructed l \<Longrightarrow> \<not> is_variable l \<Longrightarrow> \<not> is_variable r \<Longrightarrow>
     unify_with dbg u s l r =
       (if \<exists>fs is_open. r = IRecord fs is_open then
          if is_contract l then
            (case contract_record l of None \<Rightarrow> sstop Panics | Some c \<Rightarrow> sbind (u c r) (\<lambda>_. sret l))
          else sstop (Failed ())
        else if l = r \<and> is_plain l then sret l else sstop (Failed ()))"
  by (cases l; cases r; simp add: unify_with_def is_constructed_def cong: if_cong option.case_cong)

lemma swp_unify_built:
  assumes good: "good u" and s: "solved_in S st0 st" and l: "typed_in S st0 l" "\<not> is_variable l"
    and r: "typed_in S st0 r" "\<not> is_variable r"
  shows "swp (unify_with dbg u s' l r) (\<lambda>t st'. solved_type S st0 t st' \<and> \<not> is_variable t) st"
proof -
  let ?Q = "\<lambda>t st'. solved_type S st0 t st' \<and> \<not> is_variable t"
  have same: "swp (sret l) ?Q st" using s l by (intro swp_ret) simp
  have leaf: "swp (if l = r \<and> is_plain l then sret l else sstop (Failed ())) ?Q st"
    by (intro swp_if swp_fail same)
  have left: "swp (if is_contract l then (case contract_record l of None \<Rightarrow> sstop Panics | Some c \<Rightarrow> sbind (u c r) (\<lambda>_. sret l))
      else sstop (Failed ())) ?Q st"
    by (intro swp_if swp_fail swp_unify_contract [OF good s _ r(1)])
  have right: "swp (if is_contract r then (case contract_record r of None \<Rightarrow> sstop Panics | Some c \<Rightarrow> sbind (u l c) (\<lambda>_. sret r))
      else sstop (Failed ())) ?Q st"
    by (intro swp_if swp_fail swp_unify_contract [OF good s _ l(1)])
  have inner: "swp (u a b) Q st'" if "solved_in S st0 st'" "typed_in S st0 a" "typed_in S st0 b"
    "\<And>t st'. solved_in S st0 st' \<Longrightarrow> typed_in S st0 t \<Longrightarrow> Q t st'" for a b Q st'
    using that by (intro goodD [OF good that(1-3)])
  have leaf_case: "swp (unify_with dbg u s' l r) ?Q st" if "\<not> is_constructed l"
    unfolding unify_with_leaf [OF that l(2) r(2)] by (rule swp_if [OF left leaf])
  show ?thesis
  proof (cases l)
    case (IList a)
    then show ?thesis using leaf left l r s inner
      by (cases r) (auto simp: unify_with_def intro!: swp_bind swp_ret inner)
  next
    case (IOption a)
    then show ?thesis using leaf left l r s inner
      by (cases r) (auto simp: unify_with_def intro!: swp_bind swp_ret inner)
  next
    case (IResult a b)
    then show ?thesis using leaf left l r s inner
      by (cases r) (auto simp: unify_with_def intro!: swp_bind swp_ret inner)
  next
    case (IRecord fs l_open)
    then show ?thesis using right l r s swp_unify_records [OF good s, of fs]
      by (cases r) (auto simp: unify_with_def)
  next
    case (IFunction ps a e)
    then show ?thesis using leaf left l r s swp_unify_functions [OF good s, of ps a e]
      by (cases r) (auto simp: unify_with_def intro!: swp_fail)
  qed (rule leaf_case, simp add: is_constructed_def l r; use l in simp)+
qed

lemma good_unify_with:
  assumes good: "good u"
  shows "good (unify_with dbg u s)"
  unfolding good_def
proof (intro allI impI)
  fix S st0 st l r
  assume s: "solved_in S st0 st" and l: "typed_in S st0 l" and r: "typed_in S st0 r"
  let ?Q = "\<lambda>t st'. solved_in S st0 st' \<and> typed_in S st0 t \<and> (\<not> is_variable l \<longrightarrow> \<not> is_variable r \<longrightarrow> \<not> is_variable t)"
  consider v w where "l = IVariable v" "r = IVariable w" | v where "l = IVariable v" "\<not> is_variable r"
    | w where "\<not> is_variable l" "r = IVariable w" | "\<not> is_variable l" "\<not> is_variable r"
    by (cases l; cases r) auto
  then show "swp (unify_with dbg u s l r) ?Q st"
  proof cases
    case 1
    have "swp (unify_variables u s v w) (solved_type S st0) st"
      using 1 l r by (intro swp_unify_variables [OF good s]) simp_all
    then show ?thesis using 1 by (simp add: unify_with_def)
  next
    case 2
    have "swp (smap_err (\<lambda>_ _. ()) (bind_variable dbg u s ''type inference'' v r)) (solved_type S st0) st"
      using 2 l r by (intro swp_map_err swp_bind_variable [OF good s]) simp_all
    moreover have "unify_with dbg u s l r = smap_err (\<lambda>_ _. ()) (bind_variable dbg u s ''type inference'' v r)"
      using 2 by (cases r; simp add: unify_with_def)
    ultimately show ?thesis using 2 by simp
  next
    case 3
    have "swp (smap_err (\<lambda>_ _. ()) (bind_variable dbg u s ''type inference'' w l)) (solved_type S st0) st"
      using 3 l r by (intro swp_map_err swp_bind_variable [OF good s]) simp_all
    moreover have "unify_with dbg u s l r = smap_err (\<lambda>_ _. ()) (bind_variable dbg u s ''type inference'' w l)"
      using 3 by (cases l; simp add: unify_with_def)
    ultimately show ?thesis using 3 by simp
  next
    case 4
    then show ?thesis using swp_unify_built [OF good s l _ r, of dbg s] by (auto intro: swp_mono)
  qed
qed

lemma good_unify_inner: "good (unify_inner n dbg s)"
proof (induction n)
  case 0
  have "unify_inner 0 dbg s l r = sstop Diverges" for l r by simp
  then show ?case unfolding good_def by (simp only: swp_diverges) simp
next
  case (Suc n)
  have "unify_inner (Suc n) dbg s = unify_with dbg (unify_inner n dbg s) s" by (intro ext) simp
  then show ?case using good_unify_with [OF Suc.IH] by simp
qed

section \<open>Reachable solvers\<close>

lemma all_variables: "solver_ok st [] \<Longrightarrow> solved_in {..<length (type_parents st)} st st"
  by (intro solved_in_refl) (auto simp: solver_ok_def tables_ok_def closed_vars_def forest_def type_in_def)

text \<open>A later solver has the variables of an earlier one.\<close>

definition grown :: "solver \<Rightarrow> solver \<Rightarrow> bool" where
  "grown st st' \<longleftrightarrow>
     solver_ok st' [] \<and> length (type_parents st) \<le> length (type_parents st') \<and>
     length (effect_definitions st) = length (effect_definitions st')"

lemma grown_known: "grown st st' \<Longrightarrow> known_type st t \<Longrightarrow> known_type st' t"
  by (auto simp: grown_def type_in_def)

lemma grown_trans: "grown st st1 \<Longrightarrow> grown st1 st2 \<Longrightarrow> grown st st2"
  by (simp add: grown_def)

lemma grown_solved: "solved_in S st st' \<Longrightarrow> grown st st'"
  by (simp add: solved_in_def grown_def)

lemma swp_unify_inner:
  assumes "solver_ok st []" "known_type st l" "known_type st r"
  shows "swp (unify_inner n dbg s l r) (\<lambda>t st'. grown st st' \<and> known_type st' t) st"
  by (rule goodD [OF good_unify_inner all_variables [OF assms(1)] assms(2,3)])
     (auto intro: grown_solved solved_in_known)

lemma swp_bind_grown:
  assumes "solver_ok st []" "v < length (type_parents st)" "known_type st t"
  shows "swp (bind_variable dbg (unify_inner n dbg s) s what v t) (\<lambda>t st'. grown st st' \<and> known_type st' t) st"
  by (rule swp_mono [OF swp_bind_variable [OF good_unify_inner all_variables [OF assms(1)] _ assms(3)]])
     (use assms(2) in \<open>auto intro: grown_solved solved_in_known\<close>)

lemma swp_set_grown:
  assumes "solver_ok st []" "v < length (type_parents st)" "known_type st t" "\<not> is_variable t"
  shows "swp (set_binding v t s) (\<lambda>_ st'. grown st st') st"
  by (rule swp_mono [OF swp_set_binding [OF all_variables [OF assms(1)] _ assms(3,4)]])
     (use assms(2) in \<open>auto intro: grown_solved\<close>)

lemma unify_grown:
  assumes "solver_ok st []" "known_type st l" "known_type st r" "unify n dbg l r s what st = (Done t, st')"
  shows "grown st st' \<and> known_type st' t"
  using swp_unify_inner [OF assms(1-3), of n dbg s] assms(4)
  by (auto simp: unify_def swp_def fail_with_def sstop_def split: prod.splits outcome.splits option.splits)

end
