(* ===== verification/Type_Inference.thy ===== *)
theory Type_Inference
  imports Inference_Finite
begin

text \<open>
  The solvers that the analysis reaches, and what holds in all of them: types are finite and at most
  \<open>MAX_NESTING_DEPTH\<close> constructors deep, and the searches through types are exact.
\<close>

section \<open>Fields\<close>

lemma fresh_grown:
  assumes "solver_ok st []" "fresh_type st = (t, st')"
  shows "grown st st' \<and> known_type st' t \<and> (\<exists>v. t = IVariable v)"
proof -
  have "type_parents st' = type_parents st @ [length (type_parents st)]" "effect_definitions st' = effect_definitions st"
    using assms(2) by (auto simp: fresh_type_def Let_def)
  then show ?thesis using fresh_type_ok [OF assms] by (simp add: grown_def)
qed

lemma swp_widen_record:
  assumes ok: "solver_ok st []" and fs: "known_type st (IRecord fs is_open)"
  shows "swp (widen_record field s fs is_open)
    (\<lambda>(t, widened) st'. grown st st' \<and> known_type st' t \<and> known_type st' widened \<and> \<not> is_variable widened) st"
proof (cases "om_get fs field")
  case (Some t)
  then have "known_type st t" using fs om_get_typed [of fs "{..<length (type_parents st)}" st field t] by simp
  then show ?thesis using Some ok fs by (simp add: swp_def widen_record_def grown_def)
next
  case None
  show ?thesis
  proof (cases is_open)
    case True
    obtain t st' where fresh: "fresh_type st = (t, st')" by (cases "fresh_type st")
    note grown = fresh_grown [OF ok fresh]
    then have "known_type st' (IRecord fs is_open)" using fs grown_known by blast
    then have "known_type st' (IRecord (om_insert field t fs) is_open)"
      using grown om_insert_typed [of fs "{..<length (type_parents st')}" st' t field] by simp
    then show ?thesis using None True fresh grown by (simp add: swp_def widen_record_def)
  qed (simp add: None swp_def widen_record_def)
qed

text \<open>One step of \<open>require_field\<close> when the recursive call finds the field and widens the type.\<close>

abbreviation found_field :: "solver \<Rightarrow> infer_type \<Rightarrow> solver \<Rightarrow> bool" where
  "found_field st u st' \<equiv> grown st st' \<and> known_type st' u"

abbreviation widened_field :: "solver \<Rightarrow> infer_type \<Rightarrow> infer_type \<times> infer_type \<Rightarrow> solver \<Rightarrow> bool" where
  "widened_field st t \<equiv> \<lambda>(u, widened) st'. grown st st' \<and> known_type st' u \<and> known_type st' widened \<and>
     (\<not> is_variable t \<longrightarrow> \<not> is_variable widened)"

lemma swp_bind_field:
  assumes "grown st st1" "known_type st1 u" "swp (set_binding r w s) (\<lambda>_ st'. grown st1 st') st1"
  shows "swp (sbind (set_binding r w s) (\<lambda>_. sret u)) (found_field st) st1"
  by (rule swp_bind, rule swp_mono [OF assms(3)], rule swp_ret)
     (use assms(1,2) in \<open>blast intro: grown_trans grown_known\<close>)

lemma require_in_binding:
  assumes rec: "swp (require_field_and_widen n dbg field s b) (widened_field st b) st"
    and b: "\<not> is_variable b" and r: "r < length (type_parents st)"
  shows "swp (sbind (require_field_and_widen n dbg field s b)
      (\<lambda>(u, widened). sbind (set_binding r widened s) (\<lambda>_. sret u))) (found_field st) st"
proof (rule swp_bind, rule swp_mono [OF rec])
  fix p st1
  assume p: "widened_field st b p st1"
  obtain u w where uw: "p = (u, w)" by (cases p)
  have "swp (set_binding r w s) (\<lambda>_ st'. grown st1 st') st1"
    by (rule swp_set_grown) (use p uw b r in \<open>auto simp: grown_def\<close>)
  then have "swp (sbind (set_binding r w s) (\<lambda>_. sret u)) (found_field st) st1"
    using p uw by (intro swp_bind_field) simp_all
  then show "swp (case p of (u, w) \<Rightarrow> sbind (set_binding r w s) (\<lambda>_. sret u)) (found_field st) st1"
    by (simp add: uw)
qed

lemma require_new_field:
  assumes ok: "solver_ok st []" and r: "r < length (type_parents st)" and fresh: "fresh_type st = (u, st1)"
  shows "swp (sbind (set_binding r (IRecord [(field, u)] True) s) (\<lambda>_. sret u)) (found_field st) st1"
proof -
  have grown: "grown st st1" "known_type st1 u" using fresh_grown [OF ok fresh] by simp_all
  then have "swp (set_binding r (IRecord [(field, u)] True) s) (\<lambda>_ st'. grown st1 st') st1"
    using r by (intro swp_set_grown) (simp_all add: grown_def)
  then show ?thesis using grown by (intro swp_bind_field)
qed

lemma require_in_variable:
  assumes "swp (require_field n dbg field s (IVariable r)) (found_field st) st" "r < length (type_parents st)"
  shows "swp (sbind (require_field n dbg field s (IVariable r)) (\<lambda>u. sret (u, IVariable r)))
    (widened_field st (IVariable v)) st"
  by (rule swp_bind, rule swp_mono [OF assms(1)], rule swp_ret) (use assms(2) in \<open>auto simp: grown_def\<close>)

lemma require_in_contract:
  assumes "\<And>c. contract_record t = Some c \<Longrightarrow> swp (require_field_and_widen n dbg field s c) (widened_field st c) st"
    and "known_type st t" "is_contract t \<or> t = IQueueJob \<or> t = IScheduleEvent"
  shows "swp (case contract_record t of None \<Rightarrow> sstop Panics
      | Some c \<Rightarrow> sbind (require_field_and_widen n dbg field s c) (\<lambda>(u, _). sret (u, t))) (widened_field st t) st"
proof -
  obtain c where c: "contract_record t = Some c"
    using assms(3) by (auto simp: is_contract_def contract_record_def contract_fields_def)
  have "swp (sbind (require_field_and_widen n dbg field s c) (\<lambda>(u, _). sret (u, t))) (widened_field st t) st"
    by (rule swp_bind, rule swp_mono [OF assms(1) [OF c]])
       (use assms(2) grown_known in \<open>auto intro!: swp_ret split: prod.splits\<close>)
  then show ?thesis by (simp add: c)
qed

abbreviation requires_fields :: "nat \<Rightarrow> (str \<Rightarrow> str) \<Rightarrow> str \<Rightarrow> span \<Rightarrow> bool" where
  "requires_fields n dbg field s \<equiv>
     (\<forall>t st. solver_ok st [] \<longrightarrow> known_type st t \<longrightarrow>
        swp (require_field n dbg field s t) (found_field st) st \<and>
        swp (require_field_and_widen n dbg field s t) (widened_field st t) st)"

lemma require_field_step:
  assumes rec: "requires_fields n dbg field s" and ok: "solver_ok st []" and t: "known_type st t"
  shows "swp (require_field (Suc n) dbg field s t) (found_field st) st"
proof (cases "is_variable t")
  case False
  then have eq: "require_field (Suc n) dbg field s t =
      sbind (require_field_and_widen n dbg field s t) (\<lambda>(u, _). sret u)"
    by (intro ext) (cases t; simp)
  have "swp (require_field_and_widen n dbg field s t) (widened_field st t) st" using rec ok t by blast
  then show ?thesis unfolding eq by (intro swp_bind) (erule swp_mono, auto intro!: swp_ret)
next
  case True
  then obtain v where v: "t = IVariable v" by (cases t) simp_all
  define r where "r = root_variable st v"
  have r: "is_root st r" using ok t v root_variable_ok [of st v] by (simp add: solver_ok_def r_def)
  show ?thesis
  proof (cases "substitutions st r")
    case None
    obtain u st1 where fresh: "fresh_type st = (u, st1)" by (cases "fresh_type st")
    have "require_field (Suc n) dbg field s t st =
        sbind (set_binding r (IRecord [(field, u)] True) s) (\<lambda>_. sret u) st1"
      using None fresh by (simp add: v r_def)
    then show ?thesis using require_new_field [OF ok _ fresh, of r field s] r by (simp add: swp_def)
  next
    case (Some b)
    have b: "known_type st b" "\<not> is_variable b" using ok Some by (auto simp: solver_ok_def tables_ok_def)
    have "require_field (Suc n) dbg field s t st = sbind (require_field_and_widen n dbg field s b)
        (\<lambda>(u, widened). sbind (set_binding r widened s) (\<lambda>_. sret u)) st"
      using Some by (simp add: v r_def [symmetric])
    moreover have "swp (require_field_and_widen n dbg field s b) (widened_field st b) st" using rec ok b(1) by blast
    ultimately show ?thesis using require_in_binding [of n dbg field s b st r] b(2) r by (simp add: swp_def)
  qed
qed

lemma widen_field_step:
  assumes rec: "requires_fields n dbg field s" and ok: "solver_ok st []" and t: "known_type st t"
  shows "swp (require_field_and_widen (Suc n) dbg field s t) (widened_field st t) st"
proof -
  consider v where "t = IVariable v" | fs is_open where "t = IRecord fs is_open"
    | "is_contract t \<or> t = IQueueJob \<or> t = IScheduleEvent"
    | "\<not> is_variable t" "\<forall>fs is_open. t \<noteq> IRecord fs is_open" "\<not> (is_contract t \<or> t = IQueueJob \<or> t = IScheduleEvent)"
    by (cases t) auto
  then show ?thesis
  proof cases
    case 1
    let ?r = "root_variable st v"
    have r: "is_root st ?r" using ok t 1 root_variable_ok [of st v] by (simp add: solver_ok_def)
    then have "swp (require_field n dbg field s (IVariable ?r)) (found_field st) st" using rec ok by simp
    then have "swp (sbind (require_field n dbg field s (IVariable ?r)) (\<lambda>u. sret (u, IVariable ?r))) (widened_field st t) st"
      using require_in_variable [of n dbg field s ?r st v] r unfolding 1 by blast
    then show ?thesis by (rule swp_cong [rotated]) (simp add: 1 Let_def)
  next
    case 2
    then show ?thesis using swp_widen_record [OF ok, of fs is_open field s] t by (auto simp: swp_def split: prod.splits outcome.splits)
  next
    case 3
    have "swp (require_field_and_widen n dbg field s c) (widened_field st c) st" if "contract_record t = Some c" for c
      using rec ok typed_contract [OF that] by blast
    from require_in_contract [OF this t 3] show ?thesis
      using 3 by (auto simp: swp_def is_contract_def sstop_def split: option.splits)
  next
    case 4
    then have "require_field_and_widen (Suc n) dbg field s t st = fail_with (render_type dbg st t) (\<lambda>x. not_a_record x s) st"
      by (cases t) auto
    then show ?thesis by (rule swp_cong) (rule swp_fail_with)
  qed
qed

lemma requires_fields: "requires_fields n dbg field s"
proof (induction n)
  case 0
  then show ?case by (simp add: swp_diverges)
next
  case (Suc n)
  then show ?case using require_field_step [OF Suc.IH] widen_field_step [OF Suc.IH] by blast
qed

section \<open>Reachable solvers\<close>

lemma fresh_effect_ok:
  assumes "solver_ok st []"
  shows "solver_ok (snd (fresh_effect st)) []"
proof -
  let ?st = "snd (fresh_effect st)"
  have rv: "root_variable ?st = root_variable st" by (rule root_variable_cong) (simp add: fresh_effect_def)
  have "tables_ok ?st"
    using assms by (fastforce simp: solver_ok_def tables_ok_def fresh_effect_def no_effects_def type_in_def)
  then show ?thesis
    using assms unfolding solver_ok_def dependents_ok_def heights_ok_def rv by (simp add: fresh_effect_def)
qed

lemma record_effects_ok:
  assumes "solver_ok st []" "dependencies es \<subseteq> {..<length (effect_definitions st)}"
  shows "solver_ok (record_effects e es st) []"
proof -
  let ?st = "record_effects e es st"
  have rv: "root_variable ?st = root_variable st" by (rule root_variable_cong) (simp add: record_effects_def)
  have "dependencies d \<subseteq> {..<length (effect_definitions st)}" if "d \<in> set (effect_definitions ?st)" for d
  proof (cases "e < length (effect_definitions st)")
    case True
    have known: "dependencies d \<subseteq> {..<length (effect_definitions st)}" if "d \<in> set (effect_definitions st)" for d
      using assms(1) that by (simp add: solver_ok_def tables_ok_def)
    have "d \<in> insert (effects_union (effect_definitions st ! e) es) (set (effect_definitions st))"
      using that set_update_subset_insert by (fastforce simp: record_effects_def)
    then show ?thesis using known [of d] known [OF nth_mem [OF True]] assms(2) by (auto simp: effects_union_def)
  next
    case False
    then have "d \<in> set (effect_definitions st)" using that by (simp add: record_effects_def list_update_beyond)
    then show ?thesis using assms(1) by (simp add: solver_ok_def tables_ok_def)
  qed
  then have "tables_ok ?st" using assms by (simp add: solver_ok_def tables_ok_def record_effects_def)
  then show ?thesis
    using assms unfolding solver_ok_def dependents_ok_def heights_ok_def rv by (simp add: record_effects_def)
qed

text \<open>
  The solver as the analysis changes it: every error ends the analysis, so only successful operations count.
\<close>

inductive inferring :: "(str \<Rightarrow> str) \<Rightarrow> solver \<Rightarrow> bool" for dbg where
  new: "inferring dbg solver_new"
| fresh_type: "inferring dbg st \<Longrightarrow> inferring dbg (snd (fresh_type st))"
| fresh_effect: "inferring dbg st \<Longrightarrow> inferring dbg (snd (fresh_effect st))"
| record_effects: "inferring dbg st \<Longrightarrow> dependencies es \<subseteq> {..<length (effect_definitions st)} \<Longrightarrow>
    inferring dbg (record_effects e es st)"
| unify: "inferring dbg st \<Longrightarrow> known_type st l \<Longrightarrow> known_type st r \<Longrightarrow>
    unify n dbg l r s what st = (Done t, st') \<Longrightarrow> inferring dbg st'"
| unify_inner: "inferring dbg st \<Longrightarrow> known_type st l \<Longrightarrow> known_type st r \<Longrightarrow>
    unify_inner n dbg s l r st = (Done t, st') \<Longrightarrow> inferring dbg st'"
| bind_variable: "inferring dbg st \<Longrightarrow> v < length (type_parents st) \<Longrightarrow> known_type st t \<Longrightarrow>
    bind_variable dbg (unify_inner n dbg s) s what v t st = (Done u, st') \<Longrightarrow> inferring dbg st'"
| require_field: "inferring dbg st \<Longrightarrow> known_type st t \<Longrightarrow>
    require_field n dbg field s t st = (Done u, st') \<Longrightarrow> inferring dbg st'"

lemma solver_new_ok: "solver_ok solver_new []"
  by (simp add: solver_ok_def tables_ok_def dependents_ok_def heights_ok_def solver_new_def forest_def)

lemma inferring_ok: "inferring dbg st \<Longrightarrow> solver_ok st []"
proof (induction rule: inferring.induct)
  case (fresh_type st)
  then show ?case using fresh_type_ok [of st "fst (fresh_type st)" "snd (fresh_type st)"] by simp
next
  case (unify st l r n s what t st')
  then show ?case using unify_grown [of st l r] by (simp add: grown_def)
next
  case (unify_inner st l r n s t st')
  then show ?case using swp_done [OF swp_unify_inner, of st l r] by (simp add: grown_def)
next
  case (bind_variable st v t n s what u st')
  then show ?case using swp_done [OF swp_bind_grown, of st v t] by (simp add: grown_def)
next
  case (require_field st t n field s u st')
  then have "swp (require_field n dbg field s t) (found_field st) st" using requires_fields by blast
  then show ?case using swp_done require_field by (fastforce simp: grown_def)
qed (simp_all add: solver_new_ok fresh_effect_ok record_effects_ok)

section \<open>Finite types\<close>

text \<open>A type with \<open>n\<close> constructors nested in each other, looking through the bindings.\<close>

inductive nests :: "solver \<Rightarrow> infer_type \<Rightarrow> nat \<Rightarrow> bool" for st where
  nothing: "nests st t 0"
| constructor: "is_constructed t \<Longrightarrow> nests st t 1"
| child: "c \<in> set (children t) \<Longrightarrow> nests st c n \<Longrightarrow> nests st t (Suc n)"
| binding: "substitutions st (root_variable st v) = Some b \<Longrightarrow> nests st b n \<Longrightarrow> nests st (IVariable v) n"

lemma nests_height:
  assumes "nests st t n" "solver_ok st []" "known_type st t"
  shows "n \<le> hgt (height_of st) t"
  using assms
proof (induction rule: nests.induct)
  case (constructor t)
  then show ?case by (cases t) (simp_all add: hgt_built is_constructed_def)
next
  case (child c t n)
  then show ?case using hgt_child [of c t "height_of st"] known_children [of _ _ t c] by fastforce
next
  case (binding v b n)
  then have "is_root st (root_variable st v)" "known_type st b"
    using root_variable_ok [of st v] by (auto simp: solver_ok_def tables_ok_def type_in_def)
  then show ?case using binding by (fastforce simp: solver_ok_def heights_ok_def)
qed simp

lemma height_bound: "solver_ok st [] \<Longrightarrow> v < length (type_parents st) \<Longrightarrow> height_of st v \<le> MAX_NESTING_DEPTH"
  using root_variable_ok [of st v] nth_mem [of "root_variable st v" "type_heights st"]
  by (simp add: solver_ok_def tables_ok_def)

section \<open>Effects\<close>

text \<open>The effect variables a function type's effects include.\<close>

definition depends :: "nat set list \<Rightarrow> (nat \<times> nat) set" where
  "depends deps = {(e, d). e < length deps \<and> d \<in> deps ! e}"

lemma expand_round_nth:
  "length deps = length sets \<Longrightarrow> i < length sets \<Longrightarrow>
     expand_round deps sets ! i = sets ! i \<union> (\<Union>d \<in> depends deps `` {i}. sets ! d)"
  by (auto simp: expand_round_def depends_def)

lemma expand_rounds_length [simp]: "length ((expand_round deps ^^ k) sets) = length sets"
  by (induction k) (simp_all add: expand_round_def)

lemma relpow_upto_Suc: "(\<Union>j \<le> Suc k. R ^^ j) = (\<Union>j \<le> k. R ^^ j) \<union> R O (\<Union>j \<le> k. R ^^ j)"
proof -
  have "(\<Union>j \<le> Suc k. R ^^ j) = Id \<union> (\<Union>j \<le> k. R ^^ Suc j)"
    by (simp only: atMost_Suc_eq_insert_0 UN_insert image_image relpow.simps(1))
  also have "\<dots> = Id \<union> (\<Union>j \<le> k. R O R ^^ j)" by (simp add: relpow_commute)
  finally have eq: "(\<Union>j \<le> Suc k. R ^^ j) = Id \<union> R O (\<Union>j \<le> k. R ^^ j)" by (simp only: relcomp_UNION_distrib)
  have "(\<Union>j \<le> k. R ^^ j) \<subseteq> (\<Union>j \<le> Suc k. R ^^ j)" by (rule UN_mono) auto
  moreover have "R ^^ 0 \<subseteq> (\<Union>j \<le> k. R ^^ j)" by (rule UN_upper) simp
  ultimately show ?thesis using eq by auto
qed

lemma expand_rounds_nth:
  assumes len: "length deps = length sets" and range: "\<And>e d. (e, d) \<in> depends deps \<Longrightarrow> d < length sets"
  shows "i < length sets \<Longrightarrow>
     (expand_round deps ^^ k) sets ! i = (\<Union>d \<in> (\<Union>j \<le> k. depends deps ^^ j) `` {i}. sets ! d)"
proof (induction k arbitrary: i)
  case (Suc k)
  let ?R = "depends deps"
  let ?upto = "\<lambda>k. \<Union>j \<le> k. ?R ^^ j"
  have "(expand_round deps ^^ Suc k) sets ! i =
      (expand_round deps ^^ k) sets ! i \<union> (\<Union>d \<in> ?R `` {i}. (expand_round deps ^^ k) sets ! d)"
    using Suc.prems len by (simp add: expand_round_nth)
  also have "\<dots> = (\<Union>d \<in> ?upto k `` {i}. sets ! d) \<union> (\<Union>d \<in> ?R `` {i}. \<Union>d' \<in> ?upto k `` {d}. sets ! d')"
    using Suc range by auto
  also have "\<dots> = (\<Union>d \<in> ?upto (Suc k) `` {i}. sets ! d)" unfolding relpow_upto_Suc by blast
  finally show ?case .
qed simp

lemma expand_loop_stops:
  "(expand_round deps ^^ Suc m) sets = (expand_round deps ^^ m) sets \<Longrightarrow> m < n \<Longrightarrow>
     expand_loop n deps sets = Some ((expand_round deps ^^ m) sets)"
proof (induction n arbitrary: m sets)
  case (Suc n)
  show ?case
  proof (cases "expand_round deps sets = sets")
    case True
    then have "(expand_round deps ^^ m) sets = sets" by (induction m) simp_all
    then show ?thesis using True by (simp add: Let_def)
  next
    case False
    then obtain m' where m: "m = Suc m'" using Suc.prems(1) by (cases m) simp_all
    then show ?thesis using Suc False by (simp add: Let_def funpow_swap1)
  qed
qed simp

lemma card_depends:
  assumes "\<And>ds. ds \<in> set deps \<Longrightarrow> finite ds"
  shows "finite (depends deps)" "card (depends deps) \<le> sum_list (map card deps)"
proof -
  have "depends deps = Sigma {..<length deps} (\<lambda>e. deps ! e)" by (auto simp: depends_def)
  moreover have "finite (deps ! e)" if "e < length deps" for e using assms nth_mem that by blast
  ultimately show "finite (depends deps)" "card (depends deps) \<le> sum_list (map card deps)"
    by (auto simp: sum_list_sum_nth atLeast0LessThan)
qed

lemma expand_exact:
  assumes len: "length deps = length sets" and range: "\<And>ds. ds \<in> set deps \<Longrightarrow> ds \<subseteq> {..<length sets}"
  shows "expand deps sets = Some (map (\<lambda>i. \<Union>d \<in> (depends deps)\<^sup>* `` {i}. sets ! d) [0..<length sets])"
proof -
  let ?R = "depends deps" and ?f = "expand_round deps"
  have fin: "finite ds" if "ds \<in> set deps" for ds using range [OF that] finite_subset by blast
  note card = card_depends [of deps, OF fin]
  have in_range: "d < length sets" if "(e, d) \<in> ?R" for e d
    using that range [of "deps ! e"] nth_mem [of e deps] by (auto simp: depends_def)
  note rounds = expand_rounds_nth [OF len in_range]
  have all: "(\<Union>j \<le> k. ?R ^^ j) = ?R\<^sup>*" if "card ?R \<le> k" for k
  proof -
    have "?R\<^sup>* = (\<Union>j \<in> {j. j \<le> card ?R}. ?R ^^ j)" using rtrancl_finite_eq_relpow [OF card(1)] .
    also have "\<dots> \<subseteq> (\<Union>j \<le> k. ?R ^^ j)" using that by fastforce
    finally show ?thesis by (auto simp: rtrancl_power)
  qed
  have final: "(?f ^^ k) sets = map (\<lambda>i. \<Union>d \<in> ?R\<^sup>* `` {i}. sets ! d) [0..<length sets]" if "card ?R \<le> k" for k
    by (rule nth_equalityI) (simp_all add: rounds all [OF that])
  then have "(?f ^^ Suc (card ?R)) sets = (?f ^^ card ?R) sets" by (simp del: funpow.simps)
  then show ?thesis
    using expand_loop_stops [of "card ?R" deps sets "sum_list (map card deps) + 2"] card(2) final [of "card ?R"]
    by (simp add: expand_def del: funpow.simps expand_loop.simps)
qed

section \<open>Printing\<close>






lemma unify_queue_job:
  "unify_inner (Suc n) dbg s IQueueJob IQueueJob st = (Failed (), st)"
  "unify_inner (Suc n) dbg s IScheduleEvent IScheduleEvent st = (Failed (), st)"
  by (simp_all add: unify_with_def is_plain_def is_contract_def sstop_def)

section \<open>A solver with a list type\<close>

text \<open>The first variable is a list of the second, and the first of two functions calls the second.\<close>

definition solver_example :: solver where
  "solver_example =
     \<lparr>type_parents = [0, 1], substitutions = [0 \<mapsto> IList (IVariable 1)],
      effect_definitions =
        [\<lparr>direct = {}, direct_requirements = {}, dependencies = {1}\<rparr>,
         \<lparr>direct = {CacheRead}, direct_requirements = {}, dependencies = {}\<rparr>],
      type_heights = [1, 0], type_dependents = [{}, {0}], type_depth_error = None\<rparr>"

definition solver_start :: solver where
  "solver_start =
     \<lparr>type_parents = [0, 1], substitutions = Map.empty, effect_definitions = effect_definitions solver_example,
      type_heights = [0, 0], type_dependents = [{}, {}], type_depth_error = None\<rparr>"

lemma solver_start_reached: "inferring dbg solver_start"
proof -
  let ?a = "snd (fresh_effect (snd (fresh_effect (snd (fresh_type (snd (fresh_type solver_new)))))))"
  let ?calls = "\<lparr>direct = {}, direct_requirements = {}, dependencies = {1}\<rparr>"
  let ?reads = "\<lparr>direct = {CacheRead}, direct_requirements = {}, dependencies = {}\<rparr>"
  have "inferring dbg (record_effects 1 ?reads (record_effects 0 ?calls ?a))"
    by (intro inferring.intros)
       (simp_all add: fresh_effect_def fresh_type_def solver_new_def record_effects_def Let_def)
  moreover have "record_effects 1 ?reads (record_effects 0 ?calls ?a) = solver_start"
    by (simp add: fresh_effect_def fresh_type_def solver_new_def record_effects_def Let_def solver_start_def
        solver_example_def effects_union_def no_effects_def)
  ultimately show ?thesis by simp
qed

lemma solver_example_unified:
  "unify 1 dbg (IVariable 0) (IList (IVariable 1)) s what solver_start = (Done (IVariable 0), solver_example)"
  by (simp add: unify_def unify_with_def bind_variable_def solver_start_def solver_example_def root_variable_def
      sbind_def smap_err_def sret_def stake_def occurs_def search_def walk_type.simps set_binding_def
      mentioned_roots_def add_dependent_def refresh_type_heights.simps resolved_height.simps is_constructed_def
      type_cutoff_def MAX_NESTING_DEPTH_def Let_def upt_rec)

lemma solver_example_reached: "inferring dbg solver_example"
proof (rule inferring.unify)
  show "inferring dbg solver_start" by (rule solver_start_reached)
  show "unify 1 dbg (IVariable 0) (IList (IVariable 1)) \<lparr>span_start = 0, span_end = 0\<rparr> [] solver_start =
      (Done (IVariable 0), solver_example)"
    by (rule solver_example_unified)
qed (simp_all add: solver_start_def)

section \<open>Properties\<close>

text \<open>
  C6: in every solver that the analysis reaches, no inferred type contains itself and a type variable stands
  for a type of at most \<open>MAX_NESTING_DEPTH\<close> nested constructors.
\<close>

theorem inferred_types_finite:
  assumes "inferring dbg st" "v < length (type_parents st)"
  shows "(\<forall>n. nests st (IVariable v) n \<longrightarrow> n \<le> MAX_NESTING_DEPTH) \<and>
    (\<forall>b w. substitutions st (root_variable st v) = Some b \<longrightarrow> reaches st b (IVariable w) \<longrightarrow>
       w < length (type_parents st) \<and> root_variable st w \<noteq> root_variable st v)"
proof (intro conjI allI impI)
  note ok = inferring_ok [OF assms(1)]
  then have t: "tables_ok st" by (simp add: solver_ok_def)
  fix n
  assume "nests st (IVariable v) n"
  then show "n \<le> MAX_NESTING_DEPTH"
    using nests_height [OF _ ok] height_bound [OF ok assms(2)] assms(2) by fastforce
next
  note ok = inferring_ok [OF assms(1)]
  then have t: "tables_ok st" by (simp add: solver_ok_def)
  fix b w
  assume b: "substitutions st (root_variable st v) = Some b" and w: "reaches st b (IVariable w)"
  have "known_type st b" using t b by (simp add: tables_ok_def)
  then show "w < length (type_parents st)" using reaches_known [OF w t] by simp
  show "root_variable st w \<noteq> root_variable st v"
    using binding_not_reached [OF ok root_variable_ok [OF t assms(2)] b] w root_variable_ok [OF t assms(2)]
      root_variable_root [OF root_variable_ok [OF t assms(2)]] by (auto simp: reach_vars_def)
qed

theorem inferred_types_finite_witness:
  "nests solver_example (IVariable 0) 1 \<and> 1 \<le> MAX_NESTING_DEPTH \<and>
   reaches solver_example (IList (IVariable 1)) (IVariable 1) \<and>
   root_variable solver_example 1 \<noteq> root_variable solver_example 0"
proof -
  have b: "substitutions solver_example (root_variable solver_example 0) = Some (IList (IVariable 1))"
    by (simp add: solver_example_def root_variable_def)
  have n: "nests solver_example (IVariable 0) 1"
    by (rule nests.binding [OF b nests.constructor]) (simp add: is_constructed_def)
  have r: "reaches solver_example (IList (IVariable 1)) (IVariable 1)" by (auto intro: reaches.intros)
  have "0 < length (type_parents solver_example)" by (simp add: solver_example_def)
  from inferred_types_finite [OF solver_example_reached this] n r b show ?thesis by blast
qed



text \<open>
  C20: the searches through inferred types end and are exact: each finds what it seeks just when a type reached
  through the bindings is of that kind.
\<close>

theorem searches_exact:
  assumes "inferring dbg st" "known_type st t" "v < length (type_parents st)"
  shows "contains_secret st t = Some (reaches st t ISecret) \<and>
    contains_transaction st t = Some (reaches st t IDatabaseTransaction) \<and>
    contains_no_function st t =
      Some (\<not> (\<exists>u. reaches st t u \<and> (is_function u \<or> u = IDatabaseTransaction \<or> u = ISecret))) \<and>
    occurs st v t = Some (\<exists>w. reaches st t (IVariable w) \<and> root_variable st w = root_variable st v)"
proof -
  have t: "tables_ok st" using inferring_ok [OF assms(1)] by (simp add: solver_ok_def)
  have "type_variables t \<subseteq> {..<length (type_parents st)}" using assms(2) by (simp add: type_in_def)
  note s = search_exact [OF t this]
  show ?thesis
    by (auto simp: contains_secret_def contains_transaction_def contains_no_function_def occurs_def s finds_def)
qed

theorem searches_exact_witness:
  "contains_secret solver_example (IList (IVariable 0)) = Some False \<and>
   \<not> reaches solver_example (IList (IVariable 0)) ISecret \<and>
   occurs solver_example 1 (IList (IVariable 0)) = Some True \<and>
   (\<exists>w. reaches solver_example (IList (IVariable 0)) (IVariable w) \<and>
      root_variable solver_example w = root_variable solver_example 1)"
proof -
  have "contains_secret solver_example (IList (IVariable 0)) = Some False"
    "occurs solver_example 1 (IList (IVariable 0)) = Some True"
    by (simp_all add: contains_secret_def occurs_def search_def walk_type.simps solver_example_def root_variable_def)
  moreover have "known_type solver_example (IList (IVariable 0))" "1 < length (type_parents solver_example)"
    by (simp_all add: solver_example_def)
  ultimately show ?thesis
    using searches_exact [OF solver_example_reached, of "IList (IVariable 0)" 1] by simp
qed

text \<open>
  C21: the effects and requirements of a function type are what the effect variables it depends on do,
  directly or through others, and the loop that collects them ends.
\<close>

theorem expanded_effects_reachable:
  assumes "inferring dbg st"
  shows "let ds = effect_definitions st; uses = depends (map dependencies ds) in
    expanded_effects st = Some (map (\<lambda>e. \<Union>d \<in> uses\<^sup>* `` {e}. map direct ds ! d) [0..<length ds]) \<and>
    expanded_requirements st =
      Some (map (\<lambda>e. \<Union>d \<in> uses\<^sup>* `` {e}. map direct_requirements ds ! d) [0..<length ds])"
proof -
  have "\<forall>es \<in> set (effect_definitions st). dependencies es \<subseteq> {..<length (effect_definitions st)}"
    using inferring_ok [OF assms] by (simp add: solver_ok_def tables_ok_def)
  then show ?thesis
    unfolding Let_def expanded_effects_def expanded_requirements_def
    by (intro conjI) (subst expand_exact; auto)+
qed

theorem expanded_effects_reachable_witness:
  "\<exists>sets. expanded_effects solver_example = Some sets \<and> CacheRead \<in> sets ! 0"
proof -
  let ?ds = "effect_definitions solver_example"
  let ?uses = "(depends (map dependencies ?ds))\<^sup>*"
  have "(0, 1) \<in> ?uses" by (rule r_into_rtrancl) (simp add: depends_def solver_example_def)
  moreover have "CacheRead \<in> map direct ?ds ! 1" by (simp add: solver_example_def)
  ultimately have "CacheRead \<in> (\<Union>d \<in> ?uses `` {0}. map direct ?ds ! d)" by blast
  moreover have "0 < length ?ds" by (simp add: solver_example_def)
  ultimately have "CacheRead \<in> map (\<lambda>e. \<Union>d \<in> ?uses `` {e}. map direct ?ds ! d) [0..<length ?ds] ! 0" by simp
  then show ?thesis using expanded_effects_reachable [OF solver_example_reached] unfolding Let_def by blast
qed

end
