(* ===== verification/Package_Manifest.thy ===== *)
theory Package_Manifest
  imports Capability Source_Text Ordered_Map "HOL-Library.Option_ord"
begin

text \<open>
  Package manifests (\<open>krit-package/src/lib.rs\<close>): their validation, the capabilities they grant and the
  origins their secrets are bound to.  Reading the TOML text and resolving the entry on disk are left out; the
  parser of versions and that of URLs are parameters.
\<close>

section \<open>Manifests\<close>

datatype secret_injection = Bearer

definition injection_as_str :: "secret_injection \<Rightarrow> str" where
  "injection_as_str i = (case i of Bearer \<Rightarrow> ''bearer'')"

record secret_binding =
  bound_origins :: "str list"
  bound_inject :: secret_injection

datatype binding_status = Bound | Unbound

record secret_binding_fact =
  sb_secret :: str
  sb_inject :: secret_injection
  sb_binding :: binding_status
  sb_origins :: "str list"

definition UNBOUND_SECRET_LABEL :: str where
  "UNBOUND_SECRET_LABEL = ''UNBOUND (any granted origin)''"

record package_section =
  pkg_name :: str
  pkg_version :: str
  pkg_edition :: str
  pkg_entry :: str
  pkg_license :: str
  pkg_target :: str

record capabilities =
  cap_stdout :: bool
  cap_config :: "str list"
  cap_http :: "str list"
  cap_secrets :: "str list"
  cap_ai :: "str list"
  cap_logs :: bool
  cap_state :: "str list"
  cap_queues :: "str list"
  cap_consumes :: "str list"
  cap_schedules :: "str list"
  cap_buckets :: "str list"
  cap_read_only_buckets :: "str list"
  cap_databases :: "str list"
  cap_read_only_databases :: "str list"
  cap_cache_namespaces :: "str list"
  cap_read_only_cache_namespaces :: "str list"
  cap_search_indexes :: "str list"
  cap_vector_indexes :: "str list"

text \<open>Of the dependencies only their names are kept: any entry is refused.\<close>

record manifest =
  mf_schema :: nat
  mf_package :: package_section
  mf_dependencies :: "str list"
  mf_capabilities :: capabilities
  mf_secrets :: "(str, secret_binding) omap"

record manifest_error =
  mfe_code :: str
  mfe_message :: str

definition manifest_error_new :: "str \<Rightarrow> manifest_error" where
  "manifest_error_new msg = \<lparr>mfe_code = ''K6001'', mfe_message = msg\<rparr>"

definition unsupported_dependencies :: manifest_error where
  "unsupported_dependencies =
     \<lparr>mfe_code = ''K6003'', mfe_message = ''dependency resolution is not supported; remove [dependencies]''\<rparr>"

text \<open>A check is the error it returns; checks run in order up to the first error.\<close>

type_synonym check_result = "manifest_error option"

fun first_failure :: "check_result list \<Rightarrow> check_result" where
  "first_failure [] = None"
| "first_failure (None # checks) = first_failure checks"
| "first_failure (Some e # checks) = Some e"

definition refuse_if :: "bool \<Rightarrow> str \<Rightarrow> check_result" where
  "refuse_if wrong msg = (if wrong then Some (manifest_error_new msg) else None)"

section \<open>Validation\<close>

definition valid_name_segment :: "str \<Rightarrow> bool" where
  "valid_name_segment segment \<longleftrightarrow>
     \<not> prefix ''-'' segment \<and> \<not> suffix ''-'' segment \<and>
     list_all (\<lambda>b. is_ascii_lowercase b \<or> is_ascii_digit b \<or> b = CHR ''-'') segment"

definition validate_package_name :: "str \<Rightarrow> check_result" where
  "validate_package_name name =
     (case split_on (CHR ''/'') name of
        [namespace, package] \<Rightarrow>
          if namespace = [] \<or> package = []
          then Some (manifest_error_new (''package name '' @ backquoted name @ '' must be '' @ backquoted ''namespace/name''))
          else
            refuse_if (\<not> valid_name_segment namespace \<or> \<not> valid_name_segment package)
              (''package name '' @ backquoted name @ '' may contain lowercase ASCII letters, digits, and '' @ backquoted ''-'')
      | _ \<Rightarrow> Some (manifest_error_new (''package name '' @ backquoted name @ '' must be '' @ backquoted ''namespace/name'')))"

text \<open>
  Paths of the standard library on Unix: repeated separators and every \<open>.\<close> but a leading one are no components,
  and the extension of a name is what follows its last dot unless the name starts with that dot.
\<close>

datatype path_component = RootDir | CurDir | ParentDir | Normal str

definition path_components :: "str \<Rightarrow> path_component list" where
  "path_components path =
     (case split_on (CHR ''/'') path of
        [] \<Rightarrow> []
      | first # rest \<Rightarrow>
          (if path = [] then [] else if first = [] then [RootDir] else if first = ''.'' then [CurDir]
           else if first = ''..'' then [ParentDir] else [Normal first]) @
          map (\<lambda>p. if p = ''..'' then ParentDir else Normal p) (filter (\<lambda>p. p \<noteq> [] \<and> p \<noteq> ''.'') rest))"

definition path_extension :: "str \<Rightarrow> str option" where
  "path_extension path =
     (case path_components path of
        [] \<Rightarrow> None
      | c # cs \<Rightarrow>
          (case last (c # cs) of
             Normal name \<Rightarrow>
               (case split_on (CHR ''.'') name of
                  first # second # rest \<Rightarrow>
                    if rest = [] \<and> first = [] then None else Some (last (second # rest))
                | _ \<Rightarrow> None)
           | _ \<Rightarrow> None))"

definition validate_entry_path :: "str \<Rightarrow> check_result" where
  "validate_entry_path path =
     first_failure
       [refuse_if
          (path = [] \<or> CHR 0x5C \<in> set path \<or> path_components path \<noteq> [] \<and> hd (path_components path) = RootDir \<or>
           list_ex (\<lambda>c. case c of Normal _ \<Rightarrow> False | _ \<Rightarrow> True) (path_components path))
          (''package entry must be a package-relative path without '' @ backquoted ''.'' @ '' or '' @ backquoted ''..''),
        refuse_if (path_extension path \<noteq> Some ''krit'')
          (''package entry must have the '' @ backquoted ''.krit'' @ '' extension'')]"

definition validate_unique_names :: "str \<Rightarrow> str list \<Rightarrow> check_result" where
  "validate_unique_names kind vals =
     (case find (\<lambda>(a, b). a = b) (windows2 (sort vals)) of
        None \<Rightarrow> None
      | Some (duplicate, _) \<Rightarrow> Some (manifest_error_new (''duplicate '' @ kind @ '' '' @ backquoted duplicate)))"

definition validate_sorted_unique_names :: "str \<Rightarrow> str list \<Rightarrow> check_result" where
  "validate_sorted_unique_names kind vals =
     (case find (\<lambda>(a, b). b \<le> a) (windows2 vals) of
        None \<Rightarrow> None
      | Some (a, b) \<Rightarrow>
          Some (manifest_error_new
            (if a = b then ''duplicate '' @ kind @ '' '' @ backquoted a
             else kind @ '' entries must be sorted and unique'')))"

definition validate_capability_count :: "str \<Rightarrow> str list \<Rightarrow> check_result" where
  "validate_capability_count kind vals =
     refuse_if (256 < length vals) (''too many '' @ kind @ '' entries; maximum is 256'')"

definition validate_resource_name :: "str \<Rightarrow> str \<Rightarrow> check_result" where
  "validate_resource_name kind name =
     refuse_if (\<not> is_valid_resource_name name)
       (kind @ '' '' @ backquoted name @ '' must use 1-64 lowercase letters, digits, '' @ backquoted ''.'' @ '' or '' @
        backquoted ''-'' @ '', without leading/trailing punctuation or '' @ backquoted ''..'' @ ''/'' @ backquoted ''--'')"

definition validate_config_key :: "str \<Rightarrow> check_result" where
  "validate_config_key name =
     refuse_if (\<not> is_valid_config_key name)
       (''configuration key '' @ backquoted name @ '' must use 1-64 lowercase letters, digits, '' @ backquoted ''.'' @
        '', '' @ backquoted ''-'' @ '', or '' @ backquoted ''_'' @ '', without leading/trailing punctuation or '' @
        backquoted ''..'' @ ''/'' @ backquoted ''--'' @ ''/'' @ backquoted ''__'')"

definition origin_error_message :: "http_origin_error \<Rightarrow> str" where
  "origin_error_message e =
     (case e of
        OriginInvalid \<Rightarrow>
          ''origin must be lowercase '' @ backquoted ''http[s]://host[:port]'' @
          '' without userinfo, path, query, or fragment''
      | OriginNotNormalized \<Rightarrow>
          ''origin must use its normalized spelling (lowercase host and no default port or trailing slash)'')"

definition validate_http_origin :: "(str \<Rightarrow> parsed_url option) \<Rightarrow> str \<Rightarrow> check_result" where
  "validate_http_origin url_parse origin =
     (case parse_exact url_parse origin of
        Inr _ \<Rightarrow> None
      | Inl e \<Rightarrow>
          Some (manifest_error_new (''invalid HTTP origin '' @ backquoted origin @ '': '' @ origin_error_message e)))"

section \<open>Secrets\<close>

definition secret_names :: "manifest \<Rightarrow> str list" where
  "secret_names m = remdups_adj (sort (cap_secrets (mf_capabilities m) @ map fst (mf_secrets m)))"

definition secret_binding_of :: "manifest \<Rightarrow> str \<Rightarrow> secret_binding_fact" where
  "secret_binding_of m secret =
     (case om_get (mf_secrets m) secret of
        Some b \<Rightarrow>
          \<lparr>sb_secret = secret, sb_inject = bound_inject b, sb_binding = Bound, sb_origins = sort (bound_origins b)\<rparr>
      | None \<Rightarrow> \<lparr>sb_secret = secret, sb_inject = Bearer, sb_binding = Unbound, sb_origins = []\<rparr>)"

definition secret_bindings :: "manifest \<Rightarrow> secret_binding_fact list" where
  "secret_bindings m = map (secret_binding_of m) (secret_names m)"

text \<open>The loop over the origins of one binding, with the origins seen so far.\<close>

fun validate_bound_origins ::
  "(str \<Rightarrow> parsed_url option) \<Rightarrow> manifest \<Rightarrow> str \<Rightarrow> str list \<Rightarrow> str list \<Rightarrow> check_result" where
  "validate_bound_origins url_parse m name seen [] = None"
| "validate_bound_origins url_parse m name seen (origin # origins) =
     first_failure
       [validate_http_origin url_parse origin,
        refuse_if (origin \<in> set seen)
          (''secret '' @ backquoted name @ '' binds origin '' @ backquoted origin @ '' more than once''),
        refuse_if (origin \<notin> set (cap_http (mf_capabilities m)))
          (''secret '' @ backquoted name @ '' is bound to origin '' @ backquoted origin @
           '', which is not a granted '' @ backquoted ''http'' @ '' origin''),
        validate_bound_origins url_parse m name (seen @ [origin]) origins]"

definition validate_secret_binding ::
  "(str \<Rightarrow> parsed_url option) \<Rightarrow> manifest \<Rightarrow> str \<times> secret_binding \<Rightarrow> check_result" where
  "validate_secret_binding url_parse m = (\<lambda>(name, b).
     first_failure
       [validate_resource_name ''secret name'' name,
        refuse_if (bound_origins b = []) (''secret '' @ backquoted name @ '' must bind at least one origin''),
        validate_bound_origins url_parse m name [] (bound_origins b)])"

definition validate_secret_bindings :: "(str \<Rightarrow> parsed_url option) \<Rightarrow> manifest \<Rightarrow> check_result" where
  "validate_secret_bindings url_parse m =
     first_failure
       (validate_capability_count ''secret name'' (secret_names m) #
        map (validate_secret_binding url_parse m) (mf_secrets m))"

section \<open>The whole manifest\<close>

definition validate_named :: "str \<Rightarrow> str list \<Rightarrow> check_result list" where
  "validate_named kind names =
     validate_sorted_unique_names kind names # validate_capability_count kind names #
     map (validate_resource_name kind) names"

definition validate_apart :: "str \<Rightarrow> str list \<Rightarrow> str list \<Rightarrow> check_result list" where
  "validate_apart kind read_only writable =
     map (\<lambda>name. refuse_if (name \<in> set writable)
            (kind @ '' '' @ backquoted name @ '' cannot request both read-only and write authority'')) read_only"

text \<open>\<open>version_error\<close> is what \<open>Version::parse\<close> of the \<open>semver\<close> crate reports, if anything.\<close>

definition validate_package :: "(str \<Rightarrow> str option) \<Rightarrow> manifest \<Rightarrow> check_result list" where
  "validate_package version_error m =
     (let p = mf_package m in
      [refuse_if (mf_schema m \<noteq> 1) (''unsupported manifest schema '' @ digits_of (mf_schema m) @ ''; expected 1''),
       validate_package_name (pkg_name p),
       map_option (\<lambda>e. manifest_error_new (''invalid package version '' @ backquoted (pkg_version p) @ '': '' @ e))
         (version_error (pkg_version p)),
       refuse_if (pkg_edition p \<noteq> ''2026'')
         (''unsupported Krit edition '' @ backquoted (pkg_edition p) @ ''; expected '' @ backquoted ''2026''),
       validate_entry_path (pkg_entry p),
       refuse_if (pkg_target p \<noteq> ''wasm-component'')
         (''unsupported package target '' @ backquoted (pkg_target p) @ ''; expected '' @ backquoted ''wasm-component''),
       refuse_if (trim (pkg_license p) = []) ''package license cannot be empty'',
       if mf_dependencies m \<noteq> [] then Some unsupported_dependencies else None])"

definition validate_manifest ::
  "(str \<Rightarrow> parsed_url option) \<Rightarrow> (str \<Rightarrow> str option) \<Rightarrow> manifest \<Rightarrow> (manifest_error, unit) result" where
  "validate_manifest url_parse version_error m =
     (let c = mf_capabilities m in
      case first_failure
        (validate_package version_error m @
         [validate_unique_names ''configuration key'' (cap_config c),
          validate_capability_count ''configuration key'' (cap_config c)] @
         map validate_config_key (cap_config c) @
         [validate_unique_names ''HTTP origin'' (cap_http c), validate_capability_count ''HTTP origin'' (cap_http c)] @
         map (validate_http_origin url_parse) (cap_http c) @
         [validate_unique_names ''secret name'' (cap_secrets c), validate_capability_count ''secret name'' (cap_secrets c)] @
         map (validate_resource_name ''secret name'') (cap_secrets c) @
         [validate_secret_bindings url_parse m] @
         validate_named ''AI adapter'' (cap_ai c) @
         validate_named ''durable state store'' (cap_state c) @
         validate_named ''durable queue'' (cap_queues c) @
         validate_named ''durable queue consumer'' (cap_consumes c) @
         validate_named ''durable schedule'' (cap_schedules c) @
         validate_named ''object bucket'' (cap_buckets c) @
         validate_named ''read-only object bucket'' (cap_read_only_buckets c) @
         validate_named ''application database'' (cap_databases c) @
         validate_named ''read-only application database'' (cap_read_only_databases c) @
         validate_named ''cache namespace'' (cap_cache_namespaces c) @
         validate_named ''read-only cache namespace'' (cap_read_only_cache_namespaces c) @
         validate_named ''search index'' (cap_search_indexes c) @
         validate_named ''vector index'' (cap_vector_indexes c) @
         validate_apart ''object bucket'' (cap_read_only_buckets c) (cap_buckets c) @
         validate_apart ''application database'' (cap_read_only_databases c) (cap_databases c) @
         validate_apart ''cache namespace'' (cap_read_only_cache_namespaces c) (cap_cache_namespaces c))
      of None \<Rightarrow> Inr () | Some e \<Rightarrow> Inl e)"

section \<open>Permissions\<close>

datatype permission = Permission (perm_capability: str) (perm_resource: "str option")

text \<open>The derived order: by capability, then by resource, none first.\<close>

instantiation permission :: linorder
begin

definition less_eq_permission :: "permission \<Rightarrow> permission \<Rightarrow> bool" where
  "less_eq_permission a b \<longleftrightarrow>
     perm_capability a < perm_capability b \<or> perm_capability a = perm_capability b \<and> perm_resource a \<le> perm_resource b"

definition less_permission :: "permission \<Rightarrow> permission \<Rightarrow> bool" where
  "less_permission a b \<longleftrightarrow>
     perm_capability a < perm_capability b \<or> perm_capability a = perm_capability b \<and> perm_resource a < perm_resource b"

instance
  by standard (auto simp: less_eq_permission_def less_permission_def permission.expand)

end

definition for_names :: "str \<Rightarrow> str list \<Rightarrow> permission list" where
  "for_names capability names = map (\<lambda>name. Permission capability (Some name)) names"

definition for_flag :: "str \<Rightarrow> bool \<Rightarrow> permission list" where
  "for_flag capability granted = (if granted then [Permission capability None] else [])"

record permission_plan =
  plan_schema :: nat
  plan_package :: str
  plan_requested :: "permission list"
  plan_secret_bindings :: "secret_binding_fact list"
  plan_grant_status :: str

definition permission_plan_of :: "manifest \<Rightarrow> permission_plan" where
  "permission_plan_of m =
     (let c = mf_capabilities m in
      \<lparr>plan_schema = 1, plan_package = pkg_name (mf_package m),
       plan_requested = sort
         (for_flag ''io.stdout'' (cap_stdout c) @
          for_names ''config.read'' (cap_config c) @
          for_names ''http.request'' (cap_http c) @
          for_names ''secret.read'' (secret_names m) @
          for_names ''ai.invoke'' (cap_ai c) @
          for_flag ''observe.log'' (cap_logs c) @
          for_names ''state.transaction'' (cap_state c) @
          for_names ''queue.publish'' (cap_queues c) @
          for_names ''queue.consume'' (cap_consumes c) @
          for_names ''schedule.trigger'' (cap_schedules c) @
          for_names ''object.write'' (cap_buckets c) @
          for_names ''database.write'' (cap_databases c) @
          for_names ''cache.write'' (cap_cache_namespaces c) @
          for_names ''search.query'' (cap_search_indexes c) @
          for_names ''search.vector'' (cap_vector_indexes c) @
          for_names ''object.read'' (cap_buckets c @ cap_read_only_buckets c) @
          for_names ''database.read'' (cap_databases c @ cap_read_only_databases c) @
          for_names ''cache.read'' (cap_cache_namespaces c @ cap_read_only_cache_namespaces c)),
       plan_secret_bindings = secret_bindings m, plan_grant_status = ''not-evaluated''\<rparr>)"

text \<open>The names that \<open>grants_permission\<close> searches for a capability with resources.\<close>

definition granted_names :: "manifest \<Rightarrow> str \<Rightarrow> str list" where
  "granted_names m capability =
     (let c = mf_capabilities m in
      if capability = ''config.read'' then cap_config c
      else if capability = ''http.request'' then cap_http c
      else if capability = ''secret.read'' then cap_secrets c @ map fst (mf_secrets m)
      else if capability = ''ai.invoke'' then cap_ai c
      else if capability = ''state.transaction'' then cap_state c
      else if capability = ''queue.publish'' then cap_queues c
      else if capability = ''queue.consume'' then cap_consumes c
      else if capability = ''schedule.trigger'' then cap_schedules c
      else if capability = ''object.write'' then cap_buckets c
      else if capability = ''object.read'' then cap_buckets c @ cap_read_only_buckets c
      else if capability = ''database.write'' then cap_databases c
      else if capability = ''database.read'' then cap_databases c @ cap_read_only_databases c
      else if capability = ''cache.write'' then cap_cache_namespaces c
      else if capability = ''cache.read'' then cap_cache_namespaces c @ cap_read_only_cache_namespaces c
      else if capability = ''search.query'' then cap_search_indexes c
      else if capability = ''search.vector'' then cap_vector_indexes c
      else [])"

definition grants_permission :: "manifest \<Rightarrow> str \<Rightarrow> str option \<Rightarrow> bool" where
  "grants_permission m capability resource =
     (if capability = ''io.stdout'' then resource = None \<and> cap_stdout (mf_capabilities m)
      else if capability = ''observe.log'' then resource = None \<and> cap_logs (mf_capabilities m)
      else case resource of None \<Rightarrow> False | Some name \<Rightarrow> name \<in> set (granted_names m capability))"

definition manifest_permits_bearer :: "manifest \<Rightarrow> str \<Rightarrow> str \<Rightarrow> bool" where
  "manifest_permits_bearer m secret origin \<longleftrightarrow>
     grants_permission m ''secret.read'' (Some secret) \<and> grants_permission m ''http.request'' (Some origin) \<and>
     (case om_get (mf_secrets m) secret of None \<Rightarrow> True | Some b \<Rightarrow> origin \<in> set (bound_origins b))"

definition render_permission :: "permission \<Rightarrow> str" where
  "render_permission p =
     ''  '' @ perm_capability p @ (case perm_resource p of None \<Rightarrow> [] | Some r \<Rightarrow> '': '' @ r) @ [CHR 0x0A]"

definition render_secret_bindings :: "secret_binding_fact list \<Rightarrow> str" where
  "render_secret_bindings bs =
     (if bs = [] then []
      else
        ''Secret bindings:'' @ [CHR 0x0A] @
        concat (map (\<lambda>b. ''  '' @ sb_secret b @ '' ('' @ injection_as_str (sb_inject b) @ ''): '' @
          (case sb_binding b of Bound \<Rightarrow> join '', '' (sb_origins b) | Unbound \<Rightarrow> UNBOUND_SECRET_LABEL) @ [CHR 0x0A]) bs))"

definition render_plan :: "permission_plan \<Rightarrow> str" where
  "render_plan plan =
     ''Requested capabilities for '' @ plan_package plan @ '':'' @ [CHR 0x0A] @
     (if plan_requested plan = [] then ''  (none)'' @ [CHR 0x0A]
      else concat (map render_permission (plan_requested plan))) @
     render_secret_bindings (plan_secret_bindings plan) @
     ''Deployment grants: not evaluated'' @ [CHR 0x0A]"

section \<open>What validation establishes\<close>

lemma first_failure_None: "first_failure cs = None \<longleftrightarrow> (\<forall>c \<in> set cs. c = None)"
  by (induction cs rule: first_failure.induct) auto

lemma first_failure_append: "(\<And>c. c \<in> set cs \<Longrightarrow> c = None) \<Longrightarrow> first_failure (cs @ rest) = first_failure rest"
proof (induction cs)
  case (Cons c cs)
  then have "c = None" "first_failure (cs @ rest) = first_failure rest" by simp_all
  then show ?case by simp
qed simp

lemma refuse_if_None [simp]: "refuse_if wrong msg = None \<longleftrightarrow> \<not> wrong"
  by (simp add: refuse_if_def)

lemma secret_names_set [simp]: "set (secret_names m) = set (cap_secrets (mf_capabilities m)) \<union> fst ` set (mf_secrets m)"
  by (auto simp: secret_names_def)

lemma validate_bound_origins_ok:
  "validate_bound_origins url_parse m name seen origins = None \<Longrightarrow> origin \<in> set origins \<Longrightarrow>
     origin \<in> set (cap_http (mf_capabilities m)) \<and> (\<exists>parsed. parse_exact url_parse origin = Inr parsed)"
  by (induction origins arbitrary: seen)
     (auto simp: first_failure_None validate_http_origin_def split: sum.splits)

lemma validate_manifest_ok:
  assumes "validate_manifest url_parse version_error m = Inr ()"
  shows "validate_secret_bindings url_parse m = None"
    and "origin \<in> set (cap_http (mf_capabilities m)) \<Longrightarrow> \<exists>parsed. parse_exact url_parse origin = Inr parsed"
proof -
  have "validate_secret_bindings url_parse m = None \<and>
      (\<forall>origin \<in> set (cap_http (mf_capabilities m)). validate_http_origin url_parse origin = None)"
    using assms by (simp add: validate_manifest_def first_failure_None Let_def split: option.splits)
  then show "validate_secret_bindings url_parse m = None"
    and "origin \<in> set (cap_http (mf_capabilities m)) \<Longrightarrow> \<exists>parsed. parse_exact url_parse origin = Inr parsed"
    by (simp, cases "parse_exact url_parse origin") (auto simp: validate_http_origin_def)
qed

lemma bound_origin_granted:
  assumes "validate_manifest url_parse version_error m = Inr ()" "om_get (mf_secrets m) secret = Some b"
    "origin \<in> set (bound_origins b)"
  shows "origin \<in> set (cap_http (mf_capabilities m))"
proof -
  have "(secret, b) \<in> set (mf_secrets m)" using assms(2) by (auto simp: om_get_def dest: map_of_SomeD)
  then have "validate_secret_binding url_parse m (secret, b) = None"
    using validate_manifest_ok(1) [OF assms(1)] by (auto simp: validate_secret_bindings_def first_failure_None)
  then show ?thesis
    using validate_bound_origins_ok assms(3) by (auto simp: validate_secret_binding_def first_failure_None)
qed

section \<open>What is requested\<close>

lemma for_names_mem [simp]:
  "Permission c r \<in> set (for_names capability names) \<longleftrightarrow> c = capability \<and> r \<in> Some ` set names"
  by (auto simp: for_names_def)

lemma for_flag_mem [simp]: "Permission c r \<in> set (for_flag capability granted) \<longleftrightarrow> granted \<and> c = capability \<and> r = None"
  by (auto simp: for_flag_def)

lemma capability_cases [case_names flag named other]:
  assumes "c = ''io.stdout'' \<or> c = ''observe.log'' \<Longrightarrow> P"
    "c \<in> set [''config.read'', ''http.request'', ''secret.read'', ''ai.invoke'', ''state.transaction'', ''queue.publish'',
       ''queue.consume'', ''schedule.trigger'', ''object.write'', ''object.read'', ''database.write'', ''database.read'',
       ''cache.write'', ''cache.read'', ''search.query'', ''search.vector''] \<Longrightarrow> P"
    "c \<notin> set [''io.stdout'', ''observe.log'', ''config.read'', ''http.request'', ''secret.read'', ''ai.invoke'',
       ''state.transaction'', ''queue.publish'', ''queue.consume'', ''schedule.trigger'', ''object.write'',
       ''object.read'', ''database.write'', ''database.read'', ''cache.write'', ''cache.read'', ''search.query'',
       ''search.vector''] \<Longrightarrow> P"
  shows P
  using assms by auto

lemma plan_exact: "Permission c r \<in> set (plan_requested (permission_plan_of m)) \<longleftrightarrow> grants_permission m c r"
proof (cases c rule: capability_cases)
  case flag
  then show ?thesis
    by (elim disjE) (simp_all add: permission_plan_of_def grants_permission_def Let_def conj_commute)
next
  case named
  then show ?thesis
    unfolding list.set insert_iff empty_iff
    by (elim disjE; cases r; simp add: permission_plan_of_def grants_permission_def granted_names_def Let_def inj_image_mem_iff)
next
  case other
  then show ?thesis
    by (cases r) (simp_all add: permission_plan_of_def grants_permission_def granted_names_def Let_def)
qed

end
