(* ===== verification/Permissions.thy ===== *)
theory Permissions
  imports Package_Manifest
begin

text \<open>
  The host's grants (\<open>krit-runtime/src/permissions.rs\<close>): what a manifest grants, whether an artifact is
  authorized by it, which origin may receive a secret, and the report of effective permissions.
\<close>

section \<open>Interfaces and worlds\<close>

definition AI_INTERFACE :: str where "AI_INTERFACE = ''krit:runtime/ai@0.2.0''"
definition STDOUT_INTERFACE :: str where "STDOUT_INTERFACE = ''krit:runtime/stdout@0.2.0''"
definition CONFIG_INTERFACE :: str where "CONFIG_INTERFACE = ''krit:runtime/config@0.2.0''"
definition HTTP_INTERFACE :: str where "HTTP_INTERFACE = ''krit:runtime/http@0.2.0''"
definition HTTP_ANONYMOUS_INTERFACE :: str where "HTTP_ANONYMOUS_INTERFACE = ''krit:runtime/http-anonymous@0.2.0''"
definition SECRETS_INTERFACE :: str where "SECRETS_INTERFACE = ''krit:runtime/secrets@0.2.0''"
definition LOGGING_INTERFACE :: str where "LOGGING_INTERFACE = ''krit:runtime/logging@0.2.0''"
definition STATE_INTERFACE :: str where "STATE_INTERFACE = ''krit:runtime/state@0.2.0''"
definition QUEUE_INTERFACE :: str where "QUEUE_INTERFACE = ''krit:runtime/queue@0.2.0''"
definition OBJECTS_READ_INTERFACE :: str where "OBJECTS_READ_INTERFACE = ''krit:runtime/objects-read@0.2.0''"
definition OBJECTS_WRITE_INTERFACE :: str where "OBJECTS_WRITE_INTERFACE = ''krit:runtime/objects-write@0.2.0''"
definition DATABASE_INTERFACE :: str where "DATABASE_INTERFACE = ''krit:runtime/database@0.2.0''"
definition CACHE_READ_INTERFACE :: str where "CACHE_READ_INTERFACE = ''krit:runtime/cache-read@0.2.0''"
definition CACHE_WRITE_INTERFACE :: str where "CACHE_WRITE_INTERFACE = ''krit:runtime/cache-write@0.2.0''"
definition SEARCH_QUERY_INTERFACE :: str where "SEARCH_QUERY_INTERFACE = ''krit:runtime/search-query@0.2.0''"
definition SEARCH_VECTOR_INTERFACE :: str where "SEARCH_VECTOR_INTERFACE = ''krit:runtime/search-vector@0.2.0''"

section \<open>Artifacts and errors\<close>

text \<open>The fields of an artifact's metadata that authorization and the host policy read.\<close>

record artifact_metadata =
  am_edition :: str
  am_package_name :: str
  am_package_version :: str
  am_target :: str
  am_world :: str
  am_entry :: str
  am_digest :: str
  am_effects :: "str list"
  am_requirements :: "(str \<times> str) list"
  am_approvals :: "(str \<times> str) list"
  am_imports :: "str list"

datatype runtime_error_kind =
    InvalidArtifact | DigestMismatch | Authorization | ImportMismatch | FuelExhausted | DeadlineExceeded
  | Cancelled | ResourceLimit | HostCallLimit | OutputLimit | DivisionByZero | IntegerOverflow
  | InvalidJson | GuestTrap | RuntimeSetup | DurableState | StateConflict | Replay
  | DurableIdempotency | Delivery | Database | DatabaseTransaction | DatabaseLimit | Cache
  | CacheLimit | CacheUnavailable | Search

text \<open>An error of this library carries no log events (\<open>events: Vec::new()\<close>), so the field is left out.\<close>

record runtime_error =
  rte_code :: str
  rte_kind :: runtime_error_kind
  rte_message :: str


definition unbound_secret :: "str \<Rightarrow> str \<Rightarrow> runtime_error" where
  "unbound_secret secret origin =
     \<lparr>rte_code = ''K5006'', rte_kind = Authorization,
      rte_message = ''secret '' @ backquoted secret @ '' is not bound to origin '' @ backquoted origin\<rparr>"


section \<open>Grants\<close>

record grant_set =
  gs_package_name :: str
  gs_package_version :: str
  gs_edition :: str
  gs_target :: str
  gs_entry :: str
  gs_requested :: "permission list"
  gs_effects :: "str set"
  gs_imports :: "str set"
  gs_secret_bindings :: "secret_binding_fact list"

text \<open>The effects and the imports that \<open>from_manifest\<close> inserts, each under its condition.\<close>

definition granted_effects :: "manifest \<Rightarrow> (bool \<times> str \<times> str list) list" where
  "granted_effects m =
     (let c = mf_capabilities m in
      [(cap_stdout c, ''io.stdout'', [STDOUT_INTERFACE]),
       (cap_config c \<noteq> [], ''config.read'', [CONFIG_INTERFACE]),
       (cap_http c \<noteq> [], ''http.request'', [HTTP_INTERFACE, HTTP_ANONYMOUS_INTERFACE]),
       (secret_bindings m \<noteq> [], ''secret.read'', [SECRETS_INTERFACE]),
       (cap_ai c \<noteq> [], ''ai.invoke'', [AI_INTERFACE]),
       (cap_logs c, ''observe.log'', [LOGGING_INTERFACE]),
       (cap_state c \<noteq> [], ''state.transaction'', [STATE_INTERFACE]),
       (cap_queues c \<noteq> [], ''queue.publish'', [QUEUE_INTERFACE]),
       (cap_consumes c \<noteq> [], ''queue.consume'', []),
       (cap_schedules c \<noteq> [], ''schedule.trigger'', []),
       (cap_buckets c \<noteq> [], ''object.write'', [OBJECTS_WRITE_INTERFACE]),
       (cap_buckets c \<noteq> [] \<or> cap_read_only_buckets c \<noteq> [], ''object.read'', [OBJECTS_READ_INTERFACE]),
       (cap_databases c \<noteq> [], ''database.write'', [DATABASE_INTERFACE]),
       (cap_databases c \<noteq> [] \<or> cap_read_only_databases c \<noteq> [], ''database.read'', [DATABASE_INTERFACE]),
       (cap_cache_namespaces c \<noteq> [], ''cache.write'', [CACHE_WRITE_INTERFACE]),
       (cap_cache_namespaces c \<noteq> [] \<or> cap_read_only_cache_namespaces c \<noteq> [], ''cache.read'', [CACHE_READ_INTERFACE]),
       (cap_search_indexes c \<noteq> [], ''search.query'', [SEARCH_QUERY_INTERFACE]),
       (cap_vector_indexes c \<noteq> [], ''search.vector'', [SEARCH_VECTOR_INTERFACE])])"

definition from_manifest :: "manifest \<Rightarrow> grant_set" where
  "from_manifest m =
     (let c = mf_capabilities m; p = mf_package m;
          granted = filter fst (granted_effects m) in
      \<lparr>gs_package_name = pkg_name p, gs_package_version = pkg_version p, gs_edition = pkg_edition p,
       gs_target = pkg_target p,
       gs_entry = map (\<lambda>b. if b = CHR 0x5C then CHR ''/'' else b) (pkg_entry p),
       gs_requested = sort
         (for_flag ''io.stdout'' (cap_stdout c) @
          for_flag ''observe.log'' (cap_logs c) @
          for_names ''cache.write'' (cap_cache_namespaces c) @
          for_names ''cache.read'' (cap_cache_namespaces c @ cap_read_only_cache_namespaces c) @
          for_names ''database.write'' (cap_databases c) @
          for_names ''database.read'' (cap_databases c @ cap_read_only_databases c) @
          for_names ''queue.publish'' (cap_queues c) @
          for_names ''queue.consume'' (cap_consumes c) @
          for_names ''schedule.trigger'' (cap_schedules c) @
          for_names ''object.write'' (cap_buckets c) @
          for_names ''search.query'' (cap_search_indexes c) @
          for_names ''search.vector'' (cap_vector_indexes c) @
          for_names ''object.read'' (cap_buckets c @ cap_read_only_buckets c) @
          for_names ''config.read'' (cap_config c) @
          for_names ''state.transaction'' (cap_state c) @
          for_names ''ai.invoke'' (cap_ai c) @
          for_names ''http.request'' (cap_http c) @
          for_names ''secret.read'' (map sb_secret (secret_bindings m))),
       gs_effects = set (map (\<lambda>(_, e, _). e) granted),
       gs_imports = set (concat (map (\<lambda>(_, _, is). is) granted)),
       gs_secret_bindings = secret_bindings m\<rparr>)"

definition grants :: "grant_set \<Rightarrow> str \<Rightarrow> str option \<Rightarrow> bool" where
  "grants gs capability resource =
     list_ex (\<lambda>p. perm_capability p = capability \<and> perm_resource p = resource) (gs_requested gs)"

definition permits_bearer :: "grant_set \<Rightarrow> str \<Rightarrow> str \<Rightarrow> bool" where
  "permits_bearer gs secret origin \<longleftrightarrow>
     grants gs ''http.request'' (Some origin) \<and>
     (case find (\<lambda>b. sb_secret b = secret) (gs_secret_bindings gs) of
        None \<Rightarrow> False
      | Some b \<Rightarrow> (case sb_binding b of Bound \<Rightarrow> origin \<in> set (sb_origins b) | Unbound \<Rightarrow> True))"

record 'bytes authorized_bearer =
  ab_origin :: str
  ab_secret :: 'bytes

definition authorize_bearer ::
  "grant_set \<Rightarrow> str \<Rightarrow> str \<Rightarrow> 'bytes \<Rightarrow> (runtime_error, 'bytes authorized_bearer) result" where
  "authorize_bearer gs secret_name origin secret =
     (if \<not> permits_bearer gs secret_name origin then Inl (unbound_secret secret_name origin)
      else Inr \<lparr>ab_origin = origin, ab_secret = secret\<rparr>)"

section \<open>Authorization\<close>





record effective_permissions =
  ep_schema :: nat
  ep_package :: str
  ep_world :: str
  ep_requested :: "permission list"
  ep_secret_bindings :: "secret_binding_fact list"
  ep_required :: "permission list"
  ep_effective :: "permission list"
  ep_denied :: "permission list"
  ep_imports :: "str list"
  ep_approval_required :: "(str \<times> str) list"
  ep_approval_status :: str
  ep_denial_reasons :: "str list"
  ep_local_grant_status :: str
  ep_deployment_grant_status :: str





section \<open>The report\<close>

definition render_facts :: "str \<Rightarrow> permission list \<Rightarrow> str" where
  "render_facts heading ps =
     heading @ '':'' @ [CHR 0x0A] @
     (if ps = [] then ''  (none)'' @ [CHR 0x0A] else concat (map render_permission ps))"

definition render_lines :: "str list \<Rightarrow> str" where
  "render_lines ls = concat (map (\<lambda>l. ''  '' @ l @ [CHR 0x0A]) ls)"

definition render_human :: "effective_permissions \<Rightarrow> str" where
  "render_human ep =
     ''Effective permissions for '' @ ep_package ep @ '' (schema '' @ digits_of (ep_schema ep) @ ''):'' @ [CHR 0x0A] @
     render_facts ''Requested'' (ep_requested ep) @
     render_secret_bindings (ep_secret_bindings ep) @
     render_facts ''Required'' (ep_required ep) @
     render_facts ''Effective'' (ep_effective ep) @
     render_facts ''Denied'' (ep_denied ep) @
     ''Imports:'' @ [CHR 0x0A] @
     (if ep_imports ep = [] then ''  (none)'' @ [CHR 0x0A] else render_lines (ep_imports ep)) @
     (if ep_denial_reasons ep = [] then []
      else
        ''Denial reasons:'' @ [CHR 0x0A] @ render_lines (ep_denial_reasons ep) @
        ''Approval required:'' @ [CHR 0x0A] @
        (if ep_approval_required ep = [] then ''  (none)'' @ [CHR 0x0A]
         else render_lines (map (\<lambda>(operation, resource). operation @ '': '' @ resource) (ep_approval_required ep))) @
        ''Approval policy: '' @ ep_approval_status ep @ [CHR 0x0A]) @
     ''Local manifest grants: '' @ ep_local_grant_status ep @ [CHR 0x0A] @
     ''Deployment grants: not evaluated'' @ [CHR 0x0A]"

section \<open>Grants and manifests agree\<close>

lemma grants_iff: "grants gs c r \<longleftrightarrow> Permission c r \<in> set (gs_requested gs)"
  by (force simp: grants_def list_ex_iff)

lemma secret_bindings_names [simp]: "map sb_secret (secret_bindings m) = secret_names m"
  by (simp add: secret_bindings_def secret_binding_of_def comp_def split: option.splits) (auto intro!: map_idI split: option.splits)

lemma from_manifest_requested: "set (gs_requested (from_manifest m)) = set (plan_requested (permission_plan_of m))"
  by (auto simp: from_manifest_def permission_plan_of_def Let_def)

lemma grants_exact: "grants (from_manifest m) c r \<longleftrightarrow> grants_permission m c r"
  by (simp add: grants_iff from_manifest_requested plan_exact)





lemma find_binding:
  "find (\<lambda>b. sb_secret b = secret) (secret_bindings m) =
     (if grants_permission m ''secret.read'' (Some secret) then Some (secret_binding_of m secret) else None)"
proof -
  have name: "sb_secret (secret_binding_of m s) = s" for s by (simp add: secret_binding_of_def split: option.splits)
  have "find (\<lambda>b. sb_secret b = secret) (map (secret_binding_of m) ns) =
      (if secret \<in> set ns then Some (secret_binding_of m secret) else None)" for ns
    by (induction ns) (auto simp: name)
  then show ?thesis by (auto simp: secret_bindings_def grants_permission_def granted_names_def Let_def)
qed

lemma permits_bearer_exact: "permits_bearer (from_manifest m) secret origin \<longleftrightarrow> manifest_permits_bearer m secret origin"
proof -
  have "gs_secret_bindings (from_manifest m) = secret_bindings m" by (simp add: from_manifest_def Let_def)
  then show ?thesis
    by (auto simp: permits_bearer_def manifest_permits_bearer_def grants_exact find_binding secret_binding_of_def
        split: option.splits)
qed

section \<open>The contract of authority\<close>

text \<open>
  What both views of a manifest promise: a bearer credential needs the secret, the origin and, for a bound
  secret, that the origin is one of its own; write authority includes read authority.
\<close>

locale authority =
  fixes granting :: "'m \<Rightarrow> str \<Rightarrow> str option \<Rightarrow> bool"
    and bearer :: "'m \<Rightarrow> str \<Rightarrow> str \<Rightarrow> bool"
    and bound_to :: "'m \<Rightarrow> str \<Rightarrow> str list option"
  assumes bearer_needs: "bearer m secret origin \<longleftrightarrow>
      granting m ''secret.read'' (Some secret) \<and> granting m ''http.request'' (Some origin) \<and>
      (case bound_to m secret of None \<Rightarrow> True | Some origins \<Rightarrow> origin \<in> set origins)"
    and write_reads: "kind \<in> {''object'', ''database'', ''cache''} \<Longrightarrow>
      granting m (kind @ ''.write'') r \<Longrightarrow> granting m (kind @ ''.read'') r"
begin

lemma bearer_confined:
  "bearer m secret origin \<Longrightarrow> bound_to m secret = Some origins \<Longrightarrow>
     origin \<in> set origins \<and> granting m ''http.request'' (Some origin)"
  by (simp add: bearer_needs)

lemma bearer_revoked: "\<not> granting m ''http.request'' (Some origin) \<Longrightarrow> \<not> bearer m secret origin"
  by (simp add: bearer_needs)

lemma no_write_without_read:
  "kind \<in> {''object'', ''database'', ''cache''} \<Longrightarrow> \<not> granting m (kind @ ''.read'') r \<Longrightarrow> \<not> granting m (kind @ ''.write'') r"
  using write_reads by blast

end

abbreviation declared_origins :: "manifest \<Rightarrow> str \<Rightarrow> str list option" where
  "declared_origins m secret \<equiv> map_option bound_origins (om_get (mf_secrets m) secret)"

lemma write_grants_read:
  "kind \<in> {''object'', ''database'', ''cache''} \<Longrightarrow>
     grants_permission m (kind @ ''.write'') r \<Longrightarrow> grants_permission m (kind @ ''.read'') r"
  by (auto simp: grants_permission_def granted_names_def Let_def split: option.splits)

interpretation declared: authority grants_permission manifest_permits_bearer declared_origins
  by unfold_locales (auto simp: manifest_permits_bearer_def split: option.splits intro: write_grants_read)

interpretation host: authority "\<lambda>m. grants (from_manifest m)" "\<lambda>m. permits_bearer (from_manifest m)" declared_origins
  by unfold_locales (simp_all add: grants_exact permits_bearer_exact declared.bearer_needs declared.write_reads)


section \<open>Properties\<close>






text \<open>
  The approvals an artifact needs are printed under the denial reasons only: the human report of an artifact that is
  not refused is the same whatever it needs approval for.
\<close>

lemma approvals_hidden:
  "ep_denial_reasons ep = [] \<Longrightarrow> render_human (ep\<lparr>ep_approval_required := approvals\<rparr>) = render_human ep"
  by (simp add: render_human_def)


text \<open>
  C9: with a valid manifest, a secret is released to an origin exactly when the origin is one of those its table
  lists, or, for a secret with no table, when both are granted; and only to canonical origins.
\<close>

theorem bearer_confined_to_binding:
  assumes "validate_manifest url_parse version_error m = Inr ()"
  shows "(authorize_bearer (from_manifest m) secret origin key = Inr \<lparr>ab_origin = origin, ab_secret = key\<rparr> \<longleftrightarrow>
      (case om_get (mf_secrets m) secret of
         Some b \<Rightarrow> origin \<in> set (bound_origins b)
       | None \<Rightarrow> secret \<in> set (cap_secrets (mf_capabilities m)) \<and> origin \<in> set (cap_http (mf_capabilities m)))) \<and>
    (permits_bearer (from_manifest m) secret origin \<longrightarrow> (\<exists>parsed. parse_exact url_parse origin = Inr parsed))"
proof (intro conjI impI)
  have secret: "grants_permission m ''secret.read'' (Some secret) \<longleftrightarrow>
      secret \<in> set (cap_secrets (mf_capabilities m)) \<or> om_get (mf_secrets m) secret \<noteq> None"
    by (auto simp: grants_permission_def granted_names_def Let_def om_get_def map_of_eq_None_iff)
  have http: "grants_permission m ''http.request'' (Some origin) \<longleftrightarrow> origin \<in> set (cap_http (mf_capabilities m))"
    by (simp add: grants_permission_def granted_names_def Let_def)
  show "authorize_bearer (from_manifest m) secret origin key = Inr \<lparr>ab_origin = origin, ab_secret = key\<rparr> \<longleftrightarrow>
      (case om_get (mf_secrets m) secret of
         Some b \<Rightarrow> origin \<in> set (bound_origins b)
       | None \<Rightarrow> secret \<in> set (cap_secrets (mf_capabilities m)) \<and> origin \<in> set (cap_http (mf_capabilities m)))"
    using bound_origin_granted [OF assms]
    by (auto simp: authorize_bearer_def host.bearer_needs grants_exact secret http split: option.splits)
  assume "permits_bearer (from_manifest m) secret origin"
  then show "\<exists>parsed. parse_exact url_parse origin = Inr parsed"
    using host.bearer_revoked [of m origin secret] validate_manifest_ok(2) [OF assms] http by (auto simp: grants_exact)
qed

definition demo_manifest :: manifest where
  "demo_manifest =
     \<lparr>mf_schema = 1,
      mf_package = \<lparr>pkg_name = ''a/b'', pkg_version = ''1.0.0'', pkg_edition = ''2026'', pkg_entry = ''m.krit'',
        pkg_license = ''MIT'', pkg_target = ''wasm-component''\<rparr>,
      mf_dependencies = [],
      mf_capabilities = \<lparr>cap_stdout = False, cap_config = [], cap_http = [''https://a.b''], cap_secrets = [],
        cap_ai = [], cap_logs = False, cap_state = [], cap_queues = [], cap_consumes = [], cap_schedules = [],
        cap_buckets = [], cap_read_only_buckets = [], cap_databases = [], cap_read_only_databases = [],
        cap_cache_namespaces = [], cap_read_only_cache_namespaces = [], cap_search_indexes = [],
        cap_vector_indexes = []\<rparr>,
      mf_secrets = [(''k'', \<lparr>bound_origins = [''https://a.b''], bound_inject = Bearer\<rparr>)]\<rparr>"

lemma demo_origin: "\<exists>parsed. parse_exact demo_url ''https://a.b'' = Inr parsed"
  by (simp add: parse_exact_def demo_url_def ascii_nat u8_def bad_domain_def bad_label_def
      origin_text_def scheme_default_port_def scheme_as_str_def suffix_def append_eq_Cons_conv)

lemma demo_license: "trim ''MIT'' \<noteq> []"
  by (simp add: trim_def chars.simps next_char_def char_len_def is_whitespace_def white_space_def utf8_eval)

lemma demo_manifest_valid: "validate_manifest demo_url (\<lambda>_. None) demo_manifest = Inr ()"
proof -
  have origin: "validate_http_origin demo_url ''https://a.b'' = None"
    using demo_origin by (auto simp: validate_http_origin_def)
  have name: "validate_resource_name ''secret name'' ''k'' = None"
    by (auto simp: validate_resource_name_def is_valid_resource_name_def is_canonical_name_def krit_eval
        dest: sublist_length_le)
  have secrets: "validate_secret_bindings demo_url demo_manifest = None"
    by (simp add: validate_secret_bindings_def validate_secret_binding_def demo_manifest_def first_failure_None
        validate_capability_count_def secret_names_def name origin)
  have package: "c = None" if "c \<in> set (validate_package (\<lambda>_. None) demo_manifest)" for c
    using that demo_license
    by (auto simp: validate_package_def demo_manifest_def validate_package_name_def valid_name_segment_def
        validate_entry_path_def path_components_def path_extension_def first_failure_None Let_def krit_eval refuse_if_def
        suffix_def append_eq_Cons_conv)
  have checks: "first_failure (validate_package (\<lambda>_. None) demo_manifest @ rest) = first_failure rest" for rest
    using package by (rule first_failure_append)
  define c where "c = mf_capabilities demo_manifest"
  have caps: "cap_config c = []" "cap_http c = [''https://a.b'']" "cap_secrets c = []" "cap_ai c = []" "cap_state c = []"
    "cap_queues c = []" "cap_consumes c = []" "cap_schedules c = []" "cap_buckets c = []" "cap_read_only_buckets c = []"
    "cap_databases c = []" "cap_read_only_databases c = []" "cap_cache_namespaces c = []"
    "cap_read_only_cache_namespaces c = []" "cap_search_indexes c = []" "cap_vector_indexes c = []"
    by (simp_all add: c_def demo_manifest_def)
  show ?thesis
    unfolding validate_manifest_def Let_def checks c_def [symmetric]
    by (simp add: refuse_if_def caps secrets origin validate_unique_names_def validate_capability_count_def validate_named_def
        validate_sorted_unique_names_def validate_apart_def)
qed

theorem bearer_confined_to_binding_witness:
  "authorize_bearer (from_manifest demo_manifest) ''k'' ''https://a.b'' () =
     Inr \<lparr>ab_origin = ''https://a.b'', ab_secret = ()\<rparr> \<and>
   \<not> permits_bearer (from_manifest demo_manifest) ''k'' ''https://c.d''"
  using bearer_confined_to_binding [OF demo_manifest_valid, of "''k''" "''https://a.b''" "()"]
    bearer_confined_to_binding [OF demo_manifest_valid, of "''k''" "''https://c.d''" "()"]
  by (simp add: demo_manifest_def om_get_def authorize_bearer_def split: if_splits)

end
