(* ===== verification/Runtime_Limits.thy ===== *)
theory Runtime_Limits
  imports Permissions
begin

text \<open>
  The limits of a run (\<open>krit-runtime/src/limits.rs\<close>): the defaults, the hard maxima of the host policy and the
  operations by which a configuration narrows them.  A \<open>Duration\<close> is its number of nanoseconds.
\<close>

section \<open>Limits\<close>

record runtime_limits =
  component_bytes :: nat
  metadata_bytes :: nat
  memory_bytes :: nat
  table_elements :: nat
  instances :: nat
  tables :: nat
  memories :: nat
  wasm_stack_bytes :: nat
  fuel :: nat
  deadline :: nat
  host_calls :: nat
  output_bytes :: nat
  request_body_bytes :: nat
  response_body_bytes :: nat
  header_count :: nat
  header_bytes :: nat
  http_calls :: nat
  ai_calls :: nat
  ai_input_bytes :: nat
  ai_response_bytes :: nat
  ai_timeout :: nat
  log_events :: nat
  log_fields :: nat
  log_value_bytes :: nat
  log_bytes :: nat
  connect_timeout :: nat
  read_timeout :: nat
  http_timeout :: nat
  host_config_bytes :: nat
  secret_bytes :: nat

definition from_secs :: "nat \<Rightarrow> nat" where
  "from_secs n = n * 10 ^ 9"

definition from_millis :: "nat \<Rightarrow> nat" where
  "from_millis n = n * 10 ^ 6"

definition as_millis :: "nat \<Rightarrow> nat" where
  "as_millis d = d div 10 ^ 6"

definition HARD_MAX_LIMITS :: runtime_limits where
  "HARD_MAX_LIMITS =
     \<lparr>component_bytes = 16 * 1024 * 1024,
      metadata_bytes = 1024 * 1024,
      memory_bytes = 64 * 1024 * 1024,
      table_elements = 65536,
      instances = 64,
      tables = 32,
      memories = 8,
      wasm_stack_bytes = 8 * 1024 * 1024,
      fuel = 1000000000,
      deadline = from_secs 30,
      host_calls = 1000000,
      output_bytes = 16 * 1024 * 1024,
      request_body_bytes = 16 * 1024 * 1024,
      response_body_bytes = 16 * 1024 * 1024,
      header_count = 1024,
      header_bytes = 1024 * 1024,
      http_calls = 1024,
      ai_calls = 256,
      ai_input_bytes = 1024 * 1024,
      ai_response_bytes = 1024 * 1024,
      ai_timeout = from_secs 20,
      log_events = 1024,
      log_fields = 128,
      log_value_bytes = 64 * 1024,
      log_bytes = 1024 * 1024,
      connect_timeout = from_secs 5,
      read_timeout = from_secs 10,
      http_timeout = from_secs 20,
      host_config_bytes = 1024 * 1024,
      secret_bytes = 1024 * 1024\<rparr>"

definition DEFAULT_LIMITS :: runtime_limits where
  "DEFAULT_LIMITS =
     \<lparr>component_bytes = 4 * 1024 * 1024,
      metadata_bytes = 64 * 1024,
      memory_bytes = 16 * 1024 * 1024,
      table_elements = 4096,
      instances = 16,
      tables = 8,
      memories = 1,
      wasm_stack_bytes = 512 * 1024,
      fuel = 10000000,
      deadline = from_secs 1,
      host_calls = 1024,
      output_bytes = 1024 * 1024,
      request_body_bytes = 1024 * 1024,
      response_body_bytes = 1024 * 1024,
      header_count = 128,
      header_bytes = 64 * 1024,
      http_calls = 16,
      ai_calls = 8,
      ai_input_bytes = 64 * 1024,
      ai_response_bytes = 64 * 1024,
      ai_timeout = from_millis 750,
      log_events = 128,
      log_fields = 32,
      log_value_bytes = 4 * 1024,
      log_bytes = 64 * 1024,
      connect_timeout = from_millis 250,
      read_timeout = from_millis 500,
      http_timeout = from_millis 750,
      host_config_bytes = 64 * 1024,
      secret_bytes = 64 * 1024\<rparr>"

section \<open>Narrowing\<close>

definition resource_error :: "str \<Rightarrow> runtime_error" where
  "resource_error msg = \<lparr>rte_code = ''K5103'', rte_kind = ResourceLimit, rte_message = msg\<rparr>"

definition limit_error :: "str \<Rightarrow> nat \<Rightarrow> nat \<Rightarrow> runtime_error" where
  "limit_error name requested present =
     resource_error (name @ '' limit '' @ digits_of requested @ '' cannot raise the host limit '' @ digits_of present)"

definition narrow :: "nat \<Rightarrow> nat \<Rightarrow> str \<Rightarrow> (runtime_error, nat) result" where
  "narrow present v name = (if present < v then Inl (limit_error name v present) else Inr v)"

definition narrow_nonzero :: "nat \<Rightarrow> nat \<Rightarrow> str \<Rightarrow> (runtime_error, nat) result" where
  "narrow_nonzero present v name = (if v = 0 \<or> present < v then Inl (limit_error name v present) else Inr v)"

definition narrow_duration :: "nat \<Rightarrow> nat \<Rightarrow> str \<Rightarrow> (runtime_error, nat) result" where
  "narrow_duration present v name =
     (if v = 0 \<or> present < v then Inl (limit_error name (as_millis v) (as_millis present)) else Inr v)"

text \<open>A narrowed field is stored; an error leaves the limits as they were.\<close>

definition store_limit ::
  "((nat \<Rightarrow> nat) \<Rightarrow> runtime_limits \<Rightarrow> runtime_limits) \<Rightarrow> (runtime_error, nat) result \<Rightarrow> runtime_limits \<Rightarrow>
     (runtime_error, runtime_limits) result" where
  "store_limit upd r l = (case r of Inl e \<Rightarrow> Inl e | Inr v \<Rightarrow> Inr (upd (\<lambda>_. v) l))"

definition narrow_component_bytes :: "nat \<Rightarrow> runtime_limits \<Rightarrow> (runtime_error, runtime_limits) result" where
  "narrow_component_bytes v l = store_limit component_bytes_update (narrow (component_bytes l) v ''component byte'') l"

definition narrow_metadata_bytes :: "nat \<Rightarrow> runtime_limits \<Rightarrow> (runtime_error, runtime_limits) result" where
  "narrow_metadata_bytes v l = store_limit metadata_bytes_update (narrow (metadata_bytes l) v ''metadata byte'') l"

definition narrow_memory_bytes :: "nat \<Rightarrow> runtime_limits \<Rightarrow> (runtime_error, runtime_limits) result" where
  "narrow_memory_bytes v l = store_limit memory_bytes_update (narrow (memory_bytes l) v ''memory byte'') l"

definition narrow_table_elements :: "nat \<Rightarrow> runtime_limits \<Rightarrow> (runtime_error, runtime_limits) result" where
  "narrow_table_elements v l = store_limit table_elements_update (narrow (table_elements l) v ''table element'') l"

definition narrow_instances :: "nat \<Rightarrow> runtime_limits \<Rightarrow> (runtime_error, runtime_limits) result" where
  "narrow_instances v l = store_limit instances_update (narrow (instances l) v ''instance'') l"

definition narrow_tables :: "nat \<Rightarrow> runtime_limits \<Rightarrow> (runtime_error, runtime_limits) result" where
  "narrow_tables v l = store_limit tables_update (narrow (tables l) v ''table'') l"

definition narrow_memories :: "nat \<Rightarrow> runtime_limits \<Rightarrow> (runtime_error, runtime_limits) result" where
  "narrow_memories v l = store_limit memories_update (narrow (memories l) v ''memory count'') l"

definition narrow_wasm_stack_bytes :: "nat \<Rightarrow> runtime_limits \<Rightarrow> (runtime_error, runtime_limits) result" where
  "narrow_wasm_stack_bytes v l = store_limit wasm_stack_bytes_update (narrow_nonzero (wasm_stack_bytes l) v ''Wasm stack byte'') l"

definition narrow_fuel :: "nat \<Rightarrow> runtime_limits \<Rightarrow> (runtime_error, runtime_limits) result" where
  "narrow_fuel v l = store_limit fuel_update (narrow_nonzero (fuel l) v ''fuel'') l"

definition narrow_deadline :: "nat \<Rightarrow> runtime_limits \<Rightarrow> (runtime_error, runtime_limits) result" where
  "narrow_deadline v l = store_limit deadline_update (narrow_duration (deadline l) v ''deadline'') l"

definition narrow_host_calls :: "nat \<Rightarrow> runtime_limits \<Rightarrow> (runtime_error, runtime_limits) result" where
  "narrow_host_calls v l = store_limit host_calls_update (narrow (host_calls l) v ''host-call'') l"

definition narrow_output_bytes :: "nat \<Rightarrow> runtime_limits \<Rightarrow> (runtime_error, runtime_limits) result" where
  "narrow_output_bytes v l = store_limit output_bytes_update (narrow (output_bytes l) v ''output byte'') l"

definition narrow_request_body_bytes :: "nat \<Rightarrow> runtime_limits \<Rightarrow> (runtime_error, runtime_limits) result" where
  "narrow_request_body_bytes v l = store_limit request_body_bytes_update (narrow (request_body_bytes l) v ''request body byte'') l"

definition narrow_response_body_bytes :: "nat \<Rightarrow> runtime_limits \<Rightarrow> (runtime_error, runtime_limits) result" where
  "narrow_response_body_bytes v l = store_limit response_body_bytes_update (narrow (response_body_bytes l) v ''response body byte'') l"

definition narrow_header_count :: "nat \<Rightarrow> runtime_limits \<Rightarrow> (runtime_error, runtime_limits) result" where
  "narrow_header_count v l = store_limit header_count_update (narrow (header_count l) v ''header count'') l"

definition narrow_header_bytes :: "nat \<Rightarrow> runtime_limits \<Rightarrow> (runtime_error, runtime_limits) result" where
  "narrow_header_bytes v l = store_limit header_bytes_update (narrow (header_bytes l) v ''header byte'') l"

definition narrow_http_calls :: "nat \<Rightarrow> runtime_limits \<Rightarrow> (runtime_error, runtime_limits) result" where
  "narrow_http_calls v l = store_limit http_calls_update (narrow (http_calls l) v ''HTTP call'') l"

definition narrow_ai_calls :: "nat \<Rightarrow> runtime_limits \<Rightarrow> (runtime_error, runtime_limits) result" where
  "narrow_ai_calls v l = store_limit ai_calls_update (narrow (ai_calls l) v ''AI call'') l"

definition narrow_ai_input_bytes :: "nat \<Rightarrow> runtime_limits \<Rightarrow> (runtime_error, runtime_limits) result" where
  "narrow_ai_input_bytes v l = store_limit ai_input_bytes_update (narrow (ai_input_bytes l) v ''AI input byte'') l"

definition narrow_ai_response_bytes :: "nat \<Rightarrow> runtime_limits \<Rightarrow> (runtime_error, runtime_limits) result" where
  "narrow_ai_response_bytes v l = store_limit ai_response_bytes_update (narrow (ai_response_bytes l) v ''AI response byte'') l"

definition narrow_ai_timeout :: "nat \<Rightarrow> runtime_limits \<Rightarrow> (runtime_error, runtime_limits) result" where
  "narrow_ai_timeout v l = store_limit ai_timeout_update (narrow_duration (ai_timeout l) v ''AI timeout'') l"

definition narrow_log_events :: "nat \<Rightarrow> runtime_limits \<Rightarrow> (runtime_error, runtime_limits) result" where
  "narrow_log_events v l = store_limit log_events_update (narrow (log_events l) v ''log event'') l"

definition narrow_log_fields :: "nat \<Rightarrow> runtime_limits \<Rightarrow> (runtime_error, runtime_limits) result" where
  "narrow_log_fields v l = store_limit log_fields_update (narrow (log_fields l) v ''log field'') l"

definition narrow_log_value_bytes :: "nat \<Rightarrow> runtime_limits \<Rightarrow> (runtime_error, runtime_limits) result" where
  "narrow_log_value_bytes v l = store_limit log_value_bytes_update (narrow (log_value_bytes l) v ''log value byte'') l"

definition narrow_log_bytes :: "nat \<Rightarrow> runtime_limits \<Rightarrow> (runtime_error, runtime_limits) result" where
  "narrow_log_bytes v l = store_limit log_bytes_update (narrow (log_bytes l) v ''log byte'') l"

definition narrow_connect_timeout :: "nat \<Rightarrow> runtime_limits \<Rightarrow> (runtime_error, runtime_limits) result" where
  "narrow_connect_timeout v l = store_limit connect_timeout_update (narrow_duration (connect_timeout l) v ''connect timeout'') l"

definition narrow_read_timeout :: "nat \<Rightarrow> runtime_limits \<Rightarrow> (runtime_error, runtime_limits) result" where
  "narrow_read_timeout v l = store_limit read_timeout_update (narrow_duration (read_timeout l) v ''read timeout'') l"

definition narrow_http_timeout :: "nat \<Rightarrow> runtime_limits \<Rightarrow> (runtime_error, runtime_limits) result" where
  "narrow_http_timeout v l = store_limit http_timeout_update (narrow_duration (http_timeout l) v ''HTTP timeout'') l"

definition narrow_host_config_bytes :: "nat \<Rightarrow> runtime_limits \<Rightarrow> (runtime_error, runtime_limits) result" where
  "narrow_host_config_bytes v l = store_limit host_config_bytes_update (narrow (host_config_bytes l) v ''host config byte'') l"

definition narrow_secret_bytes :: "nat \<Rightarrow> runtime_limits \<Rightarrow> (runtime_error, runtime_limits) result" where
  "narrow_secret_bytes v l = store_limit secret_bytes_update (narrow (secret_bytes l) v ''secret byte'') l"

definition validate_limits :: "runtime_limits \<Rightarrow> (runtime_error, unit) result" where
  "validate_limits l =
     (if component_bytes HARD_MAX_LIMITS < component_bytes l \<or>
       metadata_bytes HARD_MAX_LIMITS < metadata_bytes l \<or>
       memory_bytes HARD_MAX_LIMITS < memory_bytes l \<or>
       table_elements HARD_MAX_LIMITS < table_elements l \<or>
       instances HARD_MAX_LIMITS < instances l \<or>
       tables HARD_MAX_LIMITS < tables l \<or>
       memories HARD_MAX_LIMITS < memories l \<or>
       wasm_stack_bytes l = 0 \<or> wasm_stack_bytes HARD_MAX_LIMITS < wasm_stack_bytes l \<or>
       fuel l = 0 \<or> fuel HARD_MAX_LIMITS < fuel l \<or>
       deadline l = 0 \<or> deadline HARD_MAX_LIMITS < deadline l \<or>
       host_calls HARD_MAX_LIMITS < host_calls l \<or>
       output_bytes HARD_MAX_LIMITS < output_bytes l \<or>
       request_body_bytes HARD_MAX_LIMITS < request_body_bytes l \<or>
       response_body_bytes HARD_MAX_LIMITS < response_body_bytes l \<or>
       header_count HARD_MAX_LIMITS < header_count l \<or>
       header_bytes HARD_MAX_LIMITS < header_bytes l \<or>
       http_calls HARD_MAX_LIMITS < http_calls l \<or>
       ai_calls HARD_MAX_LIMITS < ai_calls l \<or>
       ai_input_bytes HARD_MAX_LIMITS < ai_input_bytes l \<or>
       ai_response_bytes HARD_MAX_LIMITS < ai_response_bytes l \<or>
       ai_timeout l = 0 \<or> ai_timeout HARD_MAX_LIMITS < ai_timeout l \<or>
       log_events HARD_MAX_LIMITS < log_events l \<or>
       log_fields HARD_MAX_LIMITS < log_fields l \<or>
       log_value_bytes HARD_MAX_LIMITS < log_value_bytes l \<or>
       log_bytes HARD_MAX_LIMITS < log_bytes l \<or>
       connect_timeout l = 0 \<or> connect_timeout HARD_MAX_LIMITS < connect_timeout l \<or>
       read_timeout l = 0 \<or> read_timeout HARD_MAX_LIMITS < read_timeout l \<or>
       http_timeout l = 0 \<or> http_timeout HARD_MAX_LIMITS < http_timeout l \<or>
       host_config_bytes HARD_MAX_LIMITS < host_config_bytes l \<or>
       secret_bytes HARD_MAX_LIMITS < secret_bytes l
      then Inl (resource_error ''runtime limits exceed host policy 1 maxima'')
      else Inr ())"

section \<open>Limits only narrow\<close>

definition limits_le :: "runtime_limits \<Rightarrow> runtime_limits \<Rightarrow> bool" where
  "limits_le l k \<longleftrightarrow>
     component_bytes l \<le> component_bytes k \<and>
     metadata_bytes l \<le> metadata_bytes k \<and>
     memory_bytes l \<le> memory_bytes k \<and>
     table_elements l \<le> table_elements k \<and>
     instances l \<le> instances k \<and>
     tables l \<le> tables k \<and>
     memories l \<le> memories k \<and>
     wasm_stack_bytes l \<le> wasm_stack_bytes k \<and>
     fuel l \<le> fuel k \<and>
     deadline l \<le> deadline k \<and>
     host_calls l \<le> host_calls k \<and>
     output_bytes l \<le> output_bytes k \<and>
     request_body_bytes l \<le> request_body_bytes k \<and>
     response_body_bytes l \<le> response_body_bytes k \<and>
     header_count l \<le> header_count k \<and>
     header_bytes l \<le> header_bytes k \<and>
     http_calls l \<le> http_calls k \<and>
     ai_calls l \<le> ai_calls k \<and>
     ai_input_bytes l \<le> ai_input_bytes k \<and>
     ai_response_bytes l \<le> ai_response_bytes k \<and>
     ai_timeout l \<le> ai_timeout k \<and>
     log_events l \<le> log_events k \<and>
     log_fields l \<le> log_fields k \<and>
     log_value_bytes l \<le> log_value_bytes k \<and>
     log_bytes l \<le> log_bytes k \<and>
     connect_timeout l \<le> connect_timeout k \<and>
     read_timeout l \<le> read_timeout k \<and>
     http_timeout l \<le> http_timeout k \<and>
     host_config_bytes l \<le> host_config_bytes k \<and>
     secret_bytes l \<le> secret_bytes k"

definition narrowings :: "(nat \<Rightarrow> runtime_limits \<Rightarrow> (runtime_error, runtime_limits) result) list" where
  "narrowings =
     [narrow_component_bytes,
      narrow_metadata_bytes,
      narrow_memory_bytes,
      narrow_table_elements,
      narrow_instances,
      narrow_tables,
      narrow_memories,
      narrow_wasm_stack_bytes,
      narrow_fuel,
      narrow_deadline,
      narrow_host_calls,
      narrow_output_bytes,
      narrow_request_body_bytes,
      narrow_response_body_bytes,
      narrow_header_count,
      narrow_header_bytes,
      narrow_http_calls,
      narrow_ai_calls,
      narrow_ai_input_bytes,
      narrow_ai_response_bytes,
      narrow_ai_timeout,
      narrow_log_events,
      narrow_log_fields,
      narrow_log_value_bytes,
      narrow_log_bytes,
      narrow_connect_timeout,
      narrow_read_timeout,
      narrow_http_timeout,
      narrow_host_config_bytes,
      narrow_secret_bytes]"

inductive configured :: "runtime_limits \<Rightarrow> runtime_limits \<Rightarrow> bool" for start where
  unchanged: "configured start start"
| narrowed: "configured start l \<Longrightarrow> op \<in> set narrowings \<Longrightarrow> op v l = Inr l' \<Longrightarrow> configured start l'"

lemmas narrow_operations =
  narrow_component_bytes_def
  narrow_metadata_bytes_def
  narrow_memory_bytes_def
  narrow_table_elements_def
  narrow_instances_def
  narrow_tables_def
  narrow_memories_def
  narrow_wasm_stack_bytes_def
  narrow_fuel_def
  narrow_deadline_def
  narrow_host_calls_def
  narrow_output_bytes_def
  narrow_request_body_bytes_def
  narrow_response_body_bytes_def
  narrow_header_count_def
  narrow_header_bytes_def
  narrow_http_calls_def
  narrow_ai_calls_def
  narrow_ai_input_bytes_def
  narrow_ai_response_bytes_def
  narrow_ai_timeout_def
  narrow_log_events_def
  narrow_log_fields_def
  narrow_log_value_bytes_def
  narrow_log_bytes_def
  narrow_connect_timeout_def
  narrow_read_timeout_def
  narrow_http_timeout_def
  narrow_host_config_bytes_def
  narrow_secret_bytes_def

lemma store_limit_Inr:
  "store_limit upd r l = Inr l' \<longleftrightarrow> (\<exists>v. r = Inr v \<and> l' = upd (\<lambda>_. v) l)"
  by (auto simp: store_limit_def split: sum.splits)

lemma narrow_Inr:
  "narrow p v name = Inr w \<longleftrightarrow> w = v \<and> v \<le> p"
  "narrow_nonzero p v name = Inr w \<longleftrightarrow> w = v \<and> 0 < v \<and> v \<le> p"
  "narrow_duration p v name = Inr w \<longleftrightarrow> w = v \<and> 0 < v \<and> v \<le> p"
  by (auto simp: narrow_def narrow_nonzero_def narrow_duration_def)

lemma narrowings_narrow:
  "list_all (\<lambda>op. \<forall>v l l'. op v l = Inr l' \<longrightarrow> limits_le l' l) narrowings"
  unfolding narrowings_def list.pred_inject
  by (simp add: narrow_operations store_limit_Inr narrow_Inr limits_le_def)

lemma narrowings_keep_valid:
  "list_all (\<lambda>op. \<forall>v l l'. op v l = Inr l' \<longrightarrow> validate_limits l = Inr () \<longrightarrow> validate_limits l' = Inr ()) narrowings"
  unfolding narrowings_def list.pred_inject
  by (simp add: narrow_operations store_limit_Inr narrow_Inr validate_limits_def) 

lemma limits_le_refl [simp]: "limits_le l l"
  by (simp add: limits_le_def)

lemma limits_le_trans: "limits_le a b \<Longrightarrow> limits_le b c \<Longrightarrow> limits_le a c"
  unfolding limits_le_def by (elim conjE) (intro conjI; rule order_trans)

text \<open>An operation that fails reports the limit it refused to raise, or the zero it refused to store.\<close>

lemma narrow_fuel_cases:
  "narrow_fuel v l =
     (if 0 < v \<and> v \<le> fuel l then Inr (l\<lparr>fuel := v\<rparr>)
      else Inl (resource_error (''fuel limit '' @ digits_of v @ '' cannot raise the host limit '' @ digits_of (fuel l))))"
  by (auto simp: narrow_fuel_def narrow_nonzero_def store_limit_def limit_error_def)

lemma default_limits_valid: "validate_limits DEFAULT_LIMITS = Inr ()"
  by (simp add: validate_limits_def DEFAULT_LIMITS_def HARD_MAX_LIMITS_def from_secs_def from_millis_def)

text \<open>
  C14: whatever sequence of narrowing operations a configuration applies to limits the host policy accepts, with any
  values, the limits it ends with are accepted too and no limit of a run is above the one it started from.
\<close>

theorem configured_limits_valid:
  assumes "configured start l" and "validate_limits start = Inr ()"
  shows "validate_limits l = Inr () \<and> limits_le l start"
  using assms
proof induction
  case unchanged
  then show ?case
    by simp
next
  case (narrowed l op v l')
  then have "limits_le l' l" and "validate_limits l' = Inr ()"
    using narrowings_narrow narrowings_keep_valid by (auto simp: list_all_iff)
  then show ?case
    using narrowed limits_le_trans by blast
qed

theorem configured_limits_valid_witness:
  "validate_limits (DEFAULT_LIMITS\<lparr>fuel := 5\<rparr>) = Inr () \<and> limits_le (DEFAULT_LIMITS\<lparr>fuel := 5\<rparr>) DEFAULT_LIMITS"
proof (rule configured_limits_valid)
  have "narrow_fuel 5 DEFAULT_LIMITS = Inr (DEFAULT_LIMITS\<lparr>fuel := 5\<rparr>)"
    by (simp add: narrow_fuel_cases DEFAULT_LIMITS_def)
  then show "configured DEFAULT_LIMITS (DEFAULT_LIMITS\<lparr>fuel := 5\<rparr>)"
    by (rule configured.narrowed [OF configured.unchanged, rotated]) (simp add: narrowings_def)
qed (rule default_limits_valid)

end
