(* ===== verification/Webhook.thy ===== *)
theory Webhook
  imports Request_Target Runtime_Limits
begin

text \<open>
  Requests and responses at the boundary of a webhook (\<open>krit-runtime/src/webhook.rs\<close>): the checks that every request
  and every response passes before the guest or the network sees it.
\<close>

section \<open>Messages\<close>

record http_header =
  hh_name :: str
  hh_value :: str

record http_request =
  rq_method :: str
  rq_path :: str
  rq_query :: str
  rq_headers :: "http_header list"
  rq_body :: str

record http_response =
  rs_status :: int
  rs_headers :: "http_header list"
  rs_body :: str

text \<open>
  What the sources use of the \<open>http\<close> crate: the method of a token, the normalised name of a header, and whether a
  header value is accepted.
\<close>

record http_crate =
  method_from_bytes :: "str \<Rightarrow> str option"
  header_name_from_bytes :: "str \<Rightarrow> str option"
  header_value_accepted :: "str \<Rightarrow> bool"

definition guest_error :: "str \<Rightarrow> str \<Rightarrow> runtime_error" where
  "guest_error c msg =
     \<lparr>rte_code = c,
      rte_kind = (if c = ''K4004'' then DivisionByZero else if c = ''K4005'' then IntegerOverflow
                  else if c = ''K4009'' then InvalidJson else GuestTrap),
      rte_message = msg\<rparr>"

section \<open>Checks\<close>

definition forbidden_headers :: "str list" where
  "forbidden_headers =
     [''authorization'', ''connection'', ''content-length'', ''host'', ''keep-alive'', ''proxy-authenticate'',
      ''proxy-authorization'', ''proxy-connection'', ''te'', ''trailer'', ''transfer-encoding'', ''upgrade'']"

definition forbidden_header :: "str \<Rightarrow> bool" where
  "forbidden_header name \<longleftrightarrow> name \<in> set forbidden_headers"

fun check_headers :: "http_crate \<Rightarrow> runtime_limits \<Rightarrow> nat \<Rightarrow> http_header list \<Rightarrow> (runtime_error, unit) result" where
  "check_headers http limits bytes [] = Inr ()"
| "check_headers http limits bytes (h # hs) =
     (case header_name_from_bytes http (hh_name h) of
        None \<Rightarrow> Inl (guest_error ''K4001'' ''HTTP header name is invalid'')
      | Some name \<Rightarrow>
          if \<not> header_value_accepted http (hh_value h) then Inl (guest_error ''K4001'' ''HTTP header value is invalid'')
          else if forbidden_header name then
            Inl (guest_error ''K4001'' (''HTTP header '' @ backquoted name @ '' is not permitted''))
          else
            (case Option.bind (checked_add_u64 bytes (length (hh_name h))) (\<lambda>n. checked_add_u64 n (length (hh_value h))) of
               None \<Rightarrow> Inl (resource_error ''HTTP header byte count overflowed'')
             | Some counted \<Rightarrow>
                 if header_bytes limits < counted then
                   Inl (resource_error (''HTTP headers exceed the '' @ digits_of (header_bytes limits) @ ''-byte limit''))
                 else check_headers http limits counted hs))"

definition validate_headers :: "http_crate \<Rightarrow> runtime_limits \<Rightarrow> http_header list \<Rightarrow> (runtime_error, unit) result" where
  "validate_headers http limits hs =
     (if header_count limits < length hs then
        Inl (resource_error (''HTTP header count exceeds the '' @ digits_of (header_count limits) @ ''-header limit''))
      else check_headers http limits 0 hs)"

definition TRAVERSAL_MESSAGE :: str where
  "TRAVERSAL_MESSAGE =
     ''HTTP request path must not contain a dot segment, a percent-encoded '' @ backquoted ''.'' @ '', '' @
     backquoted ''/'' @ '', '' @ backquoted [CHR 0x5C] @
     '', or control byte, a double-encoded or overlong UTF-8 escape, or a malformed percent escape''"

definition validate_path_query :: "str \<Rightarrow> str \<Rightarrow> (runtime_error, unit) result" where
  "validate_path_query path query =
     (if \<not> has_origin_form_shape path then
        Inl (guest_error ''K4001'' ''HTTP request path must be a safe origin-form absolute path'')
      else if has_traversal_form path then Inl (guest_error ''K4001'' TRAVERSAL_MESSAGE)
      else if \<not> is_valid_query query then
        Inl (guest_error ''K4001''
          (''HTTP request query must not contain a leading '' @ backquoted ''?'' @
           '', fragment, control byte, space, or backslash''))
      else Inr ())"

definition validate_request :: "http_crate \<Rightarrow> runtime_limits \<Rightarrow> http_request \<Rightarrow> (runtime_error, unit) result" where
  "validate_request http limits rq =
     (case method_from_bytes http (rq_method rq) of
        None \<Rightarrow> Inl (guest_error ''K4001'' ''HTTP request method is not a valid token'')
      | Some name \<Rightarrow>
          if name = ''CONNECT'' then Inl (guest_error ''K4001'' ''HTTP CONNECT is not permitted'')
          else
            (case validate_path_query (rq_path rq) (rq_query rq) of
               Inl e \<Rightarrow> Inl e
             | Inr _ \<Rightarrow>
                 (case validate_headers http limits (rq_headers rq) of
                    Inl e \<Rightarrow> Inl e
                  | Inr _ \<Rightarrow>
                      if request_body_bytes limits < length (rq_body rq) then
                        Inl (resource_error
                          (''HTTP request body exceeds the '' @ digits_of (request_body_bytes limits) @ ''-byte limit''))
                      else Inr ())))"

definition validate_response :: "http_crate \<Rightarrow> runtime_limits \<Rightarrow> http_response \<Rightarrow> (runtime_error, unit) result" where
  "validate_response http limits rs =
     (if \<not> (100 \<le> rs_status rs \<and> rs_status rs \<le> 599) then
        Inl (guest_error ''K4001'' ''HTTP response status must be in 100..=599'')
      else
        (case validate_headers http limits (rs_headers rs) of
           Inl e \<Rightarrow> Inl e
         | Inr _ \<Rightarrow>
             if response_body_bytes limits < length (rs_body rs) then
               Inl (resource_error
                 (''HTTP response body exceeds the '' @ digits_of (response_body_bytes limits) @ ''-byte limit''))
             else Inr ()))"

section \<open>What the checks decide\<close>

definition headers_bytes :: "http_header list \<Rightarrow> nat" where
  "headers_bytes hs = (\<Sum>h \<leftarrow> hs. length (hh_name h) + length (hh_value h))"

definition header_allowed :: "http_crate \<Rightarrow> http_header \<Rightarrow> bool" where
  "header_allowed http h \<longleftrightarrow>
     header_value_accepted http (hh_value h) \<and>
     (\<exists>name. header_name_from_bytes http (hh_name h) = Some name \<and> \<not> forbidden_header name)"

lemma check_headers_ok:
  assumes "header_bytes limits \<le> u64_max"
  shows "check_headers http limits bytes hs = Inr () \<longleftrightarrow>
     list_all (header_allowed http) hs \<and> (hs = [] \<or> bytes + headers_bytes hs \<le> header_bytes limits)"
proof (induction hs arbitrary: bytes)
  case (Cons h hs)
  let ?total = "bytes + length (hh_name h) + length (hh_value h)"
  have sum: "Option.bind (checked_add_u64 bytes (length (hh_name h))) (\<lambda>n. checked_add_u64 n (length (hh_value h))) =
      (if ?total \<le> u64_max then Some ?total else None)"
    by (auto simp: checked_add_u64_def)
  show ?case
  proof (cases "header_name_from_bytes http (hh_name h)")
    case None
    then show ?thesis by (simp add: header_allowed_def)
  next
    case (Some name)
    then show ?thesis
      using assms Cons.IH [of ?total] by (auto simp: sum header_allowed_def headers_bytes_def)
  qed
qed simp

lemma validate_headers_ok:
  assumes "header_bytes limits \<le> u64_max"
  shows "validate_headers http limits hs = Inr () \<longleftrightarrow>
     length hs \<le> header_count limits \<and> list_all (header_allowed http) hs \<and> headers_bytes hs \<le> header_bytes limits"
  using check_headers_ok [OF assms, of http 0 hs] by (auto simp: validate_headers_def headers_bytes_def)

lemma validate_path_query_ok:
  "validate_path_query path query = Inr () \<longleftrightarrow> is_origin_form_path path \<and> is_valid_query query"
  by (simp add: validate_path_query_def is_origin_form_path_def)

text \<open>
  A request is accepted exactly when its method is a token other than \<open>CONNECT\<close>, its target passes the host's rules,
  no header is one the host sets itself, and headers and body are within the limits.
\<close>

lemma validate_request_ok:
  assumes "header_bytes limits \<le> u64_max"
  shows "validate_request http limits rq = Inr () \<longleftrightarrow>
     (\<exists>name. method_from_bytes http (rq_method rq) = Some name \<and> name \<noteq> ''CONNECT'') \<and>
     is_origin_form_path (rq_path rq) \<and> is_valid_query (rq_query rq) \<and>
     length (rq_headers rq) \<le> header_count limits \<and> list_all (header_allowed http) (rq_headers rq) \<and>
     headers_bytes (rq_headers rq) \<le> header_bytes limits \<and> length (rq_body rq) \<le> request_body_bytes limits"
  using validate_path_query_ok [of "rq_path rq" "rq_query rq"] validate_headers_ok [OF assms, of http "rq_headers rq"]
  by (auto simp: validate_request_def split: option.splits sum.splits)

end
