(* ===== verification/Host_Policy.thy ===== *)
theory Host_Policy
  imports Webhook "HOL-Library.Product_Lexorder"
begin

text \<open>
  The policy of an agent host (\<open>krit-runtime/src/policy.rs\<close>): approvals, retries, rate limits and idempotent webhook
  requests.  An \<open>Instant\<close> and a \<open>Duration\<close> are numbers of nanoseconds.  The instants an operation reads from the clock
  are its arguments.  A mutex is \<open>None\<close> when it is poisoned.
\<close>

section \<open>Bounds\<close>

definition MAX_POLICY_RESOURCES :: nat where "MAX_POLICY_RESOURCES = 256"
definition MAX_RETRY_ATTEMPTS :: nat where "MAX_RETRY_ATTEMPTS = 4"
definition MAX_RETRY_DELAY :: nat where "MAX_RETRY_DELAY = from_secs 2"
definition MAX_RATE_CAPACITY :: nat where "MAX_RATE_CAPACITY = 10000"
definition MAX_RATE_WINDOW :: nat where "MAX_RATE_WINDOW = from_secs (60 * 60)"
definition MAX_IDEMPOTENCY_ENTRIES :: nat where "MAX_IDEMPOTENCY_ENTRIES = 1024"
definition MAX_IDEMPOTENCY_BYTES :: nat where "MAX_IDEMPOTENCY_BYTES = 64 * 1024 * 1024"
definition MAX_IDEMPOTENCY_TTL :: nat where "MAX_IDEMPOTENCY_TTL = from_secs (60 * 60)"
definition MAX_IDEMPOTENCY_KEY_BYTES :: nat where "MAX_IDEMPOTENCY_KEY_BYTES = 128"

definition setup_error :: "str \<Rightarrow> runtime_error" where
  "setup_error msg = \<lparr>rte_code = ''K7003'', rte_kind = RuntimeSetup, rte_message = msg\<rparr>"

definition durable_idempotency_error :: "str \<Rightarrow> runtime_error" where
  "durable_idempotency_error msg = \<lparr>rte_code = ''K5204'', rte_kind = DurableIdempotency, rte_message = msg\<rparr>"

definition with_cleanup_failure :: "runtime_error \<Rightarrow> runtime_error \<Rightarrow> runtime_error" where
  "with_cleanup_failure e cleanup =
     e\<lparr>rte_message := rte_message e @ ''; durable reservation cleanup also failed: '' @ rte_message cleanup\<rparr>"

section \<open>Approvals\<close>

datatype approval_operation = AiInvoke | HttpBearer

definition approval_as_str :: "approval_operation \<Rightarrow> str" where
  "approval_as_str a = (case a of AiInvoke \<Rightarrow> ''ai.invoke'' | HttpBearer \<Rightarrow> ''http.bearer'')"

type_synonym approval_policy = "approval_operation \<Rightarrow> str \<Rightarrow> bool"

definition deny_all :: approval_policy where
  "deny_all operation resource = False"

fun insert_approvals ::
  "(str \<Rightarrow> parsed_url option) \<Rightarrow> (approval_operation \<times> str) list \<Rightarrow> (approval_operation \<times> str) set \<Rightarrow>
     (runtime_error, (approval_operation \<times> str) set) result" where
  "insert_approvals url_parse [] approved = Inr approved"
| "insert_approvals url_parse ((operation, resource) # entries) approved =
     (let valid = (case operation of
                     AiInvoke \<Rightarrow> is_valid_resource_name resource
                   | HttpBearer \<Rightarrow> (case parse_exact url_parse resource of Inr _ \<Rightarrow> True | Inl _ \<Rightarrow> False)) in
      if \<not> valid then
        Inl (setup_error (''invalid approval resource '' @ backquoted resource @ '' for '' @ backquoted (approval_as_str operation)))
      else if (operation, resource) \<in> approved then
        Inl (setup_error (''duplicate approval entry for '' @ backquoted (approval_as_str operation) @ '' resource '' @ backquoted resource))
      else insert_approvals url_parse entries (insert (operation, resource) approved))"

definition explicit_approvals ::
  "(str \<Rightarrow> parsed_url option) \<Rightarrow> (approval_operation \<times> str) list \<Rightarrow> (runtime_error, (approval_operation \<times> str) set) result" where
  "explicit_approvals url_parse entries =
     (case insert_approvals url_parse entries {} of
        Inl e \<Rightarrow> Inl e
      | Inr approved \<Rightarrow>
          if MAX_POLICY_RESOURCES < card approved then
            Inl (resource_error (''approval entries exceed the '' @ digits_of MAX_POLICY_RESOURCES @ ''-entry limit''))
          else Inr approved)"

definition explicit_approve :: "(approval_operation \<times> str) set \<Rightarrow> approval_policy" where
  "explicit_approve approved operation resource \<longleftrightarrow> (operation, resource) \<in> approved"

section \<open>Policies\<close>

record retry_policy =
  max_attempts :: nat
  base_delay :: nat
  max_delay :: nat

definition retry_default :: retry_policy where
  "retry_default = \<lparr>max_attempts = 1, base_delay = from_millis 25, max_delay = from_millis 200\<rparr>"

definition retry_validate :: "retry_policy \<Rightarrow> runtime_error option" where
  "retry_validate r =
     (if \<not> (1 \<le> max_attempts r \<and> max_attempts r \<le> MAX_RETRY_ATTEMPTS) \<or> max_delay r < base_delay r \<or> MAX_RETRY_DELAY < max_delay r
      then Some (setup_error
        (''retry policy must use 1..='' @ digits_of MAX_RETRY_ATTEMPTS @ '' attempts and delays no greater than '' @
         digits_of (as_millis MAX_RETRY_DELAY) @ '' ms''))
      else None)"

text \<open>\<open>Duration::MAX\<close> in nanoseconds, and \<open>u32::MAX\<close>.\<close>

definition DURATION_MAX :: nat where "DURATION_MAX = 2 ^ 64 * 10 ^ 9 - 1"
definition U32_MAX :: nat where "U32_MAX = 2 ^ 32 - 1"

definition retry_delay :: "retry_policy \<Rightarrow> nat \<Rightarrow> nat" where
  "retry_delay r completed_attempts =
     (let exponent = completed_attempts - 1 in
      min (min (base_delay r * min (2 ^ exponent) U32_MAX) DURATION_MAX) (max_delay r))"

record rate_limit_policy =
  rate_capacity :: nat
  rate_window :: nat

definition rate_validate :: "rate_limit_policy \<Rightarrow> runtime_error option" where
  "rate_validate r =
     (if rate_capacity r = 0 \<or> MAX_RATE_CAPACITY < rate_capacity r \<or> rate_window r < from_millis 1 \<or> MAX_RATE_WINDOW < rate_window r
      then Some (setup_error
        (''rate policy must use capacity 1..='' @ digits_of MAX_RATE_CAPACITY @ '' and a 1..='' @
         digits_of (as_millis MAX_RATE_WINDOW) @ '' ms window''))
      else None)"

record idempotency_policy =
  ip_max_entries :: nat
  ip_max_bytes :: nat
  ip_ttl :: nat
  ip_max_key_bytes :: nat

definition idempotency_default :: idempotency_policy where
  "idempotency_default =
     \<lparr>ip_max_entries = 128, ip_max_bytes = 16 * 1024 * 1024, ip_ttl = from_secs (5 * 60),
      ip_max_key_bytes = MAX_IDEMPOTENCY_KEY_BYTES\<rparr>"

definition idempotency_validate :: "idempotency_policy \<Rightarrow> runtime_error option" where
  "idempotency_validate i =
     (if MAX_IDEMPOTENCY_ENTRIES < ip_max_entries i \<or> MAX_IDEMPOTENCY_BYTES < ip_max_bytes i \<or> ip_ttl i = 0 \<or>
        MAX_IDEMPOTENCY_TTL < ip_ttl i \<or> ip_max_key_bytes i = 0 \<or> MAX_IDEMPOTENCY_KEY_BYTES < ip_max_key_bytes i
      then Some (setup_error ''idempotency policy exceeds host hard maxima'')
      else None)"

record http_json_adapter =
  ad_origin :: str
  ad_path :: str
  ad_model :: str
  ad_secret :: "str option"
  ad_max_input_bytes :: nat
  ad_max_response_bytes :: nat
  ad_timeout :: nat

datatype ai_adapter_config = HttpJson http_json_adapter

record agent_host_policy =
  hp_ai_adapters :: "(str, ai_adapter_config) omap"
  hp_default_http_retry :: retry_policy
  hp_default_ai_retry :: retry_policy
  hp_http_retries :: "(str, retry_policy) omap"
  hp_ai_retries :: "(str, retry_policy) omap"
  hp_default_http_rate :: rate_limit_policy
  hp_default_ai_rate :: rate_limit_policy
  hp_http_rates :: "(str, rate_limit_policy) omap"
  hp_ai_rates :: "(str, rate_limit_policy) omap"
  hp_max_tracked_resources :: nat
  hp_idempotency :: idempotency_policy

definition host_policy_default :: agent_host_policy where
  "host_policy_default =
     \<lparr>hp_ai_adapters = [], hp_default_http_retry = retry_default, hp_default_ai_retry = retry_default,
      hp_http_retries = [], hp_ai_retries = [],
      hp_default_http_rate = \<lparr>rate_capacity = 64, rate_window = from_secs 60\<rparr>,
      hp_default_ai_rate = \<lparr>rate_capacity = 16, rate_window = from_secs 60\<rparr>,
      hp_http_rates = [], hp_ai_rates = [], hp_max_tracked_resources = 128, hp_idempotency = idempotency_default\<rparr>"

fun first_error :: "runtime_error option list \<Rightarrow> runtime_error option" where
  "first_error [] = None"
| "first_error (None # cs) = first_error cs"
| "first_error (Some e # cs) = Some e"

definition setup_if :: "bool \<Rightarrow> str \<Rightarrow> runtime_error option" where
  "setup_if wrong msg = (if wrong then Some (setup_error msg) else None)"

definition validate_http_json_adapter :: "(str \<Rightarrow> parsed_url option) \<Rightarrow> str \<Rightarrow> http_json_adapter \<Rightarrow> runtime_error option" where
  "validate_http_json_adapter url_parse name a =
     (let adapter = ''AI adapter '' @ backquoted name in
      first_error
        [(case parse_exact url_parse (ad_origin a) of
            Inl e \<Rightarrow> Some (setup_error (adapter @ '' has invalid origin: '' @ origin_error_message e))
          | Inr _ \<Rightarrow> None),
         setup_if (\<not> is_origin_form_path (ad_path a)) (adapter @ '' has an invalid relative path''),
         setup_if (ad_model a = [] \<or> 128 < length (ad_model a) \<or> \<not> list_all (\<lambda>b. u8 b < 0x80) (ad_model a) \<or>
             list_ex is_ascii_control (ad_model a))
           (adapter @ '' has an invalid model identifier''),
         setup_if (case ad_secret a of None \<Rightarrow> False | Some secret \<Rightarrow> \<not> is_valid_resource_name secret)
           (adapter @ '' has an invalid secret name''),
         setup_if (ad_max_input_bytes a = 0 \<or> ai_input_bytes HARD_MAX_LIMITS < ad_max_input_bytes a \<or>
             ad_max_response_bytes a = 0 \<or> ai_response_bytes HARD_MAX_LIMITS < ad_max_response_bytes a \<or>
             ad_timeout a = 0 \<or> ai_timeout HARD_MAX_LIMITS < ad_timeout a)
           (adapter @ '' exceeds hard input, response, or timeout bounds'')])"

definition validate_policy :: "(str \<Rightarrow> parsed_url option) \<Rightarrow> agent_host_policy \<Rightarrow> runtime_error option" where
  "validate_policy url_parse p =
     first_error
       (map (\<lambda>count. if MAX_POLICY_RESOURCES < count
                     then Some (resource_error (''host policy map exceeds the '' @ digits_of MAX_POLICY_RESOURCES @ ''-entry limit''))
                     else None)
          [length (hp_ai_adapters p), length (hp_http_retries p), length (hp_ai_retries p), length (hp_http_rates p),
           length (hp_ai_rates p)] @
        [retry_validate (hp_default_http_retry p), retry_validate (hp_default_ai_retry p)] @
        map (retry_validate \<circ> snd) (hp_http_retries p @ hp_ai_retries p) @
        [rate_validate (hp_default_http_rate p), rate_validate (hp_default_ai_rate p)] @
        map (rate_validate \<circ> snd) (hp_http_rates p @ hp_ai_rates p) @
        [idempotency_validate (hp_idempotency p),
         setup_if (hp_max_tracked_resources p = 0 \<or> MAX_POLICY_RESOURCES < hp_max_tracked_resources p)
           (''max tracked rate resources must be 1..='' @ digits_of MAX_POLICY_RESOURCES)] @
        map (\<lambda>origin. case parse_exact url_parse origin of
               Inl e \<Rightarrow> Some (setup_error (''invalid HTTP policy origin '' @ backquoted origin @ '': '' @ origin_error_message e))
             | Inr _ \<Rightarrow> None)
          (map fst (hp_http_retries p) @ map fst (hp_http_rates p)) @
        map (\<lambda>adapter. setup_if (\<not> is_valid_resource_name adapter \<or> om_get (hp_ai_adapters p) adapter = None)
               (''AI policy references unknown adapter '' @ backquoted adapter))
          (map fst (hp_ai_retries p) @ map fst (hp_ai_rates p)) @
        map (\<lambda>(name, config). case config of HttpJson a \<Rightarrow>
               first_error
                 [setup_if (\<not> is_valid_resource_name name) (''invalid AI adapter name '' @ backquoted name),
                  validate_http_json_adapter url_parse name a])
          (hp_ai_adapters p))"

definition validate_for_limits :: "agent_host_policy \<Rightarrow> runtime_limits \<Rightarrow> runtime_error option" where
  "validate_for_limits p limits =
     first_error
       (map (\<lambda>(name, config). case config of HttpJson a \<Rightarrow>
               if ai_input_bytes limits < ad_max_input_bytes a \<or> ai_response_bytes limits < ad_max_response_bytes a \<or>
                  ai_timeout limits < ad_timeout a
               then Some (resource_error (''AI adapter '' @ backquoted name @ '' exceeds selected runtime limits''))
               else None)
          (hp_ai_adapters p))"

section \<open>Rate limits\<close>

datatype rate_resource = is_RateAi: RateAi (rate_name: str) | RateHttp (rate_name: str)

text \<open>The derived order: AI adapters before origins, then by name.\<close>

instantiation rate_resource :: linorder
begin

definition less_eq_rate_resource :: "rate_resource \<Rightarrow> rate_resource \<Rightarrow> bool" where
  "less_eq_rate_resource a b \<longleftrightarrow> (\<not> is_RateAi a, rate_name a) \<le> (\<not> is_RateAi b, rate_name b)"

definition less_rate_resource :: "rate_resource \<Rightarrow> rate_resource \<Rightarrow> bool" where
  "less_rate_resource a b \<longleftrightarrow> (\<not> is_RateAi a, rate_name a) < (\<not> is_RateAi b, rate_name b)"

instance
  by standard (auto simp: less_eq_rate_resource_def less_rate_resource_def rate_resource.expand less_le_not_le)

end

record rate_entry =
  re_window_started :: nat
  re_count :: nat
  re_last_used :: nat

record rate_state =
  rt_entries :: "(rate_resource, rate_entry) omap"
  rt_sequence :: nat

definition rate_state_default :: rate_state where
  "rate_state_default = \<lparr>rt_entries = [], rt_sequence = 0\<rparr>"

text \<open>\<open>min_by_key\<close>: the first key with the least value.\<close>

fun min_key :: "('v \<Rightarrow> nat) \<Rightarrow> ('k, 'v) omap \<Rightarrow> 'k option" where
  "min_key f [] = None"
| "min_key f ((k, v) # m) =
     (case min_key f m of
        None \<Rightarrow> Some k
      | Some k' \<Rightarrow> (case map_of m k' of Some v' \<Rightarrow> Some (if f v \<le> f v' then k else k') | None \<Rightarrow> Some k))"

text \<open>The entry of a resource is made when it is missing, after the least recently used one has gone.\<close>

definition track_resource :: "nat \<Rightarrow> rate_resource \<Rightarrow> nat \<Rightarrow> rate_state \<Rightarrow> (str, rate_state) result" where
  "track_resource max_tracked resource inserted st =
     (if om_get (rt_entries st) resource \<noteq> None then Inr st
      else
        (let fresh = \<lparr>re_window_started = inserted, re_count = 0, re_last_used = rt_sequence st\<rparr>;
             insert_fresh = (\<lambda>es. st\<lparr>rt_entries := om_insert resource fresh es\<rparr>) in
         if max_tracked \<le> length (rt_entries st) then
           (case min_key re_last_used (rt_entries st) of
              None \<Rightarrow> Inl ''rate policy resource tracking is disabled''
            | Some evicted \<Rightarrow> Inr (insert_fresh (om_remove evicted (rt_entries st))))
         else Inr (insert_fresh (rt_entries st))))"

text \<open>
  Charging one attempt.  The result is \<open>None\<close> where the source would panic, for a resource that is not tracked.  The
  state is returned with every outcome: an attempt that is refused has moved the window and the stamp of its entry.
\<close>

definition charge_resource ::
  "rate_limit_policy \<Rightarrow> str \<Rightarrow> rate_resource \<Rightarrow> nat \<Rightarrow> rate_state \<Rightarrow> rate_state \<times> (str, unit) result option" where
  "charge_resource policy label resource now st =
     (case om_get (rt_entries st) resource of
        None \<Rightarrow> (st, None)
      | Some e \<Rightarrow>
          let e1 = (if rate_window policy \<le> now - re_window_started e then e\<lparr>re_window_started := now, re_count := 0\<rparr> else e);
              e2 = e1\<lparr>re_last_used := rt_sequence st\<rparr> in
          if rate_capacity policy \<le> re_count e2
          then (st\<lparr>rt_entries := om_update resource e2 (rt_entries st)\<rparr>,
                Some (Inl (''rate limit exceeded for '' @ backquoted label)))
          else (st\<lparr>rt_entries := om_update resource (e2\<lparr>re_count := re_count e2 + 1\<rparr>) (rt_entries st)\<rparr>, Some (Inr ())))"

definition check_rate_state ::
  "nat \<Rightarrow> rate_resource \<Rightarrow> rate_limit_policy \<Rightarrow> str \<Rightarrow> nat \<Rightarrow> nat \<Rightarrow> rate_state \<Rightarrow> rate_state \<times> (str, unit) result option" where
  "check_rate_state max_tracked resource policy label inserted now st =
     (let st1 = st\<lparr>rt_sequence := sat_add (rt_sequence st) 1\<rparr> in
      case track_resource max_tracked resource inserted st1 of
        Inl msg \<Rightarrow> (st1, Some (Inl msg))
      | Inr st2 \<Rightarrow> charge_resource policy label resource now st2)"

section \<open>Requests and their digests\<close>

text \<open>\<open>to_le_bytes\<close> of a \<open>u64\<close>, and \<open>str::to_ascii_lowercase\<close>.\<close>

definition to_le_bytes :: "nat \<Rightarrow> str" where
  "to_le_bytes n = map (\<lambda>i. char_of (n div 256 ^ i mod 256)) [0..<8]"

definition ascii_lower :: "char \<Rightarrow> char" where
  "ascii_lower b = (if is_ascii_uppercase b then char_of (of_char b + 32 :: nat) else b)"

definition to_ascii_lowercase :: "str \<Rightarrow> str" where
  "to_ascii_lowercase s = map ascii_lower s"

definition hash_part :: "str \<Rightarrow> str" where
  "hash_part bytes = to_le_bytes (length bytes mod 2 ^ 64) @ bytes"

text \<open>The bytes given to the hasher; \<open>blake3\<close> is a parameter where a digest is taken.\<close>

definition hashed_headers :: "bool \<Rightarrow> http_header list \<Rightarrow> (str \<times> str) list" where
  "hashed_headers omit_key hs =
     filter (\<lambda>(name, _). \<not> (omit_key \<and> name = ''idempotency-key''))
       (map (\<lambda>h. (to_ascii_lowercase (hh_name h), hh_value h)) hs)"

definition request_bytes :: "bool \<Rightarrow> http_request \<Rightarrow> str" where
  "request_bytes omit_key rq =
     hash_part (rq_method rq) @ hash_part (rq_path rq) @ hash_part (rq_query rq) @
     concat (map (\<lambda>(name, v). hash_part name @ hash_part v) (hashed_headers omit_key (rq_headers rq))) @
     hash_part (rq_body rq)"

definition request_digest :: "(str \<Rightarrow> str) \<Rightarrow> http_request \<Rightarrow> str" where
  "request_digest blake3 rq = blake3 (request_bytes True rq)"

definition exact_request_digest :: "(str \<Rightarrow> str) \<Rightarrow> http_request \<Rightarrow> str" where
  "exact_request_digest blake3 rq = blake3 (request_bytes False rq)"

definition artifact_identity :: "(str \<Rightarrow> str) \<Rightarrow> artifact_metadata \<Rightarrow> str" where
  "artifact_identity blake3 am =
     blake3 (hash_part (am_package_name am) @ hash_part (am_package_version am) @ hash_part (am_world am) @
       hash_part (am_digest am))"

definition valid_idempotency_key :: "str \<Rightarrow> nat \<Rightarrow> bool" where
  "valid_idempotency_key v maximum \<longleftrightarrow>
     v \<noteq> [] \<and> length v \<le> maximum \<and> list_all (\<lambda>b. u8 b < 0x80) v \<and>
     list_all (\<lambda>b. is_ascii_alphanumeric b \<or> b \<in> {CHR ''.'', CHR ''_'', CHR '':'', CHR ''-''}) v"

text \<open>The sizes of the two structs on a 64-bit target: a string or vector is three words, a status one.\<close>

definition RESPONSE_STRUCT_BYTES :: nat where "RESPONSE_STRUCT_BYTES = 56"
definition HEADER_STRUCT_BYTES :: nat where "HEADER_STRUCT_BYTES = 48"

fun add_header_bytes :: "nat \<Rightarrow> http_header list \<Rightarrow> nat option" where
  "add_header_bytes bytes [] = Some bytes"
| "add_header_bytes bytes (h # hs) =
     Option.bind (checked_add_u64 bytes (length (hh_name h))) (\<lambda>b1.
     Option.bind (checked_add_u64 b1 (length (hh_value h))) (\<lambda>b2. add_header_bytes b2 hs))"

definition cached_response_size :: "http_response \<Rightarrow> nat option" where
  "cached_response_size rs =
     Option.bind (checked_add_u64 RESPONSE_STRUCT_BYTES (length (rs_body rs))) (\<lambda>b1.
     Option.bind (checked_mul_u64 HEADER_STRUCT_BYTES (length (rs_headers rs))) (\<lambda>b2.
     Option.bind (checked_add_u64 b1 b2) (\<lambda>b3. add_header_bytes b3 (rs_headers rs))))"

section \<open>Idempotent requests\<close>

record retention_policy =
  rp_max_entries :: nat
  rp_max_bytes :: nat
  rp_ttl :: nat
  rp_lease :: nat

text \<open>
  The durable store of a host (\<open>krit-state\<close>, over SQLite) is a parameter: its limits and its three operations on
  reservations, over a state and a type of leases of its own.  A failure is its message.
\<close>

datatype 'l store_decision = StoreExecute 'l | StoreReplay str | StoreConflict | StoreInProgress

record ('s, 'l) store_binding =
  db_max_key_bytes :: nat
  db_max_replay_entries :: nat
  db_max_replay_bytes :: nat
  db_lease :: nat
  db_decide :: "str \<Rightarrow> str \<Rightarrow> str \<Rightarrow> str \<Rightarrow> int \<Rightarrow> retention_policy \<Rightarrow> 's \<Rightarrow> 's \<times> (str, 'l store_decision) result"
  db_complete :: "'l \<Rightarrow> str \<Rightarrow> int \<Rightarrow> retention_policy \<Rightarrow> 's \<Rightarrow> 's \<times> (str, unit) result"
  db_abort :: "'l \<Rightarrow> 's \<Rightarrow> 's \<times> (str, unit) result"

definition durable_idempotency_policy :: "idempotency_policy \<Rightarrow> ('s, 'l) store_binding \<Rightarrow> retention_policy" where
  "durable_idempotency_policy policy b =
     \<lparr>rp_max_entries = min (ip_max_entries policy) (db_max_replay_entries b),
      rp_max_bytes = min (ip_max_bytes policy) (db_max_replay_bytes b),
      rp_ttl = ip_ttl policy, rp_lease = db_lease b\<rparr>"

record idempotency_entry =
  ie_digest :: str
  ie_response :: http_response
  ie_size_bytes :: nat
  ie_expires :: nat
  ie_last_used :: nat

record idempotency_state =
  is_entries :: "(str \<times> str, idempotency_entry) omap"
  is_bytes :: nat
  is_sequence :: nat

definition idempotency_state_default :: idempotency_state where
  "idempotency_state_default = \<lparr>is_entries = [], is_bytes = 0, is_sequence = 0\<rparr>"

datatype ('s, 'l) idempotency_token = MemoryToken "str \<times> str" str | DurableToken "('s, 'l) store_binding" 'l

datatype ('s, 'l) idempotency_decision_result =
  Execute "('s, 'l) idempotency_token option" | ReplayResponse http_response | Conflict | Reject str

text \<open>The part of a decision that looks into the memory of the host.\<close>

definition memory_decision ::
  "http_crate \<Rightarrow> runtime_limits \<Rightarrow> str \<times> str \<Rightarrow> str \<Rightarrow> nat \<Rightarrow> idempotency_state \<Rightarrow>
     idempotency_state \<times> (runtime_error, ('s, 'l) idempotency_decision_result) result" where
  "memory_decision http limits key digest now st =
     (let entries = filter (\<lambda>(_, e). now < ie_expires e) (is_entries st);
          stamp = sat_add (is_sequence st) 1;
          st1 = \<lparr>is_entries = entries, is_bytes = foldl (\<lambda>n (_, e). sat_add n (ie_size_bytes e)) 0 entries, is_sequence = stamp\<rparr> in
      case om_get entries key of
        Some e \<Rightarrow>
          (st1\<lparr>is_entries := om_update key (e\<lparr>ie_last_used := stamp\<rparr>) entries\<rparr>,
           if ie_digest e = digest
           then map_sum id (\<lambda>_. ReplayResponse (ie_response e)) (validate_response http limits (ie_response e))
           else Inr Conflict)
      | None \<Rightarrow> (st1, Inr (Execute (Some (MemoryToken key digest)))))"

text \<open>The least recently used entries go until the response fits or nothing is left.\<close>

lemma min_key_in: "min_key f m = Some k \<Longrightarrow> k \<in> fst ` set m"
  by (induction m arbitrary: k) (force split: option.splits if_splits prod.splits)+

lemma om_remove_shorter: "k \<in> fst ` set m \<Longrightarrow> length (om_remove k m) < length m"
  by (auto simp: om_remove_def intro: length_filter_less [of "(k, v)" for v])

function evict_entries ::
  "idempotency_policy \<Rightarrow> nat \<Rightarrow> (str \<times> str, idempotency_entry) omap \<Rightarrow> nat \<Rightarrow> (str \<times> str, idempotency_entry) omap \<times> nat" where
  "evict_entries policy response_bytes entries bytes =
     (if ip_max_entries policy \<le> length entries \<or>
         (case checked_add_u64 bytes response_bytes of None \<Rightarrow> True | Some n \<Rightarrow> ip_max_bytes policy < n)
      then
        (case min_key ie_last_used entries of
           None \<Rightarrow> (entries, bytes)
         | Some evicted \<Rightarrow>
             evict_entries policy response_bytes (om_remove evicted entries)
               (case om_get entries evicted of None \<Rightarrow> bytes | Some e \<Rightarrow> bytes - ie_size_bytes e))
      else (entries, bytes))"
  by pat_completeness auto
termination
  by (relation "measure (\<lambda>(_, _, entries, _). length entries)") (auto intro: om_remove_shorter min_key_in)

declare evict_entries.simps [simp del]

definition memory_complete ::
  "idempotency_policy \<Rightarrow> str \<times> str \<Rightarrow> str \<Rightarrow> http_response \<Rightarrow> nat \<Rightarrow> nat \<Rightarrow> idempotency_state \<Rightarrow>
     idempotency_state \<times> (runtime_error, unit) result" where
  "memory_complete policy key digest response response_bytes now st =
     (let bytes1 = (case om_get (is_entries st) key of None \<Rightarrow> is_bytes st | Some e \<Rightarrow> is_bytes st - ie_size_bytes e);
          (entries2, bytes2) = evict_entries policy response_bytes (om_remove key (is_entries st)) bytes1;
          stamp = sat_add (is_sequence st) 1;
          e = \<lparr>ie_digest = digest, ie_response = response, ie_size_bytes = response_bytes,
               ie_expires = now + ip_ttl policy, ie_last_used = stamp\<rparr>;
          st' = \<lparr>is_entries = om_insert key e entries2, is_bytes = bytes2, is_sequence = stamp\<rparr> in
      case checked_add_u64 bytes2 response_bytes of
        None \<Rightarrow> (st', Inl (resource_error ''idempotency cache byte count overflowed''))
      | Some n \<Rightarrow> (st'\<lparr>is_bytes := n\<rparr>, Inr ()))"

section \<open>The host\<close>

record ('s, 'l) agent_host =
  ah_policy :: agent_host_policy
  ah_approvals :: approval_policy
  ah_nonce :: str
  ah_operation_sequence :: nat
  ah_rates :: "rate_state option"
  ah_idempotency :: "idempotency_state option"
  ah_binding :: "('s, 'l) store_binding option"
  ah_store :: 's

text \<open>What a host takes from other libraries: the \<open>http\<close> crate, the hash function and the JSON form of a response.\<close>

record host_env =
  he_http :: http_crate
  he_blake3 :: "str \<Rightarrow> str"
  he_response_from_json :: "str \<Rightarrow> http_response option"
  he_response_to_json :: "http_response \<Rightarrow> str option"

definition agent_host_new ::
  "(str \<Rightarrow> parsed_url option) \<Rightarrow> agent_host_policy \<Rightarrow> approval_policy \<Rightarrow> str \<Rightarrow> ('s, 'l) store_binding option \<Rightarrow> 's \<Rightarrow>
     (runtime_error, ('s, 'l) agent_host) result" where
  "agent_host_new url_parse policy approvals nonce binding store =
     (case validate_policy url_parse policy of
        Some e \<Rightarrow> Inl e
      | None \<Rightarrow>
          Inr \<lparr>ah_policy = policy, ah_approvals = approvals, ah_nonce = nonce, ah_operation_sequence = 0,
               ah_rates = Some rate_state_default, ah_idempotency = Some idempotency_state_default,
               ah_binding = binding, ah_store = store\<rparr>)"

definition approve :: "('s, 'l) agent_host \<Rightarrow> approval_operation \<Rightarrow> str \<Rightarrow> bool" where
  "approve host operation resource = ah_approvals host operation resource"

definition hex_of :: "str \<Rightarrow> str" where
  "hex_of bytes = concat (map (\<lambda>b. [''0123456789abcdef'' ! (of_char b div 16), ''0123456789abcdef'' ! (of_char b mod 16)]) bytes)"

definition next_ai_idempotency_key :: "host_env \<Rightarrow> str \<Rightarrow> ('s, 'l) agent_host \<Rightarrow> ('s, 'l) agent_host \<times> (runtime_error, str) result" where
  "next_ai_idempotency_key env adapter host =
     (case checked_add_u64 (ah_operation_sequence host) 1 of
        None \<Rightarrow> (host, Inl (resource_error ''AI operation sequence exhausted''))
      | Some n \<Rightarrow>
          (host\<lparr>ah_operation_sequence := n\<rparr>,
           Inr (''krit-ai-'' @ hex_of (he_blake3 env
             (ah_nonce host @ to_le_bytes (ah_operation_sequence host) @ hash_part adapter)))))"

definition next_lease_owner :: "host_env \<Rightarrow> ('s, 'l) agent_host \<Rightarrow> ('s, 'l) agent_host \<times> str" where
  "next_lease_owner env host =
     (host\<lparr>ah_operation_sequence := (ah_operation_sequence host + 1) mod 2 ^ 64\<rparr>,
      take 16 (he_blake3 env (ah_nonce host @ to_le_bytes (ah_operation_sequence host) @ ''durable-lease'')))"

definition check_rate ::
  "rate_resource \<Rightarrow> rate_limit_policy \<Rightarrow> str \<Rightarrow> nat \<Rightarrow> nat \<Rightarrow> ('s, 'l) agent_host \<Rightarrow>
     ('s, 'l) agent_host \<times> (str, unit) result option" where
  "check_rate resource policy label inserted now host =
     (case ah_rates host of
        None \<Rightarrow> (host, Some (Inl ''rate policy state is unavailable''))
      | Some st \<Rightarrow>
          let (st', r) = check_rate_state (hp_max_tracked_resources (ah_policy host)) resource policy label inserted now st in
          (host\<lparr>ah_rates := Some st'\<rparr>, r))"

text \<open>The wall clock as nanoseconds since the epoch, \<open>None\<close> before it.\<close>

definition wall_clock_millis :: "nat option \<Rightarrow> (runtime_error, int) result" where
  "wall_clock_millis clock =
     (case clock of
        None \<Rightarrow> Inl (durable_idempotency_error ''system clock is before Unix epoch'')
      | Some nanos \<Rightarrow>
          if int (as_millis nanos) \<le> 2 ^ 63 - 1 then Inr (int (as_millis nanos))
          else Inl (durable_idempotency_error ''system clock exceeds timestamp range''))"

definition idempotency_keys :: "http_request \<Rightarrow> http_header list" where
  "idempotency_keys rq = filter (\<lambda>h. to_ascii_lowercase (hh_name h) = ''idempotency-key'') (rq_headers rq)"

definition durable_decision ::
  "host_env \<Rightarrow> runtime_limits \<Rightarrow> str \<times> str \<Rightarrow> str \<Rightarrow> nat option \<Rightarrow> ('s, 'l) store_binding \<Rightarrow> ('s, 'l) agent_host \<Rightarrow>
     ('s, 'l) agent_host \<times> (runtime_error, ('s, 'l) idempotency_decision_result) result" where
  "durable_decision env limits key digest clock b host =
     (let (host1, owner) = next_lease_owner env host in
      case wall_clock_millis clock of
        Inl e \<Rightarrow> (host1, Inl e)
      | Inr now_millis \<Rightarrow>
          let (store, r) = db_decide b (fst key) (snd key) digest owner now_millis
                (durable_idempotency_policy (hp_idempotency (ah_policy host)) b) (ah_store host1);
              host2 = host1\<lparr>ah_store := store\<rparr> in
          (host2,
           case r of
             Inl msg \<Rightarrow> Inl (durable_idempotency_error msg)
           | Inr (StoreExecute lease) \<Rightarrow> Inr (Execute (Some (DurableToken b lease)))
           | Inr (StoreReplay bytes) \<Rightarrow>
               (case he_response_from_json env bytes of
                  None \<Rightarrow> Inl (durable_idempotency_error ''durable idempotency response is invalid'')
                | Some response \<Rightarrow>
                    map_sum id (\<lambda>_. ReplayResponse response) (validate_response (he_http env) limits response))
           | Inr StoreConflict \<Rightarrow> Inr Conflict
           | Inr StoreInProgress \<Rightarrow> Inr (Reject ''request with Idempotency-Key is already in progress'')))"

definition host_memory_decision ::
  "host_env \<Rightarrow> runtime_limits \<Rightarrow> str \<times> str \<Rightarrow> str \<Rightarrow> nat \<Rightarrow> ('s, 'l) agent_host \<Rightarrow>
     ('s, 'l) agent_host \<times> (runtime_error, ('s, 'l) idempotency_decision_result) result" where
  "host_memory_decision env limits key digest now host =
     (case ah_idempotency host of
        None \<Rightarrow> (host, Inl (setup_error ''idempotency state is unavailable''))
      | Some st \<Rightarrow>
          let (st', r) = memory_decision (he_http env) limits key digest now st in
          (host\<lparr>ah_idempotency := Some st'\<rparr>, r))"

definition idempotency_decision ::
  "host_env \<Rightarrow> artifact_metadata \<Rightarrow> http_request \<Rightarrow> runtime_limits \<Rightarrow> nat \<Rightarrow> nat option \<Rightarrow> ('s, 'l) agent_host \<Rightarrow>
     ('s, 'l) agent_host \<times> (runtime_error, ('s, 'l) idempotency_decision_result) result" where
  "idempotency_decision env am rq limits now clock host =
     (let policy = hp_idempotency (ah_policy host) in
      if rq_method rq \<in> {''GET'', ''HEAD'', ''OPTIONS'', ''TRACE''} then (host, Inr (Execute None))
      else
        case idempotency_keys rq of
          [] \<Rightarrow> (host, Inr (Execute None))
        | [h] \<Rightarrow>
            (let max_key = (case ah_binding host of
                              None \<Rightarrow> ip_max_key_bytes policy
                            | Some b \<Rightarrow> min (ip_max_key_bytes policy) (db_max_key_bytes b));
                 key = (artifact_identity (he_blake3 env) am, hh_value h);
                 digest = request_digest (he_blake3 env) rq in
             if \<not> valid_idempotency_key (hh_value h) max_key
             then (host, Inr (Reject ''Idempotency-Key is invalid or exceeds the configured bound''))
             else
               case ah_binding host of
                 Some b \<Rightarrow>
                   if 0 < ip_max_entries policy \<and> 0 < ip_max_bytes policy
                   then durable_decision env limits key digest clock b host
                   else host_memory_decision env limits key digest now host
               | None \<Rightarrow> host_memory_decision env limits key digest now host)
        | _ \<Rightarrow> (host, Inr (Reject ''Idempotency-Key may appear only once'')))"

definition abort_lease ::
  "('s, 'l) store_binding \<Rightarrow> 'l \<Rightarrow> ('s, 'l) agent_host \<Rightarrow> ('s, 'l) agent_host \<times> (runtime_error, unit) result" where
  "abort_lease b lease host =
     (let (store, r) = db_abort b lease (ah_store host) in
      (host\<lparr>ah_store := store\<rparr>, map_sum durable_idempotency_error id r))"

definition fail_after_abort ::
  "('s, 'l) store_binding \<Rightarrow> 'l \<Rightarrow> runtime_error \<Rightarrow> ('s, 'l) agent_host \<Rightarrow> ('s, 'l) agent_host \<times> (runtime_error, unit) result" where
  "fail_after_abort b lease e host =
     (let (host1, r) = abort_lease b lease host in
      (host1, case r of Inr _ \<Rightarrow> Inl e | Inl cleanup \<Rightarrow> Inl (with_cleanup_failure e cleanup)))"

definition durable_complete ::
  "host_env \<Rightarrow> http_response \<Rightarrow> nat option \<Rightarrow> ('s, 'l) store_binding \<Rightarrow> 'l \<Rightarrow> ('s, 'l) agent_host \<Rightarrow>
     ('s, 'l) agent_host \<times> (runtime_error, unit) result" where
  "durable_complete env response clock b lease host =
     (let policy = hp_idempotency (ah_policy host); retention = durable_idempotency_policy policy b in
      if ip_max_entries policy = 0 \<or> ip_max_bytes policy = 0 then abort_lease b lease host
      else
        case he_response_to_json env response of
          None \<Rightarrow> fail_after_abort b lease (durable_idempotency_error ''could not encode durable idempotency response'') host
        | Some bytes \<Rightarrow>
            if rp_max_bytes retention < length bytes then abort_lease b lease host
            else
              (case wall_clock_millis clock of
                 Inl e \<Rightarrow> fail_after_abort b lease e host
               | Inr now_millis \<Rightarrow>
                   let (store, r) = db_complete b lease bytes now_millis retention (ah_store host);
                       host1 = host\<lparr>ah_store := store\<rparr> in
                   (case r of
                      Inr _ \<Rightarrow> (host1, Inr ())
                    | Inl msg \<Rightarrow> fail_after_abort b lease (durable_idempotency_error msg) host1)))"

definition complete_idempotency ::
  "host_env \<Rightarrow> ('s, 'l) idempotency_token option \<Rightarrow> http_response \<Rightarrow> nat \<Rightarrow> nat option \<Rightarrow> ('s, 'l) agent_host \<Rightarrow>
     ('s, 'l) agent_host \<times> (runtime_error, unit) result" where
  "complete_idempotency env tk response now clock host =
     (let policy = hp_idempotency (ah_policy host) in
      case tk of
        None \<Rightarrow> (host, Inr ())
      | Some (DurableToken b lease) \<Rightarrow> durable_complete env response clock b lease host
      | Some (MemoryToken key digest) \<Rightarrow>
          if ip_max_entries policy = 0 \<or> ip_max_bytes policy = 0 then (host, Inr ())
          else
            (case cached_response_size response of
               None \<Rightarrow> (host, Inr ())
             | Some response_bytes \<Rightarrow>
                 if ip_max_bytes policy < response_bytes then (host, Inr ())
                 else
                   (case ah_idempotency host of
                      None \<Rightarrow> (host, Inl (setup_error ''idempotency state is unavailable''))
                    | Some st \<Rightarrow>
                        let (st', r) = memory_complete policy key digest response response_bytes now st in
                        (host\<lparr>ah_idempotency := Some st'\<rparr>, r))))"

definition abort_idempotency ::
  "('s, 'l) idempotency_token option \<Rightarrow> ('s, 'l) agent_host \<Rightarrow> ('s, 'l) agent_host \<times> (runtime_error, unit) result" where
  "abort_idempotency tk host =
     (case tk of Some (DurableToken b lease) \<Rightarrow> abort_lease b lease host | _ \<Rightarrow> (host, Inr ()))"

end
