(* ===== verification/Host_Policy_Laws.thy ===== *)
theory Host_Policy_Laws
  imports Host_Policy
begin

text \<open>
  What the host policy promises: digests tell requests apart, rate limits bound the calls of every interval, retries
  stay within their delays, and a remembered response is replayed to its own request only.
\<close>

section \<open>Digests\<close>

lemma base_digits_inj:
  fixes n m :: nat
  assumes "\<And>i. i < k \<Longrightarrow> n div 256 ^ i mod 256 = m div 256 ^ i mod 256"
  shows "n mod 256 ^ k = m mod 256 ^ k"
  using assms
proof (induction k)
  case (Suc k)
  have "x mod 256 ^ Suc k = 256 ^ k * (x div 256 ^ k mod 256) + x mod 256 ^ k" for x :: nat
    using mod_mult2_eq [of x "256 ^ k" 256] by (simp add: mult.commute)
  then show ?case using Suc by simp
qed simp

lemma to_le_bytes_inj: "n < 2 ^ 64 \<Longrightarrow> m < 2 ^ 64 \<Longrightarrow> to_le_bytes n = to_le_bytes m \<Longrightarrow> n = m"
proof -
  assume small: "n < 2 ^ 64" "m < 2 ^ 64" and eq: "to_le_bytes n = to_le_bytes m"
  have "n div 256 ^ i mod 256 = m div 256 ^ i mod 256" if "i < 8" for i
  proof -
    have "(of_char (to_le_bytes n ! i) :: nat) = of_char (to_le_bytes m ! i)" using eq by simp
    then show ?thesis using that by (simp add: to_le_bytes_def of_char_of)
  qed
  then have "n mod 256 ^ 8 = m mod 256 ^ 8" by (rule base_digits_inj)
  then show ?thesis using small by simp
qed

lemma length_to_le_bytes [simp]: "length (to_le_bytes n) = 8"
  by (simp add: to_le_bytes_def)

lemma hash_part_not_Nil [simp]: "hash_part p \<noteq> []"
proof
  assume "hash_part p = []"
  then have "length (hash_part p) = 0" by simp
  then show False by (simp add: hash_part_def)
qed

text \<open>A part says its own length, so the bytes after it do not matter for where it ends.\<close>

lemma hash_part_cancel:
  assumes "length a < 2 ^ 64" "length b < 2 ^ 64" "hash_part a @ x = hash_part b @ y"
  shows "a = b \<and> x = y"
proof -
  have "to_le_bytes (length a) = to_le_bytes (length b)" "a @ x = b @ y" using assms by (simp_all add: hash_part_def)
  then show ?thesis using to_le_bytes_inj assms(1,2) by (metis append_eq_append_conv)
qed

lemma hash_parts_inj:
  "list_all (\<lambda>p. length p < 2 ^ 64) ps \<Longrightarrow> list_all (\<lambda>p. length p < 2 ^ 64) qs \<Longrightarrow>
     concat (map hash_part ps) = concat (map hash_part qs) \<Longrightarrow> ps = qs"
proof (induction ps arbitrary: qs)
  case Nil
  then show ?case by (cases qs) simp_all
next
  case (Cons p ps)
  have "qs \<noteq> []" using Cons.prems(3) by (cases "qs = []") simp_all
  then obtain q qs' where qs: "qs = q # qs'" by (cases qs) simp
  then have "p = q \<and> concat (map hash_part ps) = concat (map hash_part qs')"
    using Cons.prems by (intro hash_part_cancel) simp_all
  then show ?case using Cons qs by simp
qed

definition header_parts :: "(str \<times> str) list \<Rightarrow> str list" where
  "header_parts hs = concat (map (\<lambda>(name, v). [name, v]) hs)"

lemma header_parts_simps [simp]: "header_parts [] = []" "header_parts ((name, v) # hs) = name # v # header_parts hs"
  by (simp_all add: header_parts_def)

lemma header_parts_inj: "header_parts hs = header_parts gs \<Longrightarrow> hs = gs"
proof (induction hs arbitrary: gs)
  case Nil
  then show ?case by (cases gs) auto
next
  case (Cons h hs)
  then show ?case by (cases h; cases gs) auto
qed

definition request_parts :: "bool \<Rightarrow> http_request \<Rightarrow> str list" where
  "request_parts omit rq =
     [rq_method rq, rq_path rq, rq_query rq] @ header_parts (hashed_headers omit (rq_headers rq)) @ [rq_body rq]"

lemma request_bytes_parts: "request_bytes omit rq = concat (map hash_part (request_parts omit rq))"
proof -
  have "concat (map (\<lambda>(name, v). hash_part name @ hash_part v) hs) = concat (map hash_part (header_parts hs))" for hs
    by (induction hs) auto
  then show ?thesis by (simp add: request_bytes_def request_parts_def)
qed

definition addressable :: "http_request \<Rightarrow> bool" where
  "addressable rq \<longleftrightarrow>
     list_all (\<lambda>p. length p < 2 ^ 64) ([rq_method rq, rq_path rq, rq_query rq, rq_body rq] @
       concat (map (\<lambda>h. [hh_name h, hh_value h]) (rq_headers rq)))"

lemma addressable_parts: "addressable rq \<Longrightarrow> list_all (\<lambda>p. length p < 2 ^ 64) (request_parts omit rq)"
  by (auto simp: addressable_def request_parts_def header_parts_def hashed_headers_def list_all_iff to_ascii_lowercase_def)

text \<open>
  C13: the bytes that are hashed determine the request: two requests give the same bytes exactly when method, path,
  query and body agree and so do the headers in their order, names up to case (and apart from the idempotency key when
  it is omitted).  No text of one part can pass for the boundary to the next.
\<close>

theorem request_bytes_exact:
  assumes "addressable rq" "addressable rq'"
  shows "request_bytes omit rq = request_bytes omit rq' \<longleftrightarrow>
     rq_method rq = rq_method rq' \<and> rq_path rq = rq_path rq' \<and> rq_query rq = rq_query rq' \<and> rq_body rq = rq_body rq' \<and>
     hashed_headers omit (rq_headers rq) = hashed_headers omit (rq_headers rq')"
proof
  assume "request_bytes omit rq = request_bytes omit rq'"
  then have "request_parts omit rq = request_parts omit rq'"
    using hash_parts_inj addressable_parts assms by (metis request_bytes_parts)
  then show "rq_method rq = rq_method rq' \<and> rq_path rq = rq_path rq' \<and> rq_query rq = rq_query rq' \<and> rq_body rq = rq_body rq' \<and>
      hashed_headers omit (rq_headers rq) = hashed_headers omit (rq_headers rq')"
    by (auto simp: request_parts_def dest: header_parts_inj)
qed (simp add: request_bytes_def)

theorem request_bytes_exact_witness:
  "request_bytes True \<lparr>rq_method = ''POST'', rq_path = ''/a'', rq_query = [], rq_headers = [], rq_body = ''b''\<rparr> \<noteq>
   request_bytes True \<lparr>rq_method = ''POST'', rq_path = ''/'', rq_query = [], rq_headers = [], rq_body = ''ab''\<rparr>"
  using request_bytes_exact [of "\<lparr>rq_method = ''POST'', rq_path = ''/a'', rq_query = [], rq_headers = [], rq_body = ''b''\<rparr>"
      "\<lparr>rq_method = ''POST'', rq_path = ''/'', rq_query = [], rq_headers = [], rq_body = ''ab''\<rparr>" True]
  by (simp add: addressable_def)

section \<open>Retries\<close>

text \<open>The delay before a retry doubles with every attempt up to the maximum of the policy, which is at most two seconds.\<close>

lemma retry_delay_exact:
  assumes "retry_validate r = None" "1 \<le> n" "n \<le> max_attempts r"
  shows "retry_delay r n = min (base_delay r * 2 ^ (n - 1)) (max_delay r)"
proof -
  have r: "n - 1 \<le> 3" "max_delay r \<le> from_secs 2" "base_delay r \<le> max_delay r"
    using assms by (auto simp: retry_validate_def MAX_RETRY_ATTEMPTS_def MAX_RETRY_DELAY_def split: if_splits)
  then have "(2::nat) ^ (n - 1) \<le> 2 ^ 3" by (intro power_increasing) simp_all
  then show ?thesis using r(2) by (simp add: retry_delay_def Let_def U32_MAX_def DURATION_MAX_def from_secs_def)
qed

section \<open>Rate limits\<close>

text \<open>
  The entry of one resource and the instants at which it was admitted.  The count is that of the current window, no
  admission lies past it, the window before it had no more than the capacity, and no interval of the length of a window
  has more than twice the capacity.
\<close>

definition admitted :: "(nat \<Rightarrow> bool) \<Rightarrow> nat list \<Rightarrow> nat" where
  "admitted P instants = length (filter P instants)"

definition window_ok :: "rate_limit_policy \<Rightarrow> rate_entry \<Rightarrow> nat list \<Rightarrow> nat \<Rightarrow> bool" where
  "window_ok p e instants t \<longleftrightarrow>
     re_window_started e \<le> t \<and>
     (\<forall>x \<in> set instants. x \<le> t \<and> x < re_window_started e + rate_window p) \<and>
     re_count e = admitted (\<lambda>x. re_window_started e \<le> x) instants \<and> re_count e \<le> rate_capacity p \<and>
     (\<forall>u. re_window_started e \<le> u + rate_window p \<longrightarrow>
        admitted (\<lambda>x. u \<le> x \<and> x < re_window_started e) instants \<le> rate_capacity p) \<and>
     (\<forall>u. admitted (\<lambda>x. u \<le> x \<and> x < u + rate_window p) instants \<le> 2 * rate_capacity p)"

lemma admitted_simps [simp]:
  "admitted P [] = 0" "admitted P (x # xs) = (if P x then Suc (admitted P xs) else admitted P xs)"
  by (simp_all add: admitted_def)

lemma admitted_mono: "(\<And>x. x \<in> set xs \<Longrightarrow> P x \<Longrightarrow> Q x) \<Longrightarrow> admitted P xs \<le> admitted Q xs"
  by (induction xs) (auto simp: le_SucI)

lemma admitted_union: "(\<And>x. P x \<Longrightarrow> Q x \<or> R x) \<Longrightarrow> admitted P xs \<le> admitted Q xs + admitted R xs"
  by (induction xs) fastforce+

lemma admitted_none: "(\<And>x. x \<in> set xs \<Longrightarrow> \<not> P x) \<Longrightarrow> admitted P xs = 0"
  by (induction xs) simp_all

lemma window_ok_stamp [simp]: "window_ok p (e\<lparr>re_last_used := n\<rparr>) instants t = window_ok p e instants t"
  by (simp add: window_ok_def)

lemma window_ok_fields:
  "re_window_started e = re_window_started e' \<Longrightarrow> re_count e = re_count e' \<Longrightarrow> window_ok p e instants t = window_ok p e' instants t"
  by (simp add: window_ok_def)

lemma window_ok_fresh: "re_count e = 0 \<Longrightarrow> window_ok p e [] (re_window_started e)"
  by (simp add: window_ok_def)

lemma window_ok_later: "window_ok p e instants t \<Longrightarrow> t \<le> t' \<Longrightarrow> window_ok p e instants t'"
  by (auto simp: window_ok_def)

lemma window_ok_renew:
  assumes "window_ok p e instants t" "t \<le> now" "rate_window p \<le> now - re_window_started e" "0 < rate_window p"
  shows "window_ok p (e\<lparr>re_window_started := now, re_count := 0\<rparr>) instants now"
proof -
  let ?ws = "re_window_started e"
  have now: "?ws + rate_window p \<le> now" using assms(1-3) by (auto simp: window_ok_def)
  have past: "x \<le> now" "x < now" if "x \<in> set instants" for x using assms(1) that now by (auto simp: window_ok_def)
  have count: "admitted (\<lambda>x. now \<le> x) instants = 0" using past by (intro admitted_none) fastforce
  have before: "admitted (\<lambda>x. u \<le> x \<and> x < now) instants \<le> rate_capacity p" if "now \<le> u + rate_window p" for u
  proof -
    have "admitted (\<lambda>x. u \<le> x \<and> x < now) instants \<le> admitted (\<lambda>x. ?ws \<le> x) instants"
      using now that by (intro admitted_mono) simp
    then show ?thesis using assms(1) by (simp add: window_ok_def)
  qed
  show ?thesis using assms(1,4) past count before by (fastforce simp: window_ok_def)
qed

lemma window_ok_admit:
  assumes "window_ok p e instants t" "t \<le> now" "now < re_window_started e + rate_window p" "re_count e < rate_capacity p"
  shows "window_ok p (e\<lparr>re_count := re_count e + 1\<rparr>) (now # instants) now"
proof -
  let ?ws = "re_window_started e"
  have ws: "?ws \<le> now" using assms(1,2) by (simp add: window_ok_def)
  have bound: "admitted (\<lambda>x. u \<le> x \<and> x < u + rate_window p) (now # instants) \<le> 2 * rate_capacity p" for u
  proof (cases "u \<le> now \<and> now < u + rate_window p")
    case True
    then have "admitted (\<lambda>x. u \<le> x \<and> x < ?ws) instants \<le> rate_capacity p" using assms(1) ws by (simp add: window_ok_def)
    moreover have "admitted (\<lambda>x. u \<le> x \<and> x < u + rate_window p) instants \<le>
        admitted (\<lambda>x. u \<le> x \<and> x < ?ws) instants + admitted (\<lambda>x. ?ws \<le> x) instants"
      by (rule admitted_union) auto
    ultimately show ?thesis using True assms(1,4) by (simp add: window_ok_def)
  next
    case False
    then show ?thesis using assms(1) by (auto simp: window_ok_def)
  qed
  show ?thesis unfolding window_ok_def
  proof (intro conjI)
    show "\<forall>u. admitted (\<lambda>x. u \<le> x \<and> x < u + rate_window p) (now # instants) \<le> 2 * rate_capacity p" using bound by blast
  qed (use assms ws in \<open>auto simp: window_ok_def\<close>)
qed

text \<open>A run of charges on the resources \<open>rs\<close>, each under its own policy, with the log of the admitted ones.\<close>

inductive rate_run ::
  "nat \<Rightarrow> rate_resource set \<Rightarrow> (rate_resource \<Rightarrow> rate_limit_policy) \<Rightarrow> rate_state \<Rightarrow> (rate_resource \<times> nat) list \<Rightarrow> nat \<Rightarrow> bool"
  for max_tracked rs pol where
  started: "rate_run max_tracked rs pol rate_state_default [] 0"
| granted: "rate_run max_tracked rs pol st log t \<Longrightarrow> r \<in> rs \<Longrightarrow> t \<le> inserted \<Longrightarrow> inserted \<le> now \<Longrightarrow>
    check_rate_state max_tracked r (pol r) label inserted now st = (st', Some (Inr ())) \<Longrightarrow>
    rate_run max_tracked rs pol st' ((r, now) # log) now"
| refused: "rate_run max_tracked rs pol st log t \<Longrightarrow> r \<in> rs \<Longrightarrow> t \<le> inserted \<Longrightarrow> inserted \<le> now \<Longrightarrow>
    check_rate_state max_tracked r (pol r) label inserted now st = (st', Some (Inl msg)) \<Longrightarrow>
    rate_run max_tracked rs pol st' log now"

definition instants_of :: "rate_resource \<Rightarrow> (rate_resource \<times> nat) list \<Rightarrow> nat list" where
  "instants_of r log = map snd (filter (\<lambda>(r', _). r' = r) log)"

lemma instants_of_simps [simp]:
  "instants_of r [] = []" "instants_of r ((r', x) # log) = (if r' = r then x # instants_of r log else instants_of r log)"
  by (simp_all add: instants_of_def)

definition entry_ok :: "rate_limit_policy \<Rightarrow> rate_entry option \<Rightarrow> nat list \<Rightarrow> nat \<Rightarrow> bool" where
  "entry_ok p found instants t \<longleftrightarrow> (case found of None \<Rightarrow> instants = [] | Some e \<Rightarrow> window_ok p e instants t)"

definition rates_ok ::
  "rate_resource set \<Rightarrow> (rate_resource \<Rightarrow> rate_limit_policy) \<Rightarrow> rate_state \<Rightarrow> (rate_resource \<times> nat) list \<Rightarrow> nat \<Rightarrow> bool" where
  "rates_ok rs pol st log t \<longleftrightarrow>
     om_ok (rt_entries st) \<and> dom (om_get (rt_entries st)) \<subseteq> rs \<and>
     (\<forall>r. entry_ok (pol r) (om_get (rt_entries st) r) (instants_of r log) t)"

lemma entry_ok_simps [simp]: "entry_ok p None instants t \<longleftrightarrow> instants = []" "entry_ok p (Some e) instants t \<longleftrightarrow> window_ok p e instants t"
  by (simp_all add: entry_ok_def)

lemma entry_ok_later: "entry_ok p found instants t \<Longrightarrow> t \<le> t' \<Longrightarrow> entry_ok p found instants t'"
  by (cases found) (auto intro: window_ok_later)

lemma rates_ok_later: "rates_ok rs pol st log t \<Longrightarrow> t \<le> t' \<Longrightarrow> rates_ok rs pol st log t'"
  by (auto simp: rates_ok_def intro: entry_ok_later)

lemma rates_ok_stamp [simp]: "rates_ok rs pol (st\<lparr>rt_sequence := n\<rparr>) log t = rates_ok rs pol st log t"
  by (simp add: rates_ok_def)

text \<open>With no more resources than the host tracks, none is ever evicted.\<close>

lemma track_resource_ok:
  assumes "rates_ok rs pol st log t" "r \<in> rs" "finite rs" "card rs \<le> max_tracked" "t \<le> inserted"
  shows "\<exists>st' e. track_resource max_tracked r inserted st = Inr st' \<and> rates_ok rs pol st' log inserted \<and>
     om_get (rt_entries st') r = Some e"
proof (cases "om_get (rt_entries st) r")
  case None
  have ok: "om_ok (rt_entries st)" "dom (om_get (rt_entries st)) \<subseteq> rs" using assms(1) by (simp_all add: rates_ok_def)
  then have "dom (om_get (rt_entries st)) \<subset> rs" using None assms(2) by auto
  then have "length (rt_entries st) < max_tracked"
    using assms(3,4) ok by (simp add: om.card_dom) (meson less_le_trans psubset_card_mono)
  moreover define e where "e = \<lparr>re_window_started = inserted, re_count = 0, re_last_used = rt_sequence st\<rparr>"
  ultimately have "track_resource max_tracked r inserted st = Inr (st\<lparr>rt_entries := om_insert r e (rt_entries st)\<rparr>)"
    using None by (simp add: track_resource_def Let_def)
  moreover have "entry_ok (pol r) (Some e) (instants_of r log) inserted"
    using assms(1) None window_ok_fresh [of e "pol r"] by (force simp: rates_ok_def e_def dest: spec [of _ r])
  then have "rates_ok rs pol (st\<lparr>rt_entries := om_insert r e (rt_entries st)\<rparr>) log inserted"
    using rates_ok_later [OF assms(1,5)] assms(2) by (auto simp: rates_ok_def om.ok_ins om_get_ins)
  ultimately show ?thesis by (auto simp: om_get_ins)
qed (use assms(1) rates_ok_later [OF assms(1,5)] in \<open>auto simp: track_resource_def\<close>)

lemma rates_ok_update:
  assumes "rates_ok rs pol st log t" "om_get (rt_entries st) r = Some e" "t \<le> now"
    "window_ok (pol r) e' (instants_of r log') now" "\<And>r'. r' \<noteq> r \<Longrightarrow> instants_of r' log' = instants_of r' log"
  shows "rates_ok rs pol (st\<lparr>rt_entries := om_update r e' (rt_entries st)\<rparr>) log' now"
  using rates_ok_later [OF assms(1,3)] assms(2,4,5)
  by (auto simp: rates_ok_def om.ok_upd om_get_upd)

lemma charge_resource_ok:
  assumes "rates_ok rs pol st log t" "om_get (rt_entries st) r = Some e" "t \<le> now" "0 < rate_window (pol r)"
    "charge_resource (pol r) label r now st = (st', out)"
  shows "out = Some (Inr ()) \<and> rates_ok rs pol st' ((r, now) # log) now \<or>
     (\<exists>msg. out = Some (Inl msg)) \<and> rates_ok rs pol st' log now \<and>
     rate_capacity (pol r) \<le> admitted (\<lambda>x. now < x + rate_window (pol r)) (instants_of r log)"
proof -
  let ?p = "pol r" and ?L = "instants_of r log"
  define e1 where "e1 = (if rate_window ?p \<le> now - re_window_started e then e\<lparr>re_window_started := now, re_count := 0\<rparr> else e)"
  have e: "window_ok ?p e ?L t" using assms(1,2) by (auto simp: rates_ok_def dest: spec [of _ r])
  then have e1: "window_ok ?p e1 ?L now"
    using window_ok_renew [OF e assms(3) _ assms(4)] window_ok_later [OF e assms(3)] by (simp add: e1_def)
  have recent: "now < re_window_started e1 + rate_window ?p" using assms(4) by (simp add: e1_def) linarith
  note update = rates_ok_update [OF assms(1,2,3)]
  show ?thesis
  proof (cases "rate_capacity ?p \<le> re_count e1")
    case True
    have "re_count e1 \<le> admitted (\<lambda>x. now < x + rate_window ?p) ?L"
      using e1 recent by (simp add: window_ok_def) (rule admitted_mono, simp)
    then show ?thesis
      using assms(2,5) True update [of "e1\<lparr>re_last_used := rt_sequence st\<rparr>" log] e1
      by (auto simp: charge_resource_def Let_def e1_def [symmetric])
  next
    case False
    then have "window_ok ?p (e1\<lparr>re_count := re_count e1 + 1\<rparr>) (now # ?L) now"
      using window_ok_admit [OF e1 order_refl recent] by simp
    then have "window_ok ?p ((e1\<lparr>re_last_used := rt_sequence st\<rparr>)\<lparr>re_count := re_count e1 + 1\<rparr>) (now # ?L) now"
      by (rule window_ok_fields [THEN iffD1, rotated 2]) simp_all
    then show ?thesis
      using assms(2,5) False update [of "(e1\<lparr>re_last_used := rt_sequence st\<rparr>)\<lparr>re_count := re_count e1 + 1\<rparr>" "(r, now) # log"]
      by (auto simp: charge_resource_def Let_def e1_def [symmetric])
  qed
qed

lemma check_rate_ok:
  assumes "rates_ok rs pol st log t" "r \<in> rs" "finite rs" "card rs \<le> max_tracked" "t \<le> inserted" "inserted \<le> now"
    "0 < rate_window (pol r)" "check_rate_state max_tracked r (pol r) label inserted now st = (st', out)"
  shows "out = Some (Inr ()) \<and> rates_ok rs pol st' ((r, now) # log) now \<or>
     (\<exists>msg. out = Some (Inl msg)) \<and> rates_ok rs pol st' log now \<and>
     rate_capacity (pol r) \<le> admitted (\<lambda>x. now < x + rate_window (pol r)) (instants_of r log)"
proof -
  let ?st1 = "st\<lparr>rt_sequence := sat_add (rt_sequence st) 1\<rparr>"
  have "rates_ok rs pol ?st1 log t" using assms(1) by simp
  from track_resource_ok [OF this assms(2-5)] obtain st2 e where
    st2: "track_resource max_tracked r inserted ?st1 = Inr st2" "rates_ok rs pol st2 log inserted"
    "om_get (rt_entries st2) r = Some e" by blast
  then have "charge_resource (pol r) label r now st2 = (st', out)"
    using assms(8) by (simp add: check_rate_state_def Let_def)
  from charge_resource_ok [OF st2(2,3) assms(6,7) this] show ?thesis .
qed

lemma rate_validate_window: "rate_validate p = None \<Longrightarrow> 0 < rate_window p"
  by (auto simp: rate_validate_def from_millis_def split: if_splits)

lemma rate_run_ok:
  assumes "rate_run max_tracked rs pol st log t" "finite rs" "card rs \<le> max_tracked"
    "\<And>r. r \<in> rs \<Longrightarrow> rate_validate (pol r) = None"
  shows "rates_ok rs pol st log t"
  using assms(1)
proof induction
  case started
  show ?case by (auto simp: rates_ok_def rate_state_default_def)
next
  case (granted st log t r inserted now label st')
  then show ?case
    using check_rate_ok [OF granted.IH granted.hyps(2) assms(2,3) granted.hyps(3,4) _ granted.hyps(5)]
      rate_validate_window assms(4) by simp
next
  case (refused st log t r inserted now label st' msg)
  then show ?case
    using check_rate_ok [OF refused.IH refused.hyps(2) assms(2,3) refused.hyps(3,4) _ refused.hyps(5)]
      rate_validate_window assms(4) by simp
qed

text \<open>
  C12: on a host that charges no more resources than it tracks, a resource is admitted at most twice its capacity in
  any interval of the length of its window; a charge never panics, and it is refused only when the capacity has been
  used up within the window before it.
\<close>

theorem rate_limit_bounds:
  assumes "rate_run max_tracked rs pol st log t" "finite rs" "card rs \<le> max_tracked"
    "\<And>r. r \<in> rs \<Longrightarrow> rate_validate (pol r) = None" "r \<in> rs" "t \<le> inserted" "inserted \<le> now"
  shows "admitted (\<lambda>x. u \<le> x \<and> x < u + rate_window (pol r)) (instants_of r log) \<le> 2 * rate_capacity (pol r) \<and>
     (case snd (check_rate_state max_tracked r (pol r) label inserted now st) of
        None \<Rightarrow> False
      | Some (Inr _) \<Rightarrow> True
      | Some (Inl _) \<Rightarrow> rate_capacity (pol r) \<le> admitted (\<lambda>x. now < x + rate_window (pol r)) (instants_of r log))"
proof
  have ok: "rates_ok rs pol st log t" using rate_run_ok assms(1-4) by blast
  then have "entry_ok (pol r) (om_get (rt_entries st) r) (instants_of r log) t" by (simp add: rates_ok_def)
  then show "admitted (\<lambda>x. u \<le> x \<and> x < u + rate_window (pol r)) (instants_of r log) \<le> 2 * rate_capacity (pol r)"
    by (cases "om_get (rt_entries st) r") (simp_all add: window_ok_def)
  obtain st' out where r: "check_rate_state max_tracked r (pol r) label inserted now st = (st', out)" by fastforce
  from check_rate_ok [OF ok assms(5,2,3,6,7) _ r] rate_validate_window assms(4,5)
  show "case snd (check_rate_state max_tracked r (pol r) label inserted now st) of
        None \<Rightarrow> False
      | Some (Inr _) \<Rightarrow> True
      | Some (Inl _) \<Rightarrow> rate_capacity (pol r) \<le> admitted (\<lambda>x. now < x + rate_window (pol r)) (instants_of r log)"
    unfolding r by auto
qed

definition demo_rate :: rate_limit_policy where
  "demo_rate = \<lparr>rate_capacity = 1, rate_window = from_millis 1\<rparr>"

lemma demo_rate_run:
  "rate_run 1 {RateAi ''m''} (\<lambda>_. demo_rate)
     \<lparr>rt_entries = [(RateAi ''m'', \<lparr>re_window_started = 0, re_count = 1, re_last_used = 1\<rparr>)], rt_sequence = 1\<rparr>
     [(RateAi ''m'', 5)] 5"
proof (rule rate_run.granted [OF rate_run.started, where inserted = 0 and label = "''m''"])
  show "check_rate_state 1 (RateAi ''m'') demo_rate ''m'' 0 5 rate_state_default =
      (\<lparr>rt_entries = [(RateAi ''m'', \<lparr>re_window_started = 0, re_count = 1, re_last_used = 1\<rparr>)], rt_sequence = 1\<rparr>, Some (Inr ()))"
    by (simp add: check_rate_state_def track_resource_def charge_resource_def rate_state_default_def demo_rate_def
        from_millis_def om_get_def sat_add_def u64_max_def Let_def)
qed simp_all

theorem rate_limit_bounds_witness:
  "admitted (\<lambda>x. 0 \<le> x \<and> x < 0 + rate_window demo_rate) (instants_of (RateAi ''m'') [(RateAi ''m'', 5)]) \<le> 2 * rate_capacity demo_rate \<and>
   rate_capacity demo_rate \<le> admitted (\<lambda>x. 7 < x + rate_window demo_rate) (instants_of (RateAi ''m'') [(RateAi ''m'', 5)])"
  using rate_limit_bounds [OF demo_rate_run, of "RateAi ''m''" 6 7 0 "''m''"]
  by (simp add: demo_rate_def rate_validate_def MAX_RATE_CAPACITY_def MAX_RATE_WINDOW_def from_millis_def from_secs_def
      check_rate_state_def track_resource_def charge_resource_def om_get_def sat_add_def u64_max_def Let_def)

section \<open>Idempotent requests\<close>



























section \<open>A response is replayed\<close>
























end
