(* ===== verification/Durable.thy ===== *)
theory Durable
  imports Krit_Ast "HOL-Library.Multiset" "HOL-Library.Product_Lexorder"
begin

text \<open>
  The durable operations of a program (\<open>krit/src/durable.rs\<close>): the calls of state, queue, object, database, cache and
  search built-ins, collected from the syntax tree with an explicit work stack.  The stack is a list with its top at
  the head.  The collection is compared with a recursive definition over the tree.
\<close>

section \<open>Facts\<close>

datatype durable_operation_kind =
    StateGet | StatePut | StateDelete | CheckpointGet | CheckpointPut
  | ReplayHttp | ReplayAi | QueuePublish | ObjectGet | ObjectPut
  | ObjectDelete | DatabaseBeginRead | DatabaseBeginWrite | DatabaseQuery | DatabaseExecute
  | DatabaseCommit | DatabaseRollback | CacheGet | CachePut | CacheDelete
  | SearchQuery | VectorSearch

definition durable_kind_as_str :: "durable_operation_kind \<Rightarrow> str" where
  "durable_kind_as_str k =
     (case k of
        StateGet \<Rightarrow> ''state-get''
      | StatePut \<Rightarrow> ''state-put''
      | StateDelete \<Rightarrow> ''state-delete''
      | CheckpointGet \<Rightarrow> ''checkpoint-get''
      | CheckpointPut \<Rightarrow> ''checkpoint-put''
      | ReplayHttp \<Rightarrow> ''replay-http''
      | ReplayAi \<Rightarrow> ''replay-ai''
      | QueuePublish \<Rightarrow> ''queue-publish''
      | ObjectGet \<Rightarrow> ''object-get''
      | ObjectPut \<Rightarrow> ''object-put''
      | ObjectDelete \<Rightarrow> ''object-delete''
      | DatabaseBeginRead \<Rightarrow> ''database-begin-read''
      | DatabaseBeginWrite \<Rightarrow> ''database-begin-write''
      | DatabaseQuery \<Rightarrow> ''database-query''
      | DatabaseExecute \<Rightarrow> ''database-execute''
      | DatabaseCommit \<Rightarrow> ''database-commit''
      | DatabaseRollback \<Rightarrow> ''database-rollback''
      | CacheGet \<Rightarrow> ''cache-get''
      | CachePut \<Rightarrow> ''cache-put''
      | CacheDelete \<Rightarrow> ''cache-delete''
      | SearchQuery \<Rightarrow> ''search-query''
      | VectorSearch \<Rightarrow> ''vector-search'')"

record durable_operation_fact =
  df_kind :: durable_operation_kind
  df_store :: "str option"
  df_identity :: "str option"
  df_external_capability :: "str option"
  df_external_resource :: "str option"
  df_span :: span

definition string_argument :: "expression list \<Rightarrow> nat \<Rightarrow> str option" where
  "string_argument arguments index =
     (if index < length arguments then
        (case ex_kind (arguments ! index) of Literal (StringLit v) \<Rightarrow> Some v | _ \<Rightarrow> None)
      else None)"

definition transaction_operation_kind :: "str \<Rightarrow> durable_operation_kind option" where
  "transaction_operation_kind name =
     (if name = ''db_query'' then Some DatabaseQuery
      else if name = ''db_execute'' then Some DatabaseExecute
      else if name = ''db_commit'' then Some DatabaseCommit
      else if name = ''db_rollback'' then Some DatabaseRollback
      else None)"

text \<open>The table of the other operations: kind, whether the second argument is its identity, and the capability that
  an effect replayed from the third argument needs.\<close>

definition stored_operation :: "str \<Rightarrow> (durable_operation_kind \<times> bool \<times> str option) option" where
  "stored_operation name =
     (if name = ''state_get'' then Some (StateGet, True, None)
      else if name = ''state_put'' then Some (StatePut, True, None)
      else if name = ''state_delete'' then Some (StateDelete, True, None)
      else if name = ''checkpoint_get'' then Some (CheckpointGet, True, None)
      else if name = ''checkpoint_put'' then Some (CheckpointPut, True, None)
      else if name = ''replay_http'' then Some (ReplayHttp, True, Some ''http.request'')
      else if name = ''replay_ai'' then Some (ReplayAi, True, Some ''ai.invoke'')
      else if name = ''queue_publish'' then Some (QueuePublish, False, None)
      else if name = ''object_get'' then Some (ObjectGet, True, None)
      else if name = ''object_put'' then Some (ObjectPut, True, None)
      else if name = ''object_delete'' then Some (ObjectDelete, True, None)
      else if name = ''cache_get'' then Some (CacheGet, True, None)
      else if name = ''cache_put'' then Some (CachePut, True, None)
      else if name = ''cache_delete'' then Some (CacheDelete, True, None)
      else if name = ''search_query'' then Some (SearchQuery, False, None)
      else if name = ''vector_search'' then Some (VectorSearch, False, None)
      else if name = ''db_begin_read'' then Some (DatabaseBeginRead, False, None)
      else if name = ''db_begin_write'' then Some (DatabaseBeginWrite, False, None)
      else None)"

definition operation_fact :: "str \<Rightarrow> expression list \<Rightarrow> span \<Rightarrow> durable_operation_fact option" where
  "operation_fact name arguments s =
     (case transaction_operation_kind name of
        Some k \<Rightarrow>
          Some \<lparr>df_kind = k, df_store = None, df_identity = string_argument arguments 1,
            df_external_capability = None, df_external_resource = None, df_span = s\<rparr>
      | None \<Rightarrow>
          (case string_argument arguments 0 of
             None \<Rightarrow> None
           | Some store \<Rightarrow>
               (case stored_operation name of
                  None \<Rightarrow> None
                | Some (k, identified, capability) \<Rightarrow>
                    Some \<lparr>df_kind = k, df_store = Some store,
                      df_identity = (if identified then string_argument arguments 1 else None),
                      df_external_capability = capability,
                      df_external_resource = (if capability = None then None else string_argument arguments 2),
                      df_span = s\<rparr>)))"

section \<open>Collection\<close>

datatype pending = PendingStatement statement | PendingBlock block | PendingExpression expression

text \<open>\<open>pending.push\<close> and \<open>pending.extend\<close>: later nodes are nearer the top.\<close>

definition push_all :: "pending list \<Rightarrow> pending list \<Rightarrow> pending list" where
  "push_all new stack = rev new @ stack"

definition collect_expression ::
  "expression \<Rightarrow> pending list \<Rightarrow> durable_operation_fact list \<Rightarrow> pending list \<times> durable_operation_fact list" where
  "collect_expression e stack facts =
     (let visit = (\<lambda>new. (push_all new stack, facts)) in
      case ex_kind e of
        Literal _ \<Rightarrow> visit []
      | UnitExpr \<Rightarrow> visit []
      | Variable _ \<Rightarrow> visit []
      | Interpolation parts \<Rightarrow>
          visit (List.map_filter (\<lambda>p. case p of Hole v _ \<Rightarrow> Some (PendingExpression v) | Text _ _ \<Rightarrow> None) parts)
      | ListExpr es \<Rightarrow> visit (map PendingExpression es)
      | RecordExpr fs \<Rightarrow> visit (map (\<lambda>f. PendingExpression (rf_value f)) fs)
      | Construct _ _ fs \<Rightarrow> visit (map (\<lambda>f. PendingExpression (cf_value f)) fs)
      | EntryList es \<Rightarrow> visit (concat (map (\<lambda>n. [PendingExpression (le_key n), PendingExpression (le_value n)]) es))
      | FieldAccess v _ \<Rightarrow> visit [PendingExpression v]
      | BlockExpr b \<Rightarrow> visit [PendingBlock b]
      | If condition consequent alternative \<Rightarrow>
          visit [PendingExpression condition, PendingBlock consequent, PendingExpression alternative]
      | FunctionExpr _ _ b \<Rightarrow> visit [PendingBlock b]
      | Call callee arguments \<Rightarrow>
          (push_all (PendingExpression callee # map PendingExpression arguments) stack,
           (case ex_kind callee of
              Variable name \<Rightarrow>
                (case operation_fact name arguments (ex_span e) of Some found \<Rightarrow> facts @ [found] | None \<Rightarrow> facts)
            | _ \<Rightarrow> facts))
      | Match subject arms \<Rightarrow> visit (PendingExpression subject # map (\<lambda>a. PendingExpression (ma_value a)) arms)
      | Unary _ operand \<Rightarrow> visit [PendingExpression operand]
      | Propagate operand _ \<Rightarrow> visit [PendingExpression operand]
      | Binary l _ r \<Rightarrow> visit [PendingExpression l, PendingExpression r])"

definition collect_node ::
  "pending \<Rightarrow> pending list \<Rightarrow> durable_operation_fact list \<Rightarrow> pending list \<times> durable_operation_fact list" where
  "collect_node n stack facts =
     (case n of
        PendingStatement st \<Rightarrow>
          (push_all
             (case st_kind st of
                Let _ _ v \<Rightarrow> [PendingExpression v]
              | LetElse _ _ v _ arm \<Rightarrow> [PendingExpression v, PendingExpression (va_value arm)]
              | Function _ _ _ b _ \<Rightarrow> [PendingBlock b]
              | Webhook _ _ _ b _ \<Rightarrow> [PendingBlock b]
              | QueueConsumer _ _ _ _ _ b _ \<Rightarrow> [PendingBlock b]
              | ScheduleHandler _ _ _ _ _ b _ \<Rightarrow> [PendingBlock b]
              | ExpressionStmt e \<Rightarrow> [PendingExpression e]) stack,
           facts)
      | PendingBlock b \<Rightarrow>
          (push_all
             (map PendingStatement (bl_statements b) @
              (case bl_tail b of None \<Rightarrow> [] | Some e \<Rightarrow> [PendingExpression e])) stack,
           facts)
      | PendingExpression e \<Rightarrow> collect_expression e stack facts)"

text \<open>The loop ends because each node is replaced by its parts.\<close>

primrec node_size :: "pending \<Rightarrow> nat" where
  "node_size (PendingStatement st) = size_statement_node size size st"
| "node_size (PendingBlock b) = size b"
| "node_size (PendingExpression e) = size e"

definition stack_size :: "pending list \<Rightarrow> nat" where
  "stack_size stack = (\<Sum>n \<leftarrow> stack. node_size n)"

lemma stack_size_simps [simp]:
  "stack_size [] = 0" "stack_size (n # stack) = node_size n + stack_size stack"
  "stack_size (xs @ ys) = stack_size xs + stack_size ys" "stack_size (push_all new stack) = stack_size new + stack_size stack"
  by (simp_all add: stack_size_def push_all_def rev_map [symmetric])

lemma stack_size_map:
  "(\<And>x. node_size (f x) \<le> g x) \<Longrightarrow> stack_size (map f xs) \<le> size_list g xs"
proof (induction xs)
  case (Cons x xs)
  then have "node_size (f x) \<le> g x" "stack_size (map f xs) \<le> size_list g xs" by blast+
  then show ?case by simp
qed simp

lemma part_sizes:
  fixes va :: "expression variant_arm" and rf :: "expression record_field" and cf :: "expression construct_field"
    and ma :: "expression match_arm" and le :: "expression list_entry"
  shows "size (va_value va) < size_variant_arm size va" "size (rf_value rf) < size_record_field size rf"
    "size (cf_value cf) < size_construct_field size cf" "size (ma_value ma) < size_match_arm size ma"
    "size (le_key le) + size (le_value le) < size_list_entry size le"
  by (cases va, simp) (cases rf, simp, cases cf, simp, cases ma, simp, cases le, simp)

lemma stack_size_parts:
  "stack_size (map PendingExpression es) \<le> size_list size es"
  "stack_size (map (\<lambda>f. PendingExpression (rf_value f)) rfs) \<le> size_list (size_record_field size) rfs"
  "stack_size (map (\<lambda>f. PendingExpression (cf_value f)) cfs) \<le> size_list (size_construct_field size) cfs"
  "stack_size (map (\<lambda>a. PendingExpression (ma_value a)) arms) \<le> size_list (size_match_arm size) arms"
  "stack_size (map PendingStatement sts) \<le> size_list (size_statement_node size size) sts"
  by (rule stack_size_map; simp add: part_sizes less_imp_le)+

lemma stack_size_holes:
  "stack_size (List.map_filter (\<lambda>p. case p of Hole v _ \<Rightarrow> Some (PendingExpression v) | Text _ _ \<Rightarrow> None) ps)
     \<le> size_list (size_string_part size) ps"
  by (induction ps) (auto simp: map_filter_simps split: string_part.splits)

lemma stack_size_entries:
  "stack_size (concat (map (\<lambda>n. [PendingExpression (le_key n), PendingExpression (le_value n)]) es))
     \<le> size_list (size_list_entry size) es"
proof (induction es)
  case (Cons a es)
  then show ?case using part_sizes(5) [of a] by simp
qed simp

lemma collect_expression_smaller:
  "stack_size (fst (collect_expression e stack facts)) < size e + stack_size stack"
proof (cases e)
  case (Expression k s)
  then show ?thesis
    by (cases k) (simp_all add: collect_expression_def Let_def less_Suc_eq_le stack_size_parts stack_size_holes stack_size_entries
        trans_le_add1 trans_le_add2 add_mono le_SucI)
qed

lemma collect_node_smaller:
  "stack_size (fst (collect_node n stack facts)) < node_size n + stack_size stack"
proof (cases n)
  case (PendingStatement st)
  then show ?thesis
    using part_sizes(1)
    by (cases st; cases "st_kind st") (simp_all add: collect_node_def less_Suc_eq_le add_mono less_imp_le)
next
  case (PendingBlock b)
  then show ?thesis
    using stack_size_parts(5) by (cases b) (simp add: collect_node_def less_Suc_eq_le add_mono split: option.splits)
qed (simp add: collect_node_def collect_expression_smaller)

function collect_loop ::
  "pending list \<Rightarrow> durable_operation_fact list \<Rightarrow> durable_operation_fact list" where
  "collect_loop [] facts = facts"
| "collect_loop (n # stack) facts =
     (let (stack', facts') = collect_node n stack facts in collect_loop stack' facts')"
  by pat_completeness auto
termination
proof (relation "measure (\<lambda>(stack, _). stack_size stack)")
  fix n stack facts x stack' facts'
  assume "x = collect_node n stack facts" "(stack', facts') = x"
  then show "((stack', facts'), (n # stack, facts)) \<in> measure (\<lambda>(stack, _). stack_size stack)"
    using collect_node_smaller [of n stack facts] by (simp split: prod.splits) (metis fst_conv)
qed simp

definition collect_program :: "program \<Rightarrow> durable_operation_fact list" where
  "collect_program p = collect_loop (push_all (map PendingStatement p) []) []"

definition span_key :: "durable_operation_fact \<Rightarrow> nat \<times> nat" where
  "span_key d = (span_start (df_span d), span_end (df_span d))"

definition durable_operations :: "program \<Rightarrow> durable_operation_fact list" where
  "durable_operations p = sort_key span_key (collect_program p)"

section \<open>The durable calls of a tree\<close>

text \<open>
  The facts of the calls in a tree, by recursion over it: what the collection has to find.  The parts of a statement
  and of a string are read off the node in which each part is already replaced by its facts.
\<close>

definition call_facts :: "expression_kind \<Rightarrow> span \<Rightarrow> durable_operation_fact list" where
  "call_facts k s =
     (case k of
        Call (Expression (Variable name) _) arguments \<Rightarrow>
          (case operation_fact name arguments s of None \<Rightarrow> [] | Some found \<Rightarrow> [found])
      | _ \<Rightarrow> [])"

primrec part_facts :: "'a list string_part \<Rightarrow> 'a list" where
  "part_facts (Text _ _) = []"
| "part_facts (Hole v _) = v"

definition statement_facts :: "('a list, 'a list) statement_node \<Rightarrow> 'a list" where
  "statement_facts st =
     (case st_kind st of
        Let _ _ v \<Rightarrow> v
      | LetElse _ _ v _ arm \<Rightarrow> v @ va_value arm
      | Function _ _ _ b _ \<Rightarrow> b
      | Webhook _ _ _ b _ \<Rightarrow> b
      | QueueConsumer _ _ _ _ _ b _ \<Rightarrow> b
      | ScheduleHandler _ _ _ _ _ b _ \<Rightarrow> b
      | ExpressionStmt e \<Rightarrow> e)"

primrec expression_facts :: "expression \<Rightarrow> durable_operation_fact list"
  and kind_facts :: "expression_kind \<Rightarrow> durable_operation_fact list"
  and block_facts :: "block \<Rightarrow> durable_operation_fact list" where
  "expression_facts (Expression k s) = call_facts k s @ kind_facts k"
| "kind_facts (Literal v) = []"
| "kind_facts (Interpolation ps) = concat (map part_facts (map (map_string_part expression_facts) ps))"
| "kind_facts UnitExpr = []"
| "kind_facts (Variable name) = []"
| "kind_facts (ListExpr es) = concat (map expression_facts es)"
| "kind_facts (EntryList es) = concat (map (\<lambda>n. le_key n @ le_value n) (map (map_list_entry expression_facts) es))"
| "kind_facts (RecordExpr fs) = concat (map rf_value (map (map_record_field expression_facts) fs))"
| "kind_facts (Construct c s fs) = concat (map cf_value (map (map_construct_field expression_facts) fs))"
| "kind_facts (FieldAccess e name) = expression_facts e"
| "kind_facts (BlockExpr b) = block_facts b"
| "kind_facts (If c b e) = expression_facts c @ block_facts b @ expression_facts e"
| "kind_facts (FunctionExpr ps t b) = block_facts b"
| "kind_facts (Call f es) = expression_facts f @ concat (map expression_facts es)"
| "kind_facts (Propagate e s) = expression_facts e"
| "kind_facts (Match e arms) = expression_facts e @ concat (map ma_value (map (map_match_arm expression_facts) arms))"
| "kind_facts (Unary u e) = expression_facts e"
| "kind_facts (Binary l b r) = expression_facts l @ expression_facts r"
| "block_facts (Block sts tail s) =
     concat (map statement_facts (map (map_statement_node expression_facts block_facts) sts)) @
     (case map_option expression_facts tail of None \<Rightarrow> [] | Some v \<Rightarrow> v)"

definition program_facts :: "program \<Rightarrow> durable_operation_fact list" where
  "program_facts p = concat (map (\<lambda>st. statement_facts (map_statement_node expression_facts block_facts st)) p)"

primrec node_facts :: "pending \<Rightarrow> durable_operation_fact list" where
  "node_facts (PendingStatement st) = statement_facts (map_statement_node expression_facts block_facts st)"
| "node_facts (PendingBlock b) = block_facts b"
| "node_facts (PendingExpression e) = expression_facts e"

definition stack_facts :: "pending list \<Rightarrow> durable_operation_fact multiset" where
  "stack_facts stack = mset (concat (map node_facts stack))"

lemma stack_facts_simps [simp]:
  "stack_facts [] = {#}" "stack_facts (n # stack) = mset (node_facts n) + stack_facts stack"
  "stack_facts (xs @ ys) = stack_facts xs + stack_facts ys"
  by (simp_all add: stack_facts_def)

lemma stack_facts_push [simp]: "stack_facts (push_all new stack) = stack_facts new + stack_facts stack"
  by (induction new arbitrary: stack) (simp_all add: push_all_def)

lemma stack_facts_map: "stack_facts (map f xs) = mset (concat (map (\<lambda>x. node_facts (f x)) xs))"
  by (simp add: stack_facts_def comp_def)

lemma stack_facts_holes:
  "stack_facts (List.map_filter (\<lambda>p. case p of Hole v _ \<Rightarrow> Some (PendingExpression v) | Text _ _ \<Rightarrow> None) ps) =
     mset (concat (map part_facts (map (map_string_part expression_facts) ps)))"
  by (induction ps) (auto simp: map_filter_simps split: string_part.splits)

lemma stack_facts_entries:
  "stack_facts (concat (map (\<lambda>n. [PendingExpression (le_key n), PendingExpression (le_value n)]) es)) =
     mset (concat (map (\<lambda>n. le_key n @ le_value n) (map (map_list_entry expression_facts) es)))"
  by (induction es) (simp_all add: list_entry.map_sel)

lemma collect_expression_facts:
  assumes "collect_expression e stack facts = (stack', facts')"
  shows "mset facts' + stack_facts stack' = mset facts + mset (expression_facts e) + stack_facts stack"
proof (cases e)
  case (Expression k s)
  show ?thesis
  proof (cases k)
    case (Call callee arguments)
    then show ?thesis
      using assms Expression
      by (cases callee) (auto simp: collect_expression_def call_facts_def stack_facts_map Let_def
          split: expression_kind.splits option.splits)
  qed (use assms Expression in \<open>auto simp: collect_expression_def call_facts_def Let_def stack_facts_map stack_facts_holes
      stack_facts_entries comp_def record_field.map_sel construct_field.map_sel match_arm.map_sel\<close>)
qed

lemma collect_node_facts:
  assumes "collect_node n stack facts = (stack', facts')"
  shows "mset facts' + stack_facts stack' = mset facts + mset (node_facts n) + stack_facts stack"
proof (cases n)
  case (PendingStatement st)
  then show ?thesis
    using assms
    by (cases st; cases "st_kind st") (auto simp: collect_node_def statement_facts_def variant_arm.map_sel)
next
  case (PendingBlock b)
  then show ?thesis
    using assms by (cases b) (auto simp: collect_node_def stack_facts_map comp_def split: option.splits)
next
  case (PendingExpression e)
  then show ?thesis
    using assms collect_expression_facts [of e stack facts] by (simp add: collect_node_def)
qed

lemma collect_loop_facts: "mset (collect_loop stack facts) = mset facts + stack_facts stack"
proof (induction stack facts rule: collect_loop.induct)
  case (2 n stack facts)
  obtain stack' facts' where step: "collect_node n stack facts = (stack', facts')" by fastforce
  then show ?case
    using 2 [OF refl step [symmetric]] collect_node_facts [OF step] by (simp add: ac_simps)
qed simp

text \<open>
  C22: the durable operations reported for a program are exactly the durable calls of its tree, each as often as it is
  written, wherever they stand, in the order of their spans.
\<close>

theorem durable_operations_exact:
  "mset (durable_operations p) = mset (program_facts p) \<and> sorted (map span_key (durable_operations p))"
  by (simp add: durable_operations_def collect_program_def collect_loop_facts stack_facts_map program_facts_def)

end
