(* ===== verification/Lsp_Position.thy ===== *)
theory Lsp_Position
  imports Diagnostics
begin

text \<open>
  Positions of the language server (\<open>krit-lsp/src/position.rs\<close>): byte offsets of a document as zero-based lines and
  UTF-16 columns, and back.  A slice of the text that would split a character panics, which is \<open>None\<close>.
\<close>

section \<open>The line index\<close>

record lsp_position =
  lp_line :: nat
  lp_character :: nat

definition as_u32 :: "nat \<Rightarrow> nat" where
  "as_u32 n = n mod 2 ^ 32"

definition line_index_new :: "str \<Rightarrow> nat list" where
  "line_index_new t = 0 # map Suc (filter (\<lambda>i. t ! i = CHR 0x0A) [0..<length t])"

text \<open>\<open>char::len_utf16\<close>: two units for the characters of four bytes.\<close>

definition len_utf16 :: "str \<Rightarrow> nat" where
  "len_utf16 c = (if length c = 4 then 2 else 1)"

definition checked_slice :: "str \<Rightarrow> nat \<Rightarrow> nat \<Rightarrow> str option" where
  "checked_slice t i j =
     (if i \<le> j \<and> j \<le> length t \<and> is_char_boundary t i \<and> is_char_boundary t j then Some (drop i (take j t)) else None)"

primrec floor_boundary :: "str \<Rightarrow> nat \<Rightarrow> nat" where
  "floor_boundary t 0 = 0"
| "floor_boundary t (Suc n) = (if is_char_boundary t (Suc n) then Suc n else floor_boundary t n)"

definition lsp_position_of :: "nat list \<Rightarrow> str \<Rightarrow> nat \<Rightarrow> lsp_position option" where
  "lsp_position_of starts t n =
     (let b = floor_boundary t (min n (length t));
          line = length (takeWhile (\<lambda>start. start \<le> b) starts) - 1 in
      map_option
        (\<lambda>slice. \<lparr>lp_line = as_u32 line, lp_character = as_u32 (sum_list (map len_utf16 (chars slice)))\<rparr>)
        (checked_slice t (starts ! line) b))"

definition line_content_end :: "nat list \<Rightarrow> str \<Rightarrow> nat \<Rightarrow> nat" where
  "line_content_end starts t line =
     (if line + 1 < length starts then
        (let stop = starts ! (line + 1) in
         if 0 < stop \<and> t ! (stop - 1) = CHR 0x0A then
           (if 0 < stop - 1 \<and> t ! (stop - 2) = CHR 0x0D then stop - 2 else stop - 1)
         else stop)
      else length t)"

fun offset_loop :: "nat \<Rightarrow> nat \<Rightarrow> str list \<Rightarrow> nat \<Rightarrow> nat \<Rightarrow> nat \<Rightarrow> (str, nat) result" where
  "offset_loop target stop [] start relative utf16 = Inr stop"
| "offset_loop target stop (c # cs) start relative utf16 =
     (if utf16 = target then Inr (start + relative)
      else if target < utf16 + len_utf16 c then
        Inl (''UTF-16 character '' @ show_nat target @ '' splits a surrogate pair'')
      else offset_loop target stop cs start (relative + length c) (utf16 + len_utf16 c))"

definition lsp_offset :: "nat list \<Rightarrow> str \<Rightarrow> lsp_position \<Rightarrow> (str, nat) result option" where
  "lsp_offset starts t p =
     (if lp_line p < length starts then
        (let start = starts ! lp_line p; stop = line_content_end starts t (lp_line p) in
         map_option (\<lambda>slice. offset_loop (lp_character p) stop (chars slice) start 0 0) (checked_slice t start stop))
      else Some (Inl (''line '' @ show_nat (lp_line p) @ '' is outside the document'')))"

definition lsp_range :: "nat list \<Rightarrow> str \<Rightarrow> span \<Rightarrow> (lsp_position \<times> lsp_position) option" where
  "lsp_range starts t s =
     (case (lsp_position_of starts t (span_start s), lsp_position_of starts t (span_end s)) of
        (Some a, Some b) \<Rightarrow> Some (a, b)
      | _ \<Rightarrow> None)"

definition lsp_full_range :: "nat list \<Rightarrow> str \<Rightarrow> (lsp_position \<times> lsp_position) option" where
  "lsp_full_range starts t = lsp_range starts t (span_new 0 (length t))"

section \<open>Characters and lines\<close>

lemma line_index_starts: "line_index_new t = starts_of t"
  by (simp add: line_index_new_def starts_of_def)

definition utf16_len :: "nat list \<Rightarrow> nat" where
  "utf16_len cs = (\<Sum>n \<leftarrow> cs. if n < 0x10000 then 1 else 2)"

lemma len_utf16_utf8: "len_utf16 (utf8_char n) = (if n < 0x10000 then 1 else 2)"
  by (simp add: len_utf16_def utf8_char_def)

lemma sum_len_utf16: "list_all is_scalar cs \<Longrightarrow> sum_list (map len_utf16 (chars (utf8 cs))) = utf16_len cs"
  by (simp add: chars_utf8 utf16_len_def comp_def len_utf16_utf8)

lemma utf16_len_le: "utf16_len cs \<le> length (utf8 cs)"
proof (induction cs)
  case (Cons n cs)
  have "(if n < 0x10000 then 1 else 2) \<le> length (utf8_char n)" by (simp add: utf8_char_def)
  then show ?case using Cons by (simp add: utf16_len_def utf8_simps)
qed (simp add: utf16_len_def)

lemma utf8_char_tl: "(\<And>m. P (char_of (0x80 + m mod 64 :: nat))) \<Longrightarrow> list_all P (tl (utf8_char n))"
  by (simp add: utf8_char_def)

lemma continuation_byte:
  assumes "Suc i < length (utf8_char n)"
  shows "0x80 \<le> (of_char (utf8_char n ! Suc i) :: nat) \<and> (of_char (utf8_char n ! Suc i) :: nat) < 0xC0"
proof -
  have "0x80 \<le> (of_char (char_of (0x80 + m mod 64 :: nat)) :: nat) \<and> (of_char (char_of (0x80 + m mod 64 :: nat)) :: nat) < 0xC0" for m
  proof -
    have "m mod 64 < 64" by simp
    then show ?thesis by (simp add: of_char_of)
  qed
  then have "list_all (\<lambda>b. 0x80 \<le> (of_char b :: nat) \<and> (of_char b :: nat) < 0xC0) (tl (utf8_char n))"
    by (rule utf8_char_tl)
  then show ?thesis using assms by (simp add: list_all_length nth_tl)
qed

lemma floor_boundary_here: "is_char_boundary t i \<Longrightarrow> floor_boundary t i = i"
  by (cases i) simp_all

lemma floor_boundary_in:
  assumes "list_all is_scalar (xs @ n # ys)" "i < length (utf8_char n)"
  shows "floor_boundary (utf8 (xs @ n # ys)) (length (utf8 xs) + i) = length (utf8 xs)"
  using assms(2)
proof (induction i)
  case 0
  then show ?case using boundary_utf8 [of "n # ys" xs] assms(1) by (simp add: floor_boundary_here)
next
  case (Suc i)
  have "utf8 (xs @ n # ys) ! (length (utf8 xs) + Suc i) = utf8_char n ! Suc i"
    using Suc.prems by (simp add: utf8_simps nth_append)
  then have "\<not> is_char_boundary (utf8 (xs @ n # ys)) (length (utf8 xs) + Suc i)"
    using continuation_byte [of i n] assms(1) Suc.prems by (simp add: is_char_boundary_def Let_def utf8_simps)
  then show ?case using Suc by simp
qed

lemma floor_boundary_utf8:
  assumes "list_all is_scalar (xs @ ys)" "length (utf8 xs) \<le> n" "ys = [] \<or> n < length (utf8 (xs @ take 1 ys))"
  shows "floor_boundary (utf8 (xs @ ys)) (min n (length (utf8 (xs @ ys)))) = length (utf8 xs)"
proof (cases ys)
  case Nil
  then show ?thesis using assms boundary_utf8 [of "[]" xs] by (simp add: floor_boundary_here)
next
  case (Cons c cs)
  then show ?thesis using assms floor_boundary_in [of xs c cs "n - length (utf8 xs)"] by (simp add: utf8_simps min_def)
qed

lemma starts_of_split: "starts_of (s @ r) = starts_of s @ map (\<lambda>i. length s + i) (tl (starts_of r))"
proof (induction r rule: rev_induct)
  case (snoc b r)
  then show ?case
    using starts_of_snoc [of "s @ r" b] starts_of_snoc [of r b] starts_of_not_Nil [of r] by (simp add: tl_append split: list.splits)
qed (simp add: starts_of_def)

lemma starts_of_no_line_feed: "CHR 0x0A \<notin> set v \<Longrightarrow> starts_of v = [0]"
  by (auto simp: starts_of_def filter_empty_conv in_set_conv_nth)

lemma starts_of_plain: "CHR 0x0A \<notin> set v \<Longrightarrow> starts_of (s @ v) = starts_of s"
  by (simp add: starts_of_split starts_of_no_line_feed)

lemma starts_of_ended: "a = [] \<or> last a = CHR 0x0A \<Longrightarrow> last (starts_of a) = length a"
proof (cases a rule: rev_cases)
  case (snoc a' b)
  moreover assume "a = [] \<or> last a = CHR 0x0A"
  ultimately show ?thesis by (simp add: starts_of_snoc)
qed (simp add: starts_of_def)

text \<open>
  A text at a place in it: whole lines, the line up to the place, the rest of that line, and nothing or a line feed and
  what follows it.
\<close>

definition at_place :: "char list \<Rightarrow> char list \<Rightarrow> char list \<Rightarrow> char list \<Rightarrow> bool" where
  "at_place a l v rest \<longleftrightarrow>
     (a = [] \<or> last a = CHR 0x0A) \<and> CHR 0x0A \<notin> set l \<and> CHR 0x0A \<notin> set v \<and> (rest = [] \<or> hd rest = CHR 0x0A)"

lemma line_start:
  assumes "at_place a l v rest"
  shows "starts_of (a @ l @ v @ rest) ! (length (starts_of (a @ l)) - 1) = length a"
proof -
  have "starts_of (a @ l) = starts_of a" "last (starts_of a) = length a"
    using assms by (simp_all add: at_place_def starts_of_plain starts_of_ended)
  moreover have "starts_of (a @ l @ v @ rest) ! (length (starts_of (a @ l)) - 1) = last (starts_of (a @ l))"
    using starts_of_split [of "a @ l" "v @ rest"] starts_of_not_Nil [of "a @ l"] by (simp add: nth_append last_conv_nth)
  ultimately show ?thesis by simp
qed

lemma line_next:
  assumes "at_place a l v (CHR 0x0A # w)"
  shows "length (starts_of (a @ l)) < length (starts_of (a @ l @ v @ CHR 0x0A # w))"
    "starts_of (a @ l @ v @ CHR 0x0A # w) ! length (starts_of (a @ l)) = Suc (length (a @ l @ v))"
proof -
  have "starts_of ((a @ l @ v) @ [CHR 0x0A]) = starts_of (a @ l) @ [Suc (length (a @ l @ v))]"
    using assms starts_of_plain [of v "a @ l"] by (subst starts_of_snoc) (simp add: at_place_def)
  then have "starts_of (a @ l @ v @ CHR 0x0A # w) =
      starts_of (a @ l) @ Suc (length (a @ l @ v)) # map (\<lambda>i. Suc (length (a @ l @ v)) + i) (tl (starts_of w))"
    using starts_of_split [of "(a @ l @ v) @ [CHR 0x0A]" w] by simp
  then show "length (starts_of (a @ l)) < length (starts_of (a @ l @ v @ CHR 0x0A # w))"
    "starts_of (a @ l @ v @ CHR 0x0A # w) ! length (starts_of (a @ l)) = Suc (length (a @ l @ v))"
    by simp_all
qed

lemma line_end:
  assumes "at_place a l v rest"
  shows "line_content_end (starts_of (a @ l @ v @ rest)) (a @ l @ v @ rest) (length (starts_of (a @ l)) - 1) =
     length (a @ l @ v) - (if rest \<noteq> [] \<and> l @ v \<noteq> [] \<and> last (l @ v) = CHR 0x0D then 1 else 0)"
proof (cases rest)
  case Nil
  then have "starts_of (a @ l @ v @ rest) = starts_of (a @ l)"
    using assms starts_of_plain [of v "a @ l"] by (simp add: at_place_def)
  then show ?thesis using Nil starts_of_not_Nil [of "a @ l"] by (simp add: line_content_end_def)
next
  case (Cons b w)
  then have b: "rest = CHR 0x0A # w" using assms by (simp add: at_place_def)
  have line: "length (starts_of (a @ l)) - 1 + 1 = length (starts_of (a @ l))" using starts_of_not_Nil [of "a @ l"] by simp
  let ?s = "a @ l @ v"
  have feed: "(?s @ CHR 0x0A # w) ! length ?s = CHR 0x0A" by (rule nth_append_length)
  have prev: "0 < length ?s \<and> (?s @ CHR 0x0A # w) ! (length ?s - 1) = CHR 0x0D \<longleftrightarrow>
      l @ v \<noteq> [] \<and> last (l @ v) = CHR 0x0D"
  proof (cases "l @ v = []")
    case True
    then show ?thesis using assms by (cases a rule: rev_cases) (auto simp: at_place_def)
  next
    case False
    then have "(?s @ CHR 0x0A # w) ! (length ?s - 1) = last ?s" by (subst nth_append) (simp add: last_conv_nth)
    then show ?thesis using False by (auto simp: last_append)
  qed
  have "line_content_end (starts_of (?s @ CHR 0x0A # w)) (?s @ CHR 0x0A # w) (length (starts_of (a @ l)) - 1) =
      (if 0 < length ?s \<and> (?s @ CHR 0x0A # w) ! (length ?s - 1) = CHR 0x0D then length ?s - 1 else length ?s)"
    using line_next [of a l v w] assms feed
    unfolding line_content_end_def line b by (simp add: diff_Suc split: nat.splits)
  then show ?thesis unfolding prev b by simp
qed

lemma offset_loop_found:
  "q \<noteq> [] \<Longrightarrow> offset_loop (k + utf16_len ps) stop (map utf8_char (ps @ q)) start relative k =
     Inr (start + relative + length (utf8 ps))"
proof (induction ps arbitrary: k relative)
  case Nil
  then show ?case by (cases q) (simp_all add: utf16_len_def utf8_simps)
next
  case (Cons n ps)
  then have "offset_loop (k + len_utf16 (utf8_char n) + utf16_len ps) stop (map utf8_char (ps @ q)) start
      (relative + length (utf8_char n)) (k + len_utf16 (utf8_char n)) = Inr (start + (relative + length (utf8_char n)) + length (utf8 ps))"
    by blast
  then show ?case by (simp add: utf16_len_def len_utf16_utf8 utf8_simps add.assoc split: if_splits)
qed

lemma offset_loop_past:
  "k + utf16_len ps \<le> target \<Longrightarrow> offset_loop target stop (map utf8_char ps) start relative k = Inr stop"
proof (induction ps arbitrary: k relative)
  case (Cons n ps)
  then have "offset_loop target stop (map utf8_char ps) start (relative + length (utf8_char n)) (k + len_utf16 (utf8_char n)) = Inr stop"
    by (intro Cons.IH) (simp add: utf16_len_def len_utf16_utf8 split: if_splits)
  then show ?case using Cons.prems by (auto simp: utf16_len_def len_utf16_utf8 split: if_splits)
qed simp

section \<open>The round trip\<close>

lemma utf8_char_return: "is_scalar n \<Longrightarrow> last (utf8_char n) = CHR 0x0D \<longleftrightarrow> n = 13"
proof (cases "n < 0x80")
  case True
  then show ?thesis using char_of_eq_iff [of n "CHR 0x0D"] by (auto simp: utf8_char_def take_bit_eq_mod)
next
  case False
  assume "is_scalar n"
  then have "list_all (\<lambda>b. 0x80 \<le> (of_char b :: nat)) (utf8_char n)" using False utf8_char_bytes by simp
  then have "0x80 \<le> (of_char (last (utf8_char n)) :: nat)" by (simp add: list_all_iff)
  then show ?thesis using False by auto
qed

lemma last_return: "list_all is_scalar cs \<Longrightarrow> cs \<noteq> [] \<Longrightarrow> last (utf8 cs) = CHR 0x0D \<longleftrightarrow> last cs = 13"
  using utf8_char_return by (cases cs rule: rev_cases) (auto simp: utf8_simps)

lemma utf8_empty [simp]: "utf8 cs = [] \<longleftrightarrow> cs = []"
  by (cases cs) (simp_all add: utf8_simps)

lemma line_feed_utf8: "list_all is_scalar cs \<Longrightarrow> CHR 0x0A \<in> set (utf8 cs) \<longleftrightarrow> 10 \<in> set cs"
  using utf8_char_line_feed by (fastforce simp: utf8_def list_all_iff)

lemma utf8_char_feed: "utf8_char 10 = [CHR 0x0A]" "utf8_char 13 = [CHR 0x0D]"
  by (simp_all add: utf8_char_def char_of_def bit_0)

lemma at_place_utf8:
  assumes "list_all is_scalar (as @ ls @ ms @ rs)" "as = [] \<or> last as = 10" "10 \<notin> set ls" "10 \<notin> set ms"
    "rs = [] \<or> hd rs = 10"
  shows "at_place (utf8 as) (utf8 ls) (utf8 ms) (utf8 rs)"
proof -
  have "as = [] \<or> last (utf8 as) = CHR 0x0A"
    using assms(2) by (cases as rule: rev_cases) (auto simp: utf8_simps utf8_char_feed)
  moreover have "rs = [] \<or> hd (utf8 rs) = CHR 0x0A"
    using assms(5) by (cases rs) (auto simp: utf8_simps utf8_char_feed)
  ultimately show ?thesis using assms(1,3,4) by (auto simp: at_place_def line_feed_utf8)
qed

lemma checked_slice_utf8:
  assumes "list_all is_scalar (xs @ ys @ zs)"
  shows "checked_slice (utf8 (xs @ ys @ zs)) (length (utf8 xs)) (length (utf8 (xs @ ys))) = Some (utf8 ys)"
  using boundary_utf8 [of "ys @ zs" xs] boundary_utf8 [of zs "xs @ ys"] assms
  by (simp add: checked_slice_def utf8_simps)

lemma lsp_position_at:
  assumes "list_all is_scalar (as @ ls @ ms @ rs)" "at_place (utf8 as) (utf8 ls) (utf8 ms) (utf8 rs)"
    "floor_boundary (utf8 (as @ ls @ ms @ rs)) (min n (length (utf8 (as @ ls @ ms @ rs)))) = length (utf8 (as @ ls))"
  shows "lsp_position_of (starts_of (utf8 (as @ ls @ ms @ rs))) (utf8 (as @ ls @ ms @ rs)) n =
     Some \<lparr>lp_line = as_u32 (length (starts_of (utf8 (as @ ls))) - 1), lp_character = as_u32 (utf16_len ls)\<rparr>"
proof -
  have "takeWhile (\<lambda>start. start \<le> length (utf8 (as @ ls))) (starts_of (utf8 (as @ ls @ ms @ rs))) = starts_of (utf8 (as @ ls))"
    using takeWhile_starts [of "utf8 (as @ ls)" "utf8 (ms @ rs)"] by (simp add: utf8_simps)
  then show ?thesis
    using line_start [OF assms(2)] checked_slice_utf8 [of as ls "ms @ rs"] assms(1,3) sum_len_utf16 [of ls]
    by (simp add: lsp_position_of_def Let_def utf8_simps)
qed

lemma strip_last: "(c \<Longrightarrow> u \<noteq> [] \<and> last u = x) \<Longrightarrow> k = (if c then butlast u else u) \<Longrightarrow> u = (if c then k @ [x] else k)"
  by (cases u rule: rev_cases) auto

lemma lsp_offset_at:
  assumes "list_all is_scalar (as @ ls @ ms @ rs)" "at_place (utf8 as) (utf8 ls) (utf8 ms) (utf8 rs)"
  shows "lsp_offset (starts_of (utf8 (as @ ls @ ms @ rs))) (utf8 (as @ ls @ ms @ rs))
      \<lparr>lp_line = length (starts_of (utf8 (as @ ls))) - 1, lp_character = utf16_len ls\<rparr> =
    Some (Inr (length (utf8 (as @ ls)) - (if ls \<noteq> [] \<and> last ls = 13 \<and> ms = [] \<and> rs \<noteq> [] then 1 else 0)))"
proof -
  let ?t = "utf8 (as @ ls @ ms @ rs)" and ?line = "length (starts_of (utf8 (as @ ls))) - 1"
  let ?cr = "rs \<noteq> [] \<and> ls @ ms \<noteq> [] \<and> last (ls @ ms) = 13"
  define ks where "ks = (if ?cr then butlast (ls @ ms) else ls @ ms)"
  have ks: "ls @ ms = (if ?cr then ks @ [13] else ks)" 
    by (rule strip_last [OF _ ks_def]) blast
  have "?line < length (starts_of ?t)"
    by (simp add: starts_of_count utf8_simps)
  moreover have cr: "utf8 rs \<noteq> [] \<and> utf8 ls @ utf8 ms \<noteq> [] \<and> last (utf8 ls @ utf8 ms) = CHR 0x0D \<longleftrightarrow> ?cr"
    using last_return [of "ls @ ms"] assms(1) by (auto simp: utf8_simps)
  have "line_content_end (starts_of ?t) ?t ?line = length (utf8 (as @ ls @ ms)) - (if ?cr then 1 else 0)"
    using line_end [OF assms(2)] unfolding cr by (simp add: utf8_simps)
  then have stop: "line_content_end (starts_of ?t) ?t ?line = length (utf8 (as @ ks))"
    using arg_cong [OF ks, of "\<lambda>u. length (utf8 u)"] by (simp add: utf8_simps utf8_char_feed split: if_splits)
  moreover obtain zs where zs: "as @ ls @ ms @ rs = as @ ks @ zs" using ks by (metis append.assoc)
  then have "list_all is_scalar (as @ ks @ zs)" using assms(1) by simp
  note slice = checked_slice_utf8 [OF this] and ks_scalar = this
  have bytes: "chars (utf8 ks) = map utf8_char ks" using ks_scalar by (simp add: chars_utf8)
  moreover have "starts_of ?t ! ?line = length (utf8 as)" using line_start [OF assms(2)] by (simp add: utf8_simps)
  ultimately have "lsp_offset (starts_of ?t) ?t \<lparr>lp_line = ?line, lp_character = utf16_len ls\<rparr> =
      Some (offset_loop (utf16_len ls) (length (utf8 (as @ ks))) (map utf8_char ks) (length (utf8 as)) 0 0)"
    unfolding lsp_offset_def Let_def zs [symmetric] using slice [folded zs] bytes by simp
  moreover have "offset_loop (utf16_len ls) (length (utf8 (as @ ks))) (map utf8_char ks) (length (utf8 as)) 0 0 =
      Inr (length (utf8 (as @ ls)) - (if ls \<noteq> [] \<and> last ls = 13 \<and> ms = [] \<and> rs \<noteq> [] then 1 else 0))"
  proof (cases "ms = [] \<or> ks = ls")
    case True
    then have le: "utf16_len ks \<le> utf16_len ls" using ks by (auto simp: utf16_len_def split: if_splits)
    then show ?thesis
      using True ks offset_loop_past [of 0 ks "utf16_len ls" "length (utf8 (as @ ks))" "length (utf8 as)" 0]
      by (auto simp: utf8_simps utf8_char_feed split: if_splits)
  next
    case False
    then obtain q where "ks = ls @ q" "q \<noteq> []"
      using ks by (auto split: if_splits) (metis append_self_conv butlast_append ks_def)
    then show ?thesis using False offset_loop_found [of q 0 ls] by (simp add: utf8_simps)
  qed
  ultimately show ?thesis by simp
qed

text \<open>
  C23: the position of a byte, clamped into the document and to the start of its character, counts the line feeds
  before it and the UTF-16 units since the last of them, and the offset of that position is the same place, except
  between the two bytes of a line ending CR LF, which is taken to its start.
\<close>

theorem lsp_position_roundtrip:
  assumes "list_all is_scalar (xs @ ys)" "length (utf8 (xs @ ys)) < 2 ^ 32"
    and "length (utf8 xs) \<le> n" "ys = [] \<or> n < length (utf8 (xs @ take 1 ys))"
  shows "\<exists>p. lsp_position_of (line_index_new (utf8 (xs @ ys))) (utf8 (xs @ ys)) n = Some p \<and>
     lp_line p = count_list xs 10 \<and> lp_character p = utf16_len (rev (takeWhile (\<lambda>c. c \<noteq> 10) (rev xs))) \<and>
     lsp_offset (line_index_new (utf8 (xs @ ys))) (utf8 (xs @ ys)) p =
       Some (Inr (length (utf8 xs) - (if xs \<noteq> [] \<and> last xs = 13 \<and> ys \<noteq> [] \<and> hd ys = 10 then 1 else 0)))"
proof -
  define as ls where "as = rev (dropWhile (\<lambda>c. c \<noteq> 10) (rev xs))" and "ls = rev (takeWhile (\<lambda>c. c \<noteq> 10) (rev xs))"
  define ms rs where "ms = takeWhile (\<lambda>c. c \<noteq> 10) ys" and "rs = dropWhile (\<lambda>c. c \<noteq> 10) ys"
  have xs: "xs = as @ ls" and ys: "ys = ms @ rs"
    by (simp_all add: as_def ls_def ms_def rs_def flip: rev_append)
  have as: "as = [] \<or> last as = 10" using hd_dropWhile [of "\<lambda>c. c \<noteq> 10" "rev xs"] by (auto simp: as_def last_rev)
  have ls: "10 \<notin> set ls" "10 \<notin> set ms" by (auto simp: ls_def ms_def dest: set_takeWhileD)
  have rs: "rs = [] \<or> hd rs = 10" using hd_dropWhile [of "\<lambda>c. c \<noteq> 10" ys] by (auto simp: rs_def)
  have sc: "list_all is_scalar (as @ ls @ ms @ rs)" using assms(1) by (simp add: xs ys)
  note place = at_place_utf8 [OF sc as ls rs]
  have line: "length (starts_of (utf8 xs)) - 1 = count_list xs 10"
    using assms(1) by (simp add: starts_of_count count_utf8)
  have "count_list xs 10 \<le> length (utf8 xs)"
    using count_le_length [of "utf8 xs" "CHR 0x0A"] sc by (simp add: count_utf8 xs)
  then have small: "count_list xs 10 < 2 ^ 32" "utf16_len ls < 2 ^ 32"
    using assms(2) utf16_len_le [of ls] by (simp_all add: xs utf8_simps)
  have floor: "floor_boundary (utf8 (as @ ls @ ms @ rs)) (min n (length (utf8 (as @ ls @ ms @ rs)))) = length (utf8 (as @ ls))"
    using floor_boundary_utf8 [OF assms(1,3,4)] by (simp add: xs ys)
  have cr: "ls \<noteq> [] \<and> last ls = 13 \<and> ms = [] \<and> rs \<noteq> [] \<longleftrightarrow> xs \<noteq> [] \<and> last xs = 13 \<and> ys \<noteq> [] \<and> hd ys = 10"
    using as ls(1) rs hd_in_set [of ms] ls(2) by (cases ms) (auto simp: xs ys last_append)
  have t: "as @ ls @ ms @ rs = xs @ ys" by (simp add: xs ys)
  have l: "rev (takeWhile (\<lambda>c. c \<noteq> 10) (rev xs)) = ls" by (simp only: ls_def)
  show ?thesis
    using lsp_position_at [OF sc place floor] lsp_offset_at [OF sc place] small
    unfolding line cr t l xs [symmetric] line_index_starts by (simp add: as_u32_def)
qed

theorem lsp_position_roundtrip_witness:
  "\<exists>p. lsp_position_of (line_index_new (utf8 ([10, 0x61] @ [0x1F916, 0x62]))) (utf8 ([10, 0x61] @ [0x1F916, 0x62])) 4 = Some p \<and>
     lp_line p = 1 \<and> lp_character p = 1 \<and>
     lsp_offset (line_index_new (utf8 ([10, 0x61] @ [0x1F916, 0x62]))) (utf8 ([10, 0x61] @ [0x1F916, 0x62])) p =
       Some (Inr (Suc (Suc 0)))"
  using lsp_position_roundtrip [of "[10, 0x61]" "[0x1F916, 0x62]" 4]
  by (simp add: is_scalar_def utf8_eval utf16_len_def)

end
