(* ===== verification/Spec2Isabelle.thy ===== *)
theory Spec2Isabelle
  imports Capability Cache_Laws Evaluator_Laws Match_Laws Lexer_Roundtrip Diagnostics Frontend Type_Inference Host_Policy_Laws Durable Lsp_Position
begin

text \<open>
  A model of the Krit language and of the pure parts of its host (\<open>src/crates\<close>), with the theorems that
  make them correct.

  \<^bold>\<open>The program.\<close>  A Krit program is text that the \<open>krit\<close> crate lexes, parses, analyses and evaluates (or
  compiles to WebAssembly).  At run time it calls built-ins of the host: it builds request targets that
  \<open>krit-capability\<close> checks before anything is sent, and it reads and writes the bounded cache of
  \<open>krit-cache\<close>.  Analysis rejects a \<open>match\<close> unless its arms are disjoint and exhaustive
  (\<open>krit/src/patterns.rs\<close>), and the evaluator relies on that to select arms in any order.

  \<^bold>\<open>The theories.\<close>
  \<^item> \<open>Krit_Prelude\<close>: bytes, UTF-8, 64-bit saturating and checked arithmetic, splitting, and the
    collection \<open>krit_eval\<close> that evaluates them.  A Rust \<open>str\<close> is the list of its bytes.
  \<^item> \<open>Ordered_Map\<close>: \<open>BTreeMap\<close> and \<open>HashMap\<close> as sorted association lists, with the locale \<open>ordered_map\<close>
    of the laws their clients use, interpreted on these lists.
  \<^item> \<open>Request_Target\<close>, \<open>Capability\<close>: the host's path and query rules, the builders, resource names and
    HTTP origins (\<open>krit-capability\<close>).  \<open>Url::parse\<close> is a parameter.
  \<^item> \<open>Cache\<close>: configuration and store of \<open>krit-cache\<close>.  Every operation returns the new cache and its
    result, so what an operation changed before an early return stays changed, as in the source.
    \<open>Cache_Invariant\<close> (the indexes, counters and budgets agree), \<open>Cache_Correct\<close> (each operation keeps the
    invariant: the locale \<open>cache_operation\<close>), \<open>Cache_Laws\<close> (interpretations, runs, properties).
  \<^item> \<open>Krit_Ast\<close>: syntax tree, spans, diagnostics (\<open>ast.rs\<close>, \<open>source.rs\<close>, \<open>diagnostic.rs\<close>).
  \<^item> \<open>Source_Text\<close>, \<open>Diagnostics\<close>: characters of a text, line and column positions, and the human and JSON
    rendering of diagnostics (\<open>source.rs\<close>, \<open>diagnostic.rs\<close>).
  \<^item> \<open>Lexer\<close>: the whole of \<open>lexer.rs\<close> and \<open>token.rs\<close>; each scanning loop is a function that moves the cursor on.
    \<open>Lexer_Laws\<close> shows that tokens lie in the text in order and are spelled by it; \<open>Canonical_Tokens\<close> is the
    spelling the formatter writes (\<open>formatter.rs\<close>) and \<open>Lexer_Roundtrip\<close> that lexing it gives the tokens back.
  \<^item> \<open>Suggestions\<close>, \<open>Habits\<close>: did-you-mean names, the field check of named constructions and the hints for
    constructs of other languages (\<open>habits.rs\<close>, \<open>analysis.rs\<close>).
  \<^item> \<open>Parser\<close>: the whole of \<open>parser.rs\<close> with the limits of \<open>limits.rs\<close>.  A parsing function takes the parser and
    returns its result with the parser moved on, or stops: with a diagnostic, a panic of the source or no fuel.
    \<open>Parser_Rules\<close> has the weakest preconditions of the primitives and of comma-separated lists, \<open>Parser_Safety\<close>
    those of names, types, patterns and chains, \<open>Parser_Trees\<close> those of the primary expressions and
    \<open>Parser_Programs\<close> those of statements, blocks and programs; together they show that nothing panics, that the
    fuel is enough and how deep the trees are.  \<open>Frontend\<close> composes lexer and parser (\<open>parse_source\<close>).
  \<^item> \<open>Patterns\<close>, \<open>Pattern_Rules\<close>: the arm checks of \<open>patterns.rs\<close> and what they decide.
  \<^item> \<open>Inference\<close>: the type solver of \<open>analysis.rs\<close>: type variables as a union-find forest with bindings,
    unification, the cached heights that bound types, field requirements, effect sets and the printing of types.
    \<open>Inference_Heights\<close> has the invariant of the solver and that binding, aliasing and refreshing keep it,
    \<open>Inference_Search\<close> that the searches through types are exact, \<open>Inference_Finite\<close> that unification keeps the
    invariant and touches only what its types reach, and \<open>Type_Inference\<close> the reachable solvers and their
    properties: types are finite, nothing panics, effects are what the called functions do.
  \<^item> \<open>Values\<close>, \<open>Operations\<close>, \<open>Evaluator\<close>: \<open>evaluator.rs\<close>.  The output writer, serde_json's text conversion and
    the \<open>Debug\<close> form of strings are the record \<open>host\<close>, a parameter.  A diagnostic is \<open>Failed\<close>, an early exit
    \<open>Exited\<close>, and every \<open>unreachable!\<close> and \<open>expect\<close> of the source is \<open>Panicked\<close>.
    \<open>Value_Equality\<close>, \<open>Evaluator_Invariant\<close>, \<open>Evaluator_Safety\<close>, \<open>Evaluator_Laws\<close> and \<open>Match_Laws\<close> hold the
    theorems.

  \<^item> \<open>Durable\<close>: the durable calls of a program (\<open>durable.rs\<close>): the collection with a work stack, the recursive
    reading of the tree it is compared with, and that both find the same calls.
  \<^item> \<open>Package_Manifest\<close>: the manifest of a package with its checks, its permission plan and its grants
    (\<open>krit-package\<close>).  \<open>Permissions\<close>: the grants of the runtime and its decisions on artifacts and on secrets
    (\<open>krit-runtime/src/permissions.rs\<close>), with the locale \<open>authority\<close> of what both sides promise, interpreted on the
    manifest and on the grants derived from it.  \<open>Runtime_Limits\<close>: the limits of a run and the operations that narrow
    them (\<open>krit-runtime/src/limits.rs\<close>).
  \<^item> \<open>Webhook\<close>, \<open>Host_Policy\<close>: HTTP messages with their checks (\<open>webhook.rs\<close>) and the policy of a host (\<open>policy.rs\<close>):
    approvals, retries, rate limits, request digests and idempotent requests.  \<open>Host_Policy_Laws\<close> shows that the
    hashed bytes determine a request, that the rate limits bound every interval, and what is replayed.  The durable
    store, \<open>blake3\<close>, the \<open>http\<close> crate and serde_json are parameters.
  \<^item> \<open>Lsp_Position\<close>: positions of the language server in UTF-16 units (\<open>krit-lsp/src/position.rs\<close>).

  \<^bold>\<open>Bounds.\<close>  The loops of the parser have as fuel the number of tokens, since each iteration consumes one; the
  recursion of expressions, types and patterns has \<open>MAX_NESTING_DEPTH + 1\<close> levels, since each opens a nesting
  level and the source refuses more; \<open>parse_total\<close> shows that neither runs out.  The searches through types have one level per type variable and the expansion of effects one
  round per dependency, which is enough, as \<open>searches_exact\<close> and \<open>expanded_effects_reachable\<close> show; unification
  has the depth of its recursion as fuel, a parameter of \<open>unify\<close>, and what is shown of it holds for every fuel.
  The evaluator needs no fuel of its own: the source allows \<open>MAX_EVALUATION_DEPTH\<close> nested
  evaluations, and \<open>expression\<close> recurses on how many are still allowed.  The eviction and sweep loops of the
  cache terminate because each iteration removes an entry or counts down.  Cache runs are bounded by
  \<open>u64_max\<close> operations, after which the stamp counter of the source wraps.

  \<^bold>\<open>Not modelled.\<close>  The typing rules of statements and expressions (\<open>analysis.rs\<close> apart from the solver and constructions), the lowering to core and to
  WebAssembly, the layout part of the formatter, the linter, and everything that is I/O around a third-party engine:
  SQLite (\<open>krit-state\<close>), databases, Wasmtime (\<open>krit-runtime\<close> apart from permissions, limits, messages and policy), reading package
  files (\<open>krit-package\<close>), the command line, the language server apart from its positions and
  the assistant.
\<close>

section \<open>Built-ins against the host's rules\<close>

lemma path_segment_check_Empty: "path_segment_check t = Some Empty \<longleftrightarrow> t = []"
  by (auto simp: path_segment_check_def)

lemma utf8_Nil: "utf8 cs = [] \<longleftrightarrow> cs = []"
  by (cases cs) (simp_all add: utf8_def utf8_char_def Let_def)

lemma url_path_segment_string:
  "\<exists>p. url_path_segment (StringV t) s =
         Inr (VariantV (if path_segment_check t = None then VOk else VErr) (Some p)) \<and>
       (path_segment_check t = None \<longrightarrow> vp_value p = StringV (percent_encode t []))"
  by (cases "path_segment_check t")
     (auto simp: url_path_segment_def expect_string_def encode_path_segment_def value_variant_def
        container_depth_def value_depth_def MAX_VALUE_DEPTH_def)

text \<open>C32: The built-in \<open>url_path_segment\<close> never fails on a string, writes nothing, and answers \<open>Ok\<close> with the
  percent-encoded text exactly when the text is not empty and the host's path rule accepts that
  text as a segment; otherwise it answers \<open>Err\<close>.\<close>

theorem url_path_segment_agrees_with_host:
  assumes "list_all is_scalar cs"
  shows "\<exists>p. apply_builtin h UrlPathSegment [StringV (utf8 cs)] s out =
      (out, Inr (VariantV
        (if cs \<noteq> [] \<and> is_origin_form_path (CHR ''/'' # percent_encode (utf8 cs) []) then VOk else VErr)
        (Some p))) \<and>
    (cs \<noteq> [] \<and> is_origin_form_path (CHR ''/'' # percent_encode (utf8 cs) []) \<longrightarrow>
       vp_value p = StringV (percent_encode (utf8 cs) []))"
proof -
  have "cs \<noteq> [] \<and> is_origin_form_path (CHR ''/'' # percent_encode (utf8 cs) []) \<longleftrightarrow>
      path_segment_check (utf8 cs) = None"
    using path_segment_check_iff [OF assms] path_segment_check_Empty [of "utf8 cs"]
    by (auto simp: utf8_Nil)
  then show ?thesis
    using url_path_segment_string [of "utf8 cs" s]
    by (auto simp: apply_builtin_def argument_def lift_def to_flow_def)
qed

theorem url_path_segment_agrees_with_host_witness:
  "\<exists>p. apply_builtin demo_host UrlPathSegment [StringV (utf8 [])] (span_new 0 1) [] =
      ([], Inr (VariantV VErr (Some p)))"
  using url_path_segment_agrees_with_host [of "[]" demo_host "span_new 0 1" "[]"] by simp

end
